(* ===== verification/Prelude.thy ===== *)
theory Prelude
  imports Main "HOL-Library.Word"
begin

text \<open>
  Shared vocabulary of the development: Go strings and byte slices, time, the error values the
  packages return and compare with \<open>errors.Is\<close>, gRPC status codes, UTF-8, and the named
  collections the component theories put their characteristic equations in.

  \<^item> A Go string or byte slice is an Isabelle \<open>string\<close>: a \<open>char\<close> is one byte, so \<open>length\<close> is Go's
    \<open>len\<close>.
  \<^item> \<open>time.Time\<close> and \<open>time.Duration\<close> are nanosecond counts in \<open>int\<close>; a function that reads the
    clock takes each reading as an argument.
  \<^item> \<open>ctx.Err()\<close> is read from the environment, so a function takes each reading as an argument.
\<close>

named_theorems locate_simps \<open>validation of bindings and names\<close>
named_theorems redis_simps \<open>laws of the Redis commands\<close>
named_theorems step_defs \<open>definitions of the atomic steps\<close>

type_synonym bytes = string
type_synonym time = int
type_synonym duration = int

definition nanosecond :: duration where "nanosecond = 1"
definition millisecond :: duration where "millisecond = 1000000"
definition second :: duration where "second = 1000000000"

text \<open>Go's integer division truncates towards zero; \<open>int64\<close> arithmetic wraps around.\<close>

definition go_div :: "int \<Rightarrow> int \<Rightarrow> int" where
  "go_div a b = sgn a * sgn b * (\<bar>a\<bar> div \<bar>b\<bar>)"

definition wrap64 :: "int \<Rightarrow> int" where
  "wrap64 x = (x + 2 ^ 63) mod 2 ^ 64 - 2 ^ 63"

lemma wrap64_id: "- (2 ^ 63) \<le> x \<Longrightarrow> x < 2 ^ 63 \<Longrightarrow> wrap64 x = x"
  by (simp add: wrap64_def)

lemma wrap64_bounds: "- (2 ^ 63) \<le> wrap64 x \<and> wrap64 x < 2 ^ 63"
proof -
  have "0 \<le> (x + 2 ^ 63) mod 2 ^ 64" "(x + 2 ^ 63) mod 2 ^ 64 < 2 ^ 64"
    by (simp_all add: pos_mod_bound)
  then show ?thesis by (simp add: wrap64_def)
qed

lemma go_div_nonneg: "0 \<le> a \<Longrightarrow> 0 < b \<Longrightarrow> go_div a b = a div b"
  by (cases "a = 0") (auto simp: go_div_def)

section \<open>Status codes and errors\<close>

text \<open>The codes of \<open>google.golang.org/grpc/codes\<close>, in their numeric order.\<close>

datatype code =
    OK | Canceled | Unknown | InvalidArgument | DeadlineExceeded | NotFound | AlreadyExists
  | PermissionDenied | ResourceExhausted | FailedPrecondition | Aborted | OutOfRange
  | Unimplemented | Internal | Unavailable | DataLoss | Unauthenticated

fun code_num :: "code \<Rightarrow> int" where
  "code_num OK = 0"
| "code_num Canceled = 1"
| "code_num Unknown = 2"
| "code_num InvalidArgument = 3"
| "code_num DeadlineExceeded = 4"
| "code_num NotFound = 5"
| "code_num AlreadyExists = 6"
| "code_num PermissionDenied = 7"
| "code_num ResourceExhausted = 8"
| "code_num FailedPrecondition = 9"
| "code_num Aborted = 10"
| "code_num OutOfRange = 11"
| "code_num Unimplemented = 12"
| "code_num Internal = 13"
| "code_num Unavailable = 14"
| "code_num DataLoss = 15"
| "code_num Unauthenticated = 16"

lemma code_num_0_iff [simp]: "code_num c = 0 \<longleftrightarrow> c = OK"
  by (cases c) auto

text \<open>
  The package-level error variables that some package compares against, grouped by the package
  that declares them. Their identity is the variable; an \<open>errors.New\<close> or \<open>fmt.Errorf\<close> evaluated
  inside a function makes a value equal to none of them (\<open>Fresh\<close>, or \<open>Wrap\<close> for \<open>%w\<close> and
  \<open>errors.Join\<close>).
\<close>

datatype context_error = CtxCanceled | CtxDeadlineExceeded

datatype locate_error =
    ErrGateNotFound | ErrGateConflict | ErrInvalidGateBinding | ErrInvalidGateTTL | ErrInvalidGateLease
  | ErrNodeNotFound | ErrNodeConflict | ErrInvalidNodeBinding
  | ErrNodeEpochNotFound | ErrNodeEpochConflict | ErrInvalidNodeEpoch | ErrInvalidScriptResult

datatype network_error =
    ErrConnectionClosed | ErrSendQueueFull | ErrFrameTooLarge | ErrFrameLength | ErrInvalidFrame
  | ErrRequestQueueFull | ErrInvalidHandlerReply | ErrNilPayload | ErrInvalidHeartbeatState
  | ErrAuthenticationRejected | ErrNotConnected

datatype io_error = ErrNetClosed | ErrEOF | ErrBufferFull | ErrHttpServerClosed

datatype queue_error = ErrQueueClosed | ErrQueueFull | ErrNilCallback

datatype gateway_error =
    ErrInvalidCredentials | ErrInvalidPush | ErrInvalidKick | ErrConnectionMissing
  | ErrBindingChanged | ErrConnectionBusy | ErrConnectionGone
  | ErrBroadcastUnavailable | ErrBroadcastQueueFull | ErrBackendsClosed

datatype node_error = ErrNodeEpochExpired | ErrNodeStopped | ErrRegistrationLost

datatype endpoint_error = ErrInvalidEndpoint | ErrTransportSecurity | ErrGateUnavailable

datatype event_error = ErrBusClosed | ErrInvalidContext | ErrInvalidTopic | ErrInvalidHandler

datatype other_error =
    ErrSenderClosed | ErrInstanceExists | ErrLeaseNotFound | ErrNoSubConnAvailable
  | ErrVerificationDisabled | ErrCertificateRequired | ErrServerStopped | ErrInvalidURL

datatype goerr =
    CtxErr context_error
  | LocateErr locate_error
  | NetErr network_error
  | IoErr io_error
  | QueueErr queue_error
  | GatewayErr gateway_error
  | NodeErr node_error
  | EndpointErr endpoint_error
  | EventErr event_error
  | OtherErr other_error
  | Status code string
  | Fresh string
  | Wrap string "goerr list"

text \<open>\<open>errors.Is\<close> walks the tree of wrapped errors; the target is always one of the variables.\<close>

fun errors_is :: "goerr \<Rightarrow> goerr \<Rightarrow> bool" where
  "errors_is (Wrap m es) t = list_ex (\<lambda>e. errors_is e t) es"
| "errors_is e t = (e = t)"

text \<open>\<open>errors.Join\<close> drops nil errors and is nil when nothing is left.\<close>

definition errors_join :: "goerr option list \<Rightarrow> goerr option" where
  "errors_join es =
     (case List.map_filter id es of [] \<Rightarrow> None | ds \<Rightarrow> Some (Wrap [] ds))"

text \<open>\<open>status.FromError\<close>: the status an error carries, also below a wrapper.\<close>

fun status_of :: "goerr \<Rightarrow> code option" where
  "status_of (Status c m) = Some c"
| "status_of (Wrap m es) =
     fold (\<lambda>e acc. case acc of None \<Rightarrow> status_of e | Some c \<Rightarrow> Some c) es None"
| "status_of e = None"

text \<open>\<open>status.Code\<close> of a non-nil error.\<close>

definition status_code :: "goerr \<Rightarrow> code" where
  "status_code e = (case status_of e of None \<Rightarrow> Unknown | Some c \<Rightarrow> c)"

lemma errors_join_None [simp]: "errors_join es = None \<longleftrightarrow> (\<forall>e\<in>set es. e = None)"
  by (induction es) (auto simp: errors_join_def List.map_filter_def split: list.splits option.splits)

lemma errors_join_Nil [simp]: "errors_join [] = None"
  by simp

type_synonym 'a result = "goerr + 'a"

abbreviation ctx_canceled :: goerr where "ctx_canceled \<equiv> CtxErr CtxCanceled"
abbreviation ctx_deadline :: goerr where "ctx_deadline \<equiv> CtxErr CtxDeadlineExceeded"

text \<open>
  A \<open>context.Context\<close> is how it was derived. Whether it has ended is read from the environment; what
  a call hands on is which context it hands on.
\<close>

datatype ctx =
    Background
  | Incoming nat
  | WithCancel ctx
  | WithDeadline ctx time
  | WithTimeout ctx duration
  | WithoutCancel ctx
  | WithValue ctx string string

fun ctx_Value :: "ctx \<Rightarrow> string \<Rightarrow> string option" where
  "ctx_Value Background k = None"
| "ctx_Value (Incoming n) k = None"
| "ctx_Value (WithCancel c) k = ctx_Value c k"
| "ctx_Value (WithDeadline c t) k = ctx_Value c k"
| "ctx_Value (WithTimeout c d) k = ctx_Value c k"
| "ctx_Value (WithoutCancel c) k = ctx_Value c k"
| "ctx_Value (WithValue c k' v) k = (if k' = k then Some v else ctx_Value c k)"

section \<open>Strings\<close>

definition byte_of :: "char \<Rightarrow> nat" where "byte_of c = of_char c"

lemma byte_of_less [simp]: "byte_of c < 256"
proof -
  have "of_char c mod 256 = (of_char c :: nat)" by simp
  then have "of_char c < (256 :: nat)" by (metis mod_less_divisor zero_less_numeral)
  then show ?thesis by (simp add: byte_of_def)
qed

lemma byte_of_inject [simp]: "byte_of c = byte_of d \<longleftrightarrow> c = d"
  by (simp add: byte_of_def)

lemma map_byte_of_inject [simp]: "map byte_of s = map byte_of t \<longleftrightarrow> s = t"
  by (rule inj_map_eq_map) (simp add: inj_def)

definition char_of_byte :: "nat \<Rightarrow> char" where "char_of_byte b = char_of b"

lemma byte_of_char_of_byte [simp]: "b < 256 \<Longrightarrow> byte_of (char_of_byte b) = b"
  by (simp add: byte_of_def char_of_byte_def)

lemma char_of_byte_byte_of [simp]: "char_of_byte (byte_of c) = c"
  by (simp add: byte_of_def char_of_byte_def)

text \<open>\<open>strings.HasPrefix\<close>, \<open>HasSuffix\<close>, \<open>Contains\<close> and \<open>ContainsAny\<close> (of ASCII sets).\<close>

fun has_prefix :: "string \<Rightarrow> string \<Rightarrow> bool" where
  "has_prefix s [] = True"
| "has_prefix [] (p # ps) = False"
| "has_prefix (c # s) (p # ps) = (c = p \<and> has_prefix s ps)"

definition has_suffix :: "string \<Rightarrow> string \<Rightarrow> bool" where
  "has_suffix s p = has_prefix (rev s) (rev p)"

fun contains_str :: "string \<Rightarrow> string \<Rightarrow> bool" where
  "contains_str [] p = (p = [])"
| "contains_str (c # s) p = (has_prefix (c # s) p \<or> contains_str s p)"

definition contains_any :: "string \<Rightarrow> string \<Rightarrow> bool" where
  "contains_any s cs = list_ex (\<lambda>c. c \<in> set cs) s"

lemma has_prefix_append_iff: "has_prefix s p \<longleftrightarrow> (\<exists>t. s = p @ t)"
  by (induction s p rule: has_prefix.induct) auto

lemma has_prefix_append [simp]: "has_prefix (p @ t) p"
  by (auto simp: has_prefix_append_iff)

section \<open>UTF-8\<close>

definition utf8_cont :: "nat \<Rightarrow> bool" where
  "utf8_cont b = (0x80 \<le> b \<and> b \<le> 0xBF)"

text \<open>The accept ranges of the second byte in Go's \<open>unicode/utf8\<close>.\<close>

definition utf8_second :: "nat \<Rightarrow> nat \<Rightarrow> bool" where
  "utf8_second b0 b1 =
     (if b0 = 0xE0 then 0xA0 \<le> b1 \<and> b1 \<le> 0xBF
      else if b0 = 0xED then 0x80 \<le> b1 \<and> b1 \<le> 0x9F
      else if b0 = 0xF0 then 0x90 \<le> b1 \<and> b1 \<le> 0xBF
      else if b0 = 0xF4 then 0x80 \<le> b1 \<and> b1 \<le> 0x8F
      else utf8_cont b1)"

text \<open>The rune encoded at the head of a byte sequence, if the head is a valid encoding.\<close>

fun utf8_next :: "nat list \<Rightarrow> (nat \<times> nat list) option" where
  "utf8_next [] = None"
| "utf8_next (b0 # bs) =
     (if b0 < 0x80 then Some (b0, bs)
      else if 0xC2 \<le> b0 \<and> b0 \<le> 0xDF then
        (case bs of b1 # r \<Rightarrow>
           if utf8_cont b1 then Some ((b0 - 0xC0) * 64 + (b1 - 0x80), r) else None
         | _ \<Rightarrow> None)
      else if 0xE0 \<le> b0 \<and> b0 \<le> 0xEF then
        (case bs of b1 # b2 # r \<Rightarrow>
           if utf8_second b0 b1 \<and> utf8_cont b2
           then Some ((b0 - 0xE0) * 4096 + (b1 - 0x80) * 64 + (b2 - 0x80), r) else None
         | _ \<Rightarrow> None)
      else if 0xF0 \<le> b0 \<and> b0 \<le> 0xF4 then
        (case bs of b1 # b2 # b3 # r \<Rightarrow>
           if utf8_second b0 b1 \<and> utf8_cont b2 \<and> utf8_cont b3
           then Some ((b0 - 0xF0) * 262144 + (b1 - 0x80) * 4096 + (b2 - 0x80) * 64 + (b3 - 0x80), r)
           else None
         | _ \<Rightarrow> None)
      else None)"

lemma utf8_next_shorter: "utf8_next bs = Some (r, rest) \<Longrightarrow> length rest < length bs"
  by (cases bs) (auto split: if_splits list.splits)

text \<open>Decoding looks at nothing beyond the bytes it consumes.\<close>

lemma utf8_next_local:
  assumes "utf8_next bs = Some (r, rest)"
  obtains p where "bs = p @ rest" "p \<noteq> []" "\<And>q. utf8_next (p @ q) = Some (r, q)"
proof -
  from assms have "\<exists>p. bs = p @ rest \<and> p \<noteq> [] \<and> (\<forall>q. utf8_next (p @ q) = Some (r, q))"
    by (cases bs; cases "tl bs"; cases "tl (tl bs)"; cases "tl (tl (tl bs))")
      (auto simp: append_eq_Cons_conv Cons_eq_append_conv split: if_splits)
  then show ?thesis using that by blast
qed

text \<open>\<open>utf8.ValidString\<close>.\<close>

function valid_utf8_bytes :: "nat list \<Rightarrow> bool" where
  "valid_utf8_bytes bs =
     (bs = [] \<or> (case utf8_next bs of None \<Rightarrow> False | Some (_, rest) \<Rightarrow> valid_utf8_bytes rest))"
  by pat_completeness auto
termination
  by (relation "measure length") (auto dest: utf8_next_shorter)

declare valid_utf8_bytes.simps [simp del]

definition valid_utf8 :: "string \<Rightarrow> bool" where
  "valid_utf8 s = valid_utf8_bytes (map byte_of s)"

text \<open>The runes a Go \<open>range\<close> over a string yields: an invalid byte is U+FFFD of width one.\<close>

function runes_of :: "nat list \<Rightarrow> nat list" where
  "runes_of bs =
     (case bs of [] \<Rightarrow> []
      | _ # tail \<Rightarrow>
         (case utf8_next bs of None \<Rightarrow> 0xFFFD # runes_of tail
          | Some (r, rest) \<Rightarrow> r # runes_of rest))"
  by pat_completeness auto
termination
  by (relation "measure length") (auto simp del: utf8_next.simps dest: utf8_next_shorter)

declare runes_of.simps [simp del]

definition runes :: "string \<Rightarrow> nat list" where
  "runes s = runes_of (map byte_of s)"

definition is_space :: "nat \<Rightarrow> bool" where
  "is_space r = (r \<in> {9, 10, 11, 12, 13, 32, 0x85, 0xA0, 0x1680, 0x2028, 0x2029, 0x202F, 0x205F, 0x3000}
     \<or> (0x2000 \<le> r \<and> r \<le> 0x200A))"

definition is_control :: "nat \<Rightarrow> bool" where
  "is_control r = (r < 0x20 \<or> (0x7F \<le> r \<and> r < 0xA0))"

lemma valid_utf8_bytes_Nil [simp]: "valid_utf8_bytes []"
  by (subst valid_utf8_bytes.simps) simp

lemma valid_utf8_bytes_ascii [simp]:
  "b < 0x80 \<Longrightarrow> valid_utf8_bytes (b # bs) = valid_utf8_bytes bs"
  by (subst valid_utf8_bytes.simps) simp

lemma valid_utf8_Nil [simp]: "valid_utf8 []"
  by (simp add: valid_utf8_def)

lemma valid_utf8_ascii: "\<forall>c\<in>set s. byte_of c < 128 \<Longrightarrow> valid_utf8 s"
  by (induction s) (auto simp: valid_utf8_def)

lemma runes_of_Nil [simp]: "runes_of [] = []"
  by (subst runes_of.simps) simp

lemma runes_of_ascii [simp]: "b < 0x80 \<Longrightarrow> runes_of (b # bs) = b # runes_of bs"
  by (subst runes_of.simps) simp

lemma runes_ascii: "\<forall>c\<in>set s. byte_of c < 128 \<Longrightarrow> runes s = map byte_of s"
  by (induction s) (auto simp: runes_def)

section \<open>Lists and maps\<close>

lemma list_all_nth: "list_all P xs \<Longrightarrow> i < length xs \<Longrightarrow> P (xs ! i)"
  by (simp add: list_all_iff)

lemma take_Suc_snoc: "i < length xs \<Longrightarrow> take (Suc i) xs = take i xs @ [xs ! i]"
  by (rule take_Suc_conv_app_nth)

end
