(* ===== verification/Locate.thy ===== *)
theory Locate
  imports Prelude
begin

text \<open>
  The vocabulary every service shares: gate bindings and their validation (\<open>locate/locator.go\<close>),
  their wire form (\<open>internal/clusterroute/route.go\<close>) and the sticky declaration of a registry
  record (\<open>instance/metadata.go\<close>).
\<close>

section \<open>Gate bindings\<close>

record GateBinding =
  ServiceName :: string
  UID :: string
  GateID :: string
  GateEndpoint :: string
  ConnID :: string
  BindingToken :: string

text \<open>The zero value \<open>locate.GateBinding{}\<close>.\<close>

definition zeroBinding :: GateBinding where
  "zeroBinding = \<lparr>ServiceName = [], UID = [], GateID = [], GateEndpoint = [], ConnID = [],
     BindingToken = []\<rparr>"

record GateLease =
  Binding :: GateBinding
  TTL :: duration

definition maxUIDBytes :: nat where "maxUIDBytes = 128"

definition ValidUID :: "string \<Rightarrow> bool" where
  "ValidUID uid = (length uid > 0 \<and> length uid \<le> maxUIDBytes \<and> valid_utf8 uid)"

text \<open>One byte of the loop of \<open>ValidServiceName\<close>.\<close>

definition service_char :: "char \<Rightarrow> bool" where
  "service_char c =
     (byte_of CHR ''a'' \<le> byte_of c \<and> byte_of c \<le> byte_of CHR ''z''
      \<or> byte_of CHR ''A'' \<le> byte_of c \<and> byte_of c \<le> byte_of CHR ''Z''
      \<or> byte_of CHR ''0'' \<le> byte_of c \<and> byte_of c \<le> byte_of CHR ''9''
      \<or> c = CHR ''.'' \<or> c = CHR ''_'' \<or> c = CHR ''-'')"

definition ValidServiceName :: "string \<Rightarrow> bool" where
  "ValidServiceName name =
     (if length name = 0 \<or> length name > 128 then False else list_all service_char name)"

definition ValidGateBinding :: "GateBinding \<Rightarrow> bool" where
  "ValidGateBinding b =
     (ValidUID (UID b) \<and> ValidServiceName (ServiceName b) \<and> GateID b \<noteq> [] \<and>
      GateEndpoint b \<noteq> [] \<and> ConnID b \<noteq> [] \<and> BindingToken b \<noteq> [])"

definition ValidNodeLocation :: "string \<Rightarrow> string \<Rightarrow> string \<Rightarrow> bool" where
  "ValidNodeLocation serviceName uid nodeID =
     (ValidUID uid \<and> ValidServiceName serviceName \<and> nodeID \<noteq> [])"

section \<open>Routes of the cluster protocol\<close>

record GateRoute =
  gr_service_name :: string
  gr_uid :: string
  gr_binding_token :: string
  gr_gate_id :: string
  gr_gate_endpoint :: string
  gr_conn_id :: string

definition FromBinding :: "GateBinding \<Rightarrow> GateRoute" where
  "FromBinding b =
     \<lparr>gr_service_name = ServiceName b, gr_uid = UID b, gr_binding_token = BindingToken b,
      gr_gate_id = GateID b, gr_gate_endpoint = GateEndpoint b, gr_conn_id = ConnID b\<rparr>"

text \<open>A nil route converts to the zero binding.\<close>

definition ToBinding :: "GateRoute option \<Rightarrow> GateBinding" where
  "ToBinding route =
     (case route of None \<Rightarrow> zeroBinding
      | Some r \<Rightarrow>
         \<lparr>ServiceName = gr_service_name r, UID = gr_uid r, GateID = gr_gate_id r,
          GateEndpoint = gr_gate_endpoint r, ConnID = gr_conn_id r, BindingToken = gr_binding_token r\<rparr>)"

section \<open>Sticky metadata\<close>

definition StickyMetadataKey :: string where "StickyMetadataKey = ''sticky''"

definition StickyMetadata :: "string \<rightharpoonup> string" where
  "StickyMetadata = [StickyMetadataKey \<mapsto> ''true'']"

definition IsSticky :: "(string \<rightharpoonup> string) \<Rightarrow> bool result" where
  "IsSticky metadata =
     (case metadata StickyMetadataKey of
        None \<Rightarrow> Inr False
      | Some value \<Rightarrow>
          if value = ''true'' then Inr True
          else if value = ''false'' then Inr False
          else Inl (Fresh (''instance: invalid sticky metadata '' @ value)))"

section \<open>Properties\<close>

lemma ValidUID_nonempty [dest]: "ValidUID u \<Longrightarrow> u \<noteq> []"
  by (auto simp: ValidUID_def)

lemma ValidServiceName_nonempty [dest]: "ValidServiceName n \<Longrightarrow> n \<noteq> []"
  by (auto simp: ValidServiceName_def)

lemma not_ValidUID_Nil [simp]: "\<not> ValidUID []"
  by (simp add: ValidUID_def)

lemma not_ValidServiceName_Nil [simp]: "\<not> ValidServiceName []"
  by (simp add: ValidServiceName_def)

lemma zeroBinding_invalid [simp]: "\<not> ValidGateBinding zeroBinding"
  by (simp add: ValidGateBinding_def zeroBinding_def)

lemma zeroBinding_sel [simp]:
  "ServiceName zeroBinding = []" "UID zeroBinding = []" "GateID zeroBinding = []"
  "GateEndpoint zeroBinding = []" "ConnID zeroBinding = []" "BindingToken zeroBinding = []"
  by (simp_all add: zeroBinding_def)

lemma ValidGateBindingD:
  assumes "ValidGateBinding b"
  shows "ValidUID (UID b)" "ValidServiceName (ServiceName b)" "GateID b \<noteq> []"
    "GateEndpoint b \<noteq> []" "ConnID b \<noteq> []" "BindingToken b \<noteq> []"
  using assms by (auto simp: ValidGateBinding_def)

lemma service_char_ascii: "service_char c \<Longrightarrow> byte_of c < 128 \<and> byte_of c \<noteq> 0"
  by (auto simp: service_char_def byte_of_def)

text \<open>A service name holds no NUL byte: the separator of the gate key cannot occur in it.\<close>

lemma ValidServiceName_no_NUL: "ValidServiceName n \<Longrightarrow> CHR 0x00 \<notin> set n"
  using service_char_ascii [of "CHR 0x00"]
  by (auto simp: ValidServiceName_def list_all_iff byte_of_def split: if_splits)

lemma ValidServiceName_utf8: "ValidServiceName n \<Longrightarrow> valid_utf8 n"
  by (rule valid_utf8_ascii)
    (auto simp: ValidServiceName_def list_all_iff dest: service_char_ascii split: if_splits)

lemma ToBinding_FromBinding [simp]: "ToBinding (Some (FromBinding b)) = b"
  by (simp add: ToBinding_def FromBinding_def)

lemma FromBinding_ToBinding [simp]: "FromBinding (ToBinding (Some r)) = r"
  by (simp add: ToBinding_def FromBinding_def)

lemma FromBinding_inject [simp]: "FromBinding a = FromBinding b \<longleftrightarrow> a = b"
  by (metis ToBinding_FromBinding)

lemma IsSticky_StickyMetadata [simp]: "IsSticky StickyMetadata = Inr True"
  by (simp add: IsSticky_def StickyMetadata_def)

lemma IsSticky_empty [simp]: "IsSticky Map.empty = Inr False"
  by (simp add: IsSticky_def)

end
