(* ===== verification/Json.thy ===== *)
theory Json
  imports Locate
begin

text \<open>
  \<open>encoding/json\<close> as the locator uses it: \<open>Marshal\<close> of a struct of strings with HTML escaping, and
  \<open>Unmarshal\<close> into that struct (a value parser, then field matching with case folding, unknown
  fields ignored and a type mismatch an error). The main fact is that decoding the encoding of a
  binding whose fields are valid UTF-8 gives the binding back.
\<close>

section \<open>Encoding\<close>

abbreviation quote :: char where "quote \<equiv> CHR 0x22"
abbreviation backslash :: char where "backslash \<equiv> CHR 0x5C"

definition hexdigit :: "nat \<Rightarrow> char" where
  "hexdigit n = ''0123456789abcdef'' ! n"

definition json_ascii :: "nat \<Rightarrow> string" where
  "json_ascii b =
     (if b = 0x22 \<or> b = 0x5C then [backslash, char_of_byte b]
      else if b = 8 then [backslash, CHR ''b'']
      else if b = 12 then [backslash, CHR ''f'']
      else if b = 10 then [backslash, CHR ''n'']
      else if b = 13 then [backslash, CHR ''r'']
      else if b = 9 then [backslash, CHR ''t'']
      else if b < 0x20 \<or> b = 0x3C \<or> b = 0x3E \<or> b = 0x26
        then [backslash, CHR ''u'', CHR ''0'', CHR ''0'', hexdigit (b div 16), hexdigit (b mod 16)]
      else [char_of_byte b])"

function json_escape :: "nat list \<Rightarrow> string" where
  "json_escape bs =
     (case bs of [] \<Rightarrow> []
      | b # tail \<Rightarrow>
         if b < 0x80 then json_ascii b @ json_escape tail
         else (case utf8_next bs of
             None \<Rightarrow> backslash # ''ufffd'' @ json_escape tail
           | Some (r, rest) \<Rightarrow>
               (if r = 0x2028 \<or> r = 0x2029 then backslash # ''u202'' @ [hexdigit (r mod 16)]
                else map char_of_byte (take (length bs - length rest) bs)) @ json_escape rest))"
  by pat_completeness auto
termination
  by (relation "measure length") (auto simp del: utf8_next.simps dest: utf8_next_shorter)

declare json_escape.simps [simp del]

definition json_string :: "string \<Rightarrow> string" where
  "json_string s = quote # json_escape (map byte_of s) @ [quote]"

text \<open>The struct tags of \<open>locate.GateBinding\<close>, in declaration order.\<close>

definition binding_fields :: "GateBinding \<Rightarrow> (string \<times> string) list" where
  "binding_fields b =
     [(''service_name'', ServiceName b), (''uid'', UID b), (''gate_id'', GateID b),
      (''gate_endpoint'', GateEndpoint b), (''conn_id'', ConnID b), (''binding_token'', BindingToken b)]"

fun json_fields :: "(string \<times> string) list \<Rightarrow> string" where
  "json_fields [] = []"
| "json_fields [(k, v)] = json_string k @ CHR '':'' # json_string v"
| "json_fields ((k, v) # f # fs) = json_string k @ CHR '':'' # json_string v @ CHR '','' # json_fields (f # fs)"

definition json_marshal :: "GateBinding \<Rightarrow> string" where
  "json_marshal b = CHR ''{'' # json_fields (binding_fields b) @ ''}''"

section \<open>Decoding\<close>

datatype json = JNull | JBool bool | JNum string | JStr string | JArr "json list" | JObj "(string \<times> json) list"

definition hexval :: "char \<Rightarrow> nat option" where
  "hexval c = (let b = byte_of c in
     if 48 \<le> b \<and> b \<le> 57 then Some (b - 48)
     else if 97 \<le> b \<and> b \<le> 102 then Some (b - 87)
     else if 65 \<le> b \<and> b \<le> 70 then Some (b - 55)
     else None)"

definition hex4 :: "char \<Rightarrow> char \<Rightarrow> char \<Rightarrow> char \<Rightarrow> nat option" where
  "hex4 a b c d =
     (case (hexval a, hexval b, hexval c, hexval d) of
        (Some w, Some x, Some y, Some z) \<Rightarrow> Some (w * 4096 + x * 256 + y * 16 + z)
      | _ \<Rightarrow> None)"

definition utf8_encode :: "nat \<Rightarrow> nat list" where
  "utf8_encode r =
     (if r < 0x80 then [r]
      else if r < 0x800 then [0xC0 + r div 64, 0x80 + r mod 64]
      else if 0xD800 \<le> r \<and> r \<le> 0xDFFF \<or> 0x10FFFF < r then [0xEF, 0xBF, 0xBD]
      else if r < 0x10000 then [0xE0 + r div 4096, 0x80 + r div 64 mod 64, 0x80 + r mod 64]
      else [0xF0 + r div 262144, 0x80 + r div 4096 mod 64, 0x80 + r div 64 mod 64, 0x80 + r mod 64])"

definition rune_str :: "nat \<Rightarrow> string" where
  "rune_str r = map char_of_byte (utf8_encode r)"

definition simple_escape :: "char \<Rightarrow> char option" where
  "simple_escape c =
     (if c = quote \<or> c = backslash \<or> c = CHR ''/'' then Some c
      else if c = CHR ''b'' then Some (CHR 0x08)
      else if c = CHR ''f'' then Some (CHR 0x0C)
      else if c = CHR ''n'' then Some (CHR 0x0A)
      else if c = CHR ''r'' then Some (CHR 0x0D)
      else if c = CHR ''t'' then Some (CHR 0x09)
      else None)"

text \<open>
  The body of a string literal up to its closing quote. A surrogate pair is one rune, a lone
  surrogate and an invalid byte are U+FFFD, a control character is a syntax error.
\<close>

definition unicode_escape :: "string \<Rightarrow> (string \<times> string) option" where
  "unicode_escape s =
     (case s of a # b # c # d # s1 \<Rightarrow>
        (case hex4 a b c d of
           None \<Rightarrow> None
         | Some r \<Rightarrow>
            if 0xD800 \<le> r \<and> r < 0xDC00 then
              (case s1 of bs # u # a' # b' # c' # d' # s2 \<Rightarrow>
                 if bs = backslash \<and> u = CHR ''u'' then
                   (case hex4 a' b' c' d' of
                      None \<Rightarrow> Some (rune_str 0xFFFD, s1)
                    | Some r' \<Rightarrow>
                        if 0xDC00 \<le> r' \<and> r' < 0xE000
                        then Some (rune_str ((r - 0xD800) * 1024 + (r' - 0xDC00) + 0x10000), s2)
                        else Some (rune_str 0xFFFD, s1))
                 else Some (rune_str 0xFFFD, s1)
               | _ \<Rightarrow> Some (rune_str 0xFFFD, s1))
            else Some (rune_str r, s1))
      | _ \<Rightarrow> None)"

lemma unicode_escape_shorter: "unicode_escape s = Some (t, rest) \<Longrightarrow> length rest < length s"
  by (auto simp: unicode_escape_def split: list.splits option.splits if_splits)

function parse_string :: "string \<Rightarrow> (string \<times> string) option" where
  "parse_string s =
     (case s of [] \<Rightarrow> None
      | c # tail \<Rightarrow>
         if c = quote then Some ([], tail)
         else if c = backslash then
           (case tail of [] \<Rightarrow> None
            | e # tail' \<Rightarrow>
               if e = CHR ''u'' then
                 (case unicode_escape tail' of None \<Rightarrow> None
                  | Some (t, rest) \<Rightarrow> map_option (\<lambda>(u, r). (t @ u, r)) (parse_string rest))
               else (case simple_escape e of None \<Rightarrow> None
                  | Some d \<Rightarrow> map_option (\<lambda>(u, r). (d # u, r)) (parse_string tail')))
         else if byte_of c < 0x20 then None
         else if byte_of c < 0x80 then map_option (\<lambda>(u, r). (c # u, r)) (parse_string tail)
         else (case utf8_next (map byte_of s) of
             None \<Rightarrow> map_option (\<lambda>(u, r). (rune_str 0xFFFD @ u, r)) (parse_string tail)
           | Some (_, rest) \<Rightarrow>
               let n = length s - length rest
               in map_option (\<lambda>(u, r). (take n s @ u, r)) (parse_string (drop n s))))"
  by pat_completeness auto
termination
  by (relation "measure length")
    (auto simp del: utf8_next.simps dest: unicode_escape_shorter utf8_next_shorter)

declare parse_string.simps [simp del]


definition skip_ws :: "string \<Rightarrow> string" where
  "skip_ws s = dropWhile (\<lambda>c. c = CHR 0x20 \<or> c = CHR 0x09 \<or> c = CHR 0x0A \<or> c = CHR 0x0D) s"

definition is_digit :: "char \<Rightarrow> bool" where
  "is_digit c = (48 \<le> byte_of c \<and> byte_of c \<le> 57)"

definition json_frac :: "string \<Rightarrow> (string \<times> string) option" where
  "json_frac s =
     (case s of c # d # t \<Rightarrow>
        if c = CHR ''.''
        then (if is_digit d then Some (c # takeWhile is_digit (d # t), dropWhile is_digit (d # t)) else None)
        else Some ([], s)
      | [c] \<Rightarrow> if c = CHR ''.'' then None else Some ([], s)
      | [] \<Rightarrow> Some ([], []))"

definition json_exp :: "string \<Rightarrow> (string \<times> string) option" where
  "json_exp s =
     (case s of [] \<Rightarrow> Some ([], [])
      | c # t \<Rightarrow>
         if c = CHR ''e'' \<or> c = CHR ''E'' then
           (let sg = (case t of x # _ \<Rightarrow> if x = CHR ''+'' \<or> x = CHR ''-'' then [x] else [] | [] \<Rightarrow> []);
                u = drop (length sg) t
            in if u \<noteq> [] \<and> is_digit (hd u)
               then Some (c # sg @ takeWhile is_digit u, dropWhile is_digit u) else None)
         else Some ([], s))"

definition json_number :: "string \<Rightarrow> (string \<times> string) option" where
  "json_number s =
     (let sg = (case s of x # _ \<Rightarrow> if x = CHR ''-'' then [x] else [] | [] \<Rightarrow> []);
          u = drop (length sg) s
      in case u of [] \<Rightarrow> None
       | d # t \<Rightarrow>
          if \<not> is_digit d then None
          else let ip = (if d = CHR ''0'' then [d] else takeWhile is_digit u)
               in case json_frac (drop (length ip) u) of None \<Rightarrow> None
                | Some (f, r) \<Rightarrow>
                   (case json_exp r of None \<Rightarrow> None
                    | Some (e, r') \<Rightarrow> Some (sg @ ip @ f @ e, r')))"

text \<open>The value grammar; the fuel bounds the nesting and is one more than the input's length.\<close>

fun parse_value :: "nat \<Rightarrow> string \<Rightarrow> (json \<times> string) option"
and parse_members :: "nat \<Rightarrow> string \<Rightarrow> ((string \<times> json) list \<times> string) option"
and parse_elements :: "nat \<Rightarrow> string \<Rightarrow> (json list \<times> string) option" where
  "parse_value 0 s = None"
| "parse_value (Suc n) s =
     (case skip_ws s of [] \<Rightarrow> None
      | c # t \<Rightarrow>
         if c = quote then map_option (\<lambda>(u, r). (JStr u, r)) (parse_string t)
         else if c = CHR ''{'' then
           (case skip_ws t of [] \<Rightarrow> None
            | d # t' \<Rightarrow> if d = CHR ''}'' then Some (JObj [], t')
                else map_option (\<lambda>(ms, r). (JObj ms, r)) (parse_members n t))
         else if c = CHR ''['' then
           (case skip_ws t of [] \<Rightarrow> None
            | d # t' \<Rightarrow> if d = CHR '']'' then Some (JArr [], t')
                else map_option (\<lambda>(vs, r). (JArr vs, r)) (parse_elements n t))
         else if has_prefix (c # t) ''null'' then Some (JNull, drop 4 (c # t))
         else if has_prefix (c # t) ''true'' then Some (JBool True, drop 4 (c # t))
         else if has_prefix (c # t) ''false'' then Some (JBool False, drop 5 (c # t))
         else map_option (\<lambda>(m, r). (JNum m, r)) (json_number (c # t)))"
| "parse_members 0 s = None"
| "parse_members (Suc n) s =
     (case skip_ws s of [] \<Rightarrow> None
      | c # t \<Rightarrow>
         if c \<noteq> quote then None
         else (case parse_string t of None \<Rightarrow> None
          | Some (k, r) \<Rightarrow>
             (case skip_ws r of [] \<Rightarrow> None
              | d # r' \<Rightarrow>
                 if d \<noteq> CHR '':'' then None
                 else (case parse_value n r' of None \<Rightarrow> None
                  | Some (v, r2) \<Rightarrow>
                     (case skip_ws r2 of [] \<Rightarrow> None
                      | e # r3 \<Rightarrow>
                         if e = CHR ''}'' then Some ([(k, v)], r3)
                         else if e = CHR '','' then
                           map_option (\<lambda>(ms, r4). ((k, v) # ms, r4)) (parse_members n r3)
                         else None)))))"
| "parse_elements 0 s = None"
| "parse_elements (Suc n) s =
     (case parse_value n s of None \<Rightarrow> None
      | Some (v, r2) \<Rightarrow>
         (case skip_ws r2 of [] \<Rightarrow> None
          | e # r3 \<Rightarrow>
             if e = CHR '']'' then Some ([v], r3)
             else if e = CHR '','' then map_option (\<lambda>(vs, r4). (v # vs, r4)) (parse_elements n r3)
             else None))"

definition json_parse :: "string \<Rightarrow> json option" where
  "json_parse s =
     (case parse_value (Suc (length s)) s of None \<Rightarrow> None
      | Some (v, r) \<Rightarrow> if skip_ws r = [] then Some v else None)"

text \<open>Field names match up to case folding, the long s and the Kelvin sign included.\<close>

definition fold_rune :: "nat \<Rightarrow> nat" where
  "fold_rune r =
     (if 97 \<le> r \<and> r \<le> 122 then r - 32 else if r = 0x17F then 83 else if r = 0x212A then 75 else r)"

definition fold_eq :: "string \<Rightarrow> string \<Rightarrow> bool" where
  "fold_eq k name = (map fold_rune (runes k) = map fold_rune (runes name))"

definition set_field :: "string \<Rightarrow> string \<Rightarrow> GateBinding \<Rightarrow> GateBinding" where
  "set_field k v b =
     (if fold_eq k ''service_name'' then b\<lparr>ServiceName := v\<rparr>
      else if fold_eq k ''uid'' then b\<lparr>UID := v\<rparr>
      else if fold_eq k ''gate_id'' then b\<lparr>GateID := v\<rparr>
      else if fold_eq k ''gate_endpoint'' then b\<lparr>GateEndpoint := v\<rparr>
      else if fold_eq k ''conn_id'' then b\<lparr>ConnID := v\<rparr>
      else if fold_eq k ''binding_token'' then b\<lparr>BindingToken := v\<rparr>
      else b)"

definition known_field :: "string \<Rightarrow> bool" where
  "known_field k = list_ex (fold_eq k)
     [''service_name'', ''uid'', ''gate_id'', ''gate_endpoint'', ''conn_id'', ''binding_token'']"

fun decode_members :: "(string \<times> json) list \<Rightarrow> GateBinding \<Rightarrow> GateBinding option" where
  "decode_members [] b = Some b"
| "decode_members ((k, v) # ms) b =
     (case v of JStr t \<Rightarrow> decode_members ms (set_field k t b)
      | JNull \<Rightarrow> decode_members ms b
      | _ \<Rightarrow> if known_field k then None else decode_members ms b)"

definition json_unmarshal :: "string \<Rightarrow> GateBinding option" where
  "json_unmarshal s =
     (case json_parse s of
        Some (JObj ms) \<Rightarrow> decode_members ms zeroBinding
      | Some JNull \<Rightarrow> Some zeroBinding
      | _ \<Rightarrow> None)"

section \<open>Round trip\<close>

lemma hexval_hexdigit: "n < 16 \<Longrightarrow> hexval (hexdigit n) = Some n"
proof -
  assume "n < 16"
  then have "n \<in> set [0..<16]" by simp
  moreover have "\<forall>n\<in>set [0..<16]. hexval (hexdigit n) = Some n" by code_simp
  ultimately show ?thesis by blast
qed

lemma rune_str_ascii: "b < 128 \<Longrightarrow> rune_str b = [char_of_byte b]"
  by (simp add: rune_str_def utf8_encode_def)

lemma char_of_byte_eq: "b < 256 \<Longrightarrow> char_of_byte b = c \<longleftrightarrow> b = byte_of c"
  by auto

lemma char_of_byte_controls:
  "char_of_byte 8 = CHR 0x08" "char_of_byte 12 = CHR 0x0C" "char_of_byte 10 = CHR 0x0A"
  "char_of_byte 13 = CHR 0x0D" "char_of_byte 9 = CHR 0x09"
  by code_simp+

lemma parse_string_ascii:
  assumes "b < 128"
  shows "parse_string (json_ascii b @ t) =
    map_option (\<lambda>(u, r). (char_of_byte b # u, r)) (parse_string t)"
proof -
  have small: "parse_string (json_ascii b @ t) =
      map_option (\<lambda>(u, r). (char_of_byte b # u, r)) (parse_string t)"
    if "b \<in> {0x22, 0x5C, 8, 12, 10, 13, 9}"
    using that by (auto simp: json_ascii_def parse_string.simps [of "backslash # _"] simple_escape_def
        char_of_byte_controls char_of_byte_eq byte_of_def)
  have hex: "parse_string (json_ascii b @ t) =
      map_option (\<lambda>(u, r). (char_of_byte b # u, r)) (parse_string t)"
    if "b \<notin> {0x22, 0x5C, 8, 12, 10, 13, 9}" "b < 0x20 \<or> b = 0x3C \<or> b = 0x3E \<or> b = 0x26"
  proof -
    have "b div 16 < 16" "b mod 16 < 16" using assms by auto
    moreover have "hexval (CHR ''0'') = Some 0" by code_simp
    ultimately have "unicode_escape (CHR ''0'' # CHR ''0'' # hexdigit (b div 16) # hexdigit (b mod 16) # t)
        = Some ([char_of_byte b], t)"
      using assms by (simp add: unicode_escape_def hex4_def hexval_hexdigit rune_str_ascii)
    with that show ?thesis
      by (simp add: json_ascii_def parse_string.simps [of "backslash # _"])
  qed
  have plain: "parse_string (json_ascii b @ t) =
      map_option (\<lambda>(u, r). (char_of_byte b # u, r)) (parse_string t)"
    if "b \<notin> {0x22, 0x5C, 8, 12, 10, 13, 9}" "\<not> (b < 0x20 \<or> b = 0x3C \<or> b = 0x3E \<or> b = 0x26)"
  proof -
    have "char_of_byte b \<noteq> quote" "char_of_byte b \<noteq> backslash"
      using that assms by (auto simp: char_of_byte_eq byte_of_def)
    with that assms show ?thesis
      by (simp add: json_ascii_def parse_string.simps [of "char_of_byte b # _"] del: utf8_next.simps)
  qed
  from small hex plain show ?thesis by blast
qed

lemma base64_digits:
  fixes x y z :: nat
  assumes "x * 4096 + y * 64 + z = 8192 + d" "y < 64" "z < 64" "d < 64"
  shows "x = 2 \<and> y = 0 \<and> z = d"
proof -
  have "x < 3" "1 < x" using assms by linarith+
  then have x: "x = 2" by simp
  then have "y < 1" using assms by linarith
  with assms(1) show ?thesis unfolding x by simp
qed

lemma utf8_next_separator:
  assumes "utf8_next bs = Some (0x2000 + d, rest)" "d < 64"
  shows "bs = 0xE2 # 0x80 # (0x80 + d) # rest"
proof -
  from assms consider (one) b0 where "bs = b0 # rest" "0x2000 + d < 128"
    | (two) b0 b1 where "0x2000 + d = (b0 - 0xC0) * 64 + (b1 - 0x80)" "b0 \<le> 0xDF" "b1 \<le> 0xBF"
    | (three) b0 b1 b2 where "bs = b0 # b1 # b2 # rest" "0xE0 \<le> b0" "utf8_cont b1" "utf8_cont b2"
        "(b0 - 0xE0) * 4096 + (b1 - 0x80) * 64 + (b2 - 0x80) = 0x2000 + d"
    | (four) b0 b1 b2 b3 where "(b0 - 0xF0) * 262144 + (b1 - 0x80) * 4096 + (b2 - 0x80) * 64 + (b3 - 0x80) = 0x2000 + d"
        "0xF0 \<le> b0" "utf8_second b0 b1"
    by (cases bs) (auto simp: utf8_cont_def utf8_second_def split: if_splits list.splits)
  then show ?thesis
  proof cases
    case three
    then have "b0 - 0xE0 = 2 \<and> b1 - 0x80 = 0 \<and> b2 - 0x80 = d"
      using assms(2) by (intro base64_digits) (auto simp: utf8_cont_def)
    with three show ?thesis by (auto simp: utf8_cont_def)
  next
    case four
    have "16 \<le> b1 - 0x80 \<or> 1 \<le> b0 - 0xF0"
      using four(2,3) by (auto simp: utf8_second_def split: if_splits)
    with four(1) assms(2) show ?thesis by auto
  qed auto
qed

lemma parse_string_separator:
  assumes "d < 16" "d = 8 \<or> d = 9"
  shows "parse_string (backslash # ''u202'' @ hexdigit d # t) =
    map_option (\<lambda>(u, r). (map char_of_byte [0xE2, 0x80, 0xA0 + d] @ u, r)) (parse_string t)"
proof -
  have "hexval CHR ''2'' = Some 2" "hexval CHR ''0'' = Some 0" by code_simp+
  then have "unicode_escape (CHR ''2'' # CHR ''0'' # CHR ''2'' # hexdigit d # t) =
      Some (map char_of_byte [0xE2, 0x80, 0xA0 + d], t)"
    using assms by (auto simp: unicode_escape_def hex4_def hexval_hexdigit rune_str_def utf8_encode_def)
  then show ?thesis by (simp add: parse_string.simps [of "backslash # _"])
qed

lemma utf8_next_ge: "utf8_next (b # bs) = Some (r, rest) \<Longrightarrow> \<not> b < 128 \<Longrightarrow> 194 \<le> b"
  by (auto split: if_splits)

text \<open>A valid multi-byte rune is copied by both directions.\<close>

lemma parse_string_rune:
  assumes nxt: "utf8_next bs = Some (r, rest)" and bytes: "\<forall>b\<in>set bs. b < 256"
    and high: "\<not> hd bs < 128"
  shows "parse_string (map char_of_byte (take (length bs - length rest) bs) @ t) =
    map_option (\<lambda>(u, q). (map char_of_byte (take (length bs - length rest) bs) @ u, q)) (parse_string t)"
proof -
  obtain p where p: "bs = p @ rest" "p \<noteq> []" "\<And>q. utf8_next (p @ q) = Some (r, q)"
    using utf8_next_local [OF nxt] by metis
  obtain b p' where b: "p = b # p'" using p(2) by (cases p) auto
  have b_high: "\<not> b < 128" "b < 256" using high bytes p(1) b by auto
  have id: "map (byte_of \<circ> char_of_byte) p = p" using bytes p(1) by (auto simp: map_idI)
  let ?s = "map char_of_byte p @ t"
  have "utf8_next (map byte_of ?s) = Some (r, map byte_of t)"
    using p(3) [of "map byte_of t"] id by simp
  moreover have "char_of_byte b \<noteq> quote" "char_of_byte b \<noteq> backslash"
    using b_high by (auto simp: char_of_byte_eq byte_of_def)
  ultimately have "parse_string ?s =
      map_option (\<lambda>(u, q). (map char_of_byte p @ u, q)) (parse_string t)"
    using b_high b by (simp add: parse_string.simps [of "char_of_byte b # _"] del: utf8_next.simps)
  then show ?thesis using p(1) by simp
qed

lemma parse_string_escape:
  "valid_utf8_bytes bs \<Longrightarrow> \<forall>b\<in>set bs. b < 256 \<Longrightarrow>
   parse_string (json_escape bs @ quote # rest) = Some (map char_of_byte bs, rest)"
proof (induction bs rule: length_induct)
  case (1 bs)
  show ?case
  proof (cases bs)
    case Nil
    then show ?thesis by (simp add: json_escape.simps [of "[]"] parse_string.simps [of "quote # _"])
  next
    case (Cons b tail)
    show ?thesis
    proof (cases "b < 128")
      case True
      then have "valid_utf8_bytes tail" "\<forall>b\<in>set tail. b < 256" using 1 Cons by auto
      then have "parse_string (json_escape tail @ quote # rest) = Some (map char_of_byte tail, rest)"
        using 1 Cons by simp
      with True Cons show ?thesis
        by (simp add: json_escape.simps [of "b # _"] parse_string_ascii)
    next
      case False
      obtain r r2 where nx: "utf8_next bs = Some (r, r2)" and v: "valid_utf8_bytes r2"
        using 1(2) Cons by (subst (asm) valid_utf8_bytes.simps) (auto simp del: utf8_next.simps split: option.splits)
      obtain p where p: "bs = p @ r2" "p \<noteq> []" using utf8_next_local [OF nx] by metis
      have high: "\<not> hd bs < 128" using False by (simp add: Cons)
      have p_take: "take (length bs - length r2) bs = p" by (simp add: p(1))
      have IH: "parse_string (json_escape r2 @ quote # rest) = Some (map char_of_byte r2, rest)"
        using 1 v p by simp
      have esc: "json_escape bs =
          (if r = 0x2028 \<or> r = 0x2029 then backslash # ''u202'' @ [hexdigit (r mod 16)]
           else map char_of_byte p) @ json_escape r2"
        using False Cons nx p_take by (simp add: json_escape.simps [of "b # _"] del: utf8_next.simps)
      consider "r = 0x2028" | "r = 0x2029" | "r \<noteq> 0x2028" "r \<noteq> 0x2029" by blast
      then show ?thesis
      proof cases
        assume "r = 0x2028"
        then show ?thesis using esc IH utf8_next_separator [of bs 40 r2] nx
            parse_string_separator [of 8] by simp
      next
        assume "r = 0x2029"
        then show ?thesis using esc IH utf8_next_separator [of bs 41 r2] nx
            parse_string_separator [of 9] by simp
      next
        assume "r \<noteq> 0x2028" "r \<noteq> 0x2029"
        then show ?thesis using esc IH parse_string_rune [OF nx 1(3) high] p(1) by (simp add: p_take)
      qed
    qed
  qed
qed

lemma valid_utf8_bytes_of: "valid_utf8 s \<Longrightarrow> valid_utf8_bytes (map byte_of s)"
  by (simp add: valid_utf8_def)

lemma parse_json_string:
  assumes "valid_utf8 s"
  shows "parse_string (json_escape (map byte_of s) @ quote # rest) = Some (s, rest)"
  using parse_string_escape [of "map byte_of s" rest] assms
  by (simp add: valid_utf8_def byte_of_less comp_def)

lemma skip_ws_Cons:
  "\<not> (c = CHR 0x20 \<or> c = CHR 0x09 \<or> c = CHR 0x0A \<or> c = CHR 0x0D) \<Longrightarrow> skip_ws (c # s) = c # s"
  by (simp add: skip_ws_def)

lemma parse_value_string:
  "valid_utf8 s \<Longrightarrow> parse_value (Suc n) (json_string s @ rest) = Some (JStr s, rest)"
  by (simp add: json_string_def skip_ws_Cons parse_json_string)

lemma parse_members_step:
  assumes "valid_utf8 k" "valid_utf8 v"
  shows "parse_members (Suc (Suc m)) (json_string k @ CHR '':'' # json_string v @ CHR ''}'' # r) =
      Some ([(k, JStr v)], r)"
    and "parse_members (Suc (Suc m)) (json_string k @ CHR '':'' # json_string v @ CHR '','' # r) =
      map_option (\<lambda>(ms, q). ((k, JStr v) # ms, q)) (parse_members (Suc m) r)"
  using assms parse_json_string [of k] parse_value_string [of v m]
  by (simp_all add: parse_members.simps(2) [of "Suc m"] json_string_def [of k] skip_ws_Cons
      del: parse_value.simps parse_members.simps)

text \<open>The members of an object of strings, read back in order.\<close>

lemma parse_members_fields:
  "fs \<noteq> [] \<Longrightarrow> \<forall>(k, v)\<in>set fs. valid_utf8 k \<and> valid_utf8 v \<Longrightarrow> length fs < n \<Longrightarrow>
   parse_members n (json_fields fs @ CHR ''}'' # rest) = Some (map (\<lambda>(k, v). (k, JStr v)) fs, rest)"
proof (induction fs arbitrary: n rule: json_fields.induct)
  case (2 k v)
  then obtain m where "n = Suc (Suc m)" by (cases n; cases "n - 1") auto
  with 2 show ?case by (simp add: parse_members_step del: parse_members.simps)
next
  case (3 k v f fs)
  then obtain m where n: "n = Suc (Suc m)" by (cases n; cases "n - 1") auto
  then have "parse_members (Suc m) (json_fields (f # fs) @ CHR ''}'' # rest) =
      Some (map (\<lambda>(k, v). (k, JStr v)) (f # fs), rest)"
    using 3 by (simp del: parse_members.simps)
  with 3 n show ?case by (simp add: parse_members_step del: parse_members.simps)
qed simp

lemma json_fields_length: "length fs \<le> length (json_fields fs)"
  by (induction fs rule: json_fields.induct) (auto simp: json_string_def)

definition utf8_binding :: "GateBinding \<Rightarrow> bool" where
  "utf8_binding b = list_all valid_utf8
     [ServiceName b, UID b, GateID b, GateEndpoint b, ConnID b, BindingToken b]"

lemma field_names_utf8:
  "valid_utf8 ''service_name''" "valid_utf8 ''uid''" "valid_utf8 ''gate_id''"
  "valid_utf8 ''gate_endpoint''" "valid_utf8 ''conn_id''" "valid_utf8 ''binding_token''"
  by code_simp+

lemma json_parse_fields:
  assumes "fs \<noteq> []" "\<forall>(k, v)\<in>set fs. valid_utf8 k \<and> valid_utf8 v"
  shows "json_parse (CHR ''{'' # json_fields fs @ ''}'') = Some (JObj (map (\<lambda>(k, v). (k, JStr v)) fs))"
proof -
  let ?t = "json_fields fs @ ''}''"
  obtain u where u: "?t = quote # u"
    using assms(1) by (cases fs rule: json_fields.cases) (auto simp: json_string_def)
  have "parse_members (Suc (length ?t)) ?t = Some (map (\<lambda>(k, v). (k, JStr v)) fs, [])"
    using assms json_fields_length [of fs] by (intro parse_members_fields) auto
  then have "parse_value (Suc (Suc (length ?t))) (CHR ''{'' # ?t) =
      Some (JObj (map (\<lambda>(k, v). (k, JStr v)) fs), [])"
    using u by (simp add: skip_ws_Cons parse_value.simps(2) [of "Suc _"] del: parse_members.simps parse_value.simps)
  then show ?thesis
    by (simp add: json_parse_def skip_ws_def del: parse_members.simps parse_value.simps)
qed

lemma json_parse_marshal:
  assumes "utf8_binding b"
  shows "json_parse (json_marshal b) = Some (JObj (map (\<lambda>(k, v). (k, JStr v)) (binding_fields b)))"
  unfolding json_marshal_def
  using assms field_names_utf8
  by (intro json_parse_fields) (simp_all add: binding_fields_def utf8_binding_def)

lemma folded_names:
  "map fold_rune (runes ''service_name'') = [83, 69, 82, 86, 73, 67, 69, 95, 78, 65, 77, 69]"
  "map fold_rune (runes ''uid'') = [85, 73, 68]"
  "map fold_rune (runes ''gate_id'') = [71, 65, 84, 69, 95, 73, 68]"
  "map fold_rune (runes ''gate_endpoint'') = [71, 65, 84, 69, 95, 69, 78, 68, 80, 79, 73, 78, 84]"
  "map fold_rune (runes ''conn_id'') = [67, 79, 78, 78, 95, 73, 68]"
  "map fold_rune (runes ''binding_token'') = [66, 73, 78, 68, 73, 78, 71, 95, 84, 79, 75, 69, 78]"
  by code_simp+

lemma decode_binding_fields:
  "decode_members (map (\<lambda>(k, v). (k, JStr v)) (binding_fields b)) c = Some b"
proof -
  have set_field_names: "set_field ''service_name'' v d = d\<lparr>ServiceName := v\<rparr>"
    "set_field ''uid'' v d = d\<lparr>UID := v\<rparr>" "set_field ''gate_id'' v d = d\<lparr>GateID := v\<rparr>"
    "set_field ''gate_endpoint'' v d = d\<lparr>GateEndpoint := v\<rparr>"
    "set_field ''conn_id'' v d = d\<lparr>ConnID := v\<rparr>"
    "set_field ''binding_token'' v d = d\<lparr>BindingToken := v\<rparr>" for v d
    by (simp_all add: set_field_def fold_eq_def folded_names)
  show ?thesis
    by (cases b; cases c) (simp add: binding_fields_def set_field_names)
qed

lemma json_round_trip: "utf8_binding b \<Longrightarrow> json_unmarshal (json_marshal b) = Some b"
  by (simp add: json_unmarshal_def json_parse_marshal decode_binding_fields)

end
