(* ===== verification/Base64.thy ===== *)
theory Base64
  imports Prelude
begin

text \<open>
  \<open>encoding/base64.RawURLEncoding\<close>, which builds the locator's storage keys: the unpadded encoding
  of a byte string over the URL alphabet, its inverse on encodings, and the two facts the keys rest
  on: the encoding is injective and never yields a brace or a colon.
\<close>

definition b64_alphabet :: string where
  "b64_alphabet = ''ABCDEFGHIJKLMNOPQRSTUVWXYZabcdefghijklmnopqrstuvwxyz0123456789-_''"

fun b64_groups :: "nat list \<Rightarrow> nat list" where
  "b64_groups [] = []"
| "b64_groups [a] = [a div 4, (a mod 4) * 16]"
| "b64_groups [a, b] = [a div 4, (a mod 4) * 16 + b div 16, (b mod 16) * 4]"
| "b64_groups (a # b # c # r) =
     a div 4 # ((a mod 4) * 16 + b div 16) # ((b mod 16) * 4 + c div 64) # (c mod 64) # b64_groups r"

definition b64_char :: "nat \<Rightarrow> char" where
  "b64_char i = b64_alphabet ! i"

definition EncodeToString :: "string \<Rightarrow> string" where
  "EncodeToString s = map b64_char (b64_groups (map byte_of s))"

text \<open>The inverse on the sextets of an encoding.\<close>

fun b64_ungroup :: "nat list \<Rightarrow> nat list" where
  "b64_ungroup [s, t] = [s * 4 + t div 16]"
| "b64_ungroup [s, t, u] = [s * 4 + t div 16, (t mod 16) * 16 + u div 4]"
| "b64_ungroup (s # t # u # v # r) =
     (s * 4 + t div 16) # ((t mod 16) * 16 + u div 4) # ((u mod 4) * 64 + v) # b64_ungroup r"
| "b64_ungroup _ = []"

lemma length_b64_alphabet [simp]: "length b64_alphabet = 64"
  by (simp add: b64_alphabet_def)

lemma distinct_b64_alphabet: "distinct b64_alphabet"
  by (simp add: b64_alphabet_def)

lemma b64_groups_less: "\<forall>b\<in>set bs. b < 256 \<Longrightarrow> \<forall>g\<in>set (b64_groups bs). g < 64"
  by (induction bs rule: b64_groups.induct) (auto simp: less_mult_imp_div_less)

lemma b64_ungroup_groups: "\<forall>b\<in>set bs. b < 256 \<Longrightarrow> b64_ungroup (b64_groups bs) = bs"
  by (induction bs rule: b64_groups.induct) auto

lemma b64_char_inj: "i < 64 \<Longrightarrow> j < 64 \<Longrightarrow> b64_char i = b64_char j \<longleftrightarrow> i = j"
  using distinct_b64_alphabet by (simp add: b64_char_def nth_eq_iff_index_eq)

lemma map_b64_char_inj:
  "\<forall>i\<in>set xs. i < 64 \<Longrightarrow> \<forall>i\<in>set ys. i < 64 \<Longrightarrow> map b64_char xs = map b64_char ys \<Longrightarrow> xs = ys"
  by (rule map_inj_on [of b64_char]) (auto simp: inj_on_def b64_char_inj)

lemma EncodeToString_inject [simp]: "EncodeToString s = EncodeToString t \<longleftrightarrow> s = t"
proof
  assume eq: "EncodeToString s = EncodeToString t"
  have bs: "\<forall>b\<in>set (map byte_of x). b < 256" for x by simp
  have "b64_groups (map byte_of s) = b64_groups (map byte_of t)"
    using map_b64_char_inj [OF b64_groups_less [OF bs] b64_groups_less [OF bs]] eq
    by (simp add: EncodeToString_def)
  then have "map byte_of s = map byte_of t"
    using b64_ungroup_groups [OF bs] by metis
  then show "s = t" by simp
qed simp

lemma EncodeToString_alphabet: "set (EncodeToString s) \<subseteq> set b64_alphabet"
  using b64_groups_less [of "map byte_of s"]
  by (auto simp: EncodeToString_def b64_char_def intro!: nth_mem)

lemma EncodeToString_no_delim:
  "CHR ''{'' \<notin> set (EncodeToString s)" "CHR ''}'' \<notin> set (EncodeToString s)"
  "CHR '':'' \<notin> set (EncodeToString s)"
  using EncodeToString_alphabet [of s] by (auto simp: b64_alphabet_def)

lemma EncodeToString_Nil_iff [simp]: "EncodeToString s = [] \<longleftrightarrow> s = []"
  using EncodeToString_inject [of s "[]"] by (simp add: EncodeToString_def del: EncodeToString_inject)

end
