(* ===== verification/Redis.thy ===== *)
theory Redis
  imports Prelude
begin

text \<open>
  The Redis server as the locator uses it. The server is not part of the repository: its commands are
  the fields of a parameter record, its documented behaviour the laws of the locale \<open>redis_server\<close>
  over an abstract view of the key space (value and remaining time to live of every live key), and
  the passing of time the extension \<open>redis_clock\<close>. A small key-value store with absolute expiry
  times in milliseconds satisfies the laws and is what witnesses evaluate.

  A write command gives \<open>None\<close> when the server rejects it (an invalid expire time) and leaves the
  key space alone.
\<close>

section \<open>Commands and laws\<close>

record 'r redis_ops =
  rGET :: "string \<Rightarrow> 'r \<Rightarrow> string option"
  rPTTL :: "string \<Rightarrow> 'r \<Rightarrow> int"
  rPSETEX :: "string \<Rightarrow> int \<Rightarrow> string \<Rightarrow> 'r \<Rightarrow> 'r option"
  rPEXPIRE :: "string \<Rightarrow> int \<Rightarrow> 'r \<Rightarrow> 'r option"
  rSETNX :: "string \<Rightarrow> string \<Rightarrow> int \<Rightarrow> 'r \<Rightarrow> ('r \<times> bool) option"
  rDEL :: "string \<Rightarrow> 'r \<Rightarrow> 'r"

type_synonym entry = "string \<times> int option"
type_synonym keyspace = "string \<Rightarrow> entry option"

text \<open>The largest time to live the locator asks for, \<open>math.MaxInt64\<close> nanoseconds in milliseconds.\<close>

definition maxTTLMillis :: int where
  "maxTTLMillis = 9223372036854"

lemma maxTTLMillis_pos [simp]: "0 < maxTTLMillis"
  by (simp add: maxTTLMillis_def)

definition pttl_of :: "entry option \<Rightarrow> int" where
  "pttl_of e = (case e of None \<Rightarrow> -2 | Some (_, None) \<Rightarrow> -1 | Some (_, Some t) \<Rightarrow> t)"

lemma pttl_of_simps [simp]:
  "pttl_of None = -2" "pttl_of (Some (v, None)) = -1" "pttl_of (Some (v, Some t)) = t"
  by (simp_all add: pttl_of_def)

locale redis_server =
  fixes R :: "'r redis_ops" and look :: "'r \<Rightarrow> keyspace"
  assumes get: "rGET R k r = map_option fst (look r k)"
    and pttl: "rPTTL R k r = pttl_of (look r k)"
    and psetex: "0 < ms \<Longrightarrow> ms \<le> maxTTLMillis \<Longrightarrow>
      \<exists>r'. rPSETEX R k ms v r = Some r' \<and> look r' = (look r)(k \<mapsto> (v, Some ms))"
    and pexpire: "0 < ms \<Longrightarrow> ms \<le> maxTTLMillis \<Longrightarrow>
      \<exists>r'. rPEXPIRE R k ms r = Some r' \<and>
        look r' = (look r)(k := map_option (\<lambda>(v, _). (v, Some ms)) (look r k))"
    and setnx: "0 < ms \<Longrightarrow> ms \<le> maxTTLMillis \<Longrightarrow>
      \<exists>r'. rSETNX R k v ms r = Some (r', look r k = None) \<and>
        look r' = (if look r k = None then (look r)(k \<mapsto> (v, Some ms)) else look r)"
    and del: "look (rDEL R k r) = (look r)(k := None)"

text \<open>A key with an expiry is gone once more than its remaining time has passed.\<close>

definition aged :: "int \<Rightarrow> entry option \<Rightarrow> entry option" where
  "aged d e = (case e of None \<Rightarrow> None
     | Some (v, None) \<Rightarrow> Some (v, None)
     | Some (v, Some t) \<Rightarrow> if t < d then None else Some (v, Some (t - d)))"

locale redis_clock = redis_server +
  fixes pass :: "int \<Rightarrow> 'a \<Rightarrow> 'a"
  assumes pass: "0 \<le> d \<Longrightarrow> look (pass d r) k = aged d (look r k)"

section \<open>A key-value store with expiry\<close>

record kv =
  kv_now :: int
  kv_data :: keyspace

definition kv_look :: "kv \<Rightarrow> keyspace" where
  "kv_look r k = (case kv_data r k of None \<Rightarrow> None
     | Some (v, None) \<Rightarrow> Some (v, None)
     | Some (v, Some w) \<Rightarrow> if w < kv_now r then None else Some (v, Some (w - kv_now r)))"

definition kv_put :: "string \<Rightarrow> string \<Rightarrow> int \<Rightarrow> kv \<Rightarrow> kv" where
  "kv_put k v ms r = r\<lparr>kv_data := (kv_data r)(k \<mapsto> (v, Some (kv_now r + ms)))\<rparr>"

definition kv_ops :: "kv redis_ops" where
  "kv_ops = \<lparr>
     rGET = (\<lambda>k r. map_option fst (kv_look r k)),
     rPTTL = (\<lambda>k r. pttl_of (kv_look r k)),
     rPSETEX = (\<lambda>k ms v r. if ms \<le> 0 then None else Some (kv_put k v ms r)),
     rPEXPIRE = (\<lambda>k ms r. if ms \<le> 0 then Some (r\<lparr>kv_data := (kv_data r)(k := None)\<rparr>)
        else (case kv_look r k of None \<Rightarrow> Some r | Some (v, _) \<Rightarrow> Some (kv_put k v ms r))),
     rSETNX = (\<lambda>k v ms r. if ms \<le> 0 then None
        else if kv_look r k = None then Some (kv_put k v ms r, True) else Some (r, False)),
     rDEL = (\<lambda>k r. r\<lparr>kv_data := (kv_data r)(k := None)\<rparr>)\<rparr>"

definition kv_pass :: "int \<Rightarrow> kv \<Rightarrow> kv" where
  "kv_pass d r = r\<lparr>kv_now := kv_now r + d\<rparr>"

definition kv_empty :: kv where
  "kv_empty = \<lparr>kv_now = 0, kv_data = (\<lambda>_. None)\<rparr>"

lemma kv_look_put [simp]:
  "0 \<le> ms \<Longrightarrow> kv_look (kv_put k v ms r) = (kv_look r)(k \<mapsto> (v, Some ms))"
  by (rule ext) (auto simp: kv_look_def kv_put_def split: option.split)

lemma kv_look_del [simp]: "kv_look (r\<lparr>kv_data := (kv_data r)(k := None)\<rparr>) = (kv_look r)(k := None)"
  by (rule ext) (auto simp: kv_look_def split: option.split)

lemma kv_look_empty [simp]: "kv_look kv_empty k = None"
  by (simp add: kv_look_def kv_empty_def)

interpretation kv: redis_clock kv_ops kv_look kv_pass
proof unfold_locales
  fix k r ms and v :: string
  assume ms: "0 < ms" "ms \<le> maxTTLMillis"
  show "\<exists>r'. rPSETEX kv_ops k ms v r = Some r' \<and> kv_look r' = (kv_look r)(k \<mapsto> (v, Some ms))"
    using ms by (simp add: kv_ops_def)
  show "\<exists>r'. rPEXPIRE kv_ops k ms r = Some r' \<and>
      kv_look r' = (kv_look r)(k := map_option (\<lambda>(v, _). (v, Some ms)) (kv_look r k))"
    using ms by (cases "kv_look r k") (auto simp: kv_ops_def)
  show "\<exists>r'. rSETNX kv_ops k v ms r = Some (r', kv_look r k = None) \<and>
      kv_look r' = (if kv_look r k = None then (kv_look r)(k \<mapsto> (v, Some ms)) else kv_look r)"
    using ms by (simp add: kv_ops_def)
next
  fix d :: int and r k
  assume "0 \<le> d"
  then show "kv_look (kv_pass d r) k = aged d (kv_look r k)"
    by (auto simp: kv_look_def kv_pass_def aged_def split: option.splits)
qed (simp_all add: kv_ops_def)

end
