(* ===== verification/Redis_Scripts.thy ===== *)
theory Redis_Scripts
  imports Json Base64 Redis
begin

text \<open>
  The scripts of \<open>locate/redis\<close>. Every Lua script is present twice, as the text the code
  sends (with a check that its blocks are closed, which is what the server's compiler needs before
  anything runs) and as the function the text denotes. A call takes the server's commands, the
  outcome of the round trip and the readings of the caller's context, and returns the new server
  state beside the reply.
\<close>

section \<open>Calls, errors and scripts (\<open>locator.go\<close>)\<close>

text \<open>A round trip is answered, or its answer is lost after the server ran it, or it never ran.\<close>

datatype outcome = Done | Lost goerr | Unsent goerr

record call_env =
  io_outcome :: outcome
  ctx_err :: "goerr option"
  past_deadline :: bool
  net_timeout :: "goerr \<Rightarrow> bool"

definition locatorError :: "call_env \<Rightarrow> goerr \<Rightarrow> goerr" where
  "locatorError e err =
     (if errors_is err ctx_canceled \<or> errors_is err ctx_deadline then err
      else if \<not> net_timeout e err then err
      else (case ctx_err e of
          Some cause \<Rightarrow> Wrap [] [err, cause]
        | None \<Rightarrow> if past_deadline e then Wrap [] [err, ctx_deadline] else err))"

definition answered :: "call_env \<Rightarrow> ('r \<Rightarrow> 'r \<times> (goerr + 'a)) \<Rightarrow> 'r \<Rightarrow> 'r \<times> (goerr + 'a)" where
  "answered e call r =
     (case io_outcome e of
        Unsent err \<Rightarrow> (r, Inl err)
      | Lost err \<Rightarrow> (fst (call r), Inl err)
      | Done \<Rightarrow> call r)"

definition Ping :: "call_env \<Rightarrow> goerr option" where
  "Ping e = (case io_outcome e of Done \<Rightarrow> None
     | Lost err \<Rightarrow> Some (locatorError e err) | Unsent err \<Rightarrow> Some (locatorError e err))"

datatype lval = LInt int | LStr string

definition statusOK :: int where "statusOK = 1"
definition statusMissing :: int where "statusMissing = 0"
definition statusConflict :: int where "statusConflict = -1"
definition statusBadLease :: int where "statusBadLease = -2"
definition statusInvalid :: int where "statusInvalid = -3"
definition statusMalformed :: int where "statusMalformed = -4"
definition statusNodeMissing :: int where "statusNodeMissing = -5"
definition statusNodeConflict :: int where "statusNodeConflict = -6"

lemmas status_defs [redis_simps] = statusOK_def statusMissing_def statusConflict_def statusBadLease_def
  statusInvalid_def statusMalformed_def statusNodeMissing_def statusNodeConflict_def

definition scriptStatus :: "lval list \<Rightarrow> int" where
  "scriptStatus values =
     (case values of LInt status # _ \<Rightarrow> status | _ \<Rightarrow> statusMalformed)"

definition ackIdempotentUnbind :: "int \<Rightarrow> bool" where
  "ackIdempotentUnbind status = (status = statusOK \<or> status = statusMissing \<or> status = statusConflict)"

text \<open>
  The words of a Lua line outside string literals, and the block structure they give: \<open>function\<close>,
  \<open>if\<close> and \<open>do\<close> open a block (a loop opens one with its \<open>do\<close>), \<open>end\<close> closes one.
\<close>

definition lua_word_char :: "char \<Rightarrow> bool" where
  "lua_word_char c = (let b = byte_of c in
     48 \<le> b \<and> b \<le> 57 \<or> 65 \<le> b \<and> b \<le> 90 \<or> 97 \<le> b \<and> b \<le> 122 \<or> b = 95)"

fun lua_words :: "bool \<Rightarrow> string \<Rightarrow> string \<Rightarrow> string list" where
  "lua_words lit w [] = (if w = [] then [] else [rev w])"
| "lua_words lit w (c # cs) =
     (if lit then lua_words (c \<noteq> CHR 0x22) [] cs
      else if lua_word_char c then lua_words False (c # w) cs
      else (if w = [] then [] else [rev w]) @ lua_words (c = CHR 0x22) [] cs)"

definition lua_opens :: "string list \<Rightarrow> nat" where
  "lua_opens ls = length (filter (\<lambda>w. w \<in> {''function'', ''if'', ''do''}) (concat (map (lua_words False []) ls)))"

definition lua_ends :: "string list \<Rightarrow> nat" where
  "lua_ends ls = length (filter (\<lambda>w. w = ''end'') (concat (map (lua_words False []) ls)))"

definition lua_closed :: "string list \<Rightarrow> bool" where
  "lua_closed ls = (lua_opens ls = lua_ends ls)"

abbreviation compile_error :: goerr where
  "compile_error \<equiv> Fresh ''ERR Error compiling script''"

abbreviation expire_error :: goerr where
  "expire_error \<equiv> Fresh ''ERR invalid expire time''"

type_synonym 'r call = "'r \<Rightarrow> 'r \<times> (goerr + lval list)"

definition eval_script :: "string list \<Rightarrow> 'r call \<Rightarrow> 'r call" where
  "eval_script src body r = (if lua_closed src then body r else (r, Inl compile_error))"

definition runScript :: "call_env \<Rightarrow> string list \<Rightarrow> 'r call \<Rightarrow> 'r call" where
  "runScript e src body r =
     (case answered e (eval_script src body) r of
        (r', Inl err) \<Rightarrow> (r', Inl (locatorError e err))
      | (r', Inr values) \<Rightarrow> (r', Inr values))"

section \<open>The gate scripts (\<open>gate.go\<close>)\<close>

definition bindGateScript_source :: "string list" where
  "bindGateScript_source =
     [''local function valid_binding(raw)'',
      ''  local ok, binding = pcall(cjson.decode, raw)'',
      ''  return ok and type(binding) == \"table\" and'',
      ''    binding.service_name == ARGV[3] and binding.uid == ARGV[4] and'',
      ''    type(binding.gate_id) == \"string\" and binding.gate_id ~= \"\" and'',
      ''    type(binding.gate_endpoint) == \"string\" and binding.gate_endpoint ~= \"\" and'',
      ''    type(binding.conn_id) == \"string\" and binding.conn_id ~= \"\" and'',
      ''    type(binding.binding_token) == \"string\" and binding.binding_token ~= \"\"'',
      ''end'',
      '''',
      ''local current = redis.call(\"GET\", KEYS[1])'',
      ''if current then'',
      ''  local ttl = redis.call(\"PTTL\", KEYS[1])'',
      ''  if ttl <= 0 then return {-2} end'',
      ''  if not valid_binding(current) then return {-3} end'',
      ''redis.call(\"PSETEX\", KEYS[1], ARGV[1], ARGV[2])'',
      ''local ttl = redis.call(\"PTTL\", KEYS[1])'',
      ''if current then return {1, ARGV[2], ttl, current} end'',
      ''return {1, ARGV[2], ttl}'']"

text \<open>
  \<open>cjson.decode\<close> is part of the server; of a table only the fields the script compares matter, and a
  later duplicate of a key wins.
\<close>

definition lua_field :: "(string \<times> json) list \<Rightarrow> string \<Rightarrow> json option" where
  "lua_field ms k = map_of (rev ms) k"

definition nonempty_string :: "json option \<Rightarrow> bool" where
  "nonempty_string v = (case v of Some (JStr s) \<Rightarrow> s \<noteq> [] | _ \<Rightarrow> False)"

definition valid_binding :: "(string \<Rightarrow> json option) \<Rightarrow> string \<Rightarrow> string \<Rightarrow> string \<Rightarrow> bool" where
  "valid_binding cjson service uid raw =
     (case cjson raw of
        Some (JObj ms) \<Rightarrow>
          lua_field ms ''service_name'' = Some (JStr service) \<and> lua_field ms ''uid'' = Some (JStr uid) \<and>
          nonempty_string (lua_field ms ''gate_id'') \<and> nonempty_string (lua_field ms ''gate_endpoint'') \<and>
          nonempty_string (lua_field ms ''conn_id'') \<and> nonempty_string (lua_field ms ''binding_token'')
      | _ \<Rightarrow> False)"

text \<open>
  The statements of the bind script: what the text does once the block opened by
  \<open>if current then\<close> is closed after the two checks it guards.
\<close>

definition bindGateScript ::
  "'r redis_ops \<Rightarrow> (string \<Rightarrow> json option) \<Rightarrow> string \<Rightarrow> int \<Rightarrow> string \<Rightarrow> string \<Rightarrow> string \<Rightarrow> 'r call" where
  "bindGateScript R cjson key ttl raw service uid r =
     (let current = rGET R key r in
      if current \<noteq> None \<and> rPTTL R key r \<le> 0 then (r, Inr [LInt (-2)])
      else if current \<noteq> None \<and> \<not> valid_binding cjson service uid (the current) then (r, Inr [LInt (-3)])
      else (case rPSETEX R key ttl raw r of
          None \<Rightarrow> (r, Inl expire_error)
        | Some r' \<Rightarrow>
            (case current of
               Some previous \<Rightarrow> (r', Inr [LInt 1, LStr raw, LInt (rPTTL R key r'), LStr previous])
             | None \<Rightarrow> (r', Inr [LInt 1, LStr raw, LInt (rPTTL R key r')]))))"

definition locateGateScript_source :: "string list" where
  "locateGateScript_source =
     [''local current = redis.call(\"GET\", KEYS[1])'',
      ''if not current then return {0} end'',
      ''local ttl = redis.call(\"PTTL\", KEYS[1])'',
      ''if ttl <= 0 then return {-2} end'',
      ''return {1, current, ttl}'']"

definition locateGateScript :: "'r redis_ops \<Rightarrow> string \<Rightarrow> 'r call" where
  "locateGateScript R key r =
     (case rGET R key r of
        None \<Rightarrow> (r, Inr [LInt 0])
      | Some current \<Rightarrow>
          let ttl = rPTTL R key r in
          if ttl \<le> 0 then (r, Inr [LInt (-2)]) else (r, Inr [LInt 1, LStr current, LInt ttl]))"

definition renewGateLeaseScript_source :: "string list" where
  "renewGateLeaseScript_source =
     [''local current = redis.call(\"GET\", KEYS[1])'',
      ''if not current then return {0} end'',
      ''local ttl = redis.call(\"PTTL\", KEYS[1])'',
      ''if ttl <= 0 then return {-2} end'',
      ''if current ~= ARGV[1] then return {-1} end'',
      ''redis.call(\"PEXPIRE\", KEYS[1], ARGV[2])'',
      ''return {1, current, redis.call(\"PTTL\", KEYS[1])}'']"

definition renewGateLeaseScript :: "'r redis_ops \<Rightarrow> string \<Rightarrow> string \<Rightarrow> int \<Rightarrow> 'r call" where
  "renewGateLeaseScript R key raw ttlMillis r =
     (case rGET R key r of
        None \<Rightarrow> (r, Inr [LInt 0])
      | Some current \<Rightarrow>
          if rPTTL R key r \<le> 0 then (r, Inr [LInt (-2)])
          else if current \<noteq> raw then (r, Inr [LInt (-1)])
          else (case rPEXPIRE R key ttlMillis r of
              None \<Rightarrow> (r, Inl expire_error)
            | Some r' \<Rightarrow> (r', Inr [LInt 1, LStr current, LInt (rPTTL R key r')])))"

definition unbindGateScript_source :: "string list" where
  "unbindGateScript_source =
     [''local current = redis.call(\"GET\", KEYS[1])'',
      ''if not current then return {0} end'',
      ''local ttl = redis.call(\"PTTL\", KEYS[1])'',
      ''if ttl <= 0 then return {-2} end'',
      ''if current ~= ARGV[1] then return {-1} end'',
      ''redis.call(\"DEL\", KEYS[1])'',
      ''return {1}'']"

definition unbindGateScript :: "'r redis_ops \<Rightarrow> string \<Rightarrow> string \<Rightarrow> 'r call" where
  "unbindGateScript R key raw r =
     (case rGET R key r of
        None \<Rightarrow> (r, Inr [LInt 0])
      | Some current \<Rightarrow>
          if rPTTL R key r \<le> 0 then (r, Inr [LInt (-2)])
          else if current \<noteq> raw then (r, Inr [LInt (-1)])
          else (rDEL R key r, Inr [LInt 1]))"

section \<open>The node scripts (\<open>node.go\<close>)\<close>

definition bindNodeScript_source :: "string list" where
  "bindNodeScript_source =
     [''local epoch = redis.call(\"GET\", KEYS[1])'',
      ''if not epoch then return {0} end'',
      ''if epoch ~= ARGV[1] then return {-1} end'',
      ''redis.call(\"PSETEX\", KEYS[2], ARGV[3], ARGV[2])'',
      ''return {1}'']"

definition bindNodeScript ::
  "'r redis_ops \<Rightarrow> string \<Rightarrow> string \<Rightarrow> string \<Rightarrow> string \<Rightarrow> int \<Rightarrow> 'r call" where
  "bindNodeScript R epochKey key expected nodeID ttlMillis r =
     (case rGET R epochKey r of
        None \<Rightarrow> (r, Inr [LInt 0])
      | Some epoch \<Rightarrow>
          if epoch \<noteq> expected then (r, Inr [LInt (-1)])
          else (case rPSETEX R key ttlMillis nodeID r of
              None \<Rightarrow> (r, Inl expire_error)
            | Some r' \<Rightarrow> (r', Inr [LInt 1])))"

definition unbindNodeScript_source :: "string list" where
  "unbindNodeScript_source =
     [''local epoch = redis.call(\"GET\", KEYS[1])'',
      ''if not epoch then return {0} end'',
      ''if epoch ~= ARGV[1] then return {-1} end'',
      ''if redis.call(\"GET\", KEYS[2]) == ARGV[2] then'',
      ''  redis.call(\"DEL\", KEYS[2])'',
      ''end'',
      ''return {1}'']"

definition unbindNodeScript ::
  "'r redis_ops \<Rightarrow> string \<Rightarrow> string \<Rightarrow> string \<Rightarrow> string \<Rightarrow> 'r call" where
  "unbindNodeScript R epochKey key expected nodeID r =
     (case rGET R epochKey r of
        None \<Rightarrow> (r, Inr [LInt 0])
      | Some epoch \<Rightarrow>
          if epoch \<noteq> expected then (r, Inr [LInt (-1)])
          else ((if rGET R key r = Some nodeID then rDEL R key r else r), Inr [LInt 1]))"

definition deleteIfValueMatchesScript_source :: "string list" where
  "deleteIfValueMatchesScript_source =
     [''local current = redis.call(\"GET\", KEYS[1])'',
      ''if not current then return {0} end'',
      ''if current ~= ARGV[1] then return {-1} end'',
      ''redis.call(\"DEL\", KEYS[1])'',
      ''return {1}'']"

definition deleteIfValueMatchesScript :: "'r redis_ops \<Rightarrow> string \<Rightarrow> string \<Rightarrow> 'r call" where
  "deleteIfValueMatchesScript R key expected r =
     (case rGET R key r of
        None \<Rightarrow> (r, Inr [LInt 0])
      | Some current \<Rightarrow>
          if current \<noteq> expected then (r, Inr [LInt (-1)])
          else (rDEL R key r, Inr [LInt 1]))"

definition renewNodeScript_source :: "string list" where
  "renewNodeScript_source =
     [''local epoch = redis.call(\"GET\", KEYS[1])'',
      ''if not epoch then return {0} end'',
      ''if epoch ~= ARGV[1] then return {-1} end'',
      ''local current = redis.call(\"GET\", KEYS[2])'',
      ''if not current then return {-5} end'',
      ''if current ~= ARGV[2] then return {-6} end'',
      ''redis.call(\"PEXPIRE\", KEYS[2], ARGV[3])'',
      ''return {1}'']"

definition renewNodeScript ::
  "'r redis_ops \<Rightarrow> string \<Rightarrow> string \<Rightarrow> string \<Rightarrow> string \<Rightarrow> int \<Rightarrow> 'r call" where
  "renewNodeScript R epochKey key expected nodeID ttlMillis r =
     (case rGET R epochKey r of
        None \<Rightarrow> (r, Inr [LInt 0])
      | Some epoch \<Rightarrow>
          if epoch \<noteq> expected then (r, Inr [LInt (-1)])
          else (case rGET R key r of
              None \<Rightarrow> (r, Inr [LInt (-5)])
            | Some current \<Rightarrow>
                if current \<noteq> nodeID then (r, Inr [LInt (-6)])
                else (case rPEXPIRE R key ttlMillis r of
                    None \<Rightarrow> (r, Inl expire_error)
                  | Some r' \<Rightarrow> (r', Inr [LInt 1]))))"

definition renewNodeEpochScript_source :: "string list" where
  "renewNodeEpochScript_source =
     [''local current = redis.call(\"GET\", KEYS[1])'',
      ''if not current then return {0} end'',
      ''if current ~= ARGV[1] then return {-1} end'',
      ''redis.call(\"PEXPIRE\", KEYS[1], ARGV[2])'',
      ''return {1}'']"

definition renewNodeEpochScript :: "'r redis_ops \<Rightarrow> string \<Rightarrow> string \<Rightarrow> int \<Rightarrow> 'r call" where
  "renewNodeEpochScript R key expected ttlMillis r =
     (case rGET R key r of
        None \<Rightarrow> (r, Inr [LInt 0])
      | Some current \<Rightarrow>
          if current \<noteq> expected then (r, Inr [LInt (-1)])
          else (case rPEXPIRE R key ttlMillis r of
              None \<Rightarrow> (r, Inl expire_error)
            | Some r' \<Rightarrow> (r', Inr [LInt 1])))"

lemmas script_defs = bindGateScript_def locateGateScript_def renewGateLeaseScript_def unbindGateScript_def
  bindNodeScript_def unbindNodeScript_def deleteIfValueMatchesScript_def renewNodeScript_def
  renewNodeEpochScript_def

text \<open>Every script but the bind script closes its blocks.\<close>

lemma scripts_closed [redis_simps]:
  "lua_closed locateGateScript_source" "lua_closed renewGateLeaseScript_source"
  "lua_closed unbindGateScript_source" "lua_closed bindNodeScript_source"
  "lua_closed unbindNodeScript_source" "lua_closed deleteIfValueMatchesScript_source"
  "lua_closed renewNodeScript_source" "lua_closed renewNodeEpochScript_source"
  by code_simp+

lemma bindGateScript_not_closed [redis_simps]: "\<not> lua_closed bindGateScript_source"
  by code_simp

end
