(* ===== verification/Locator_Interfaces.thy ===== *)
theory Locator_Interfaces
  imports Json
begin

text \<open>
  What the gateway and the node rely on of a locator (\<open>locate.GateLocator\<close> and the epoch part of
  \<open>locate.NodeLocator\<close>, the interface \<open>epochStore\<close> of the node). Each interface is a record of the
  operations and a locale of the laws. A call takes an environment that decides how its round trip
  ends, so the laws hold for answered, lost and unsent calls alike: a call that fails may still have
  taken effect. Remaining times are in whole milliseconds, as the store counts them.
\<close>

section \<open>Process epochs\<close>

record ('e, 's) epoch_ops =
  esRegister :: "'e \<Rightarrow> string \<Rightarrow> string \<Rightarrow> string \<Rightarrow> duration \<Rightarrow> 's \<Rightarrow> 's \<times> goerr option"
  esRenew :: "'e \<Rightarrow> string \<Rightarrow> string \<Rightarrow> string \<Rightarrow> duration \<Rightarrow> 's \<Rightarrow> 's \<times> goerr option"
  esUnregister :: "'e \<Rightarrow> string \<Rightarrow> string \<Rightarrow> string \<Rightarrow> 's \<Rightarrow> 's \<times> goerr option"

type_synonym epochs = "string \<times> string \<Rightarrow> (string \<times> int) option"

text \<open>The remaining time of a holder after some milliseconds, gone when they exceed it.\<close>

definition elapse :: "int \<Rightarrow> ('h \<times> int) option \<Rightarrow> ('h \<times> int) option" where
  "elapse d h = (case h of None \<Rightarrow> None | Some (x, t) \<Rightarrow> if t < d then None else Some (x, t - d))"

lemma elapse_simps [simp]:
  "elapse d None = None"
  "elapse d (Some (x, t)) = (if t < d then None else Some (x, t - d))"
  by (simp_all add: elapse_def)

locale epoch_store =
  fixes E :: "('e, 's) epoch_ops" and epochs :: "'s \<Rightarrow> epochs" and inv :: "'s \<Rightarrow> bool"
    and pass :: "int \<Rightarrow> 's \<Rightarrow> 's"
  assumes register: "inv s \<Longrightarrow> ttl < 2 ^ 63 \<Longrightarrow> esRegister E e svc nid ep ttl s = (s', res) \<Longrightarrow>
      inv s' \<and>
      (epochs s' = epochs s \<and> res \<noteq> None \<or>
       epochs s (svc, nid) = None \<and> epochs s' = (epochs s)((svc, nid) \<mapsto> (ep, ttl div millisecond)))"
    and renew: "inv s \<Longrightarrow> ttl < 2 ^ 63 \<Longrightarrow> esRenew E e svc nid ep ttl s = (s', res) \<Longrightarrow>
      inv s' \<and>
      (epochs s' = epochs s \<and> res \<noteq> None \<or>
       (\<exists>t. epochs s (svc, nid) = Some (ep, t)) \<and> epochs s' = (epochs s)((svc, nid) \<mapsto> (ep, ttl div millisecond)))"
    and unregister: "inv s \<Longrightarrow> esUnregister E e svc nid ep s = (s', res) \<Longrightarrow>
      inv s' \<and>
      (epochs s' = epochs s \<or>
       (\<exists>t. epochs s (svc, nid) = Some (ep, t)) \<and> epochs s' = (epochs s)((svc, nid) := None))"
    and pass_epochs: "inv s \<Longrightarrow> 0 \<le> d \<Longrightarrow> inv (pass d s) \<and> epochs (pass d s) k = elapse d (epochs s k)"

section \<open>Gate bindings\<close>

record ('e, 's) gate_ops =
  glBind :: "'e \<Rightarrow> GateBinding \<Rightarrow> duration \<Rightarrow> 's \<Rightarrow> 's \<times> (goerr + GateLease \<times> GateBinding option)"
  glLocate :: "'e \<Rightarrow> string \<Rightarrow> string \<Rightarrow> 's \<Rightarrow> 's \<times> (goerr + GateLease)"
  glRenew :: "'e \<Rightarrow> GateBinding \<Rightarrow> duration \<Rightarrow> 's \<Rightarrow> 's \<times> (goerr + GateLease)"
  glUnbind :: "'e \<Rightarrow> GateBinding \<Rightarrow> 's \<Rightarrow> 's \<times> goerr option"

type_synonym gates = "string \<times> string \<Rightarrow> (GateBinding \<times> int) option"

abbreviation user_of :: "GateBinding \<Rightarrow> string \<times> string" where
  "user_of b \<equiv> (ServiceName b, UID b)"

abbreviation lease_of :: "GateBinding \<Rightarrow> int \<Rightarrow> GateLease" where
  "lease_of b t \<equiv> \<lparr>Binding = b, TTL = t * millisecond\<rparr>"

text \<open>
  A bind replaces whoever held the user and reports them; a renewal or an unbind acts on exactly the
  binding it names and otherwise changes nothing.
\<close>

locale gate_locator =
  fixes G :: "('e, 's) gate_ops" and gates :: "'s \<Rightarrow> gates" and inv :: "'s \<Rightarrow> bool"
    and storable :: "GateBinding \<Rightarrow> bool" and pass :: "int \<Rightarrow> 's \<Rightarrow> 's"
  assumes bind: "inv s \<Longrightarrow> storable b \<Longrightarrow> ttl < 2 ^ 63 \<Longrightarrow> glBind G e b ttl s = (s', res) \<Longrightarrow>
      inv s' \<and>
      (gates s' = gates s \<or> gates s' = (gates s)(user_of b \<mapsto> (b, ttl div millisecond))) \<and>
      (\<forall>lease prev. res = Inr (lease, prev) \<longrightarrow>
         gates s' = (gates s)(user_of b \<mapsto> (b, ttl div millisecond)) \<and>
         lease = lease_of b (ttl div millisecond) \<and> prev = map_option fst (gates s (user_of b)))"
    and locate: "inv s \<Longrightarrow> glLocate G e svc uid s = (s', found) \<Longrightarrow>
      s' = s \<and>
      (\<forall>lease. found = Inr lease \<longrightarrow>
         (\<exists>b t. gates s (svc, uid) = Some (b, t) \<and> 0 < t \<and> lease = lease_of b t))"
    and renew_gate: "inv s \<Longrightarrow> storable b \<Longrightarrow> ttl < 2 ^ 63 \<Longrightarrow> glRenew G e b ttl s = (s', renewed) \<Longrightarrow>
      inv s' \<and>
      (gates s' = gates s \<or>
       (\<exists>t. gates s (user_of b) = Some (b, t)) \<and> gates s' = (gates s)(user_of b \<mapsto> (b, ttl div millisecond))) \<and>
      (\<forall>lease. renewed = Inr lease \<longrightarrow>
         (\<exists>t. gates s (user_of b) = Some (b, t)) \<and>
         gates s' = (gates s)(user_of b \<mapsto> (b, ttl div millisecond)) \<and> lease = lease_of b (ttl div millisecond))"
    and unbind: "inv s \<Longrightarrow> storable b \<Longrightarrow> glUnbind G e b s = (s', err) \<Longrightarrow>
      inv s' \<and>
      (gates s' = gates s \<or>
       (\<exists>t. gates s (user_of b) = Some (b, t)) \<and> gates s' = (gates s)(user_of b := None))"
    and pass_gates: "inv s \<Longrightarrow> 0 \<le> d \<Longrightarrow> inv (pass d s) \<and> gates (pass d s) k = elapse d (gates s k)"

end
