(* ===== verification/Redis_Locator.thy ===== *)
theory Redis_Locator
  imports Redis_Scripts Locator_Interfaces
begin

text \<open>
  \<open>locate/redis\<close>: the operations of the locator. Gate operations (\<open>gate.go\<close>) keep one leased
  binding per service and user; node operations (\<open>node.go\<close>) keep the process epoch of every node
  and, fenced by it, the node a user is bound to.
\<close>

section \<open>Gate bindings (\<open>gate.go\<close>)\<close>

definition gateKey :: "string \<Rightarrow> string \<Rightarrow> string" where
  "gateKey serviceName uid =
     ''locate:gate:'' @ ''{'' @ EncodeToString (serviceName @ CHR 0x00 # uid) @ ''}''"

definition leaseMilliseconds :: "duration \<Rightarrow> goerr + int" where
  "leaseMilliseconds ttl =
     (let millis = go_div ttl millisecond in
      if millis \<le> 0 then Inl (LocateErr ErrInvalidGateTTL) else Inr millis)"

definition decodeBinding :: "string \<Rightarrow> string \<Rightarrow> string \<Rightarrow> goerr + GateBinding" where
  "decodeBinding raw serviceName uid =
     (case json_unmarshal raw of
        None \<Rightarrow> Inl (Wrap '': decode stored value'' [LocateErr ErrInvalidGateBinding])
      | Some b \<Rightarrow>
          if ServiceName b \<noteq> serviceName \<or> UID b \<noteq> uid \<or> \<not> ValidGateBinding b
          then Inl (LocateErr ErrInvalidGateBinding) else Inr b)"

definition leaseResultFields :: nat where "leaseResultFields = 3"

definition decodeLease :: "lval list \<Rightarrow> string \<Rightarrow> string \<Rightarrow> goerr + GateLease" where
  "decodeLease values serviceName uid =
     (if length values \<noteq> leaseResultFields then Inl (LocateErr ErrInvalidScriptResult)
      else (case values ! 1 of
          LInt _ \<Rightarrow> Inl (LocateErr ErrInvalidScriptResult)
        | LStr raw \<Rightarrow>
            (case values ! 2 of
               LStr _ \<Rightarrow> Inl (LocateErr ErrInvalidGateLease)
             | LInt ttlMillis \<Rightarrow>
                 if ttlMillis \<le> 0 \<or> ttlMillis > maxTTLMillis then Inl (LocateErr ErrInvalidGateLease)
                 else (case decodeBinding raw serviceName uid of
                     Inl err \<Rightarrow> Inl err
                   | Inr b \<Rightarrow> Inr \<lparr>Binding = b, TTL = wrap64 (ttlMillis * millisecond)\<rparr>))))"

definition decodeLeaseResult :: "lval list \<Rightarrow> string \<Rightarrow> string \<Rightarrow> goerr + GateLease" where
  "decodeLeaseResult values serviceName uid =
     (let status = scriptStatus values in
      if status = statusOK then decodeLease values serviceName uid
      else if status = statusMissing then Inl (LocateErr ErrGateNotFound)
      else if status = statusConflict then Inl (LocateErr ErrGateConflict)
      else if status = statusBadLease then Inl (LocateErr ErrInvalidGateLease)
      else Inl (LocateErr ErrInvalidScriptResult))"

definition decodeBindGateResult ::
  "lval list \<Rightarrow> string \<Rightarrow> string \<Rightarrow> goerr + GateLease \<times> GateBinding option" where
  "decodeBindGateResult values serviceName uid =
     (if length values \<noteq> leaseResultFields \<and> length values \<noteq> leaseResultFields + 1
      then Inl (LocateErr ErrInvalidScriptResult)
      else (case decodeLease (take leaseResultFields values) serviceName uid of
          Inl err \<Rightarrow> Inl err
        | Inr lease \<Rightarrow>
            if length values = leaseResultFields then Inr (lease, None)
            else (case values ! leaseResultFields of
                LInt _ \<Rightarrow> Inl (LocateErr ErrInvalidScriptResult)
              | LStr previousRaw \<Rightarrow>
                  (case decodeBinding previousRaw serviceName uid of
                     Inl err \<Rightarrow> Inl err
                   | Inr previous \<Rightarrow> Inr (lease, Some previous)))))"

text \<open>
  \<open>BindGate\<close> with the text of its script as an argument; \<open>BindGate\<close> sends the text of the source.
\<close>

definition BindGate_with ::
  "string list \<Rightarrow> 'r redis_ops \<Rightarrow> (string \<Rightarrow> json option) \<Rightarrow> call_env \<Rightarrow> GateBinding \<Rightarrow> duration \<Rightarrow>
   'r \<Rightarrow> 'r \<times> (goerr + GateLease \<times> GateBinding option)" where
  "BindGate_with src R cjson e candidate ttl r =
     (if \<not> ValidGateBinding candidate then (r, Inl (LocateErr ErrInvalidGateBinding))
      else (case leaseMilliseconds ttl of
          Inl err \<Rightarrow> (r, Inl err)
        | Inr ttlMillis \<Rightarrow>
            let raw = json_marshal candidate;
                key = gateKey (ServiceName candidate) (UID candidate) in
            (case runScript e src
                (bindGateScript R cjson key ttlMillis raw (ServiceName candidate) (UID candidate)) r of
               (r', Inl err) \<Rightarrow> (r', Inl err)
             | (r', Inr values) \<Rightarrow>
                 let status = scriptStatus values in
                 (r', if status = statusOK
                      then decodeBindGateResult values (ServiceName candidate) (UID candidate)
                      else if status = statusBadLease then Inl (LocateErr ErrInvalidGateLease)
                      else if status = statusInvalid then Inl (LocateErr ErrInvalidGateBinding)
                      else Inl (LocateErr ErrInvalidScriptResult)))))"

definition BindGate ::
  "'r redis_ops \<Rightarrow> (string \<Rightarrow> json option) \<Rightarrow> call_env \<Rightarrow> GateBinding \<Rightarrow> duration \<Rightarrow>
   'r \<Rightarrow> 'r \<times> (goerr + GateLease \<times> GateBinding option)" where
  "BindGate = BindGate_with bindGateScript_source"

definition LocateGate ::
  "'r redis_ops \<Rightarrow> call_env \<Rightarrow> string \<Rightarrow> string \<Rightarrow> 'r \<Rightarrow> 'r \<times> (goerr + GateLease)" where
  "LocateGate R e serviceName uid r =
     (if \<not> ValidServiceName serviceName \<or> \<not> ValidUID uid then (r, Inl (LocateErr ErrInvalidGateBinding))
      else (case runScript e locateGateScript_source (locateGateScript R (gateKey serviceName uid)) r of
          (r', Inl err) \<Rightarrow> (r', Inl err)
        | (r', Inr values) \<Rightarrow> (r', decodeLeaseResult values serviceName uid)))"

definition RenewGateLease ::
  "'r redis_ops \<Rightarrow> call_env \<Rightarrow> GateBinding \<Rightarrow> duration \<Rightarrow> 'r \<Rightarrow> 'r \<times> (goerr + GateLease)" where
  "RenewGateLease R e expected ttl r =
     (if \<not> ValidGateBinding expected then (r, Inl (LocateErr ErrInvalidGateBinding))
      else (case leaseMilliseconds ttl of
          Inl err \<Rightarrow> (r, Inl err)
        | Inr ttlMillis \<Rightarrow>
            let raw = json_marshal expected in
            (case runScript e renewGateLeaseScript_source
                (renewGateLeaseScript R (gateKey (ServiceName expected) (UID expected)) raw ttlMillis) r of
               (r', Inl err) \<Rightarrow> (r', Inl err)
             | (r', Inr values) \<Rightarrow> (r', decodeLeaseResult values (ServiceName expected) (UID expected)))))"

definition UnbindGate :: "'r redis_ops \<Rightarrow> call_env \<Rightarrow> GateBinding \<Rightarrow> 'r \<Rightarrow> 'r \<times> goerr option" where
  "UnbindGate R e expected r =
     (if \<not> ValidGateBinding expected then (r, Some (LocateErr ErrInvalidGateBinding))
      else let raw = json_marshal expected in
        (case runScript e unbindGateScript_source
            (unbindGateScript R (gateKey (ServiceName expected) (UID expected)) raw) r of
           (r', Inl err) \<Rightarrow> (r', Some err)
         | (r', Inr values) \<Rightarrow>
             let status = scriptStatus values in
             (r', if ackIdempotentUnbind status then None
                  else if status = statusBadLease then Some (LocateErr ErrInvalidGateLease)
                  else Some (LocateErr ErrInvalidScriptResult))))"

section \<open>Node bindings and epochs (\<open>node.go\<close>)\<close>

definition nodeBindingTTL :: duration where
  "nodeBindingTTL = 6 * 3600 * second"

definition nodeLocationKey :: "string \<Rightarrow> string \<Rightarrow> string \<Rightarrow> string" where
  "nodeLocationKey pre serviceName ident =
     pre @ ''{'' @ EncodeToString serviceName @ ''}:'' @ EncodeToString ident"

definition nodeKey :: "string \<Rightarrow> string \<Rightarrow> string" where
  "nodeKey serviceName uid = nodeLocationKey ''locate:node:'' serviceName uid"

definition nodeEpochKey :: "string \<Rightarrow> string \<Rightarrow> string" where
  "nodeEpochKey serviceName nodeID = nodeLocationKey ''locate:node:epoch:'' serviceName nodeID"

definition decodeNodeEpochResult :: "lval list \<Rightarrow> goerr option" where
  "decodeNodeEpochResult values =
     (let status = scriptStatus values in
      if status = statusOK then None
      else if status = statusMissing then Some (LocateErr ErrNodeEpochNotFound)
      else if status = statusConflict then Some (LocateErr ErrNodeEpochConflict)
      else Some (LocateErr ErrInvalidScriptResult))"

definition nodeEpochLeaseMilliseconds :: "string \<Rightarrow> string \<Rightarrow> string \<Rightarrow> duration \<Rightarrow> goerr + int" where
  "nodeEpochLeaseMilliseconds serviceName nodeID epoch ttl =
     (if \<not> ValidServiceName serviceName \<or> nodeID = [] \<or> epoch = [] \<or> ttl < millisecond
      then Inl (LocateErr ErrInvalidNodeEpoch) else Inr (go_div ttl millisecond))"

definition BindNode ::
  "'r redis_ops \<Rightarrow> call_env \<Rightarrow> string \<Rightarrow> string \<Rightarrow> string \<Rightarrow> string \<Rightarrow> 'r \<Rightarrow> 'r \<times> goerr option" where
  "BindNode R e serviceName uid nodeID epoch r =
     (if \<not> ValidNodeLocation serviceName uid nodeID then (r, Some (LocateErr ErrInvalidNodeBinding))
      else if epoch = [] then (r, Some (LocateErr ErrInvalidNodeEpoch))
      else (case runScript e bindNodeScript_source
          (bindNodeScript R (nodeEpochKey serviceName nodeID) (nodeKey serviceName uid) epoch nodeID
             (go_div nodeBindingTTL millisecond)) r of
          (r', Inl err) \<Rightarrow> (r', Some err)
        | (r', Inr values) \<Rightarrow> (r', decodeNodeEpochResult values)))"

definition clientGet :: "'r redis_ops \<Rightarrow> call_env \<Rightarrow> string \<Rightarrow> 'r \<Rightarrow> goerr + string option" where
  "clientGet R e key r = snd (answered e (\<lambda>r. (r, Inr (rGET R key r))) r)"

definition LocateNode ::
  "'r redis_ops \<Rightarrow> call_env \<Rightarrow> string \<Rightarrow> string \<Rightarrow> 'r \<Rightarrow> goerr + string" where
  "LocateNode R e serviceName uid r =
     (if \<not> ValidServiceName serviceName \<or> \<not> ValidUID uid then Inl (LocateErr ErrInvalidNodeBinding)
      else (case clientGet R e (nodeKey serviceName uid) r of
          Inr None \<Rightarrow> Inl (LocateErr ErrNodeNotFound)
        | Inl err \<Rightarrow> Inl (locatorError e err)
        | Inr (Some nodeID) \<Rightarrow>
            if \<not> ValidNodeLocation serviceName uid nodeID then Inl (LocateErr ErrInvalidNodeBinding)
            else Inr nodeID))"

definition RenewNode ::
  "'r redis_ops \<Rightarrow> call_env \<Rightarrow> string \<Rightarrow> string \<Rightarrow> string \<Rightarrow> string \<Rightarrow> 'r \<Rightarrow> 'r \<times> goerr option" where
  "RenewNode R e serviceName uid nodeID epoch r =
     (if \<not> ValidNodeLocation serviceName uid nodeID then (r, Some (LocateErr ErrInvalidNodeBinding))
      else if epoch = [] then (r, Some (LocateErr ErrInvalidNodeEpoch))
      else (case runScript e renewNodeScript_source
          (renewNodeScript R (nodeEpochKey serviceName nodeID) (nodeKey serviceName uid) epoch nodeID
             (go_div nodeBindingTTL millisecond)) r of
          (r', Inl err) \<Rightarrow> (r', Some err)
        | (r', Inr values) \<Rightarrow>
            (r', if scriptStatus values = statusNodeMissing then Some (LocateErr ErrNodeNotFound)
                 else if scriptStatus values = statusNodeConflict then Some (LocateErr ErrNodeConflict)
                 else decodeNodeEpochResult values)))"

definition UnbindNode ::
  "'r redis_ops \<Rightarrow> call_env \<Rightarrow> string \<Rightarrow> string \<Rightarrow> string \<Rightarrow> string \<Rightarrow> 'r \<Rightarrow> 'r \<times> goerr option" where
  "UnbindNode R e serviceName uid nodeID epoch r =
     (if \<not> ValidNodeLocation serviceName uid nodeID then (r, Some (LocateErr ErrInvalidNodeBinding))
      else if epoch = [] then (r, Some (LocateErr ErrInvalidNodeEpoch))
      else (case runScript e unbindNodeScript_source
          (unbindNodeScript R (nodeEpochKey serviceName nodeID) (nodeKey serviceName uid) epoch nodeID) r of
          (r', Inl err) \<Rightarrow> (r', Some err)
        | (r', Inr values) \<Rightarrow> (r', decodeNodeEpochResult values)))"

definition RegisterNodeEpoch ::
  "'r redis_ops \<Rightarrow> call_env \<Rightarrow> string \<Rightarrow> string \<Rightarrow> string \<Rightarrow> duration \<Rightarrow> 'r \<Rightarrow> 'r \<times> goerr option" where
  "RegisterNodeEpoch R e serviceName nodeID epoch ttl r =
     (case nodeEpochLeaseMilliseconds serviceName nodeID epoch ttl of
        Inl err \<Rightarrow> (r, Some err)
      | Inr ttlMillis \<Rightarrow>
          (case answered e (\<lambda>r. case rSETNX R (nodeEpochKey serviceName nodeID) epoch ttlMillis r of
               None \<Rightarrow> (r, Inl expire_error) | Some (r', wasSet) \<Rightarrow> (r', Inr wasSet)) r of
             (r', Inl err) \<Rightarrow> (r', Some (locatorError e err))
           | (r', Inr wasSet) \<Rightarrow> (r', if \<not> wasSet then Some (LocateErr ErrNodeEpochConflict) else None)))"

definition RenewNodeEpoch ::
  "'r redis_ops \<Rightarrow> call_env \<Rightarrow> string \<Rightarrow> string \<Rightarrow> string \<Rightarrow> duration \<Rightarrow> 'r \<Rightarrow> 'r \<times> goerr option" where
  "RenewNodeEpoch R e serviceName nodeID epoch ttl r =
     (case nodeEpochLeaseMilliseconds serviceName nodeID epoch ttl of
        Inl err \<Rightarrow> (r, Some err)
      | Inr ttlMillis \<Rightarrow>
          (case runScript e renewNodeEpochScript_source
              (renewNodeEpochScript R (nodeEpochKey serviceName nodeID) epoch ttlMillis) r of
             (r', Inl err) \<Rightarrow> (r', Some err)
           | (r', Inr values) \<Rightarrow> (r', decodeNodeEpochResult values)))"

definition LocateNodeEpoch ::
  "'r redis_ops \<Rightarrow> call_env \<Rightarrow> string \<Rightarrow> string \<Rightarrow> 'r \<Rightarrow> goerr + string" where
  "LocateNodeEpoch R e serviceName nodeID r =
     (if \<not> ValidServiceName serviceName \<or> nodeID = [] then Inl (LocateErr ErrInvalidNodeEpoch)
      else (case clientGet R e (nodeEpochKey serviceName nodeID) r of
          Inr None \<Rightarrow> Inl (LocateErr ErrNodeEpochNotFound)
        | Inl err \<Rightarrow> Inl (locatorError e err)
        | Inr (Some epoch) \<Rightarrow> if epoch = [] then Inl (LocateErr ErrInvalidNodeEpoch) else Inr epoch))"

definition UnregisterNodeEpoch ::
  "'r redis_ops \<Rightarrow> call_env \<Rightarrow> string \<Rightarrow> string \<Rightarrow> string \<Rightarrow> 'r \<Rightarrow> 'r \<times> goerr option" where
  "UnregisterNodeEpoch R e serviceName nodeID epoch r =
     (if \<not> ValidServiceName serviceName \<or> nodeID = [] \<or> epoch = [] then (r, Some (LocateErr ErrInvalidNodeEpoch))
      else (case runScript e deleteIfValueMatchesScript_source
          (deleteIfValueMatchesScript R (nodeEpochKey serviceName nodeID) epoch) r of
          (r', Inl err) \<Rightarrow> (r', Some err)
        | (r', Inr values) \<Rightarrow>
            (r', if ackIdempotentUnbind (scriptStatus values) then None
                 else Some (LocateErr ErrInvalidScriptResult))))"

section \<open>Keys\<close>

lemma append_delim_inject:
  assumes "a @ d # b = a' @ d # b'" "d \<notin> set a" "d \<notin> set a'"
  shows "a = a' \<and> b = b'"
  using assms by (induction a arbitrary: a') (case_tac [!] a', auto)

lemma gateKey_inject:
  assumes "ValidServiceName s" "ValidServiceName s'"
  shows "gateKey s u = gateKey s' u' \<longleftrightarrow> s = s' \<and> u = u'"
  using append_delim_inject [of s "CHR 0x00" u s' u'] assms [THEN ValidServiceName_no_NUL]
  by (auto simp: gateKey_def)

lemma brace_notin_b64 [simp]: "CHR ''}'' \<notin> set (EncodeToString s)"
  using EncodeToString_no_delim by auto

lemma nodeLocationKey_inject:
  "nodeLocationKey p s i = nodeLocationKey p s' i' \<longleftrightarrow> s = s' \<and> i = i'"
  using append_delim_inject [of "EncodeToString s" "CHR ''}''" "CHR '':'' # EncodeToString i"
      "EncodeToString s'" "CHR '':'' # EncodeToString i'"]
  by (auto simp: nodeLocationKey_def)

lemma node_keys_inject [simp]:
  "nodeKey s u = nodeKey s' u' \<longleftrightarrow> s = s' \<and> u = u'"
  "nodeEpochKey s u = nodeEpochKey s' u' \<longleftrightarrow> s = s' \<and> u = u'"
  by (simp_all add: nodeKey_def nodeEpochKey_def nodeLocationKey_inject)

lemma key_families_disjoint [simp]:
  "nodeKey s u \<noteq> nodeEpochKey s' n" "nodeEpochKey s' n \<noteq> nodeKey s u"
  "gateKey s u \<noteq> nodeKey s' u'" "nodeKey s' u' \<noteq> gateKey s u"
  "gateKey s u \<noteq> nodeEpochKey s' n" "nodeEpochKey s' n \<noteq> gateKey s u"
  by (simp_all add: gateKey_def nodeKey_def nodeEpochKey_def nodeLocationKey_def)

text \<open>
  The part of a key Redis Cluster hashes: what stands between the first opening brace and the next
  closing one, if it is not empty.
\<close>

definition hash_tag :: "string \<Rightarrow> string" where
  "hash_tag key =
     (let after = drop 1 (dropWhile (\<lambda>c. c \<noteq> CHR ''{'') key);
          tag = takeWhile (\<lambda>c. c \<noteq> CHR ''}'') after
      in if CHR ''{'' \<in> set key \<and> CHR ''}'' \<in> set after \<and> tag \<noteq> [] then tag else key)"

lemma takeWhile_b64: "takeWhile (\<lambda>c. c \<noteq> CHR ''}'') (EncodeToString s @ CHR ''}'' # t) = EncodeToString s"
  by (subst takeWhile_append2) auto

lemma node_key_hash_tag:
  assumes "s \<noteq> []"
  shows "hash_tag (nodeKey s u) = EncodeToString s" "hash_tag (nodeEpochKey s n) = EncodeToString s"
  using assms
  by (simp_all add: hash_tag_def nodeKey_def nodeEpochKey_def nodeLocationKey_def takeWhile_b64
      EncodeToString_Nil_iff)

section \<open>Calls\<close>

lemma runScript_Done [redis_simps]:
  "io_outcome e = Done \<Longrightarrow> lua_closed src \<Longrightarrow>
   runScript e src body r =
     (case body r of (r', Inl err) \<Rightarrow> (r', Inl (locatorError e err)) | (r', Inr vs) \<Rightarrow> (r', Inr vs))"
  by (simp add: runScript_def answered_def eval_script_def)

text \<open>Whatever happens to the round trip, the server ran the script or it did not.\<close>

lemma runScript_state:
  "fst (runScript e src body r) = r \<or> lua_closed src \<and> fst (runScript e src body r) = fst (body r)"
  by (auto simp: runScript_def answered_def eval_script_def split: outcome.splits prod.splits sum.splits)

lemma runScript_Inr:
  "runScript e src body r = (r', Inr vs) \<longleftrightarrow>
   io_outcome e = Done \<and> lua_closed src \<and> body r = (r', Inr vs)"
  by (auto simp: runScript_def answered_def eval_script_def split: outcome.splits prod.splits sum.splits if_splits)

lemma runScript_not_closed: "\<not> lua_closed src \<Longrightarrow> \<exists>err. runScript e src body r = (r, Inl err)"
  by (auto simp: runScript_def answered_def eval_script_def split: outcome.splits)

section \<open>Leases\<close>

lemma leaseMilliseconds_Inr:
  "leaseMilliseconds ttl = Inr ms \<longleftrightarrow> 0 < ms \<and> ms = ttl div millisecond \<and> millisecond \<le> ttl"
proof (cases "0 \<le> ttl")
  case True
  then show ?thesis
    by (auto simp: leaseMilliseconds_def Let_def go_div_def millisecond_def nanosecond_def
        pos_imp_zdiv_pos_iff sgn_if split: if_splits)
next
  case False
  then have "go_div ttl millisecond \<le> 0"
    by (simp add: go_div_def millisecond_def nanosecond_def pos_imp_zdiv_nonneg_iff)
  with False show ?thesis
    by (simp add: leaseMilliseconds_def millisecond_def nanosecond_def)
qed

text \<open>A duration is at most \<open>math.MaxInt64\<close> nanoseconds, so the lease is within the range.\<close>

lemma millis_le_max: "ttl < 2 ^ 63 \<Longrightarrow> ttl div millisecond \<le> maxTTLMillis"
  by (simp add: millisecond_def nanosecond_def maxTTLMillis_def)

lemma decodeLease_ok [redis_simps]:
  "0 < t \<Longrightarrow> t \<le> maxTTLMillis \<Longrightarrow> decodeBinding raw s u = Inr b \<Longrightarrow>
   decodeLease [v, LStr raw, LInt t] s u = Inr \<lparr>Binding = b, TTL = t * millisecond\<rparr>"
  by (simp add: decodeLease_def leaseResultFields_def maxTTLMillis_def millisecond_def nanosecond_def
      wrap64_id)

lemma ValidGateBinding_fields:
  "ValidGateBinding b \<Longrightarrow> ValidServiceName (ServiceName b) \<and> ValidUID (UID b)"
  by (simp add: ValidGateBinding_def)

lemma decodeBinding_marshal [redis_simps]:
  "utf8_binding b \<Longrightarrow> ValidGateBinding b \<Longrightarrow> ServiceName b = s \<Longrightarrow> UID b = u \<Longrightarrow>
   decodeBinding (json_marshal b) s u = Inr b"
  by (simp add: decodeBinding_def json_round_trip)

lemma json_marshal_inject:
  "utf8_binding b \<Longrightarrow> utf8_binding c \<Longrightarrow> json_marshal b = json_marshal c \<longleftrightarrow> b = c"
  by (metis json_round_trip option.inject)

text \<open>The decoder the script relies on reads what the locator wrote.\<close>

definition cjson_reads :: "(string \<Rightarrow> json option) \<Rightarrow> GateBinding \<Rightarrow> bool" where
  "cjson_reads cjson b =
     (cjson (json_marshal b) = Some (JObj (map (\<lambda>(k, v). (k, JStr v)) (binding_fields b))))"

lemma valid_binding_marshal:
  "cjson_reads cjson b \<Longrightarrow> ValidGateBinding b \<Longrightarrow>
   valid_binding cjson (ServiceName b) (UID b) (json_marshal b)"
  by (simp add: cjson_reads_def valid_binding_def lua_field_def binding_fields_def nonempty_string_def
      ValidGateBinding_def)

text \<open>
  The contents of a gate key: nothing, or a binding of that service and user that both decoders
  read, with a positive lease in range.
\<close>

definition gate_holds :: "(string \<Rightarrow> json option) \<Rightarrow> keyspace \<Rightarrow> GateBinding \<Rightarrow> int \<Rightarrow> bool" where
  "gate_holds cjson ks b t =
     (ks (gateKey (ServiceName b) (UID b)) = Some (json_marshal b, Some t) \<and>
      ValidGateBinding b \<and> utf8_binding b \<and> cjson_reads cjson b \<and> 0 < t \<and> t \<le> maxTTLMillis)"

definition gate_free :: "keyspace \<Rightarrow> string \<Rightarrow> string \<Rightarrow> bool" where
  "gate_free ks s u = (ks (gateKey s u) = None)"

context redis_server
begin

lemma psetex_the: "0 < ms \<Longrightarrow> ms \<le> maxTTLMillis \<Longrightarrow>
    rPSETEX R k ms v r = Some (the (rPSETEX R k ms v r)) \<and>
    look (the (rPSETEX R k ms v r)) = (look r)(k \<mapsto> (v, Some ms))"
  using psetex [of ms k v r] by auto

lemma pexpire_the: "0 < ms \<Longrightarrow> ms \<le> maxTTLMillis \<Longrightarrow>
    rPEXPIRE R k ms r = Some (the (rPEXPIRE R k ms r)) \<and>
    look (the (rPEXPIRE R k ms r)) = (look r)(k := map_option (\<lambda>(v, _). (v, Some ms)) (look r k))"
  using pexpire [of ms k r] by auto

lemma setnx_the: "0 < ms \<Longrightarrow> ms \<le> maxTTLMillis \<Longrightarrow>
    rSETNX R k v ms r = Some (fst (the (rSETNX R k v ms r)), look r k = None) \<and>
    look (fst (the (rSETNX R k v ms r))) = (if look r k = None then (look r)(k \<mapsto> (v, Some ms)) else look r)"
  using setnx [of ms k v r] by auto

lemma bindGate_free:
  assumes "lua_closed src" "io_outcome e = Done" "ValidGateBinding c" "utf8_binding c"
    and ms: "leaseMilliseconds ttl = Inr ms" "ms \<le> maxTTLMillis"
    and free: "gate_free (look r) (ServiceName c) (UID c)"
  obtains r' where
    "BindGate_with src R cjson e c ttl r = (r', Inr (\<lparr>Binding = c, TTL = ms * millisecond\<rparr>, None))"
    "look r' = (look r)(gateKey (ServiceName c) (UID c) \<mapsto> (json_marshal c, Some ms))"
proof -
  let ?k = "gateKey (ServiceName c) (UID c)"
  have pos: "0 < ms" using ms by (simp add: leaseMilliseconds_Inr)
  obtain r' where r': "rPSETEX R ?k ms (json_marshal c) r = Some r'"
    "look r' = (look r)(?k \<mapsto> (json_marshal c, Some ms))"
    using psetex pos ms(2) by blast
  have "BindGate_with src R cjson e c ttl r = (r', Inr (\<lparr>Binding = c, TTL = ms * millisecond\<rparr>, None))"
    using assms r' pos
    by (simp add: BindGate_with_def runScript_Done bindGateScript_def get pttl gate_free_def scriptStatus_def
        decodeBindGateResult_def leaseResultFields_def redis_simps)
  from this r'(2) show ?thesis by (rule that)
qed

lemma bindGate_takeover:
  assumes "lua_closed src" "io_outcome e = Done" "ValidGateBinding c" "utf8_binding c"
    and ms: "leaseMilliseconds ttl = Inr ms" "ms \<le> maxTTLMillis"
    and held: "gate_holds cjson (look r) p t" "ServiceName p = ServiceName c" "UID p = UID c"
  obtains r' where
    "BindGate_with src R cjson e c ttl r = (r', Inr (\<lparr>Binding = c, TTL = ms * millisecond\<rparr>, Some p))"
    "look r' = (look r)(gateKey (ServiceName c) (UID c) \<mapsto> (json_marshal c, Some ms))"
proof -
  let ?k = "gateKey (ServiceName c) (UID c)"
  have pos: "0 < ms" using ms by (simp add: leaseMilliseconds_Inr)
  obtain r' where r': "rPSETEX R ?k ms (json_marshal c) r = Some r'"
    "look r' = (look r)(?k \<mapsto> (json_marshal c, Some ms))"
    using psetex pos ms(2) by blast
  have p: "look r ?k = Some (json_marshal p, Some t)" "0 < t"
    "valid_binding cjson (ServiceName c) (UID c) (json_marshal p)"
    "decodeBinding (json_marshal p) (ServiceName c) (UID c) = Inr p"
    using held valid_binding_marshal [of cjson p] by (auto simp: gate_holds_def decodeBinding_marshal)
  have "BindGate_with src R cjson e c ttl r = (r', Inr (\<lparr>Binding = c, TTL = ms * millisecond\<rparr>, Some p))"
    using assms(1-6) p r' pos
    by (simp add: BindGate_with_def runScript_Done bindGateScript_def get pttl scriptStatus_def
        decodeBindGateResult_def leaseResultFields_def redis_simps)
  from this r'(2) show ?thesis by (rule that)
qed

lemma locateGate_held:
  assumes "io_outcome e = Done" "gate_holds cjson (look r) b t"
  shows "LocateGate R e (ServiceName b) (UID b) r = (r, Inr \<lparr>Binding = b, TTL = t * millisecond\<rparr>)"
  using assms ValidGateBinding_fields [of b]
  by (simp add: LocateGate_def runScript_Done locateGateScript_def get pttl gate_holds_def scriptStatus_def
      decodeLeaseResult_def redis_simps)

lemma locateGate_free:
  assumes "io_outcome e = Done" "gate_free (look r) s u" "ValidServiceName s" "ValidUID u"
  shows "LocateGate R e s u r = (r, Inl (LocateErr ErrGateNotFound))"
  using assms
  by (simp add: LocateGate_def runScript_Done locateGateScript_def get gate_free_def scriptStatus_def
      decodeLeaseResult_def redis_simps)

lemma locateGate_state: "fst (LocateGate R e s u r) = r"
  using runScript_state [of e locateGateScript_source "locateGateScript R (gateKey s u)" r]
  by (auto simp: LocateGate_def locateGateScript_def Let_def split: prod.splits sum.splits option.splits if_splits)

text \<open>A renewal, however its round trip ends, touches the caller's own binding or nothing.\<close>

lemma renewGateLease_state:
  assumes "RenewGateLease R e b ttl r = (r', res)" "ttl < 2 ^ 63"
  shows "look r' = look r \<or>
    (\<exists>t. look r (gateKey (ServiceName b) (UID b)) = Some (json_marshal b, Some t) \<and> 0 < t \<and>
      look r' = (look r)(gateKey (ServiceName b) (UID b) \<mapsto> (json_marshal b, Some (ttl div millisecond))))"
proof (cases "ValidGateBinding b \<and> (\<exists>ms. leaseMilliseconds ttl = Inr ms)")
  case False
  with assms(1) show ?thesis by (auto simp: RenewGateLease_def split: if_splits sum.splits)
next
  case True
  let ?k = "gateKey (ServiceName b) (UID b)" and ?raw = "json_marshal b"
  obtain ms where ms: "leaseMilliseconds ttl = Inr ms" using True by blast
  then have range: "0 < ms" "ms \<le> maxTTLMillis" "ms = ttl div millisecond"
    using assms(2) millis_le_max by (auto simp: leaseMilliseconds_Inr)
  let ?body = "renewGateLeaseScript R ?k ?raw ms"
  have "r' = fst (runScript e renewGateLeaseScript_source ?body r)"
    using assms(1) True ms by (auto simp: RenewGateLease_def Let_def split: prod.splits sum.splits)
  then consider "r' = r" | "r' = fst (?body r)"
    using runScript_state [of e renewGateLeaseScript_source ?body r] by auto
  then show ?thesis
    using pexpire_the [of ms ?k r] range
    by cases (auto simp: renewGateLeaseScript_def get pttl pttl_of_def split: option.splits if_splits prod.splits)
qed

lemma renewGateLease_held:
  assumes "io_outcome e = Done" "gate_holds cjson (look r) b t"
    and ms: "leaseMilliseconds ttl = Inr ms" "ms \<le> maxTTLMillis"
  obtains r' where "RenewGateLease R e b ttl r = (r', Inr \<lparr>Binding = b, TTL = ms * millisecond\<rparr>)"
    "look r' = (look r)(gateKey (ServiceName b) (UID b) \<mapsto> (json_marshal b, Some ms))"
proof -
  let ?k = "gateKey (ServiceName b) (UID b)"
  have pos: "0 < ms" using ms by (simp add: leaseMilliseconds_Inr)
  obtain r' where r': "rPEXPIRE R ?k ms r = Some r'" "look r' = (look r)(?k \<mapsto> (json_marshal b, Some ms))"
    using pexpire [OF pos ms(2), of ?k r] assms(2) by (auto simp: gate_holds_def)
  have "RenewGateLease R e b ttl r = (r', Inr \<lparr>Binding = b, TTL = ms * millisecond\<rparr>)"
    using assms r' pos
    by (simp add: RenewGateLease_def runScript_Done renewGateLeaseScript_def get pttl gate_holds_def
        scriptStatus_def decodeLeaseResult_def redis_simps)
  from this r'(2) show ?thesis by (rule that)
qed

lemma unbindGate_state:
  assumes "UnbindGate R e b r = (r', res)"
  shows "look r' = look r \<or>
    (\<exists>t. look r (gateKey (ServiceName b) (UID b)) = Some (json_marshal b, Some t) \<and>
      look r' = (look r)(gateKey (ServiceName b) (UID b) := None))"
proof (cases "ValidGateBinding b")
  case True
  let ?k = "gateKey (ServiceName b) (UID b)"
  let ?body = "unbindGateScript R ?k (json_marshal b)"
  have "r' = fst (runScript e unbindGateScript_source ?body r)"
    using assms True by (auto simp: UnbindGate_def Let_def split: prod.splits sum.splits)
  then consider "r' = r" | "r' = fst (?body r)"
    using runScript_state [of e unbindGateScript_source ?body r] by auto
  then show ?thesis
    by cases (auto simp: unbindGateScript_def get pttl pttl_of_def del split: option.splits if_splits prod.splits)
qed (use assms in \<open>auto simp: UnbindGate_def\<close>)

lemma unbindGate_held:
  assumes "io_outcome e = Done" "gate_holds cjson (look r) b t"
  obtains r' where "UnbindGate R e b r = (r', None)"
    "look r' = (look r)(gateKey (ServiceName b) (UID b) := None)"
proof -
  let ?k = "gateKey (ServiceName b) (UID b)"
  have "UnbindGate R e b r = (rDEL R ?k r, None)"
    using assms
    by (simp add: UnbindGate_def runScript_Done unbindGateScript_def get pttl gate_holds_def
        scriptStatus_def ackIdempotentUnbind_def redis_simps)
  from this del show ?thesis by (rule that)
qed

end

section \<open>Node operations\<close>

lemma nodeBinding_millis [redis_simps]:
  "go_div nodeBindingTTL millisecond = 21600000"
  by (simp add: nodeBindingTTL_def go_div_nonneg second_def millisecond_def nanosecond_def)

lemma nodeBinding_in_range [simp]: "(21600000 :: int) \<le> maxTTLMillis"
  by (simp add: maxTTLMillis_def)

lemma nodeEpochLease_Inr:
  "nodeEpochLeaseMilliseconds s n ep ttl = Inr ms \<longleftrightarrow>
   ValidServiceName s \<and> n \<noteq> [] \<and> ep \<noteq> [] \<and> millisecond \<le> ttl \<and> ms = ttl div millisecond"
  by (auto simp: nodeEpochLeaseMilliseconds_def go_div_nonneg millisecond_def nanosecond_def)

lemma nodeEpochLease_range:
  "nodeEpochLeaseMilliseconds s n ep ttl = Inr ms \<Longrightarrow> ttl < 2 ^ 63 \<Longrightarrow> 0 < ms \<and> ms \<le> maxTTLMillis"
  using millis_le_max [of ttl] pos_imp_zdiv_pos_iff [of millisecond ttl]
  by (auto simp: nodeEpochLease_Inr millisecond_def nanosecond_def)

context redis_server
begin

lemma bindNodeScript_done:
  "bindNodeScript R ek k ep n 21600000 r =
    (case look r ek of None \<Rightarrow> (r, Inr [LInt 0])
     | Some (v, _) \<Rightarrow> if v \<noteq> ep then (r, Inr [LInt (-1)])
         else (the (rPSETEX R k 21600000 n r), Inr [LInt 1]))"
  using psetex_the [of 21600000 k n r] by (auto simp: bindNodeScript_def get split: option.splits)

text \<open>
  A node writes a user's location only while the store holds exactly its own epoch, whatever
  happens to the answer.
\<close>

lemma bindNode_state:
  assumes "BindNode R e s u n ep r = (r', res)"
  shows "look r' = look r \<or>
    (map_option fst (look r (nodeEpochKey s n)) = Some ep \<and>
     look r' = (look r)(nodeKey s u \<mapsto> (n, Some 21600000)))"
proof (cases "ValidNodeLocation s u n \<and> ep \<noteq> []")
  case True
  let ?body = "bindNodeScript R (nodeEpochKey s n) (nodeKey s u) ep n 21600000"
  have "r' = fst (runScript e bindNodeScript_source ?body r)"
    using assms True by (auto simp: BindNode_def redis_simps split: prod.splits sum.splits)
  then consider "r' = r" | "r' = fst (?body r)"
    using runScript_state [of e bindNodeScript_source ?body r] by auto
  then show ?thesis
    using psetex_the [of 21600000 "nodeKey s u" n r]
    by cases (auto simp: bindNodeScript_done split: option.splits if_splits)
qed (use assms in \<open>auto simp: BindNode_def split: if_splits\<close>)

lemma bindNode_current:
  assumes "io_outcome e = Done" "ValidNodeLocation s u n" "ep \<noteq> []"
    and "map_option fst (look r (nodeEpochKey s n)) = Some ep"
  obtains r' where "BindNode R e s u n ep r = (r', None)"
    "look r' = (look r)(nodeKey s u \<mapsto> (n, Some 21600000))"
proof -
  let ?r = "the (rPSETEX R (nodeKey s u) 21600000 n r)"
  have "BindNode R e s u n ep r = (?r, None)"
    using assms
    by (auto simp: BindNode_def runScript_Done bindNodeScript_done decodeNodeEpochResult_def
        scriptStatus_def redis_simps)
  moreover have "look ?r = (look r)(nodeKey s u \<mapsto> (n, Some 21600000))"
    using psetex_the [of 21600000 "nodeKey s u" n r] by simp
  ultimately show ?thesis by (rule that)
qed

lemma bindNode_stale:
  assumes "io_outcome e = Done" "ValidNodeLocation s u n" "ep \<noteq> []"
    and "map_option fst (look r (nodeEpochKey s n)) \<noteq> Some ep"
  shows "BindNode R e s u n ep r = (r, Some (LocateErr
    (if look r (nodeEpochKey s n) = None then ErrNodeEpochNotFound else ErrNodeEpochConflict)))"
  using assms
  by (cases "look r (nodeEpochKey s n)")
    (auto simp: BindNode_def runScript_Done bindNodeScript_done decodeNodeEpochResult_def
      scriptStatus_def redis_simps)

lemma clientGet_Done [simp]: "io_outcome e = Done \<Longrightarrow> clientGet R e k r = Inr (map_option fst (look r k))"
  by (simp add: clientGet_def answered_def get)

lemma locateNode_bound:
  assumes "io_outcome e = Done" "ValidNodeLocation s u n" "map_option fst (look r (nodeKey s u)) = Some n"
  shows "LocateNode R e s u r = Inr n"
  using assms by (auto simp: LocateNode_def ValidNodeLocation_def)

lemma unbindNode_state:
  assumes "UnbindNode R e s u n ep r = (r', res)"
  shows "look r' = look r \<or>
    (map_option fst (look r (nodeEpochKey s n)) = Some ep \<and>
     map_option fst (look r (nodeKey s u)) = Some n \<and> look r' = (look r)(nodeKey s u := None))"
proof (cases "ValidNodeLocation s u n \<and> ep \<noteq> []")
  case True
  let ?body = "unbindNodeScript R (nodeEpochKey s n) (nodeKey s u) ep n"
  have "r' = fst (runScript e unbindNodeScript_source ?body r)"
    using assms True by (auto simp: UnbindNode_def redis_simps split: prod.splits sum.splits)
  then consider "r' = r" | "r' = fst (?body r)"
    using runScript_state [of e unbindNodeScript_source ?body r] by auto
  then show ?thesis
    by cases (auto simp: unbindNodeScript_def get del split: option.splits if_splits)
qed (use assms in \<open>auto simp: UnbindNode_def split: if_splits\<close>)

lemma renewNode_state:
  assumes "RenewNode R e s u n ep r = (r', res)"
  shows "look r' = look r \<or>
    (map_option fst (look r (nodeEpochKey s n)) = Some ep \<and>
     map_option fst (look r (nodeKey s u)) = Some n \<and>
     look r' = (look r)(nodeKey s u \<mapsto> (n, Some 21600000)))"
proof (cases "ValidNodeLocation s u n \<and> ep \<noteq> []")
  case True
  let ?body = "renewNodeScript R (nodeEpochKey s n) (nodeKey s u) ep n 21600000"
  have "r' = fst (runScript e renewNodeScript_source ?body r)"
    using assms True by (auto simp: RenewNode_def redis_simps split: prod.splits sum.splits)
  then consider "r' = r" | "r' = fst (?body r)"
    using runScript_state [of e renewNodeScript_source ?body r] by auto
  then show ?thesis
    using pexpire_the [of 21600000 "nodeKey s u" r]
    by cases (auto simp: renewNodeScript_def get split: option.splits if_splits)
qed (use assms in \<open>auto simp: RenewNode_def split: if_splits\<close>)

end

section \<open>The epoch interface\<close>

definition redis_epoch_ops :: "'r redis_ops \<Rightarrow> (call_env, 'r) epoch_ops" where
  "redis_epoch_ops R = \<lparr>esRegister = RegisterNodeEpoch R, esRenew = RenewNodeEpoch R,
     esUnregister = UnregisterNodeEpoch R\<rparr>"

definition epochs_of :: "keyspace \<Rightarrow> epochs" where
  "epochs_of ks = (\<lambda>(svc, nid).
     case ks (nodeEpochKey svc nid) of Some (ep, Some t) \<Rightarrow> Some (ep, t) | _ \<Rightarrow> None)"

text \<open>Every epoch key expires: the locator writes none without a time to live.\<close>

definition epochs_expire :: "keyspace \<Rightarrow> bool" where
  "epochs_expire ks = (\<forall>svc nid ep. ks (nodeEpochKey svc nid) \<noteq> Some (ep, None))"

lemma epochs_of_put:
  "epochs_of (ks(nodeEpochKey s n \<mapsto> (ep, Some t))) = (epochs_of ks)((s, n) \<mapsto> (ep, t))"
  by (auto simp: epochs_of_def fun_eq_iff)

lemma epochs_of_del: "epochs_of (ks(nodeEpochKey s n := None)) = (epochs_of ks)((s, n) := None)"
  by (auto simp: epochs_of_def fun_eq_iff)

lemma epochs_expire_put [simp]:
  "epochs_expire ks \<Longrightarrow> epochs_expire (ks(nodeEpochKey s n \<mapsto> (ep, Some t)))"
  "epochs_expire ks \<Longrightarrow> epochs_expire (ks(nodeEpochKey s n := None))"
  by (auto simp: epochs_expire_def)

lemma epochs_of_None: "epochs_expire ks \<Longrightarrow> epochs_of ks (s, n) = None \<longleftrightarrow> ks (nodeEpochKey s n) = None"
  by (auto simp: epochs_of_def epochs_expire_def split: option.splits)

lemma epochs_of_Some: "epochs_expire ks \<Longrightarrow>
    map_option fst (ks (nodeEpochKey s n)) = Some ep \<longleftrightarrow> (\<exists>t. epochs_of ks (s, n) = Some (ep, t))"
  by (auto simp: epochs_of_def epochs_expire_def split: option.splits)

context redis_server
begin

lemma registerNodeEpoch_state:
  assumes "RegisterNodeEpoch R e s n ep ttl r = (r', res)" "ttl < 2 ^ 63"
  shows "look r' = look r \<and> res \<noteq> None \<or>
    look r (nodeEpochKey s n) = None \<and>
    look r' = (look r)(nodeEpochKey s n \<mapsto> (ep, Some (ttl div millisecond)))"
proof (cases "nodeEpochLeaseMilliseconds s n ep ttl")
  case (Inr ms)
  then have ms: "0 < ms" "ms \<le> maxTTLMillis" "ms = ttl div millisecond"
    using nodeEpochLease_range [OF Inr assms(2)] by (auto simp: nodeEpochLease_Inr)
  show ?thesis
    using assms(1) Inr setnx_the [OF ms(1,2), of "nodeEpochKey s n" ep r] ms(3)
    by (auto simp: RegisterNodeEpoch_def answered_def split: outcome.splits prod.splits sum.splits
        option.splits if_splits)
qed (use assms in \<open>auto simp: RegisterNodeEpoch_def\<close>)

lemma renewNodeEpoch_state:
  assumes "RenewNodeEpoch R e s n ep ttl r = (r', res)" "ttl < 2 ^ 63"
  shows "look r' = look r \<and> res \<noteq> None \<or>
    map_option fst (look r (nodeEpochKey s n)) = Some ep \<and>
    look r' = (look r)(nodeEpochKey s n \<mapsto> (ep, Some (ttl div millisecond)))"
proof (cases "nodeEpochLeaseMilliseconds s n ep ttl")
  case (Inr ms)
  then have ms: "0 < ms" "ms \<le> maxTTLMillis" "ms = ttl div millisecond"
    using nodeEpochLease_range [OF Inr assms(2)] by (auto simp: nodeEpochLease_Inr)
  let ?body = "renewNodeEpochScript R (nodeEpochKey s n) ep ms"
  have body: "?body r = (case look r (nodeEpochKey s n) of None \<Rightarrow> (r, Inr [LInt 0])
      | Some (v, _) \<Rightarrow> if v \<noteq> ep then (r, Inr [LInt (-1)])
          else (the (rPEXPIRE R (nodeEpochKey s n) ms r), Inr [LInt 1]))"
    using pexpire_the [OF ms(1,2), of "nodeEpochKey s n" r]
    by (auto simp: renewNodeEpochScript_def get split: option.splits)
  let ?run = "runScript e renewNodeEpochScript_source ?body r"
  have r': "r' = fst ?run" and res: "snd ?run = Inl err \<Longrightarrow> res \<noteq> None"
    "snd ?run = Inr vs \<Longrightarrow> res = decodeNodeEpochResult vs" for err vs
    using assms(1) Inr by (auto simp: RenewNodeEpoch_def split: sum.splits prod.splits)
  consider (skipped) "fst ?run = r" "res \<noteq> None" | (ran) err where "fst ?run = fst (?body r)" "snd ?run = Inl err"
    | (answered) vs where "?body r = (fst ?run, Inr vs)" "snd ?run = Inr vs"
    using runScript_state [of e renewNodeEpochScript_source ?body r] res
      runScript_Inr [of e renewNodeEpochScript_source ?body r "fst ?run"]
    by (cases "snd ?run") (auto simp: prod_eq_iff)
  then show ?thesis
    using r' res body pexpire_the [OF ms(1,2), of "nodeEpochKey s n" r] ms(3)
    by cases (auto simp: decodeNodeEpochResult_def scriptStatus_def redis_simps split: option.splits if_splits)
qed (use assms in \<open>auto simp: RenewNodeEpoch_def\<close>)

lemma unregisterNodeEpoch_state:
  assumes "UnregisterNodeEpoch R e s n ep r = (r', res)"
  shows "look r' = look r \<or>
    map_option fst (look r (nodeEpochKey s n)) = Some ep \<and> look r' = (look r)(nodeEpochKey s n := None)"
proof (cases "ValidServiceName s \<and> n \<noteq> [] \<and> ep \<noteq> []")
  case True
  let ?body = "deleteIfValueMatchesScript R (nodeEpochKey s n) ep"
  have "r' = fst (runScript e deleteIfValueMatchesScript_source ?body r)"
    using assms True by (auto simp: UnregisterNodeEpoch_def split: prod.splits sum.splits)
  then consider "r' = r" | "r' = fst (?body r)"
    using runScript_state [of e deleteIfValueMatchesScript_source ?body r] by auto
  then show ?thesis
    by cases (auto simp: deleteIfValueMatchesScript_def get del split: option.splits if_splits)
qed (use assms in \<open>auto simp: UnregisterNodeEpoch_def split: if_splits\<close>)

end

lemma aged_epochs:
  "epochs_expire ks \<Longrightarrow> (\<And>k. ks' k = aged d (ks k)) \<Longrightarrow>
   epochs_expire ks' \<and> epochs_of ks' k = elapse d (epochs_of ks k)"
  by (auto simp: epochs_expire_def epochs_of_def aged_def split: option.splits prod.splits)

sublocale redis_clock \<subseteq> epochs: epoch_store "redis_epoch_ops R" "\<lambda>r. epochs_of (look r)"
  "\<lambda>r. epochs_expire (look r)" pass
proof unfold_locales
  fix r ttl e svc nid ep r' res
  assume "epochs_expire (look r)" "ttl < 2 ^ 63" "esRegister (redis_epoch_ops R) e svc nid ep ttl r = (r', res)"
  then show "epochs_expire (look r') \<and>
      (epochs_of (look r') = epochs_of (look r) \<and> res \<noteq> None \<or>
       epochs_of (look r) (svc, nid) = None \<and>
       epochs_of (look r') = (epochs_of (look r))((svc, nid) \<mapsto> (ep, ttl div millisecond)))"
    using registerNodeEpoch_state [of e svc nid ep ttl r r' res]
    by (auto simp: redis_epoch_ops_def epochs_of_put epochs_of_None)
next
  fix r ttl e svc nid ep r' res
  assume "epochs_expire (look r)" "ttl < 2 ^ 63" "esRenew (redis_epoch_ops R) e svc nid ep ttl r = (r', res)"
  then show "epochs_expire (look r') \<and>
      (epochs_of (look r') = epochs_of (look r) \<and> res \<noteq> None \<or>
       (\<exists>t. epochs_of (look r) (svc, nid) = Some (ep, t)) \<and>
       epochs_of (look r') = (epochs_of (look r))((svc, nid) \<mapsto> (ep, ttl div millisecond)))"
    using renewNodeEpoch_state [of e svc nid ep ttl r r' res] epochs_of_Some [of "look r" svc nid ep]
    by (auto simp: redis_epoch_ops_def epochs_of_put)
next
  fix r e svc nid ep r' res
  assume "epochs_expire (look r)" "esUnregister (redis_epoch_ops R) e svc nid ep r = (r', res)"
  then show "epochs_expire (look r') \<and>
      (epochs_of (look r') = epochs_of (look r) \<or>
       (\<exists>t. epochs_of (look r) (svc, nid) = Some (ep, t)) \<and>
       epochs_of (look r') = (epochs_of (look r))((svc, nid) := None))"
    using unregisterNodeEpoch_state [of e svc nid ep r r' res] epochs_of_Some [of "look r" svc nid ep]
    by (auto simp: redis_epoch_ops_def epochs_of_del)
next
  fix r d k
  assume "epochs_expire (look r)" "(0::int) \<le> d"
  then show "epochs_expire (look (pass d r)) \<and> epochs_of (look (pass d r)) k = elapse d (epochs_of (look r) k)"
    using aged_epochs [of "look r" "look (pass d r)" d k] pass by blast
qed

section \<open>The gate interface\<close>

definition redis_gate_ops ::
  "string list \<Rightarrow> 'r redis_ops \<Rightarrow> (string \<Rightarrow> json option) \<Rightarrow> (call_env, 'r) gate_ops" where
  "redis_gate_ops src R cjson = \<lparr>glBind = BindGate_with src R cjson, glLocate = LocateGate R,
     glRenew = RenewGateLease R, glUnbind = UnbindGate R\<rparr>"

text \<open>A gate key holds a binding of its own user that both decoders read, with an expiry in range.\<close>

definition gate_storable :: "(string \<Rightarrow> json option) \<Rightarrow> GateBinding \<Rightarrow> bool" where
  "gate_storable cjson b = (utf8_binding b \<and> cjson_reads cjson b)"

definition gate_entry_ok :: "(string \<Rightarrow> json option) \<Rightarrow> string \<Rightarrow> string \<Rightarrow> entry \<Rightarrow> bool" where
  "gate_entry_ok cjson s u v =
     (\<exists>b t. v = (json_marshal b, Some t) \<and> ServiceName b = s \<and> UID b = u \<and> ValidGateBinding b \<and>
        gate_storable cjson b \<and> 0 \<le> t \<and> t \<le> maxTTLMillis)"

definition gates_ok :: "(string \<Rightarrow> json option) \<Rightarrow> keyspace \<Rightarrow> bool" where
  "gates_ok cjson ks = (\<forall>s u v. ValidServiceName s \<longrightarrow> ks (gateKey s u) = Some v \<longrightarrow> gate_entry_ok cjson s u v)"

definition gates_of :: "keyspace \<Rightarrow> gates" where
  "gates_of ks = (\<lambda>(s, u). if \<not> ValidServiceName s then None else
     (case ks (gateKey s u) of
        Some (v, Some t) \<Rightarrow> (case decodeBinding v s u of Inr b \<Rightarrow> Some (b, t) | Inl _ \<Rightarrow> None)
      | _ \<Rightarrow> None))"

lemma gates_cases:
  assumes "gates_ok cjson ks" "ValidServiceName s"
  obtains (free) "ks (gateKey s u) = None" "gates_of ks (s, u) = None"
  | (held) b t where "ks (gateKey s u) = Some (json_marshal b, Some t)" "gates_of ks (s, u) = Some (b, t)"
      "ServiceName b = s" "UID b = u" "ValidGateBinding b" "gate_storable cjson b" "0 \<le> t" "t \<le> maxTTLMillis"
proof (cases "ks (gateKey s u)")
  case None
  then show ?thesis by (intro free) (auto simp: gates_of_def)
next
  case (Some v)
  then obtain b t where b: "v = (json_marshal b, Some t)" "ServiceName b = s" "UID b = u"
    "ValidGateBinding b" "gate_storable cjson b" "0 \<le> t" "t \<le> maxTTLMillis"
    using assms unfolding gates_ok_def gate_entry_ok_def by blast
  then show ?thesis
    using Some assms(2) by (intro held [of b t]) (auto simp: gates_of_def decodeBinding_marshal gate_storable_def)
qed

lemma gates_of_put:
  assumes "ValidGateBinding b" "gate_storable cjson b"
  shows "gates_of (ks(gateKey (ServiceName b) (UID b) \<mapsto> (json_marshal b, Some t))) =
    (gates_of ks)(user_of b \<mapsto> (b, t))"
  using assms ValidGateBinding_fields [of b] gateKey_inject [of _ "ServiceName b" _ "UID b"]
  by (auto simp: gates_of_def fun_eq_iff decodeBinding_marshal gate_storable_def)

lemma gates_of_del:
  assumes "ValidGateBinding b"
  shows "gates_of (ks(gateKey (ServiceName b) (UID b) := None)) = (gates_of ks)(user_of b := None)"
  using assms ValidGateBinding_fields [of b] gateKey_inject [of _ "ServiceName b" _ "UID b"]
  by (auto simp: gates_of_def fun_eq_iff)

lemma gates_ok_put:
  assumes "gates_ok cjson ks" "ValidGateBinding b" "gate_storable cjson b" "0 \<le> t" "t \<le> maxTTLMillis"
  shows "gates_ok cjson (ks(gateKey (ServiceName b) (UID b) \<mapsto> (json_marshal b, Some t)))"
  using assms ValidGateBinding_fields [of b] gateKey_inject [of _ "ServiceName b" _ "UID b"]
  by (auto simp: gates_ok_def gate_entry_ok_def)

lemma gates_ok_del: "gates_ok cjson ks \<Longrightarrow> gates_ok cjson (ks(k := None))"
  by (auto simp: gates_ok_def)

lemma aged_gates:
  assumes "gates_ok cjson ks" "0 \<le> d" "\<And>k. ks' k = aged d (ks k)"
  shows "gates_ok cjson ks' \<and> gates_of ks' k = elapse d (gates_of ks k)"
proof
  show "gates_ok cjson ks'"
    using assms unfolding gates_ok_def gate_entry_ok_def
    by (fastforce simp: aged_def split: option.splits if_splits)
  show "gates_of ks' k = elapse d (gates_of ks k)"
    using assms(3) by (cases k)
      (auto simp: gates_of_def aged_def split: option.splits sum.splits)
qed

text \<open>The reply of a successful bind: the new binding, its lease and the binding it replaced.\<close>

definition bind_reply :: "GateBinding \<Rightarrow> int \<Rightarrow> (GateBinding \<times> int) option \<Rightarrow> lval list" where
  "bind_reply b ms holder = [LInt 1, LStr (json_marshal b), LInt ms] @
     (case holder of None \<Rightarrow> [] | Some (p, _) \<Rightarrow> [LStr (json_marshal p)])"

lemma bind_reply_status [simp]: "scriptStatus (bind_reply b ms h) = 1"
  by (simp add: scriptStatus_def bind_reply_def)

lemma decode_bind_reply:
  assumes "gates_ok cjson ks" "ValidGateBinding b" "gate_storable cjson b" "0 < ms" "ms \<le> maxTTLMillis"
  shows "decodeBindGateResult (bind_reply b ms (gates_of ks (user_of b))) (ServiceName b) (UID b) =
    Inr (lease_of b ms, map_option fst (gates_of ks (user_of b)))"
proof -
  have svc: "ValidServiceName (ServiceName b)" using assms(2) by (simp add: ValidGateBinding_def)
  show ?thesis
    using assms(2-5)
    by (cases rule: gates_cases [OF assms(1) svc, of "UID b"])
      (simp_all add: bind_reply_def decodeBindGateResult_def leaseResultFields_def redis_simps gate_storable_def)
qed

context redis_server
begin

lemma bindGate_body:
  assumes "gates_ok cjson (look r)" "ValidGateBinding b" "0 < ms" "ms \<le> maxTTLMillis"
    and body: "bindGateScript R cjson (gateKey (ServiceName b) (UID b)) ms (json_marshal b)
      (ServiceName b) (UID b) r = (r', reply)"
  shows "look r' = look r \<and> (\<exists>v. reply = Inr [LInt v] \<and> v \<noteq> 1) \<or>
    look r' = (look r)(gateKey (ServiceName b) (UID b) \<mapsto> (json_marshal b, Some ms)) \<and>
    reply = Inr (bind_reply b ms (gates_of (look r) (user_of b)))"
proof -
  have svc: "ValidServiceName (ServiceName b)" using assms(2) by (simp add: ValidGateBinding_def)
  obtain r0 where put: "rPSETEX R (gateKey (ServiceName b) (UID b)) ms (json_marshal b) r = Some r0"
    "look r0 = (look r)(gateKey (ServiceName b) (UID b) \<mapsto> (json_marshal b, Some ms))"
    using psetex [OF assms(3,4)] by blast
  show ?thesis
  proof (cases rule: gates_cases [OF assms(1) svc, of "UID b"])
    case 1
    with body put show ?thesis by (auto simp: bindGateScript_def bind_reply_def get pttl)
  next
    case (2 p t)
    then have "valid_binding cjson (ServiceName b) (UID b) (json_marshal p)"
      using valid_binding_marshal [of cjson p] by (simp add: gate_storable_def)
    then have "(r', reply) = (if t \<le> 0 then (r, Inr [LInt (-2)])
        else (r0, Inr (bind_reply b ms (gates_of (look r) (user_of b)))))"
      using body put 2(1,2) by (cases "t \<le> 0") (simp_all add: bindGateScript_def bind_reply_def Let_def get pttl)
    with put(2) show ?thesis by (cases "t \<le> 0") simp_all
  qed
qed

text \<open>The run of the bind script behind a call that passes validation.\<close>

lemma bindGate_run:
  assumes "BindGate_with src R cjson e b ttl r = (r', res)" "ValidGateBinding b" "leaseMilliseconds ttl = Inr ms"
    and "bindGateScript R cjson (gateKey (ServiceName b) (UID b)) ms (json_marshal b)
      (ServiceName b) (UID b) r = (r1, reply)"
  shows "(r' = r \<or> r' = r1) \<and> (\<forall>x. res = Inr x \<longrightarrow> r' = r1 \<and>
    (\<exists>vs. reply = Inr vs \<and> scriptStatus vs = 1 \<and> decodeBindGateResult vs (ServiceName b) (UID b) = Inr x))"
proof -
  let ?body = "bindGateScript R cjson (gateKey (ServiceName b) (UID b)) ms (json_marshal b) (ServiceName b) (UID b)"
  obtain r2 reply2 where run: "runScript e src ?body r = (r2, reply2)" by (cases "runScript e src ?body r") auto
  have r2: "r2 = r \<or> r2 = r1" using runScript_state [of e src ?body r] run assms(4) by auto
  show ?thesis
  proof (cases reply2)
    case (Inl err)
    then have "r' = r2" "res = Inl err" using assms(1-3) run by (simp_all add: BindGate_with_def Let_def)
    with r2 show ?thesis by simp
  next
    case (Inr vs)
    then have "r2 = r1" "reply = Inr vs" using run assms(4) by (simp_all add: runScript_Inr)
    then show ?thesis
      using assms(1-3) run Inr by (auto simp: BindGate_with_def Let_def redis_simps split: if_splits)
  qed
qed

lemma bindGate_law:
  assumes "gates_ok cjson (look r)" "gate_storable cjson b" "ttl < 2 ^ 63"
    and "BindGate_with src R cjson e b ttl r = (r', res)"
  shows "gates_ok cjson (look r') \<and>
    (gates_of (look r') = gates_of (look r) \<or>
     gates_of (look r') = (gates_of (look r))(user_of b \<mapsto> (b, ttl div millisecond))) \<and>
    (\<forall>lease prev. res = Inr (lease, prev) \<longrightarrow>
      gates_of (look r') = (gates_of (look r))(user_of b \<mapsto> (b, ttl div millisecond)) \<and>
      lease = lease_of b (ttl div millisecond) \<and> prev = map_option fst (gates_of (look r) (user_of b)))"
proof (cases "ValidGateBinding b \<and> (\<exists>ms. leaseMilliseconds ttl = Inr ms)")
  case False
  with assms(1,4) show ?thesis by (auto simp: BindGate_with_def split: if_splits sum.splits)
next
  case True
  then obtain ms where ms: "leaseMilliseconds ttl = Inr ms" and b: "ValidGateBinding b" by blast
  then have range: "0 < ms" "ms \<le> maxTTLMillis" "ms = ttl div millisecond"
    using assms(3) millis_le_max by (auto simp: leaseMilliseconds_Inr)
  let ?k = "gateKey (ServiceName b) (UID b)"
  obtain r1 reply where body: "bindGateScript R cjson ?k ms (json_marshal b) (ServiceName b) (UID b) r = (r1, reply)"
    by (cases "bindGateScript R cjson ?k ms (json_marshal b) (ServiceName b) (UID b) r") auto
  note run = bindGate_run [OF assms(4) b ms body]
  from bindGate_body [OF assms(1) b range(1,2) body]
  consider (kept) v where "look r1 = look r" "reply = Inr [LInt v]" "v \<noteq> 1"
    | (put) "look r1 = (look r)(?k \<mapsto> (json_marshal b, Some ms))"
        "reply = Inr (bind_reply b ms (gates_of (look r) (user_of b)))" by blast
  then show ?thesis
  proof cases
    case kept
    then show ?thesis using run assms(1) by (auto simp: scriptStatus_def)
  next
    case put
    have upd: "gates_of (look r1) = (gates_of (look r))(user_of b \<mapsto> (b, ms))"
      unfolding put(1) by (rule gates_of_put [OF b assms(2)])
    have ok: "gates_ok cjson (look r1)"
      unfolding put(1) using range by (intro gates_ok_put [OF assms(1) b assms(2)]) auto
    have "r' = r1 \<and> x = (lease_of b ms, map_option fst (gates_of (look r) (user_of b)))" if "res = Inr x" for x
      using run that put(2) decode_bind_reply [OF assms(1) b assms(2) range(1,2)] by force
    with run upd ok assms(1) show ?thesis unfolding range(3) by (metis Pair_inject)
  qed
qed

lemma locateGate_law:
  assumes "gates_ok cjson (look r)" "LocateGate R e svc uid r = (r', res)"
  shows "r' = r \<and> (\<forall>lease. res = Inr lease \<longrightarrow>
    (\<exists>b t. gates_of (look r) (svc, uid) = Some (b, t) \<and> 0 < t \<and> lease = lease_of b t))"
proof
  show "r' = r" using locateGate_state [of e svc uid r] assms(2) by simp
  show "\<forall>lease. res = Inr lease \<longrightarrow>
    (\<exists>b t. gates_of (look r) (svc, uid) = Some (b, t) \<and> 0 < t \<and> lease = lease_of b t)"
  proof (intro allI impI)
    fix lease assume got: "res = Inr lease"
    then have svc: "ValidServiceName svc" "io_outcome e = Done"
      using assms(2) runScript_Inr [of e locateGateScript_source "locateGateScript R (gateKey svc uid)" r]
      by (auto simp: LocateGate_def split: if_splits prod.splits sum.splits)
    then show "\<exists>b t. gates_of (look r) (svc, uid) = Some (b, t) \<and> 0 < t \<and> lease = lease_of b t"
    proof (cases rule: gates_cases [OF assms(1) svc(1), of uid])
      case 1
      then show ?thesis
        using assms(2) got svc
        by (auto simp: LocateGate_def runScript_Done locateGateScript_def get scriptStatus_def
            decodeLeaseResult_def redis_simps split: if_splits)
    next
      case (2 b t)
      then show ?thesis
        using assms(2) got svc
        by (auto simp: LocateGate_def runScript_Done locateGateScript_def get pttl scriptStatus_def
            decodeLeaseResult_def gate_storable_def redis_simps split: if_splits)
    qed
  qed
qed

text \<open>A caller's own binding is in the store exactly when the stored text is its encoding.\<close>

lemma gates_of_own:
  assumes "gates_ok cjson (look r)" "ValidGateBinding b" "gate_storable cjson b"
  shows "look r (gateKey (ServiceName b) (UID b)) = Some (json_marshal b, Some t) \<longleftrightarrow>
    gates_of (look r) (user_of b) = Some (b, t)"
proof -
  have svc: "ValidServiceName (ServiceName b)" using assms(2) by (simp add: ValidGateBinding_def)
  show ?thesis
    using assms(3) json_marshal_inject
    by (cases rule: gates_cases [OF assms(1) svc, of "UID b"]) (auto simp: gate_storable_def)
qed

lemma renewGateLease_answer:
  assumes "gates_ok cjson (look r)" "gate_storable cjson b" "ttl < 2 ^ 63"
    and "RenewGateLease R e b ttl r = (r', Inr lease)"
  shows "(\<exists>t. gates_of (look r) (user_of b) = Some (b, t)) \<and>
    gates_of (look r') = (gates_of (look r))(user_of b \<mapsto> (b, ttl div millisecond)) \<and>
    lease = lease_of b (ttl div millisecond)"
proof -
  let ?k = "gateKey (ServiceName b) (UID b)"
  obtain ms where b: "ValidGateBinding b" and ms: "leaseMilliseconds ttl = Inr ms"
    using assms(4) by (auto simp: RenewGateLease_def split: if_splits sum.splits)
  then have range: "0 < ms" "ms \<le> maxTTLMillis" "ms = ttl div millisecond"
    using assms(3) millis_le_max by (auto simp: leaseMilliseconds_Inr)
  obtain vs where vs: "io_outcome e = Done" "renewGateLeaseScript R ?k (json_marshal b) ms r = (r', Inr vs)"
    "decodeLeaseResult vs (ServiceName b) (UID b) = Inr lease"
    using assms(4) b ms runScript_Inr [of e renewGateLeaseScript_source "renewGateLeaseScript R ?k (json_marshal b) ms" r]
    by (auto simp: RenewGateLease_def split: prod.splits sum.splits)
  then obtain t where t: "look r ?k = Some (json_marshal b, Some t)" "0 < t"
    by (auto simp: renewGateLeaseScript_def get pttl pttl_of_def decodeLeaseResult_def scriptStatus_def redis_simps
        split: option.splits if_splits)
  then have held: "gate_holds cjson (look r) b t" if "t \<le> maxTTLMillis"
    using b assms(2) that by (auto simp: gate_holds_def gate_storable_def)
  have "gates_of (look r) (user_of b) = Some (b, t)" using gates_of_own [OF assms(1) b assms(2)] t(1) by blast
  moreover have "t \<le> maxTTLMillis"
    using assms(1) b t(1) unfolding gates_ok_def gate_entry_ok_def ValidGateBinding_def by auto
  moreover obtain r2 where "RenewGateLease R e b ttl r = (r2, Inr (lease_of b ms))"
    "look r2 = (look r)(?k \<mapsto> (json_marshal b, Some ms))"
    using renewGateLease_held [OF vs(1) held ms range(2)] calculation(2) by blast
  ultimately show ?thesis
    using assms(4) gates_of_put [OF b assms(2)] range(3) by simp
qed

lemma renewGateLease_law:
  assumes "gates_ok cjson (look r)" "gate_storable cjson b" "ttl < 2 ^ 63"
    and "RenewGateLease R e b ttl r = (r', res)"
  shows "gates_ok cjson (look r') \<and>
    (gates_of (look r') = gates_of (look r) \<or>
     (\<exists>t. gates_of (look r) (user_of b) = Some (b, t)) \<and>
     gates_of (look r') = (gates_of (look r))(user_of b \<mapsto> (b, ttl div millisecond)))"
proof (cases "look r' = look r")
  case False
  then obtain t where t: "look r (gateKey (ServiceName b) (UID b)) = Some (json_marshal b, Some t)"
    and r': "look r' = (look r)(gateKey (ServiceName b) (UID b) \<mapsto> (json_marshal b, Some (ttl div millisecond)))"
    using renewGateLease_state [OF assms(4,3)] by blast
  obtain ms where b: "ValidGateBinding b" and ms: "leaseMilliseconds ttl = Inr ms"
    using assms(4) False by (auto simp: RenewGateLease_def split: if_splits sum.splits)
  then have "0 \<le> ttl div millisecond" "ttl div millisecond \<le> maxTTLMillis"
    using assms(3) millis_le_max by (auto simp: leaseMilliseconds_Inr)
  then show ?thesis
    using gates_of_own [OF assms(1) b assms(2)] t r' gates_of_put [OF b assms(2)]
      gates_ok_put [OF assms(1) b assms(2)] by metis
qed (use assms(1) in simp)

lemma unbindGate_law:
  assumes "gates_ok cjson (look r)" "gate_storable cjson b" "UnbindGate R e b r = (r', res)"
  shows "gates_ok cjson (look r') \<and>
    (gates_of (look r') = gates_of (look r) \<or>
     (\<exists>t. gates_of (look r) (user_of b) = Some (b, t)) \<and> gates_of (look r') = (gates_of (look r))(user_of b := None))"
proof (cases "look r' = look r")
  case False
  then have b: "ValidGateBinding b" using assms(3) by (auto simp: UnbindGate_def split: if_splits)
  show ?thesis
    using unbindGate_state [OF assms(3)] False gates_of_own [OF assms(1) b assms(2)] gates_of_del [OF b]
      gates_ok_del [OF assms(1)] by metis
qed (use assms(1) in simp)

end

text \<open>The locator over any Redis server offers the gate interface, for any text of the bind script.\<close>

locale redis_gates = redis_clock +
  fixes src :: "string list" and cjson :: "string \<Rightarrow> json option"

sublocale redis_gates \<subseteq> gates: gate_locator "redis_gate_ops src R cjson" "\<lambda>r. gates_of (look r)"
  "\<lambda>r. gates_ok cjson (look r)" "gate_storable cjson" pass
proof unfold_locales
  show "gates_ok cjson (look s') \<and>
      (gates_of (look s') = gates_of (look s) \<or> (\<exists>t. gates_of (look s) (user_of b) = Some (b, t)) \<and>
        gates_of (look s') = (gates_of (look s))(user_of b \<mapsto> (b, ttl div millisecond))) \<and>
      (\<forall>lease. renewed = Inr lease \<longrightarrow> (\<exists>t. gates_of (look s) (user_of b) = Some (b, t)) \<and>
         gates_of (look s') = (gates_of (look s))(user_of b \<mapsto> (b, ttl div millisecond)) \<and>
         lease = lease_of b (ttl div millisecond))"
    if "gates_ok cjson (look s)" "gate_storable cjson b" "ttl < 2 ^ 63"
      "glRenew (redis_gate_ops src R cjson) e b ttl s = (s', renewed)" for s b ttl e s' renewed
    using renewGateLease_law [of cjson s b ttl e s' renewed] renewGateLease_answer [of cjson s b ttl e s'] that
    by (auto simp: redis_gate_ops_def)
  show "gates_ok cjson (look (pass d s)) \<and> gates_of (look (pass d s)) k = elapse d (gates_of (look s) k)"
    if "gates_ok cjson (look s)" "0 \<le> d" for s d k
    using aged_gates [OF that, of "look (pass d s)" k] pass that by blast
qed (unfold redis_gate_ops_def gate_ops.simps, erule (3) bindGate_law, erule (1) locateGate_law,
    erule (2) unbindGate_law)

interpretation kv_gates: redis_gates kv_ops kv_look kv_pass bindGateScript_source json_parse
  by unfold_locales

end
