(* ===== verification/Admission.thy ===== *)
theory Admission
  imports Prelude
begin

text \<open>
  \<open>node/admission.go\<close> and \<open>internal/contextwait/wait.go\<close>: the admission gate of a node. Requests are
  admitted while the gate is open, every admitted request reports its end once, and a stop waits for
  the last of them. The state is the record of the struct; each method body under the mutex is one
  atomic operation, and closing a closed channel (a panic) is \<open>None\<close>.
\<close>

section \<open>Waiting within a context budget\<close>

text \<open>
  Which case of the outer select fires, and, when the context fires, whether the channel is closed
  at the second look.
\<close>

datatype wait_event = WaitDone | WaitCtx goerr bool

definition contextwait_Done :: "wait_event \<Rightarrow> goerr option" where
  "contextwait_Done ev =
     (case ev of WaitDone \<Rightarrow> None | WaitCtx err ready \<Rightarrow> if ready then None else Some err)"

text \<open>An event is possible only if the channel it reads is closed at that moment.\<close>

definition wait_possible :: "bool \<Rightarrow> wait_event \<Rightarrow> bool" where
  "wait_possible closed ev = (case ev of WaitDone \<Rightarrow> closed | WaitCtx err ready \<Rightarrow> ready = closed)"

lemma contextwait_nil: "wait_possible closed ev \<Longrightarrow> contextwait_Done ev = None \<Longrightarrow> closed"
  by (cases ev) (auto simp: wait_possible_def contextwait_Done_def split: if_splits)

section \<open>The gate\<close>

datatype admission_state = admissionPending | admissionOpen | admissionClosed

record requestAdmission =
  adm_state :: admission_state
  adm_active :: int
  adm_drained :: "bool option"

definition zeroAdmission :: requestAdmission where
  "zeroAdmission = \<lparr>adm_state = admissionPending, adm_active = 0, adm_drained = None\<rparr>"

definition adm_open :: "requestAdmission \<Rightarrow> requestAdmission" where
  "adm_open a = (if adm_state a = admissionPending then a\<lparr>adm_state := admissionOpen\<rparr> else a)"

definition adm_admit :: "requestAdmission \<Rightarrow> requestAdmission \<times> bool" where
  "adm_admit a =
     (if adm_state a \<noteq> admissionOpen then (a, False) else (a\<lparr>adm_active := adm_active a + 1\<rparr>, True))"

definition adm_done :: "requestAdmission \<Rightarrow> requestAdmission option" where
  "adm_done a =
     (let a' = a\<lparr>adm_active := adm_active a - 1\<rparr> in
      if adm_active a' = 0 \<and> adm_drained a' \<noteq> None
      then (if adm_drained a' = Some True then None else Some (a'\<lparr>adm_drained := Some True\<rparr>))
      else Some a')"

definition adm_close :: "requestAdmission \<Rightarrow> requestAdmission" where
  "adm_close a = a\<lparr>adm_state := admissionClosed\<rparr>"

definition adm_isClosed :: "requestAdmission \<Rightarrow> bool" where
  "adm_isClosed a = (adm_state a = admissionClosed)"

text \<open>
  \<open>stopAndWait\<close> up to its wait: either it returns nil at once, or it goes on to wait for \<open>drained\<close>.
\<close>

definition adm_stop_begin :: "requestAdmission \<Rightarrow> requestAdmission \<times> bool" where
  "adm_stop_begin a =
     (let a' = adm_close a in
      if adm_active a' = 0 then (a', False)
      else (a'\<lparr>adm_drained := (case adm_drained a' of None \<Rightarrow> Some False | Some c \<Rightarrow> Some c)\<rparr>, True))"

definition adm_stopAndWait :: "wait_event \<Rightarrow> requestAdmission \<Rightarrow> requestAdmission \<times> goerr option" where
  "adm_stopAndWait ev a =
     (let (a', waits) = adm_stop_begin a in (a', if waits then contextwait_Done ev else None))"

lemmas admission_defs [step_defs] = adm_open_def adm_admit_def adm_done_def adm_close_def adm_stop_begin_def

section \<open>Requests and stops in any order\<close>

text \<open>
  The gate with the number of admitted requests that have not ended and the number of stops that
  wait; \<open>gw_returned\<close> records that some stop has returned nil.
\<close>

record gate_world =
  gw_gate :: requestAdmission
  gw_held :: nat
  gw_waiting :: nat
  gw_returned :: bool

inductive gate_step :: "gate_world \<Rightarrow> gate_world \<Rightarrow> bool" where
  opens: "gate_step w (w\<lparr>gw_gate := adm_open (gw_gate w)\<rparr>)"
| admit: "adm_admit (gw_gate w) = (a, ok) \<Longrightarrow>
    gate_step w (w\<lparr>gw_gate := a, gw_held := (if ok then gw_held w + 1 else gw_held w)\<rparr>)"
| finish: "0 < gw_held w \<Longrightarrow> adm_done (gw_gate w) = Some a \<Longrightarrow>
    gate_step w (w\<lparr>gw_gate := a, gw_held := gw_held w - 1\<rparr>)"
| closes: "gate_step w (w\<lparr>gw_gate := adm_close (gw_gate w)\<rparr>)"
| stop: "adm_stop_begin (gw_gate w) = (a, waits) \<Longrightarrow>
    gate_step w (w\<lparr>gw_gate := a, gw_waiting := (if waits then gw_waiting w + 1 else gw_waiting w),
      gw_returned := (gw_returned w \<or> \<not> waits)\<rparr>)"
| wake: "0 < gw_waiting w \<Longrightarrow> wait_possible (adm_drained (gw_gate w) = Some True) ev \<Longrightarrow>
    gate_step w (w\<lparr>gw_waiting := gw_waiting w - 1, gw_returned := (gw_returned w \<or> contextwait_Done ev = None)\<rparr>)"

definition gate_start :: gate_world where
  "gate_start = \<lparr>gw_gate = zeroAdmission, gw_held = 0, gw_waiting = 0, gw_returned = False\<rparr>"

inductive gate_reach :: "gate_world \<Rightarrow> bool" where
  start: "gate_reach gate_start"
| step: "gate_reach w \<Longrightarrow> gate_step w w' \<Longrightarrow> gate_reach w'"

definition gate_inv :: "gate_world \<Rightarrow> bool" where
  "gate_inv w =
     (adm_active (gw_gate w) = int (gw_held w) \<and>
      (adm_drained (gw_gate w) \<noteq> None \<longrightarrow> adm_state (gw_gate w) = admissionClosed) \<and>
      (adm_drained (gw_gate w) = Some True \<longrightarrow> gw_held w = 0) \<and>
      (adm_drained (gw_gate w) = Some False \<longrightarrow> 0 < gw_held w) \<and>
      (0 < gw_waiting w \<longrightarrow> adm_drained (gw_gate w) \<noteq> None) \<and>
      (gw_returned w \<longrightarrow> adm_state (gw_gate w) = admissionClosed \<and> gw_held w = 0))"

lemma gate_inv_start: "gate_inv gate_start"
  by (simp add: gate_inv_def gate_start_def zeroAdmission_def)

lemma gate_inv_step: "gate_step w w' \<Longrightarrow> gate_inv w \<Longrightarrow> gate_inv w'"
proof (induction rule: gate_step.induct)
  case (wake w ev)
  then show ?case using contextwait_nil [of _ ev] by (auto simp: gate_inv_def)
next
  case (admit w a ok)
  then show ?case by (auto simp: gate_inv_def adm_admit_def split: if_splits)
next
  case (finish w a)
  then show ?case by (auto simp: gate_inv_def adm_done_def Let_def split: if_splits)
next
  case (stop w a waits)
  then show ?case
    by (auto simp: gate_inv_def adm_stop_begin_def adm_close_def Let_def split: if_splits option.splits)
qed (auto simp: gate_inv_def adm_open_def adm_close_def)

lemma gate_reach_inv: "gate_reach w \<Longrightarrow> gate_inv w"
  by (induction rule: gate_reach.induct) (auto intro: gate_inv_start gate_inv_step)

lemma gate_returned_stable: "gate_step w w' \<Longrightarrow> gw_returned w \<Longrightarrow> gw_returned w'"
  by (induction rule: gate_step.induct) auto

text \<open>
  C11. Once a \<open>stopAndWait\<close> has returned nil, no admitted request is running and none is ever admitted
  again, whatever requests, stops and timeouts follow.
\<close>

theorem admission_stop_drains:
  assumes "gate_reach w" "gw_returned w" "gate_step\<^sup>*\<^sup>* w w'"
  shows "gw_held w' = 0 \<and> snd (adm_admit (gw_gate w')) = False"
proof -
  from assms(3,1,2) have "gate_reach w' \<and> gw_returned w'"
    by (induction rule: rtranclp_induct) (auto intro: gate_reach.step gate_returned_stable)
  then show ?thesis using gate_reach_inv [of w'] by (auto simp: gate_inv_def adm_admit_def)
qed

definition gate_demo :: gate_world where
  "gate_demo = \<lparr>gw_gate = \<lparr>adm_state = admissionClosed, adm_active = 0, adm_drained = None\<rparr>, gw_held = 0,
     gw_waiting = 0, gw_returned = True\<rparr>"

lemma gate_demo_reach: "gate_reach gate_demo"
proof -
  have "gate_step gate_start gate_demo"
    using gate_step.stop [of gate_start "\<lparr>adm_state = admissionClosed, adm_active = 0, adm_drained = None\<rparr>" False]
    by (simp add: gate_start_def gate_demo_def zeroAdmission_def adm_stop_begin_def adm_close_def)
  then show ?thesis by (blast intro: gate_reach.intros)
qed

theorem admission_stop_drains_witness:
  "gw_held (gate_demo\<lparr>gw_gate := adm_open (gw_gate gate_demo)\<rparr>) = 0 \<and>
   snd (adm_admit (gw_gate (gate_demo\<lparr>gw_gate := adm_open (gw_gate gate_demo)\<rparr>))) = False"
  by (rule admission_stop_drains [OF gate_demo_reach _ r_into_rtranclp [of gate_step, OF gate_step.opens]])
    (simp add: gate_demo_def)


text \<open>A request is admitted, a stop waits for it, and the request ends.\<close>

definition gate_busy :: gate_world where
  "gate_busy = \<lparr>gw_gate = \<lparr>adm_state = admissionClosed, adm_active = 1, adm_drained = Some False\<rparr>, gw_held = 1,
     gw_waiting = 1, gw_returned = False\<rparr>"

lemma gate_busy_reach: "gate_reach gate_busy"
proof -
  let ?open = "\<lparr>gw_gate = \<lparr>adm_state = admissionOpen, adm_active = 0, adm_drained = None\<rparr>, gw_held = 0, gw_waiting = 0, gw_returned = False\<rparr>"
  let ?one = "\<lparr>gw_gate = \<lparr>adm_state = admissionOpen, adm_active = 1, adm_drained = None\<rparr>, gw_held = 1, gw_waiting = 0, gw_returned = False\<rparr>"
  have "gate_step gate_start ?open"
    using gate_step.opens [of gate_start] by (simp add: gate_start_def zeroAdmission_def adm_open_def)
  moreover have "gate_step ?open ?one"
    using gate_step.admit [of ?open "gw_gate ?one" True] by (simp add: adm_admit_def)
  moreover have "gate_step ?one gate_busy"
    using gate_step.stop [of ?one "gw_gate gate_busy" True]
    by (simp add: adm_stop_begin_def adm_close_def gate_busy_def)
  ultimately show ?thesis by (blast intro: gate_reach.intros)
qed


end
