(* ===== verification/Epoch.thy ===== *)
theory Epoch
  imports Redis_Locator Admission
begin

text \<open>
  \<open>node/epoch.go\<close>: the process epoch lease. A node claims its NodeID in the store under a fresh
  epoch, renews it in the background and must stop serving when the lease is lost. The functions
  follow the source; a function that calls the store is split around the call, its clock and context
  readings are arguments. The last part lets several processes of one NodeID run against one store,
  with store requests that arrive late, repeatedly or never, and shows that no two of them hold a
  valid lease at the same moment.
\<close>

section \<open>The lease\<close>

record nodeIdentity =
  id_service :: string
  id_node :: string
  id_epoch :: string

definition DefaultNodeEpochTTL :: duration where "DefaultNodeEpochTTL = 30 * second"
definition nodeEpochRenewInterval :: duration where "nodeEpochRenewInterval = 10 * second"
definition nodeEpochRPCTimeout :: duration where "nodeEpochRPCTimeout = 3 * second"

text \<open>
  The struct: the first cancel cause of its context, the local deadline, the channel of the renewal
  goroutine (absent before \<open>start\<close>, then whether it is closed) and whether the store entry is gone.
\<close>

record epochLease =
  el_identity :: nodeIdentity
  el_cause :: "goerr option"
  el_deadline :: time
  el_done :: "bool option"
  el_released :: bool

definition newEpochLease :: "nodeIdentity \<Rightarrow> time \<Rightarrow> epochLease" where
  "newEpochLease identity deadline =
     \<lparr>el_identity = identity, el_cause = None, el_deadline = deadline, el_done = None, el_released = False\<rparr>"

text \<open>A cancel function with cause keeps the first cause.\<close>

definition el_cancel :: "goerr \<Rightarrow> epochLease \<Rightarrow> epochLease" where
  "el_cancel err e = (case el_cause e of None \<Rightarrow> e\<lparr>el_cause := Some err\<rparr> | Some _ \<Rightarrow> e)"

definition el_valid :: "time \<Rightarrow> epochLease \<Rightarrow> epochLease \<times> goerr option" where
  "el_valid now e =
     (let e' = (if \<not> now < el_deadline e then el_cancel (NodeErr ErrNodeEpochExpired) e else e)
      in (e', el_cause e'))"

definition loseOwnership :: "goerr \<Rightarrow> epochLease \<Rightarrow> epochLease \<times> goerr option" where
  "loseOwnership err e =
     (let e' = el_cancel (Wrap ''node: epoch ownership lost'' [err]) e in (e', el_cause e'))"

section \<open>Claim\<close>

definition claim_finish ::
  "nodeIdentity \<Rightarrow> time \<Rightarrow> goerr option \<Rightarrow> goerr option \<Rightarrow> time \<Rightarrow> epochLease option \<times> goerr option" where
  "claim_finish identity started reply ctxErr now =
     (case reply of
        Some err \<Rightarrow> (None, Some (Wrap ''node: register epoch'' [err]))
      | None \<Rightarrow>
          let lease = newEpochLease identity (started + DefaultNodeEpochTTL) in
          (case ctxErr of
             Some err \<Rightarrow> (Some lease, Some (Wrap ''node: register epoch'' [err]))
           | None \<Rightarrow> let (lease', err) = el_valid now lease in (Some lease', err)))"

definition claimEpoch ::
  "('e, 's) epoch_ops \<Rightarrow> 'e \<Rightarrow> nodeIdentity \<Rightarrow> string \<Rightarrow> time \<Rightarrow> goerr option \<Rightarrow> time \<Rightarrow>
   's \<Rightarrow> 's \<times> epochLease option \<times> goerr option" where
  "claimEpoch E env identity uuid started ctxErr now s =
     (let identity = identity\<lparr>id_epoch := uuid\<rparr>;
          (s', reply) = esRegister E env (id_service identity) (id_node identity) (id_epoch identity)
             DefaultNodeEpochTTL s
      in (s', claim_finish identity started reply ctxErr now))"

section \<open>Renewal\<close>

text \<open>What \<open>renewOnce\<close> decides before the store call: the start of the call and its deadline.\<close>

definition renew_begin :: "time \<Rightarrow> time \<Rightarrow> epochLease \<Rightarrow> epochLease \<times> (goerr + time \<times> time)" where
  "renew_begin now started e =
     (let (e', err) = el_valid now e in
      (e', case err of
         Some err \<Rightarrow> Inl err
       | None \<Rightarrow>
           let renewalDeadline = el_deadline e'; rpcDeadline = started + nodeEpochRPCTimeout in
           Inr (started, if rpcDeadline < renewalDeadline then rpcDeadline else renewalDeadline)))"

text \<open>
  What it does with the answer: an answer after the call's deadline, under a cancelled context or on
  a lease that is no longer valid does not extend the lease.
\<close>

definition renew_finish ::
  "time \<Rightarrow> time \<Rightarrow> goerr option \<Rightarrow> time \<Rightarrow> goerr option \<Rightarrow> time \<Rightarrow> epochLease \<Rightarrow> epochLease \<times> goerr option" where
  "renew_finish started renewalDeadline reply now ctxErr now' e =
     (let err = (if reply = None \<and> \<not> now < renewalDeadline then Some ctx_deadline else reply);
          err = (if err = None then ctxErr else err);
          (e', err) = (if err = None then el_valid now' e else (e, err))
      in case err of
           None \<Rightarrow> (e'\<lparr>el_deadline := started + DefaultNodeEpochTTL\<rparr>, None)
         | Some err \<Rightarrow>
             if errors_is err (LocateErr ErrNodeEpochNotFound) \<or> errors_is err (LocateErr ErrNodeEpochConflict)
             then let lost = Wrap ''node: epoch ownership lost'' [err] in (el_cancel lost e', Some lost)
             else (e', Some err))"

definition renewOnce ::
  "('e, 's) epoch_ops \<Rightarrow> 'e \<Rightarrow> time \<Rightarrow> time \<Rightarrow> time \<Rightarrow> goerr option \<Rightarrow> time \<Rightarrow> epochLease \<Rightarrow> 's \<Rightarrow>
   's \<times> epochLease \<times> goerr option" where
  "renewOnce E env now started returned ctxErr now' e s =
     (case renew_begin now started e of
        (e', Inl err) \<Rightarrow> (s, e', Some err)
      | (e', Inr (started, renewalDeadline)) \<Rightarrow>
          let identity = el_identity e';
              (s', reply) = esRenew E env (id_service identity) (id_node identity) (id_epoch identity)
                DefaultNodeEpochTTL s
          in (s', renew_finish started renewalDeadline reply returned ctxErr now' e'))"

text \<open>
  The renewal loop: one renewal, its result handed to the monitor, then the ticker. Each round says
  whether the result is taken before the lease context ends and whether the ticker fires before it.
\<close>

record round =
  rd_result :: "goerr option"
  rd_taken :: bool
  rd_tick :: bool

fun renewLoop :: "round list \<Rightarrow> goerr option list \<times> bool" where
  "renewLoop [] = ([], False)"
| "renewLoop (rd # rds) =
     (if \<not> rd_taken rd then ([], True)
      else if \<not> rd_tick rd then ([rd_result rd], True)
      else let (sent, ended) = renewLoop rds in (rd_result rd # sent, ended))"

section \<open>Monitor, start and release\<close>

datatype mon_event = MonResult "goerr option" | MonTimer | MonCtxDone

text \<open>
  The monitor reads one event per round. The renewal goroutine and \<open>stopRenewal\<close> work on the same
  lease: a round carries the deadline they have stored by then, a cancel cause they may have set, and
  the clock reading of the validity check.
\<close>

record mon_round =
  mr_event :: mon_event
  mr_deadline :: time
  mr_cancel :: "goerr option"
  mr_now :: time

definition mon_see :: "mon_round \<Rightarrow> epochLease \<Rightarrow> epochLease" where
  "mon_see r e =
     (let e' = e\<lparr>el_deadline := mr_deadline r\<rparr> in
      case mr_cancel r of None \<Rightarrow> e' | Some err \<Rightarrow> el_cancel err e')"

text \<open>
  It gives the values sent on \<open>ready\<close> and, once it returns, its error; \<open>None\<close> means it still waits.
\<close>

fun monitor :: "mon_round list \<Rightarrow> bool \<Rightarrow> epochLease \<Rightarrow> epochLease \<times> goerr option list \<times> goerr option" where
  "monitor [] ready e = (e, [], None)"
| "monitor (r # rs) ready e =
     (case (mr_event r, ready) of
        (MonResult (Some err), True) \<Rightarrow> (mon_see r e, [Some err], Some err)
      | (MonResult None, True) \<Rightarrow>
          (case el_valid (mr_now r) (mon_see r e) of
             (e', Some err) \<Rightarrow> (e', [None], Some err)
           | (e', None) \<Rightarrow> let (e2, sent, res) = monitor rs False e' in (e2, None # sent, res))
      | _ \<Rightarrow>
          (case el_valid (mr_now r) (mon_see r e) of
             (e', Some err) \<Rightarrow> (e', if ready then [Some err] else [], Some err)
           | (e', None) \<Rightarrow> monitor rs ready e'))"

text \<open>
  \<open>start\<close>: nothing runs on an invalid lease; otherwise the monitor runs, its error cancels the lease
  and is reported as a loss unless it is a cancellation.
\<close>

definition epoch_start ::
  "time \<Rightarrow> mon_round list \<Rightarrow> epochLease \<Rightarrow> epochLease \<times> goerr option list \<times> goerr list" where
  "epoch_start now evs e =
     (let (e', err) = el_valid now e in
      (case err of
         Some err \<Rightarrow> (e', [Some err], [])
       | None \<Rightarrow>
           let (e2, sent, res) = monitor evs True (e'\<lparr>el_done := Some False\<rparr>) in
           (case res of
              None \<Rightarrow> (e2, sent, [])
            | Some err \<Rightarrow> (el_cancel err e2, sent, if errors_is err ctx_canceled then [] else [err]))))"

definition stopRenewal :: "wait_event \<Rightarrow> epochLease \<Rightarrow> epochLease \<times> goerr option" where
  "stopRenewal ev e =
     (let e' = el_cancel ctx_canceled e in
      (e', case el_done e' of None \<Rightarrow> None | Some _ \<Rightarrow> contextwait_Done ev))"

definition epoch_release ::
  "('e, 's) epoch_ops \<Rightarrow> 'e \<Rightarrow> wait_event \<Rightarrow> epochLease \<Rightarrow> 's \<Rightarrow> 's \<times> epochLease \<times> goerr option" where
  "epoch_release E env ev e s =
     (let (e', stopErr) = stopRenewal ev e in
      (case stopErr of
         Some err \<Rightarrow> (s, e', Some err)
       | None \<Rightarrow>
           if el_released e' then (s, e', None)
           else let identity = el_identity e';
                    (s', err) = esUnregister E env (id_service identity) (id_node identity) (id_epoch identity) s
                in case err of
                     Some x \<Rightarrow>
                       if errors_is x (LocateErr ErrNodeEpochNotFound) \<or> errors_is x (LocateErr ErrNodeEpochConflict)
                       then (s', e'\<lparr>el_released := True\<rparr>, None) else (s', e', Some x)
                   | None \<Rightarrow> (s', e'\<lparr>el_released := True\<rparr>, None)))"

text \<open>The cause of a request context derived from the lease, at its creation.\<close>

definition requestContext :: "time \<Rightarrow> goerr option \<Rightarrow> epochLease \<Rightarrow> epochLease \<times> goerr option" where
  "requestContext now parentErr e =
     (let (e', err) = el_valid now e in (e', case parentErr of Some x \<Rightarrow> Some x | None \<Rightarrow> err))"

section \<open>Several processes of one NodeID\<close>

text \<open>
  Requests on the wire carry their call number, the epoch they name and the moment the caller read
  its clock before sending. The store may execute a request at any later time, more than once or
  never; a caller may give up with any error at any time.
\<close>

datatype ereq = ReqRegister string | ReqRenew string | ReqUnregister string

fun req_epoch :: "ereq \<Rightarrow> string" where
  "req_epoch (ReqRegister ep) = ep"
| "req_epoch (ReqRenew ep) = ep"
| "req_epoch (ReqUnregister ep) = ep"

record eproc =
  p_epoch :: string
  p_claim :: "(nat \<times> time) option"
  p_lease :: "epochLease option"
  p_renew :: "(nat \<times> time \<times> time) option"

record 's eworld =
  w_now :: time
  w_store :: 's
  w_proc :: "nat \<Rightarrow> eproc"
  w_net :: "(nat \<times> ereq \<times> time) set"
  w_replies :: "nat \<Rightarrow> goerr option set"
  w_next :: nat
  w_used :: "string set"

definition eproc_start :: eproc where
  "eproc_start = \<lparr>p_epoch = [], p_claim = None, p_lease = None, p_renew = None\<rparr>"

definition send_request :: "ereq \<Rightarrow> 's eworld \<Rightarrow> 's eworld" where
  "send_request r w = w\<lparr>w_net := insert (w_next w, r, w_now w) (w_net w), w_next := Suc (w_next w)\<rparr>"

definition set_proc :: "nat \<Rightarrow> eproc \<Rightarrow> 's eworld \<Rightarrow> 's eworld" where
  "set_proc p q w = w\<lparr>w_proc := (w_proc w)(p := q)\<rparr>"

definition answer :: "nat \<Rightarrow> 's \<times> goerr option \<Rightarrow> 's eworld \<Rightarrow> 's eworld" where
  "answer c sr w = w\<lparr>w_store := fst sr, w_replies := (w_replies w)(c := insert (snd sr) (w_replies w c))\<rparr>"

text \<open>The result a caller sees: an answer of its call, or a failure on its own side.\<close>

definition seen :: "'s eworld \<Rightarrow> nat \<Rightarrow> goerr option \<Rightarrow> bool" where
  "seen w c reply = (reply \<noteq> None \<or> reply \<in> w_replies w c)"

inductive estep ::
  "('e, 's) epoch_ops \<Rightarrow> (int \<Rightarrow> 's \<Rightarrow> 's) \<Rightarrow> string \<Rightarrow> string \<Rightarrow> 's eworld \<Rightarrow> 's eworld \<Rightarrow> bool"
  for E :: "('e, 's) epoch_ops" and pass :: "int \<Rightarrow> 's \<Rightarrow> 's" and svc nid :: string where
  tick: "0 \<le> d \<Longrightarrow> estep E pass svc nid w (w\<lparr>w_now := w_now w + d,
      w_store := pass ((w_now w + d) div millisecond - w_now w div millisecond) (w_store w)\<rparr>)"
| claim: "w_proc w p = eproc_start \<Longrightarrow> uuid \<noteq> [] \<Longrightarrow> uuid \<notin> w_used w \<Longrightarrow>
    estep E pass svc nid w (send_request (ReqRegister uuid)
      (set_proc p (eproc_start\<lparr>p_epoch := uuid, p_claim := Some (w_next w, w_now w)\<rparr>)
        (w\<lparr>w_used := insert uuid (w_used w)\<rparr>)))"
| exec_register: "(c, ReqRegister ep, st) \<in> w_net w \<Longrightarrow>
    estep E pass svc nid w (answer c (esRegister E env svc nid ep DefaultNodeEpochTTL (w_store w)) w)"
| exec_renew: "(c, ReqRenew ep, st) \<in> w_net w \<Longrightarrow>
    estep E pass svc nid w (answer c (esRenew E env svc nid ep DefaultNodeEpochTTL (w_store w)) w)"
| exec_unregister: "(c, ReqUnregister ep, st) \<in> w_net w \<Longrightarrow>
    estep E pass svc nid w (answer c (esUnregister E env svc nid ep (w_store w)) w)"
| claimed: "p_claim (w_proc w p) = Some (c, st) \<Longrightarrow> seen w c reply \<Longrightarrow>
    claim_finish \<lparr>id_service = svc, id_node = nid, id_epoch = p_epoch (w_proc w p)\<rparr> st reply ctxErr t = (lease, err) \<Longrightarrow>
    estep E pass svc nid w (set_proc p ((w_proc w p)\<lparr>p_claim := None, p_lease := lease\<rparr>) w)"
| renewing: "p_lease (w_proc w p) = Some e \<Longrightarrow> p_renew (w_proc w p) = None \<Longrightarrow>
    renew_begin t (w_now w) e = (e', Inr (st, rd)) \<Longrightarrow>
    estep E pass svc nid w (send_request (ReqRenew (p_epoch (w_proc w p)))
      (set_proc p ((w_proc w p)\<lparr>p_lease := Some e', p_renew := Some (w_next w, st, rd)\<rparr>) w))"
| renewed: "p_lease (w_proc w p) = Some e \<Longrightarrow> p_renew (w_proc w p) = Some (c, st, rd) \<Longrightarrow> seen w c reply \<Longrightarrow>
    renew_finish st rd reply t ctxErr t' e = (e', err) \<Longrightarrow>
    estep E pass svc nid w (set_proc p ((w_proc w p)\<lparr>p_lease := Some e', p_renew := None\<rparr>) w)"
| checked: "p_lease (w_proc w p) = Some e \<Longrightarrow> el_valid t e = (e', err) \<Longrightarrow>
    estep E pass svc nid w (set_proc p ((w_proc w p)\<lparr>p_lease := Some e'\<rparr>) w)"
| lost: "p_lease (w_proc w p) = Some e \<Longrightarrow>
    estep E pass svc nid w (set_proc p ((w_proc w p)\<lparr>p_lease := Some (el_cancel err e)\<rparr>) w)"
| releasing: "p_lease (w_proc w p) = Some e \<Longrightarrow> stopRenewal ev e = (e', err) \<Longrightarrow>
    estep E pass svc nid w (send_request (ReqUnregister (p_epoch (w_proc w p)))
      (set_proc p ((w_proc w p)\<lparr>p_lease := Some e'\<rparr>) w))"

definition eworld_start :: "time \<Rightarrow> 's \<Rightarrow> 's eworld" where
  "eworld_start now s = \<lparr>w_now = now, w_store = s, w_proc = (\<lambda>_. eproc_start), w_net = {},
     w_replies = (\<lambda>_. {}), w_next = 0, w_used = {}\<rparr>"

text \<open>A process holds the NodeID while its lease is not cancelled and its deadline not reached.\<close>

definition holds_lease :: "'s eworld \<Rightarrow> nat \<Rightarrow> bool" where
  "holds_lease w p =
     (case p_lease (w_proc w p) of None \<Rightarrow> False
      | Some e \<Rightarrow> snd (el_valid (w_now w) e) = None)"

lemma el_valid_nil: "snd (el_valid now e) = None \<longleftrightarrow> el_cause e = None \<and> now < el_deadline e"
  by (auto simp: el_valid_def el_cancel_def split: option.splits)

lemma el_valid_fst: "el_valid now e = (e', err) \<Longrightarrow>
    el_deadline e' = el_deadline e \<and> (el_cause e' = None \<longrightarrow> el_cause e = None)"
  by (auto simp: el_valid_def el_cancel_def split: option.splits if_splits)

lemma el_cancel_simps [simp]:
  "el_deadline (el_cancel err e) = el_deadline e" "el_cause (el_cancel err e) \<noteq> None"
  by (auto simp: el_cancel_def split: option.splits)

section \<open>Mutual exclusion\<close>

definition unregistering :: "'s eworld \<Rightarrow> string \<Rightarrow> bool" where
  "unregistering w ep = (\<exists>c st. (c, ReqUnregister ep, st) \<in> w_net w)"

text \<open>
  An epoch is protected until a moment: that moment is at most one lease away, and while it has not
  come the store holds the epoch with an expiry in whole milliseconds that is not before it.
\<close>

definition protected :: "('s \<Rightarrow> (string \<times> int) option) \<Rightarrow> 's eworld \<Rightarrow> string \<Rightarrow> time \<Rightarrow> bool" where
  "protected h w ep D =
     (D \<le> w_now w + DefaultNodeEpochTTL \<and>
      (w_now w < D \<longrightarrow> (\<exists>t. h (w_store w) = Some (ep, t) \<and> D \<le> (w_now w div millisecond + t + 1) * millisecond)))"

definition net_ok :: "'s eworld \<Rightarrow> bool" where
  "net_ok w =
     ((\<forall>c r st r' st'. (c, r, st) \<in> w_net w \<longrightarrow> (c, r', st') \<in> w_net w \<longrightarrow> r = r' \<and> st = st') \<and>
      (\<forall>c r st. (c, r, st) \<in> w_net w \<longrightarrow> c < w_next w \<and> st \<le> w_now w \<and> req_epoch r \<in> w_used w) \<and>
      (\<forall>c. w_next w \<le> c \<longrightarrow> w_replies w c = {}))"

definition replies_ok :: "('s \<Rightarrow> (string \<times> int) option) \<Rightarrow> 's eworld \<Rightarrow> bool" where
  "replies_ok h w =
     (\<forall>c r st. (c, r, st) \<in> w_net w \<longrightarrow> None \<in> w_replies w c \<longrightarrow> r \<noteq> ReqUnregister (req_epoch r) \<longrightarrow>
        \<not> unregistering w (req_epoch r) \<longrightarrow> protected h w (req_epoch r) (st + DefaultNodeEpochTTL))"

definition proc_ok :: "('s \<Rightarrow> (string \<times> int) option) \<Rightarrow> 's eworld \<Rightarrow> nat \<Rightarrow> bool" where
  "proc_ok h w p =
     (let q = w_proc w p in
      (p_epoch q = [] \<longrightarrow> q = eproc_start) \<and>
      (p_epoch q \<noteq> [] \<longrightarrow> p_epoch q \<in> w_used w) \<and>
      (\<forall>c st. p_claim q = Some (c, st) \<longrightarrow> (c, ReqRegister (p_epoch q), st) \<in> w_net w \<and>
         p_lease q = None \<and> \<not> unregistering w (p_epoch q)) \<and>
      (\<forall>c st rd. p_renew q = Some (c, st, rd) \<longrightarrow> (c, ReqRenew (p_epoch q), st) \<in> w_net w) \<and>
      (p_lease q = None \<longrightarrow> \<not> unregistering w (p_epoch q)) \<and>
      (\<forall>e. p_lease q = Some e \<longrightarrow> el_cause e = None \<longrightarrow>
         \<not> unregistering w (p_epoch q) \<and> protected h w (p_epoch q) (el_deadline e)))"

definition distinct_epochs :: "'s eworld \<Rightarrow> bool" where
  "distinct_epochs w = (\<forall>p q. p_epoch (w_proc w p) = p_epoch (w_proc w q) \<longrightarrow> p_epoch (w_proc w p) \<noteq> [] \<longrightarrow> p = q)"

definition eworld_ok :: "('s \<Rightarrow> bool) \<Rightarrow> ('s \<Rightarrow> (string \<times> int) option) \<Rightarrow> 's eworld \<Rightarrow> bool" where
  "eworld_ok good h w =
     (good (w_store w) \<and> net_ok w \<and> replies_ok h w \<and> (\<forall>p. proc_ok h w p) \<and> distinct_epochs w \<and>
      [] \<notin> w_used w)"

lemma eworld_ok_start: "good s \<Longrightarrow> eworld_ok good h (eworld_start now s)"
  by (simp add: eworld_ok_def eworld_start_def net_ok_def replies_ok_def proc_ok_def distinct_epochs_def
      eproc_start_def unregistering_def)

lemma eworld_ok_exclusive:
  assumes "eworld_ok good h w" "holds_lease w p" "holds_lease w q"
  shows "p = q"
proof -
  have holder: "p_epoch (w_proc w x) \<noteq> [] \<and> (\<exists>t. h (w_store w) = Some (p_epoch (w_proc w x), t))"
    if x: "holds_lease w x" for x
  proof -
    obtain e where e: "p_lease (w_proc w x) = Some e" "el_cause e = None" "w_now w < el_deadline e"
      using x by (auto simp: holds_lease_def el_valid_nil split: option.splits)
    have ok: "proc_ok h w x" using assms(1) by (simp add: eworld_ok_def)
    then have "protected h w (p_epoch (w_proc w x)) (el_deadline e)"
      using e by (simp add: proc_ok_def Let_def)
    then show ?thesis using e ok by (auto simp: protected_def proc_ok_def Let_def eproc_start_def)
  qed
  from holder [OF assms(2)] holder [OF assms(3)] show ?thesis
    using assms(1) by (auto simp: eworld_ok_def distinct_epochs_def)
qed

text \<open>What a store operation does to the holder keeps every other epoch's protection.\<close>

lemma protected_tick:
  assumes "protected h w ep D" "0 \<le> d"
    and "h (pass ((w_now w + d) div millisecond - w_now w div millisecond) (w_store w)) =
      elapse ((w_now w + d) div millisecond - w_now w div millisecond) (h (w_store w))"
  shows "protected h (w\<lparr>w_now := w_now w + d,
      w_store := pass ((w_now w + d) div millisecond - w_now w div millisecond) (w_store w)\<rparr>) ep D"
proof -
  let ?m = "(w_now w + d) div millisecond - w_now w div millisecond"
  have "\<exists>t. elapse ?m (h (w_store w)) = Some (ep, t) \<and> D \<le> ((w_now w + d) div millisecond + t + 1) * millisecond"
    if early: "w_now w + d < D"
  proof -
    obtain t where t: "h (w_store w) = Some (ep, t)" "D \<le> (w_now w div millisecond + t + 1) * millisecond"
      using assms(1,2) early by (auto simp: protected_def)
    have "\<not> t < ?m"
    proof
      assume "t < ?m"
      then have "(w_now w div millisecond + t + 1) * millisecond \<le> (w_now w + d) div millisecond * millisecond"
        by (intro mult_right_mono) (auto simp: millisecond_def nanosecond_def)
      also have "\<dots> \<le> w_now w + d" by (simp add: millisecond_def nanosecond_def)
      finally show False using t(2) early by linarith
    qed
    then have "elapse ?m (h (w_store w)) = Some (ep, t - ?m)" using t(1) by simp
    moreover have "(w_now w + d) div millisecond + (t - ?m) + 1 = w_now w div millisecond + t + 1" by simp
    ultimately show ?thesis using t(2) by metis
  qed
  with assms show ?thesis by (auto simp: protected_def)
qed

lemma epochTTL_millis: "DefaultNodeEpochTTL div millisecond = 30000" "DefaultNodeEpochTTL = 30000 * millisecond"
  by (simp_all add: DefaultNodeEpochTTL_def second_def millisecond_def nanosecond_def)

lemma epochTTL_bound: "DefaultNodeEpochTTL < 2 ^ 63"
  by (simp add: DefaultNodeEpochTTL_def second_def nanosecond_def)

lemma protected_fresh:
  assumes "h (w_store w) = Some (ep, 30000)" "D \<le> w_now w + DefaultNodeEpochTTL"
  shows "protected h w ep D"
proof -
  have "w_now w \<le> (w_now w div millisecond + 1) * millisecond"
    by (simp add: millisecond_def nanosecond_def)
  then show ?thesis using assms by (auto simp: protected_def epochTTL_millis algebra_simps)
qed

text \<open>The effect of executing a request on the holder of the NodeID.\<close>

definition executes :: "('s \<Rightarrow> (string \<times> int) option) \<Rightarrow> ereq \<Rightarrow> 's \<Rightarrow> 's \<times> goerr option \<Rightarrow> bool" where
  "executes h r s sr =
     (h (fst sr) = h s \<and> (snd sr \<noteq> None \<or> r = ReqUnregister (req_epoch r)) \<or>
      r \<noteq> ReqUnregister (req_epoch r) \<and> (h s = None \<or> (\<exists>t. h s = Some (req_epoch r, t))) \<and>
        h (fst sr) = Some (req_epoch r, 30000) \<or>
      r = ReqUnregister (req_epoch r) \<and> (\<exists>t. h s = Some (req_epoch r, t)) \<and> h (fst sr) = None)"

lemma protected_executes:
  assumes "executes h r (w_store w) sr" "protected h w ep D" "r \<noteq> ReqUnregister ep"
  shows "protected h (w\<lparr>w_store := fst sr, w_replies := reps\<rparr>) ep D"
proof (cases "w_now w < D")
  case True
  then obtain t where t: "h (w_store w) = Some (ep, t)" using assms(2) by (auto simp: protected_def)
  with assms(1,3) have "h (fst sr) = Some (ep, t) \<or> h (fst sr) = Some (ep, 30000)"
    by (auto simp: executes_def)
  then show ?thesis
    using assms(2) t protected_fresh [of h "w\<lparr>w_store := fst sr, w_replies := reps\<rparr>" ep D]
    by (auto simp: protected_def)
qed (use assms(2) in \<open>simp add: protected_def\<close>)

lemma world_simps [simp]:
  "w_now (set_proc p q w) = w_now w" "w_store (set_proc p q w) = w_store w"
  "w_net (set_proc p q w) = w_net w" "w_replies (set_proc p q w) = w_replies w"
  "w_next (set_proc p q w) = w_next w" "w_used (set_proc p q w) = w_used w"
  "w_proc (set_proc p q w) = (w_proc w)(p := q)"
  "w_now (send_request r w) = w_now w" "w_store (send_request r w) = w_store w"
  "w_net (send_request r w) = insert (w_next w, r, w_now w) (w_net w)"
  "w_replies (send_request r w) = w_replies w" "w_next (send_request r w) = Suc (w_next w)"
  "w_used (send_request r w) = w_used w" "w_proc (send_request r w) = w_proc w"
  "w_now (answer c sr w) = w_now w" "w_store (answer c sr w) = fst sr" "w_net (answer c sr w) = w_net w"
  "w_replies (answer c sr w) = (w_replies w)(c := insert (snd sr) (w_replies w c))"
  "w_next (answer c sr w) = w_next w" "w_used (answer c sr w) = w_used w" "w_proc (answer c sr w) = w_proc w"
  by (simp_all add: set_proc_def send_request_def answer_def)

lemma unregistering_simps [simp]:
  "unregistering (set_proc p q w) ep = unregistering w ep"
  "unregistering (answer c sr w) ep = unregistering w ep"
  "unregistering (send_request r w) ep = (r = ReqUnregister ep \<or> unregistering w ep)"
  by (auto simp: unregistering_def)

lemma protected_simps [simp]:
  "protected h (set_proc p q w) ep D = protected h w ep D"
  "protected h (send_request r w) ep D = protected h w ep D"
  by (simp_all add: protected_def)

lemma distinct_epochs_simps [simp]:
  "distinct_epochs (answer c sr w) = distinct_epochs w"
  "distinct_epochs (send_request r w) = distinct_epochs w"
  by (simp_all add: distinct_epochs_def)

lemma distinct_epochs_set_proc:
  assumes "p_epoch q = p_epoch (w_proc w p)"
  shows "distinct_epochs (set_proc p q w) = distinct_epochs w"
proof -
  have "p_epoch (w_proc (set_proc p q w) x) = p_epoch (w_proc w x)" for x using assms by simp
  then show ?thesis unfolding distinct_epochs_def by presburger
qed

lemma net_ok_set_proc [simp]: "net_ok (set_proc p q w) = net_ok w"
  by (simp add: net_ok_def)

lemma replies_ok_set_proc [simp]: "replies_ok h (set_proc p q w) = replies_ok h w"
  by (simp add: replies_ok_def)

lemma proc_ok_other: "x \<noteq> p \<Longrightarrow> proc_ok h (set_proc p q w) x = proc_ok h w x"
  by (simp add: proc_ok_def)

lemma eworld_ok_executes:
  assumes ok: "eworld_ok good h w" and r: "(c, r, st) \<in> w_net w"
    and ex: "executes h r (w_store w) sr" and good: "good (fst sr)"
  shows "eworld_ok good h (answer c sr w)"
proof -
  have net: "net_ok w" and st: "st \<le> w_now w" and c: "c < w_next w"
    using ok r by (auto simp: eworld_ok_def net_ok_def)
  have keep: "protected h (answer c sr w) ep D" if "protected h w ep D" "\<not> unregistering w ep" for ep D
    unfolding answer_def using that r ex by (intro protected_executes) (auto simp: unregistering_def)
  have "replies_ok h (answer c sr w)"
    unfolding replies_ok_def
  proof (intro allI impI)
    fix c' r' st'
    assume a: "(c', r', st') \<in> w_net (answer c sr w)" "None \<in> w_replies (answer c sr w) c'"
      "r' \<noteq> ReqUnregister (req_epoch r')" "\<not> unregistering (answer c sr w) (req_epoch r')"
    show "protected h (answer c sr w) (req_epoch r') (st' + DefaultNodeEpochTTL)"
    proof (cases "None \<in> w_replies w c'")
      case True
      then show ?thesis using a ok keep by (auto simp: eworld_ok_def replies_ok_def)
    next
      case False
      then have "c' = c" "snd sr = None" using a(2) by (auto split: if_splits)
      moreover from this have "r' = r" "st' = st" using a(1) r net by (auto simp: net_ok_def)
      ultimately show ?thesis
        using ex a(3) st by (intro protected_fresh) (auto simp: executes_def)
    qed
  qed
  moreover have "proc_ok h (answer c sr w) p" for p
    using ok keep by (auto simp: eworld_ok_def proc_ok_def Let_def)
  moreover have "net_ok (answer c sr w)" using net c by (auto simp: net_ok_def)
  ultimately show ?thesis using ok good by (simp add: eworld_ok_def)
qed

text \<open>A process that changes its own state without sending keeps the invariant if its new state is sound.\<close>

lemma eworld_ok_set_proc:
  assumes "eworld_ok good h w" "p_epoch q = p_epoch (w_proc w p)" "proc_ok h (set_proc p q w) p"
  shows "eworld_ok good h (set_proc p q w)"
proof -
  have "proc_ok h (set_proc p q w) x" for x
    using assms(1,3) by (cases "x = p") (simp_all add: eworld_ok_def proc_ok_other)
  with assms(1,2) show ?thesis by (simp add: eworld_ok_def distinct_epochs_set_proc)
qed

lemma eworld_ok_send:
  assumes ok: "eworld_ok good h w" and ep: "req_epoch r \<in> w_used w"
    and unreg: "\<And>p. r = ReqUnregister (p_epoch (w_proc w p)) \<Longrightarrow>
      p_claim (w_proc w p) = None \<and> (\<exists>e. p_lease (w_proc w p) = Some e \<and> el_cause e \<noteq> None)"
  shows "eworld_ok good h (send_request r w)"
proof -
  have net: "net_ok w" using ok by (simp add: eworld_ok_def)
  then have fn: "\<And>c r st r' st'. (c, r, st) \<in> w_net w \<Longrightarrow> (c, r', st') \<in> w_net w \<Longrightarrow> r = r' \<and> st = st'"
    and lt: "\<And>c r st. (c, r, st) \<in> w_net w \<Longrightarrow> c < w_next w \<and> st \<le> w_now w \<and> req_epoch r \<in> w_used w"
    unfolding net_ok_def by blast+
  have "net_ok (send_request r w)"
    unfolding net_ok_def
  proof (intro conjI allI impI)
    fix c r1 st1 r2 st2
    assume "(c, r1, st1) \<in> w_net (send_request r w)" "(c, r2, st2) \<in> w_net (send_request r w)"
    then show "r1 = r2" "st1 = st2" using fn lt by (auto dest: lt)
  qed (use net ep in \<open>auto simp: net_ok_def dest: lt\<close>)
  moreover have "w_replies w (w_next w) = {}" using net by (simp add: net_ok_def)
  then have "replies_ok h (send_request r w)"
    using ok by (auto simp: eworld_ok_def replies_ok_def)
  moreover have "proc_ok h (send_request r w) p" for p
  proof -
    have "proc_ok h w p" using ok by (simp add: eworld_ok_def)
    then show ?thesis using unreg [of p] by (auto simp: proc_ok_def Let_def)
  qed
  ultimately show ?thesis using ok by (simp add: eworld_ok_def)
qed

lemma eworld_ok_protected:
  assumes "eworld_ok good h w" "(c, r, st) \<in> w_net w" "seen w c None" "r \<noteq> ReqUnregister (req_epoch r)"
    and "\<not> unregistering w (req_epoch r)"
  shows "protected h w (req_epoch r) (st + DefaultNodeEpochTTL)"
  using assms by (auto simp: eworld_ok_def replies_ok_def seen_def)

lemma claim_finish_lease:
  "claim_finish i st reply ctxErr t = (lease, err) \<Longrightarrow> lease = Some e \<Longrightarrow>
   reply = None \<and> el_deadline e = st + DefaultNodeEpochTTL"
  by (auto simp: claim_finish_def newEpochLease_def Let_def dest: el_valid_fst
      split: option.splits prod.splits)

text \<open>
  A renewal extends the lease only on an answer of success that came in time, under a live context,
  while the lease was still valid; and then to one lease after the start of the call.
\<close>

lemma renew_finish_lease:
  assumes "renew_finish st rd reply t ctxErr t' e = (e', err)"
  shows "(el_cause e' = None \<longrightarrow> el_cause e = None) \<and>
    (el_deadline e' = el_deadline e \<or>
     reply = None \<and> t < rd \<and> ctxErr = None \<and> err = None \<and> el_cause e = None \<and> t' < el_deadline e \<and>
     el_deadline e' = st + DefaultNodeEpochTTL)"
proof (cases "reply = None \<and> t < rd \<and> ctxErr = None")
  case True
  then show ?thesis
    using assms el_valid_nil [of t' e] el_valid_fst [of t' e "fst (el_valid t' e)"]
    by (auto simp: renew_finish_def Let_def split: option.splits prod.splits if_splits)
next
  case False
  then show ?thesis
    using assms by (auto simp: renew_finish_def Let_def split: option.splits prod.splits if_splits)
qed

lemma eworld_ok_tick:
  assumes ok: "eworld_ok good h w" and d: "0 \<le> d"
    and store: "\<And>m. 0 \<le> m \<Longrightarrow> good (pass m (w_store w)) \<and> h (pass m (w_store w)) = elapse m (h (w_store w))"
  shows "eworld_ok good h (w\<lparr>w_now := w_now w + d,
      w_store := pass ((w_now w + d) div millisecond - w_now w div millisecond) (w_store w)\<rparr>)"
    (is "eworld_ok good h ?w")
proof -
  have m: "0 \<le> (w_now w + d) div millisecond - w_now w div millisecond"
    using d by (simp add: zdiv_mono1 millisecond_def nanosecond_def)
  have keep: "protected h ?w ep D" if "protected h w ep D" for ep D
    using protected_tick [OF that d] store [OF m] by blast
  have same: "unregistering ?w ep = unregistering w ep" for ep by (simp add: unregistering_def)
  have "net_ok ?w" using ok d unfolding eworld_ok_def net_ok_def by (auto intro: add_increasing2)
  moreover have "replies_ok h ?w" using ok keep same by (auto simp: eworld_ok_def replies_ok_def)
  moreover have "proc_ok h ?w p" for p
  proof -
    have "proc_ok h w p" using ok by (simp add: eworld_ok_def)
    then show ?thesis using keep same by (simp add: proc_ok_def Let_def)
  qed
  ultimately show ?thesis using ok store [OF m] by (simp add: eworld_ok_def distinct_epochs_def)
qed

lemma eworld_ok_claim:
  assumes ok: "eworld_ok good h w" and p: "w_proc w p = eproc_start" and uuid: "uuid \<noteq> []" "uuid \<notin> w_used w"
  shows "eworld_ok good h (send_request (ReqRegister uuid)
    (set_proc p (eproc_start\<lparr>p_epoch := uuid, p_claim := Some (w_next w, w_now w)\<rparr>)
      (w\<lparr>w_used := insert uuid (w_used w)\<rparr>)))" (is "eworld_ok good h ?w")
proof -
  have used: "req_epoch r \<in> w_used w" if "(c, r, st) \<in> w_net w" for c r st
    using ok that unfolding eworld_ok_def net_ok_def by blast
  then have fresh: "\<not> unregistering w uuid" using uuid(2) by (fastforce simp: unregistering_def)
  let ?u = "w\<lparr>w_used := insert uuid (w_used w)\<rparr>"
  have "net_ok ?u" using ok unfolding eworld_ok_def net_ok_def by auto
  moreover have "replies_ok h ?u" using ok by (simp add: eworld_ok_def replies_ok_def unregistering_def protected_def)
  moreover have "proc_ok h ?u x" for x
  proof -
    have "proc_ok h w x" using ok by (simp add: eworld_ok_def)
    then show ?thesis by (auto simp: proc_ok_def Let_def unregistering_def protected_def)
  qed
  ultimately have "eworld_ok good h ?u" using ok uuid(1) by (simp add: eworld_ok_def distinct_epochs_def)
  then have sent: "eworld_ok good h (send_request (ReqRegister uuid) ?u)" by (rule eworld_ok_send) auto
  have swap: "?w = set_proc p (eproc_start\<lparr>p_epoch := uuid, p_claim := Some (w_next w, w_now w)\<rparr>)
      (send_request (ReqRegister uuid) ?u)" by (simp add: send_request_def set_proc_def)
  have other: "p_epoch (w_proc w x) \<noteq> uuid" for x
    using ok uuid by (auto simp: eworld_ok_def proc_ok_def Let_def)
  have "distinct_epochs ?w"
    using ok other by (auto simp: eworld_ok_def distinct_epochs_def)
  moreover have "proc_ok h ?w x" for x
  proof (cases "x = p")
    case True
    then show ?thesis using uuid fresh by (simp add: proc_ok_def eproc_start_def unregistering_def)
  next
    case False
    then show ?thesis using sent unfolding swap by (simp add: proc_ok_other eworld_ok_def)
  qed
  ultimately show ?thesis using sent unfolding swap by (simp add: eworld_ok_def)
qed

lemma stopRenewal_cancels: "stopRenewal ev e = (e', err) \<Longrightarrow> el_cause e' \<noteq> None \<and> el_deadline e' = el_deadline e"
  using el_cancel_simps [of ctx_canceled e] by (auto simp: stopRenewal_def Let_def)

lemma renew_begin_lease: "renew_begin t now e = (e', Inr (st, rd)) \<Longrightarrow>
    st = now \<and> el_deadline e' = el_deadline e \<and> (el_cause e' = None \<longrightarrow> el_cause e = None)"
  by (auto simp: renew_begin_def Let_def dest: el_valid_fst split: prod.splits option.splits)

text \<open>A process whose lease is replaced by one that is sound whenever it is not cancelled.\<close>

lemma proc_ok_lease:
  assumes ok: "eworld_ok good h w" and e: "p_lease (w_proc w p) = Some e"
    and e': "el_cause e' = None \<Longrightarrow> el_cause e = None \<and> protected h w (p_epoch (w_proc w p)) (el_deadline e')"
    and rn: "rn = None \<or> rn = p_renew (w_proc w p)"
  shows "eworld_ok good h (set_proc p ((w_proc w p)\<lparr>p_lease := Some e', p_renew := rn\<rparr>) w)"
proof (rule eworld_ok_set_proc [OF ok])
  have "proc_ok h w p" using ok by (simp add: eworld_ok_def)
  then show "proc_ok h (set_proc p ((w_proc w p)\<lparr>p_lease := Some e', p_renew := rn\<rparr>) w) p"
    using e e' rn by (auto simp: proc_ok_def Let_def eproc_start_def)
qed simp

lemma proc_lease_used:
  assumes "eworld_ok good h w" "p_lease (w_proc w p) = Some e"
  shows "p_epoch (w_proc w p) \<in> w_used w" "p_claim (w_proc w p) = None" "p_epoch (w_proc w p) \<noteq> []"
    and "el_cause e = None \<Longrightarrow> \<not> unregistering w (p_epoch (w_proc w p)) \<and>
      protected h w (p_epoch (w_proc w p)) (el_deadline e)"
proof -
  have ok: "proc_ok h w p" using assms by (simp add: eworld_ok_def)
  then show "p_epoch (w_proc w p) \<noteq> []" using assms(2) by (auto simp: proc_ok_def Let_def eproc_start_def)
  then show "p_epoch (w_proc w p) \<in> w_used w" using ok by (simp add: proc_ok_def Let_def)
  show "p_claim (w_proc w p) = None"
    using ok assms(2) by (cases "p_claim (w_proc w p)") (auto simp: proc_ok_def Let_def)
  show "el_cause e = None \<Longrightarrow> \<not> unregistering w (p_epoch (w_proc w p)) \<and>
      protected h w (p_epoch (w_proc w p)) (el_deadline e)"
    using ok assms(2) by (simp add: proc_ok_def Let_def)
qed

lemma eworld_ok_claimed:
  assumes ok: "eworld_ok good h w" and claim: "p_claim (w_proc w p) = Some (c, st)" and reply: "seen w c reply"
    and fin: "claim_finish i st reply ctxErr t = (lease, err)"
  shows "eworld_ok good h (set_proc p ((w_proc w p)\<lparr>p_claim := None, p_lease := lease\<rparr>) w)"
proof (rule eworld_ok_set_proc [OF ok])
  have p: "proc_ok h w p" using ok by (simp add: eworld_ok_def)
  then have net: "(c, ReqRegister (p_epoch (w_proc w p)), st) \<in> w_net w"
    and un: "\<not> unregistering w (p_epoch (w_proc w p))"
    using claim by (auto simp: proc_ok_def Let_def)
  have "protected h w (p_epoch (w_proc w p)) (el_deadline e)" if "lease = Some e" for e
    using claim_finish_lease [OF fin that] eworld_ok_protected [OF ok net] reply un by simp
  then show "proc_ok h (set_proc p ((w_proc w p)\<lparr>p_claim := None, p_lease := lease\<rparr>) w) p"
    using p un claim by (auto simp: proc_ok_def Let_def eproc_start_def)
qed simp

lemma eworld_ok_renewed:
  assumes ok: "eworld_ok good h w" and e: "p_lease (w_proc w p) = Some e"
    and rn: "p_renew (w_proc w p) = Some (c, st, rd)" and reply: "seen w c reply"
    and fin: "renew_finish st rd reply t ctxErr t' e = (e', err)"
  shows "eworld_ok good h (set_proc p ((w_proc w p)\<lparr>p_lease := Some e', p_renew := None\<rparr>) w)"
proof (rule proc_ok_lease [OF ok e])
  assume "el_cause e' = None"
  then have c: "el_cause e = None" using renew_finish_lease [OF fin] by simp
  have net: "(c, ReqRenew (p_epoch (w_proc w p)), st) \<in> w_net w"
    using ok rn by (auto simp: eworld_ok_def proc_ok_def Let_def)
  show "el_cause e = None \<and> protected h w (p_epoch (w_proc w p)) (el_deadline e')"
    using renew_finish_lease [OF fin] c proc_lease_used(4) [OF ok e c] eworld_ok_protected [OF ok net] reply
    by auto
qed simp

lemma eworld_ok_renewing:
  assumes ok: "eworld_ok good h w" and e: "p_lease (w_proc w p) = Some e"
    and beg: "renew_begin t (w_now w) e = (e', Inr (st, rd))"
  shows "eworld_ok good h (send_request (ReqRenew (p_epoch (w_proc w p)))
      (set_proc p ((w_proc w p)\<lparr>p_lease := Some e', p_renew := Some (w_next w, st, rd)\<rparr>) w))"
    (is "eworld_ok good h ?w")
proof -
  note used = proc_lease_used [OF ok e]
  have sent: "eworld_ok good h (send_request (ReqRenew (p_epoch (w_proc w p))) w)"
    using ok used(1) by (intro eworld_ok_send) auto
  have swap: "?w = set_proc p ((w_proc w p)\<lparr>p_lease := Some e', p_renew := Some (w_next w, st, rd)\<rparr>)
      (send_request (ReqRenew (p_epoch (w_proc w p))) w)" by (simp add: send_request_def set_proc_def)
  have "proc_ok h w p" using ok by (simp add: eworld_ok_def)
  then have "proc_ok h ?w p"
    using used(2-4) renew_begin_lease [OF beg] e by (auto simp: proc_ok_def Let_def eproc_start_def)
  then show ?thesis unfolding swap by (intro eworld_ok_set_proc [OF sent]) (simp_all add: swap)
qed

lemma eworld_ok_releasing:
  assumes ok: "eworld_ok good h w" and e: "p_lease (w_proc w p) = Some e" and stop: "stopRenewal ev e = (e', err)"
  shows "eworld_ok good h (send_request (ReqUnregister (p_epoch (w_proc w p)))
      (set_proc p ((w_proc w p)\<lparr>p_lease := Some e'\<rparr>) w))"
proof -
  note used = proc_lease_used [OF ok e]
  let ?v = "set_proc p ((w_proc w p)\<lparr>p_lease := Some e'\<rparr>) w"
  have c: "el_cause e' \<noteq> None" using stopRenewal_cancels [OF stop] by simp
  have v: "eworld_ok good h ?v"
    using proc_ok_lease [OF ok e, of e' "p_renew (w_proc w p)"] c by simp
  show ?thesis
  proof (rule eworld_ok_send [OF v])
    fix x
    assume "ReqUnregister (p_epoch (w_proc w p)) = ReqUnregister (p_epoch (w_proc ?v x))"
    then have "p_epoch (w_proc w p) = p_epoch (w_proc w x)" by (cases "x = p") simp_all
    moreover have "distinct_epochs w" using ok by (simp add: eworld_ok_def)
    ultimately have "x = p" using used(3) unfolding distinct_epochs_def by blast
    then show "p_claim (w_proc ?v x) = None \<and> (\<exists>e. p_lease (w_proc ?v x) = Some e \<and> el_cause e \<noteq> None)"
      using used(2) c by simp
  qed (use used(1) in simp)
qed

context epoch_store
begin

lemma register_executes:
  assumes "inv s"
  shows "inv (fst (esRegister E env svc nid ep DefaultNodeEpochTTL s)) \<and>
    executes (\<lambda>s. epochs s (svc, nid)) (ReqRegister ep) s (esRegister E env svc nid ep DefaultNodeEpochTTL s)"
proof (cases "esRegister E env svc nid ep DefaultNodeEpochTTL s")
  case (Pair s' res)
  show ?thesis
    using register [OF assms epochTTL_bound Pair] Pair
    by (elim conjE disjE) (simp_all add: executes_def epochTTL_millis(1))
qed

lemma renew_executes:
  assumes "inv s"
  shows "inv (fst (esRenew E env svc nid ep DefaultNodeEpochTTL s)) \<and>
    executes (\<lambda>s. epochs s (svc, nid)) (ReqRenew ep) s (esRenew E env svc nid ep DefaultNodeEpochTTL s)"
proof (cases "esRenew E env svc nid ep DefaultNodeEpochTTL s")
  case (Pair s' res)
  show ?thesis
    using renew [OF assms epochTTL_bound Pair] Pair
    by (elim conjE disjE) (simp_all add: executes_def epochTTL_millis(1))
qed

lemma unregister_executes:
  assumes "inv s"
  shows "inv (fst (esUnregister E env svc nid ep s)) \<and>
    executes (\<lambda>s. epochs s (svc, nid)) (ReqUnregister ep) s (esUnregister E env svc nid ep s)"
proof (cases "esUnregister E env svc nid ep s")
  case (Pair s' res)
  show ?thesis
    using unregister [OF assms Pair] Pair by (elim conjE disjE) (simp_all add: executes_def)
qed

lemma estep_ok:
  assumes "estep E pass svc nid w w'" "eworld_ok inv (\<lambda>s. epochs s (svc, nid)) w"
  shows "eworld_ok inv (\<lambda>s. epochs s (svc, nid)) w'"
  using assms
proof (induction rule: estep.induct)
  case (tick d w)
  then show ?case using pass_epochs by (intro eworld_ok_tick) (auto simp: eworld_ok_def)
next
  case (exec_register c ep st w env)
  have "inv (w_store w)" using exec_register by (simp add: eworld_ok_def)
  from register_executes [OF this] show ?case
    by (intro eworld_ok_executes [OF exec_register(2,1)]) auto
next
  case (exec_renew c ep st w env)
  have "inv (w_store w)" using exec_renew by (simp add: eworld_ok_def)
  from renew_executes [OF this] show ?case
    by (intro eworld_ok_executes [OF exec_renew(2,1)]) auto
next
  case (exec_unregister c ep st w env)
  have "inv (w_store w)" using exec_unregister by (simp add: eworld_ok_def)
  from unregister_executes [OF this] show ?case
    by (intro eworld_ok_executes [OF exec_unregister(2,1)]) auto
next
  case (checked w p e t e' err)
  have "eworld_ok inv (\<lambda>s. epochs s (svc, nid))
      (set_proc p ((w_proc w p)\<lparr>p_lease := Some e', p_renew := p_renew (w_proc w p)\<rparr>) w)"
    using checked(3) el_valid_fst [OF checked(2)] proc_lease_used(4) [OF checked(3,1)]
    by (intro proc_ok_lease [OF checked(3,1)]) auto
  then show ?case by simp
next
  case (lost w p e err)
  have "eworld_ok inv (\<lambda>s. epochs s (svc, nid))
      (set_proc p ((w_proc w p)\<lparr>p_lease := Some (el_cancel err e), p_renew := p_renew (w_proc w p)\<rparr>) w)"
    by (intro proc_ok_lease [OF lost(2,1)]) auto
  then show ?case by simp
qed (auto intro: eworld_ok_claim eworld_ok_claimed eworld_ok_renewing eworld_ok_renewed eworld_ok_releasing)

lemma estep_exclusive:
  assumes "inv s" "(estep E pass svc nid)\<^sup>*\<^sup>* (eworld_start now s) w" "holds_lease w p" "holds_lease w q"
  shows "p = q"
proof -
  from assms(2) have "eworld_ok inv (\<lambda>s. epochs s (svc, nid)) w"
    by (induction rule: rtranclp_induct) (auto intro: eworld_ok_start [of inv, OF assms(1)] estep_ok)
  then show ?thesis using assms(3,4) by (rule eworld_ok_exclusive)
qed

end

section \<open>Properties\<close>

lemma monitor_quiet: "fst (snd (monitor rs False e)) = []"
  by (induction rs arbitrary: e) (auto split: mon_event.splits option.splits prod.splits)

lemma monitor_sent:
  "monitor rs True e = (e', sent, res) \<Longrightarrow>
   (res \<noteq> None \<longrightarrow> length sent = 1) \<and> length sent \<le> 1 \<and>
   (sent = [None] \<longrightarrow> (\<exists>r\<in>set rs. mr_event r = MonResult None))"
proof (induction rs arbitrary: e e' sent res)
  case (Cons r rs)
  show ?case
  proof (cases "mr_event r")
    case (MonResult err)
    obtain e1 verr where v: "el_valid (mr_now r) (mon_see r e) = (e1, verr)" by fastforce
    then show ?thesis
      using Cons.prems MonResult monitor_quiet [of rs e1]
      by (cases err; cases verr; cases "monitor rs False e1") auto
  qed (use Cons in \<open>auto split: prod.splits option.splits\<close>)
qed simp

lemma monitor_ends:
  "\<exists>r\<in>set rs. mr_deadline r \<le> mr_now r \<or> mr_cancel r \<noteq> None \<Longrightarrow> snd (snd (monitor rs ready e)) \<noteq> None"
proof (induction rs arbitrary: ready e)
  case (Cons r rs)
  obtain e1 verr where v: "el_valid (mr_now r) (mon_see r e) = (e1, verr)" by fastforce
  have inv: "verr \<noteq> None" if "mr_deadline r \<le> mr_now r \<or> mr_cancel r \<noteq> None"
    using that el_valid_nil [of "mr_now r" "mon_see r e"] v
    by (auto simp: mon_see_def Let_def el_cancel_def split: option.splits)
  have "verr = None \<Longrightarrow> \<exists>r\<in>set rs. mr_deadline r \<le> mr_now r \<or> mr_cancel r \<noteq> None"
    using Cons.prems inv by (metis set_ConsD)
  then have IH: "verr = None \<Longrightarrow> snd (snd (monitor rs b e1)) \<noteq> None" for b
    using Cons.IH by blast
  show ?case
    using v IH [of True] IH [of False] by (cases verr; cases ready; cases "mr_event r"; cases "monitor rs False e1")
      (auto split: option.splits)
qed simp

context redis_clock
begin

lemma redis_epochs_exclusive:
  assumes "epochs_expire (look r)" "(estep (redis_epoch_ops R) pass svc nid)\<^sup>*\<^sup>* (eworld_start now r) w"
    and "holds_lease w p" "holds_lease w q"
  shows "p = q"
  using assms by (rule epochs.estep_exclusive)

end

text \<open>
  C8. For one service and NodeID on one Redis server, at most one process holds a valid epoch lease at
  any moment: however claims, renewals, releases, lost, repeated and late store requests, clock
  readings and cancellations interleave, two processes whose local validity check passes are the
  same process.
\<close>

theorem epoch_mutual_exclusion:
  assumes "redis_clock R look pass" "epochs_expire (look r)"
    and "(estep (redis_epoch_ops R) pass svc nid)\<^sup>*\<^sup>* (eworld_start now r) w"
    and "holds_lease w p" "holds_lease w q"
  shows "p = q"
  using assms by (rule redis_clock.redis_epochs_exclusive)

text \<open>A process claims the NodeID on an empty store, the store executes it and the answer arrives.\<close>

definition demo_env :: call_env where
  "demo_env = \<lparr>io_outcome = Done, ctx_err = None, past_deadline = False, net_timeout = (\<lambda>_. False)\<rparr>"

definition demo_store :: kv where
  "demo_store = fst (RegisterNodeEpoch kv_ops demo_env ''game'' ''n1'' ''e1'' DefaultNodeEpochTTL kv_empty)"

definition demo_claimed :: "kv eworld" where
  "demo_claimed = \<lparr>w_now = 0, w_store = demo_store,
     w_proc = (\<lambda>_. eproc_start)(0 := \<lparr>p_epoch = ''e1'', p_claim = None,
       p_lease = Some (newEpochLease \<lparr>id_service = ''game'', id_node = ''n1'', id_epoch = ''e1''\<rparr> DefaultNodeEpochTTL),
       p_renew = None\<rparr>),
     w_net = {(0, ReqRegister ''e1'', 0)}, w_replies = (\<lambda>_. {})(0 := {None}), w_next = 1, w_used = {''e1''}\<rparr>"

lemma demo_register: "RegisterNodeEpoch kv_ops demo_env ''game'' ''n1'' ''e1'' DefaultNodeEpochTTL kv_empty = (demo_store, None)"
proof -
  have "snd (RegisterNodeEpoch kv_ops demo_env ''game'' ''n1'' ''e1'' DefaultNodeEpochTTL kv_empty) = None"
    by code_simp
  then show ?thesis by (simp add: demo_store_def prod_eq_iff)
qed

lemma demo_claimed_reach:
  "(estep (redis_epoch_ops kv_ops) kv_pass ''game'' ''n1'')\<^sup>*\<^sup>* (eworld_start 0 kv_empty) demo_claimed"
proof -
  let ?S = "estep (redis_epoch_ops kv_ops) kv_pass ''game'' ''n1''"
  let ?w1 = "send_request (ReqRegister ''e1'') (set_proc 0 (eproc_start\<lparr>p_epoch := ''e1'', p_claim := Some (0, 0)\<rparr>)
      ((eworld_start 0 kv_empty)\<lparr>w_used := {''e1''}\<rparr>))"
  let ?w2 = "answer 0 (demo_store, None) ?w1"
  have "?S (eworld_start 0 kv_empty) ?w1"
    using estep.claim [of "eworld_start 0 kv_empty" 0 "''e1''"] by (simp add: eworld_start_def)
  moreover have "?S ?w1 ?w2"
    using estep.exec_register [of 0 "''e1''" 0 ?w1 "redis_epoch_ops kv_ops" kv_pass "''game''" "''n1''" demo_env]
    by (simp add: eworld_start_def redis_epoch_ops_def demo_register)
  moreover have "?S ?w2 demo_claimed"
    using estep.claimed [of ?w2 0 0 0 None "''game''" "''n1''" None 0 "Some (newEpochLease
        \<lparr>id_service = ''game'', id_node = ''n1'', id_epoch = ''e1''\<rparr> DefaultNodeEpochTTL)" None
        "redis_epoch_ops kv_ops" kv_pass]
    by (simp add: eworld_start_def eproc_start_def seen_def claim_finish_def newEpochLease_def el_valid_def
        DefaultNodeEpochTTL_def second_def nanosecond_def demo_claimed_def set_proc_def send_request_def answer_def)
  ultimately show ?thesis by (meson converse_rtranclp_into_rtranclp rtranclp.rtrancl_refl)
qed

lemma demo_claimed_holds: "holds_lease demo_claimed 0"
  by (simp add: holds_lease_def demo_claimed_def newEpochLease_def el_valid_nil DefaultNodeEpochTTL_def
      second_def nanosecond_def)

theorem epoch_mutual_exclusion_witness: "{q. holds_lease demo_claimed q} = {0}"
  using epoch_mutual_exclusion [OF kv.redis_clock_axioms _ demo_claimed_reach demo_claimed_holds]
    demo_claimed_holds by (auto simp: epochs_expire_def)

text \<open>
  C9. A renewal moves the lease's deadline only when the store confirmed it, the answer came before
  both the old deadline and the call's own timeout, and the lease was still valid before and after;
  the new deadline counts from the clock reading taken before the call.
\<close>

theorem renewOnce_extends_in_time:
  assumes "renewOnce E env now started back ctxErr now' e s = (s', e', err)" "el_deadline e' \<noteq> el_deadline e"
  shows "err = None \<and> el_deadline e' = started + DefaultNodeEpochTTL \<and>
    el_cause e = None \<and> now < el_deadline e \<and> back < el_deadline e \<and> now' < el_deadline e \<and>
    back < started + nodeEpochRPCTimeout \<and>
    esRenew E env (id_service (el_identity e)) (id_node (el_identity e)) (id_epoch (el_identity e))
      DefaultNodeEpochTTL s = (s', None)"
proof -
  obtain e1 err1 where v: "el_valid now e = (e1, err1)" by fastforce
  have err1: "err1 = None"
    using assms v el_valid_fst [OF v] by (cases err1) (auto simp: renewOnce_def renew_begin_def)
  then have ok: "el_cause e = None" "now < el_deadline e" using v el_valid_nil [of now e] by auto
  then have e1: "e1 = e" using v by (simp add: el_valid_def)
  obtain s1 reply where call: "esRenew E env (id_service (el_identity e)) (id_node (el_identity e))
      (id_epoch (el_identity e)) DefaultNodeEpochTTL s = (s1, reply)" by fastforce
  define rd where "rd = (if started + nodeEpochRPCTimeout < el_deadline e then started + nodeEpochRPCTimeout else el_deadline e)"
  have fin: "renew_finish started rd reply back ctxErr now' e = (e', err)" and s': "s1 = s'"
    using assms(1) v err1 e1 call by (auto simp: renewOnce_def renew_begin_def rd_def Let_def)
  from renew_finish_lease [OF fin] assms(2) call s' ok show ?thesis
    by (auto simp: rd_def split: if_splits)
qed

definition demo_lease :: epochLease where
  "demo_lease = newEpochLease \<lparr>id_service = ''game'', id_node = ''n1'', id_epoch = ''e1''\<rparr> DefaultNodeEpochTTL"

definition demo_renewal :: "kv \<times> epochLease \<times> goerr option" where
  "demo_renewal = renewOnce (redis_epoch_ops kv_ops) demo_env (10 * second) (10 * second) (11 * second) None
     (11 * second) demo_lease demo_store"

lemma demo_renewal_moved: "el_deadline (fst (snd demo_renewal)) \<noteq> el_deadline demo_lease"
  by code_simp

theorem renewOnce_extends_in_time_witness:
  "el_deadline (fst (snd demo_renewal)) = 10 * second + DefaultNodeEpochTTL \<and> snd (snd demo_renewal) = None"
  using renewOnce_extends_in_time [of "redis_epoch_ops kv_ops" demo_env "10 * second" "10 * second" "11 * second"
      None "11 * second" demo_lease demo_store "fst demo_renewal" "fst (snd demo_renewal)" "snd (snd demo_renewal)"]
    demo_renewal_moved
  by (simp add: demo_renewal_def)


definition demo_rounds :: "mon_round list" where
  "demo_rounds = [\<lparr>mr_event = MonResult None, mr_deadline = 40 * second, mr_cancel = None, mr_now = 10 * second\<rparr>,
     \<lparr>mr_event = MonTimer, mr_deadline = 40 * second, mr_cancel = None, mr_now = 40 * second\<rparr>]"


context redis_server
begin

lemma unregisterNodeEpoch_nil:
  assumes "UnregisterNodeEpoch R e s n ep r = (r', None)"
  shows "map_option fst (look r' (nodeEpochKey s n)) \<noteq> Some ep"
proof -
  let ?body = "deleteIfValueMatchesScript R (nodeEpochKey s n) ep"
  obtain vs where "?body r = (r', Inr vs)"
    using assms runScript_Inr [of e deleteIfValueMatchesScript_source ?body r]
    by (auto simp: UnregisterNodeEpoch_def split: if_splits prod.splits sum.splits)
  then show ?thesis
    by (auto simp: deleteIfValueMatchesScript_def get del split: option.splits if_splits)
qed

end

text \<open>
  When a release of the lease on Redis returns nil for the first time, the lease is cancelled, the
  store no longer holds its epoch, and no other key of the store has changed.
\<close>

lemma epoch_release_clears:
  assumes "redis_server R look" "epoch_release (redis_epoch_ops R) env ev e r = (r', e', None)"
    and "\<not> el_released e" "id_service (el_identity e) = s" "id_node (el_identity e) = n" "id_epoch (el_identity e) = ep"
    and "snd (UnregisterNodeEpoch R env s n ep r) = None"
  shows "el_cause e' \<noteq> None \<and> el_released e' \<and> map_option fst (look r' (nodeEpochKey s n)) \<noteq> Some ep \<and>
    (\<forall>k. k \<noteq> nodeEpochKey s n \<longrightarrow> look r' k = look r k)"
proof -
  obtain e1 where stop: "stopRenewal ev e = (e1, None)"
    using assms(2) by (cases "stopRenewal ev e"; cases "snd (stopRenewal ev e)") (auto simp: epoch_release_def)
  have e1: "el_identity e1 = el_identity e" "el_released e1 = el_released e"
    using stop by (auto simp: stopRenewal_def Let_def el_cancel_def split: option.splits)
  have call: "UnregisterNodeEpoch R env s n ep r = (r', None)" and e': "e' = e1\<lparr>el_released := True\<rparr>"
    using assms(2-7) stop e1
    by (auto simp: epoch_release_def redis_epoch_ops_def split: prod.splits option.splits if_splits)
  then show ?thesis
    using redis_server.unregisterNodeEpoch_nil [OF assms(1) call] stopRenewal_cancels [OF stop]
      redis_server.unregisterNodeEpoch_state [OF assms(1) call] by auto
qed

lemma epoch_release_clears_witness:
  "map_option fst (kv_look (fst (epoch_release (redis_epoch_ops kv_ops) demo_env WaitDone demo_lease demo_store))
     (nodeEpochKey ''game'' ''n1'')) \<noteq> Some ''e1''"
proof -
  let ?rel = "epoch_release (redis_epoch_ops kv_ops) demo_env WaitDone demo_lease demo_store"
  have "snd (snd ?rel) = None" "\<not> el_released demo_lease" "id_service (el_identity demo_lease) = ''game''"
    "id_node (el_identity demo_lease) = ''n1''" "id_epoch (el_identity demo_lease) = ''e1''"
    "snd (UnregisterNodeEpoch kv_ops demo_env ''game'' ''n1'' ''e1'' demo_store) = None"
    by code_simp+
  then show ?thesis
    using epoch_release_clears [OF kv.redis_server_axioms, of demo_env WaitDone demo_lease demo_store
        "fst ?rel" "fst (snd ?rel)"] by (simp add: prod_eq_iff)
qed

end
