(* ===== verification/Protocol.thy ===== *)
theory Protocol
  imports Prelude
begin

text \<open>
  The external message envelope (\<open>api/protocol/v1\<close>) and the transport-independent parts of
  \<open>network\<close>: connections, prepared messages, the invoker of a connection and the Kratos transporter.
  The protobuf codec is not part of the repository: encoding and size are parameters.
\<close>

section \<open>Messages\<close>

record Proto =
  Op :: int
  Seq :: int
  Code :: int
  Cmd :: int
  Body :: bytes

definition MaxProtoSize :: nat where "MaxProtoSize = 2 ^ 12"
definition KickCodeSessionReplaced :: int where "KickCodeSessionReplaced = 1"
definition KickCodeServerShutdown :: int where "KickCodeServerShutdown = 2"

text \<open>The defaults the transports share (\<open>network/defaults.go\<close>).\<close>

abbreviation DefaultSendQueueSize :: int where "DefaultSendQueueSize \<equiv> 32"
abbreviation DefaultRequestQueueSize :: int where "DefaultRequestQueueSize \<equiv> 8"
abbreviation DefaultMaxConnLimit :: int where "DefaultMaxConnLimit \<equiv> 10000"
abbreviation DefaultMaxConnPerIP :: int where "DefaultMaxConnPerIP \<equiv> 100"
abbreviation DefaultHandshakeTimeout :: duration where "DefaultHandshakeTimeout \<equiv> 15 * second"
abbreviation DefaultHandlerTimeout :: duration where "DefaultHandlerTimeout \<equiv> 3 * second"
abbreviation DefaultWriteTimeout :: duration where "DefaultWriteTimeout \<equiv> 10 * second"

text \<open>The operations of a message.\<close>

definition OpUnspecified :: int where "OpUnspecified = 0"
definition OpAuth :: int where "OpAuth = 1"
definition OpAuthReply :: int where "OpAuthReply = 2"
definition OpHeartbeat :: int where "OpHeartbeat = 3"
definition OpHeartbeatReply :: int where "OpHeartbeatReply = 4"
definition OpRequest :: int where "OpRequest = 5"
definition OpResponse :: int where "OpResponse = 6"
definition OpPush :: int where "OpPush = 7"
definition OpKick :: int where "OpKick = 8"

lemmas op_defs = OpUnspecified_def OpAuth_def OpAuthReply_def OpHeartbeat_def OpHeartbeatReply_def
  OpRequest_def OpResponse_def OpPush_def OpKick_def

definition zeroProto :: Proto where
  "zeroProto = \<lparr>Op = 0, Seq = 0, Code = 0, Cmd = 0, Body = []\<rparr>"

section \<open>Prepared messages (\<open>prepared.go\<close>)\<close>

text \<open>The message and, once it has been encoded, the shared result of the encoding.\<close>

record PreparedProto =
  pp_message :: "Proto option"
  pp_state :: "(goerr + bytes) option"

definition prepared_Reset :: "Proto option \<Rightarrow> PreparedProto \<Rightarrow> PreparedProto" where
  "prepared_Reset message p = p\<lparr>pp_message := message, pp_state := None\<rparr>"

definition prepared_Message :: "PreparedProto option \<Rightarrow> Proto option" where
  "prepared_Message p = (case p of None \<Rightarrow> None | Some p \<Rightarrow> pp_message p)"

definition prepared_Marshal ::
  "(Proto \<Rightarrow> goerr + bytes) \<Rightarrow> PreparedProto option \<Rightarrow> PreparedProto option \<times> (goerr + bytes)" where
  "prepared_Marshal marshal p =
     (case p of
        None \<Rightarrow> (None, Inl (Fresh ''network: invalid prepared proto''))
      | Some q \<Rightarrow>
          (case pp_message q of
             None \<Rightarrow> (Some q, Inl (Fresh ''network: invalid prepared proto''))
           | Some m \<Rightarrow>
               (case pp_state q of
                  Some r \<Rightarrow> (Some q, r)
                | None \<Rightarrow> let r = marshal m in (Some (q\<lparr>pp_state := Some r\<rparr>), r))))"

section \<open>Connections\<close>

text \<open>A connection value is its identity in memory together with the id it reports.\<close>

record Connection =
  conn_addr :: nat
  ConnID_of :: string

text \<open>
  The methods of a connection as the gateway calls them, on the state \<open>'w\<close> of everything outside the
  caller. \<open>c_SendPrepared\<close> is present on the connections that implement \<open>PreparedConnection\<close>.
\<close>

record 'w conn_ops =
  c_SendProto :: "Connection \<Rightarrow> Proto option \<Rightarrow> 'w \<Rightarrow> 'w \<times> goerr option"
  c_SendPrepared :: "Connection \<Rightarrow> (PreparedProto option \<Rightarrow> 'w \<Rightarrow> 'w \<times> PreparedProto option \<times> goerr option) option"
  c_CloseWithProto :: "ctx \<Rightarrow> Connection \<Rightarrow> Proto \<Rightarrow> 'w \<Rightarrow> 'w \<times> goerr option"
  c_Close :: "Connection \<Rightarrow> 'w \<Rightarrow> 'w \<times> goerr option"

section \<open>The invoker (\<open>invoke.go\<close>)\<close>

text \<open>
  The innermost function of the middleware chain and the invoker around it. The chain itself is
  Kratos middleware: a parameter that maps a handler to a handler. A handler returns its error or a
  reply that may be absent; \<open>hb\<close> is present when the connection handler has a heartbeat method.
\<close>

type_synonym 's handler = "Proto option \<Rightarrow> 's \<Rightarrow> 's \<times> (goerr + Proto option)"

definition invoke_core ::
  "('s \<Rightarrow> 's \<times> goerr option) option \<Rightarrow> (Proto \<Rightarrow> 's \<Rightarrow> 's \<times> (goerr + Proto option)) \<Rightarrow> 's handler" where
  "invoke_core hb handle req s =
     (case req of
        None \<Rightarrow> (s, Inl (NetErr ErrInvalidHandlerReply))
      | Some message \<Rightarrow>
          (case hb of
             Some heartbeat \<Rightarrow>
               if Op message = OpHeartbeat then
                 (case heartbeat s of
                    (s', Some err) \<Rightarrow> (s', Inl err)
                  | (s', None) \<Rightarrow> (s', Inr (Some (message\<lparr>Op := OpHeartbeatReply, Body := []\<rparr>))))
               else handle message s
           | None \<Rightarrow> handle message s))"

definition NewInvoker ::
  "('s handler \<Rightarrow> 's handler) \<Rightarrow> ('s \<Rightarrow> 's \<times> goerr option) option \<Rightarrow>
   (Proto \<Rightarrow> 's \<Rightarrow> 's \<times> (goerr + Proto option)) \<Rightarrow> Proto option \<Rightarrow> 's \<Rightarrow> 's \<times> (goerr + Proto)" where
  "NewInvoker chain hb handle message s =
     (case chain (invoke_core hb handle) message s of
        (s', Inl err) \<Rightarrow> (s', Inl err)
      | (s', Inr None) \<Rightarrow> (s', Inl (NetErr ErrInvalidHandlerReply))
      | (s', Inr (Some p)) \<Rightarrow> (s', Inr p))"

section \<open>Authentication errors (\<open>auth_io.go\<close>)\<close>

definition AuthenticationIOError :: "goerr option \<Rightarrow> (goerr \<Rightarrow> bool) \<Rightarrow> goerr \<Rightarrow> goerr" where
  "AuthenticationIOError ctxErr netTimeout err =
     (case ctxErr of Some cause \<Rightarrow> cause | None \<Rightarrow> if netTimeout err then ctx_deadline else err)"

section \<open>The transporter (\<open>transport.go\<close>)\<close>

text \<open>Lower case of the ASCII letters; header keys are ASCII.\<close>

definition to_lower_char :: "char \<Rightarrow> char" where
  "to_lower_char c = (let b = byte_of c in if 65 \<le> b \<and> b \<le> 90 then char_of_byte (b + 32) else c)"

definition to_lower :: "string \<Rightarrow> string" where
  "to_lower s = map to_lower_char s"

type_synonym headerCarrier = "string \<rightharpoonup> string list"

definition header_Values :: "headerCarrier \<Rightarrow> string \<Rightarrow> string list" where
  "header_Values c key = (case c (to_lower key) of None \<Rightarrow> [] | Some vs \<Rightarrow> vs)"

definition header_Get :: "headerCarrier \<Rightarrow> string \<Rightarrow> string" where
  "header_Get c key = (case header_Values c key of [] \<Rightarrow> [] | v # _ \<Rightarrow> v)"

definition header_Set :: "headerCarrier \<Rightarrow> string \<Rightarrow> string \<Rightarrow> headerCarrier" where
  "header_Set c key v = c(to_lower key \<mapsto> [v])"

definition header_Add :: "headerCarrier \<Rightarrow> string \<Rightarrow> string \<Rightarrow> headerCarrier" where
  "header_Add c key v = (let k = to_lower key in c(k \<mapsto> (case c k of None \<Rightarrow> [] | Some vs \<Rightarrow> vs) @ [v]))"

definition header_Keys :: "headerCarrier \<Rightarrow> string set" where
  "header_Keys c = dom c"

datatype transport_kind = KindTCP | KindWebSocket

record Transport =
  tr_kind :: transport_kind
  tr_endpoint :: string
  tr_reqHeader :: headerCarrier
  tr_replyHeader :: headerCarrier

definition NewTransport :: "transport_kind \<Rightarrow> string \<Rightarrow> string \<Rightarrow> string \<Rightarrow> Transport" where
  "NewTransport kind endpoint remoteIP connectionID =
     \<lparr>tr_kind = kind, tr_endpoint = endpoint,
      tr_reqHeader = [''remote_ip'' \<mapsto> [remoteIP], ''conn_id'' \<mapsto> [connectionID]], tr_replyHeader = Map.empty\<rparr>"

section \<open>Facts\<close>

lemma prepared_Marshal_again:
  "prepared_Marshal f p = (p', r) \<Longrightarrow> prepared_Message p \<noteq> None \<Longrightarrow> prepared_Marshal g p' = (p', r)"
  by (auto simp: prepared_Marshal_def prepared_Message_def Let_def split: option.splits)

lemma to_lower_idem [simp]: "to_lower (to_lower s) = to_lower s"
proof -
  have "to_lower_char (to_lower_char c) = to_lower_char c" for c
    by (auto simp: to_lower_char_def Let_def)
  then show ?thesis by (simp add: to_lower_def)
qed

lemma header_set_get: "header_Get (header_Set c k v) k' = (if to_lower k' = to_lower k then v else header_Get c k')"
  by (simp add: header_Get_def header_Set_def header_Values_def)

lemma header_add_values: "header_Values (header_Add c k v) k =  header_Values c k @ [v]"
  by (simp add: header_Add_def header_Values_def Let_def split: option.splits)

end
