(* ===== verification/Session.thy ===== *)
theory Session
  imports Protocol Locator_Interfaces
begin

text \<open>
  \<open>gateway/session.go\<close>: the sessions of client connections and their registry. Sessions live in a
  store of addresses because the code compares session and connection pointers; the registry maps a
  connection id to the address of its session. A method body under its mutex is one atomic operation
  with its clock readings as arguments. The last part runs connections, authentications, kicks and
  the shutdown in any order.
\<close>

section \<open>Sessions\<close>

text \<open>The zero \<open>time.Time\<close>, in nanoseconds of the Unix epoch.\<close>

definition zeroTime :: time where "zeroTime = -62135596800 * second"

record session =
  s_conn :: Connection
  s_authTimer :: bool
  s_authDeadline :: time
  s_authAttempted :: bool
  s_binding :: GateBinding
  s_leaseDeadline :: time

definition newSession :: "Connection \<Rightarrow> duration \<Rightarrow> time \<Rightarrow> session" where
  "newSession conn authTimeout now =
     \<lparr>s_conn = conn, s_authTimer = True, s_authDeadline = now + authTimeout, s_authAttempted = False,
      s_binding = zeroBinding, s_leaseDeadline = zeroTime\<rparr>"

definition leaseValidLocked :: "session \<Rightarrow> time \<Rightarrow> bool" where
  "leaseValidLocked s now = (ValidGateBinding (s_binding s) \<and> now < s_leaseDeadline s)"

definition sess_authenticated :: "session \<Rightarrow> time \<Rightarrow> bool" where
  "sess_authenticated s now = leaseValidLocked s now"

text \<open>The callback of the authentication timer: whether it closes the connection.\<close>

definition authTimer_fires :: "session \<Rightarrow> time \<Rightarrow> bool" where
  "authTimer_fires s now = (\<not> sess_authenticated s now)"

definition beginAuthentication :: "session \<Rightarrow> session \<times> bool" where
  "beginAuthentication s =
     (if s_authAttempted s then (s, False) else (s\<lparr>s_authAttempted := True\<rparr>, True))"

definition canAuthenticate :: "session \<Rightarrow> goerr option \<Rightarrow> time \<Rightarrow> bool" where
  "canAuthenticate s ctxErr now = (ctxErr = None \<and> now < s_authDeadline s)"

definition finishAuthentication :: "session \<Rightarrow> GateLease \<Rightarrow> time \<Rightarrow> time \<Rightarrow> session \<times> bool" where
  "finishAuthentication s lease boundAt now =
     (let leaseDeadline = boundAt + TTL lease in
      if \<not> now < s_authDeadline s \<or> \<not> now < leaseDeadline then (s, False)
      else (s\<lparr>s_binding := Binding lease, s_leaseDeadline := leaseDeadline, s_authTimer := False\<rparr>, True))"

definition sess_route :: "session \<Rightarrow> time \<Rightarrow> GateBinding \<times> bool" where
  "sess_route s now = (s_binding s, leaseValidLocked s now)"

definition heartbeatRoute :: "session \<Rightarrow> time \<Rightarrow> duration \<Rightarrow> GateBinding \<times> bool \<times> bool" where
  "heartbeatRoute s now interval =
     (let valid = leaseValidLocked s now in
      (s_binding s, valid, valid \<and> \<not> now + interval < s_leaseDeadline s))"

definition finishHeartbeat :: "session \<Rightarrow> GateBinding \<Rightarrow> time \<Rightarrow> duration \<Rightarrow> session" where
  "finishHeartbeat s expected renewedAt ttl =
     (if s_binding s = expected then s\<lparr>s_leaseDeadline := renewedAt + ttl\<rparr> else s)"

definition detachForClose :: "session \<Rightarrow> session \<times> GateBinding" where
  "detachForClose s =
     (s\<lparr>s_authTimer := False, s_binding := zeroBinding, s_leaseDeadline := zeroTime\<rparr>, s_binding s)"

definition detachForKick :: "session \<Rightarrow> GateBinding \<Rightarrow> time \<Rightarrow> session \<times> bool" where
  "detachForKick s expected now =
     (if s_binding s \<noteq> expected \<or> \<not> now < s_leaseDeadline s then (s, False)
      else (s\<lparr>s_binding := zeroBinding, s_leaseDeadline := zeroTime\<rparr>, True))"

text \<open>
  Sending under the binding lock: the result says whether the message was handed to the connection.
\<close>

definition sendIfCurrent ::
  "'w conn_ops \<Rightarrow> session \<Rightarrow> GateBinding \<Rightarrow> Proto \<Rightarrow> time \<Rightarrow> 'w \<Rightarrow> 'w \<times> bool \<times> goerr option" where
  "sendIfCurrent C s expected msg now w =
     (if s_binding s \<noteq> expected \<or> \<not> now < s_leaseDeadline s then (w, False, None)
      else let (w, err) = c_SendProto C (s_conn s) (Some msg) w in (w, True, err))"

definition sendIfAuthenticated ::
  "'w conn_ops \<Rightarrow> session \<Rightarrow> PreparedProto option \<Rightarrow> time \<Rightarrow> 'w \<Rightarrow> 'w \<times> PreparedProto option \<times> bool \<times> goerr option" where
  "sendIfAuthenticated C s msg now w =
     (if \<not> leaseValidLocked s now then (w, msg, False, None)
      else case c_SendPrepared C (s_conn s) of
        Some sendPrepared \<Rightarrow> let (w, msg, err) = sendPrepared msg w in (w, msg, True, err)
      | None \<Rightarrow> let (w, err) = c_SendProto C (s_conn s) (prepared_Message msg) w in (w, msg, True, err))"

section \<open>The registry\<close>

text \<open>
  The registry with the heap of sessions: \<open>reg_byConnID\<close> is \<open>None\<close> for the nil map left by
  \<open>takeAll\<close>, \<open>reg_auths\<close> is the counter of the wait group.
\<close>

record sessionRegistry =
  reg_byConnID :: "(string \<rightharpoonup> nat) option"
  reg_accepting :: bool
  reg_auths :: nat
  reg_heap :: "nat \<Rightarrow> session option"

definition reg_start :: sessionRegistry where
  "reg_start = \<lparr>reg_byConnID = Some Map.empty, reg_accepting = False, reg_auths = 0, reg_heap = (\<lambda>_. None)\<rparr>"

text \<open>Reading a nil map finds nothing.\<close>

definition reg_get :: "sessionRegistry \<Rightarrow> string \<Rightarrow> nat option" where
  "reg_get r connID = (case reg_byConnID r of None \<Rightarrow> None | Some m \<Rightarrow> m connID)"

definition reg_add :: "sessionRegistry \<Rightarrow> Connection \<Rightarrow> duration \<Rightarrow> time \<Rightarrow> nat \<Rightarrow> sessionRegistry \<times> goerr option" where
  "reg_add r conn authTimeout now addr =
     (case reg_byConnID r of
        None \<Rightarrow> (r, Some (Fresh ''gateway is unavailable''))
      | Some m \<Rightarrow>
          if \<not> reg_accepting r then (r, Some (Fresh ''gateway is unavailable''))
          else if m (ConnID_of conn) \<noteq> None then (r, Some (Fresh ''duplicate connection''))
          else (r\<lparr>reg_byConnID := Some (m(ConnID_of conn \<mapsto> addr)),
                  reg_heap := (reg_heap r)(addr \<mapsto> newSession conn authTimeout now)\<rparr>, None))"

text \<open>Whether the registry still holds this very session under its connection's id.\<close>

definition reg_registered :: "sessionRegistry \<Rightarrow> nat \<Rightarrow> bool" where
  "reg_registered r a =
     (case reg_heap r a of None \<Rightarrow> False | Some s \<Rightarrow> reg_get r (ConnID_of (s_conn s)) = Some a)"

definition admitAuthentication ::
  "sessionRegistry \<Rightarrow> nat \<Rightarrow> goerr option \<Rightarrow> time \<Rightarrow> sessionRegistry \<times> bool" where
  "admitAuthentication r a ctxErr now =
     (case reg_heap r a of
        None \<Rightarrow> (r, False)
      | Some s \<Rightarrow>
          if \<not> reg_accepting r \<or> reg_get r (ConnID_of (s_conn s)) \<noteq> Some a \<or> \<not> canAuthenticate s ctxErr now
          then (r, False) else (r\<lparr>reg_auths := reg_auths r + 1\<rparr>, True))"

definition commitAuthentication ::
  "sessionRegistry \<Rightarrow> nat \<Rightarrow> goerr option \<Rightarrow> GateLease \<Rightarrow> time \<Rightarrow> time \<Rightarrow> time \<Rightarrow> sessionRegistry \<times> bool" where
  "commitAuthentication r a ctxErr lease boundAt now now' =
     (case reg_heap r a of
        None \<Rightarrow> (r, False)
      | Some s \<Rightarrow>
          if reg_byConnID r = None \<or> reg_get r (ConnID_of (s_conn s)) \<noteq> Some a \<or> \<not> canAuthenticate s ctxErr now
          then (r, False)
          else let (s', ok) = finishAuthentication s lease boundAt now'
               in (r\<lparr>reg_heap := (reg_heap r)(a \<mapsto> s')\<rparr>, ok))"

definition auth_done :: "sessionRegistry \<Rightarrow> sessionRegistry" where
  "auth_done r = r\<lparr>reg_auths := reg_auths r - 1\<rparr>"

definition reg_remove :: "sessionRegistry \<Rightarrow> Connection \<Rightarrow> sessionRegistry \<times> nat option" where
  "reg_remove r conn =
     (case reg_get r (ConnID_of conn) of
        None \<Rightarrow> (r, None)
      | Some a \<Rightarrow>
          if map_option s_conn (reg_heap r a) \<noteq> Some conn then (r, None)
          else (r\<lparr>reg_byConnID := map_option (\<lambda>m. m(ConnID_of conn := None)) (reg_byConnID r)\<rparr>, Some a))"

text \<open>The iteration order of a map is arbitrary: it is the argument \<open>order\<close>.\<close>

definition map_order :: "sessionRegistry \<Rightarrow> string list \<Rightarrow> bool" where
  "map_order r order =
     (distinct order \<and> set order = (case reg_byConnID r of None \<Rightarrow> {} | Some m \<Rightarrow> dom m))"

definition takeAll :: "sessionRegistry \<Rightarrow> string list \<Rightarrow> sessionRegistry \<times> nat list" where
  "takeAll r order =
     (case reg_byConnID r of
        None \<Rightarrow> (r, [])
      | Some m \<Rightarrow> (r\<lparr>reg_byConnID := None\<rparr>, map (\<lambda>k. the (m k)) order))"

definition reg_snapshot :: "sessionRegistry \<Rightarrow> string list \<Rightarrow> nat list" where
  "reg_snapshot r order =
     (case reg_byConnID r of None \<Rightarrow> [] | Some m \<Rightarrow> map (\<lambda>k. the (m k)) order)"

definition openAdmission :: "sessionRegistry \<Rightarrow> sessionRegistry" where
  "openAdmission r = r\<lparr>reg_accepting := True\<rparr>"

definition closeAdmission :: "sessionRegistry \<Rightarrow> sessionRegistry" where
  "closeAdmission r = r\<lparr>reg_accepting := False\<rparr>"

definition isAccepting :: "sessionRegistry \<Rightarrow> bool" where
  "isAccepting r = reg_accepting r"

text \<open>An update of one session in the heap.\<close>

definition reg_update :: "sessionRegistry \<Rightarrow> nat \<Rightarrow> session \<Rightarrow> sessionRegistry" where
  "reg_update r a s = r\<lparr>reg_heap := (reg_heap r)(a \<mapsto> s)\<rparr>"

end
