(* ===== verification/Gate_World.thy ===== *)
theory Gate_World
  imports Session
begin

text \<open>
  The sessions of one gateway against the locator, with other gateways around: connections open and
  close, authentications bind, heartbeats renew, kicks and closes unbind, and the store executes each
  request at any later time, more than once or never. The main result is that a session's local lease
  is covered by the store: while the session considers itself authenticated, the store still holds
  its binding at least that long, unless the binding was replaced by another bind of the same user or
  given up by the gateway itself.
\<close>

datatype greq = GBind GateBinding | GRenew GateBinding | GUnbind GateBinding

fun greq_binding :: "greq \<Rightarrow> GateBinding" where
  "greq_binding (GBind b) = b"
| "greq_binding (GRenew b) = b"
| "greq_binding (GUnbind b) = b"

text \<open>
  \<open>g_auth\<close> and \<open>g_beat\<close> are the authentications and heartbeats of sessions that wait for the store:
  the call, the binding and the clock reading before the call. \<open>g_used\<close> holds the bindings this
  gateway has issued, \<open>g_over\<close> those of them that were replaced or given up.
\<close>

record 's gworld =
  g_now :: time
  g_store :: 's
  g_reg :: sessionRegistry
  g_net :: "(nat \<times> greq \<times> time) set"
  g_replies :: "nat \<Rightarrow> (goerr + GateLease) set"
  g_next :: nat
  g_used :: "GateBinding set"
  g_over :: "GateBinding set"
  g_auth :: "nat \<Rightarrow> (nat \<times> GateBinding \<times> time) option"
  g_beat :: "nat \<Rightarrow> (nat \<times> GateBinding \<times> time) option"

definition gsend :: "greq \<Rightarrow> 's gworld \<Rightarrow> 's gworld" where
  "gsend q w = w\<lparr>g_net := insert (g_next w, q, g_now w) (g_net w), g_next := Suc (g_next w),
     g_over := (case q of GUnbind b \<Rightarrow> insert b (g_over w) | _ \<Rightarrow> g_over w)\<rparr>"

definition set_reg :: "sessionRegistry \<Rightarrow> 's gworld \<Rightarrow> 's gworld" where
  "set_reg r w = w\<lparr>g_reg := r\<rparr>"

text \<open>The gateway unbinds what a detached session held, if it held anything.\<close>

definition give_up :: "GateBinding \<Rightarrow> 's gworld \<Rightarrow> 's gworld" where
  "give_up b w = (if ValidGateBinding b then gsend (GUnbind b) w else w)"

definition replaced_by :: "GateBinding \<Rightarrow> 's gworld \<Rightarrow> GateBinding set" where
  "replaced_by b w = {c \<in> g_used w. c \<noteq> b \<and> user_of c = user_of b}"

definition ganswer :: "nat \<Rightarrow> 's \<times> (goerr + GateLease) \<Rightarrow> 's gworld \<Rightarrow> 's gworld" where
  "ganswer c sr w = w\<lparr>g_store := fst sr, g_replies := (g_replies w)(c := insert (snd sr) (g_replies w c))\<rparr>"

definition gseen :: "'s gworld \<Rightarrow> nat \<Rightarrow> goerr + GateLease \<Rightarrow> bool" where
  "gseen w c reply = ((\<exists>err. reply = Inl err) \<or> reply \<in> g_replies w c)"

inductive gstep ::
  "('e, 's) gate_ops \<Rightarrow> (GateBinding \<Rightarrow> bool) \<Rightarrow> (int \<Rightarrow> 's \<Rightarrow> 's) \<Rightarrow> duration \<Rightarrow> duration \<Rightarrow> 's gworld \<Rightarrow> 's gworld \<Rightarrow> bool"
  for G :: "('e, 's) gate_ops" and storable :: "GateBinding \<Rightarrow> bool" and pass :: "int \<Rightarrow> 's \<Rightarrow> 's"
    and authTimeout leaseTTL :: duration where
  tick: "0 \<le> d \<Longrightarrow> gstep G storable pass authTimeout leaseTTL w (w\<lparr>g_now := g_now w + d,
      g_store := pass ((g_now w + d) div millisecond - g_now w div millisecond) (g_store w)\<rparr>)"
| admission: "gstep G storable pass authTimeout leaseTTL w
      (set_reg ((if b then openAdmission else closeAdmission) (g_reg w)) w)"
| opened: "reg_heap (g_reg w) a = None \<Longrightarrow> reg_add (g_reg w) conn authTimeout (g_now w) a = (r, err) \<Longrightarrow>
    gstep G storable pass authTimeout leaseTTL w (set_reg r w)"
| auth_admit: "admitAuthentication (g_reg w) a ctxErr t = (r, True) \<Longrightarrow> g_auth w a = None \<Longrightarrow>
    ValidGateBinding b \<Longrightarrow> storable b \<Longrightarrow> b \<notin> g_used w \<Longrightarrow>
    gstep G storable pass authTimeout leaseTTL w (gsend (GBind b) ((set_reg r w)\<lparr>g_used := insert b (g_used w),
      g_auth := (g_auth w)(a \<mapsto> (g_next w, b, g_now w))\<rparr>))"
| auth_failed: "g_auth w a = Some (c, b, st) \<Longrightarrow> gseen w c (Inl err) \<Longrightarrow>
    gstep G storable pass authTimeout leaseTTL w ((set_reg (auth_done (g_reg w)) w)\<lparr>g_auth := (g_auth w)(a := None)\<rparr>)"
| auth_commit: "g_auth w a = Some (c, b, st) \<Longrightarrow> gseen w c (Inr lease) \<Longrightarrow>
    commitAuthentication (g_reg w) a ctxErr lease st t t' = (r, True) \<Longrightarrow>
    gstep G storable pass authTimeout leaseTTL w ((set_reg (auth_done r) w)\<lparr>g_auth := (g_auth w)(a := None)\<rparr>)"
| auth_fenced: "g_auth w a = Some (c, b, st) \<Longrightarrow> gseen w c (Inr lease) \<Longrightarrow>
    commitAuthentication (g_reg w) a ctxErr lease st t t' = (r, False) \<Longrightarrow>
    gstep G storable pass authTimeout leaseTTL w
      (give_up (Binding lease) ((set_reg (auth_done (g_reg w)) w)\<lparr>g_auth := (g_auth w)(a := None)\<rparr>))"
| beat: "reg_heap (g_reg w) a = Some s \<Longrightarrow> heartbeatRoute s (g_now w) (go_div leaseTTL 2) = (b, True, True) \<Longrightarrow>
    gstep G storable pass authTimeout leaseTTL w (gsend (GRenew b) (w\<lparr>g_beat := (g_beat w)(a \<mapsto> (g_next w, b, g_now w))\<rparr>))"
| beaten: "reg_heap (g_reg w) a = Some s \<Longrightarrow> g_beat w a = Some (c, b, st) \<Longrightarrow> gseen w c reply \<Longrightarrow>
    gstep G storable pass authTimeout leaseTTL w
      ((case reply of Inl err \<Rightarrow> w | Inr lease \<Rightarrow> set_reg (reg_update (g_reg w) a (finishHeartbeat s b st (TTL lease))) w)
        \<lparr>g_beat := (g_beat w)(a := None)\<rparr>)"
| closed: "reg_heap (g_reg w) a = Some s \<Longrightarrow> detachForClose s = (s', b) \<Longrightarrow> reg_remove (g_reg w) conn = (r, removed) \<Longrightarrow>
    gstep G storable pass authTimeout leaseTTL w (give_up b (set_reg (reg_update r a s') w))"
| kicked: "ValidGateBinding b \<Longrightarrow> reg_heap (g_reg w) a = Some s \<Longrightarrow> detachForKick s b t = (s', True) \<Longrightarrow> reg_remove (g_reg w) conn = (r, removed) \<Longrightarrow>
    gstep G storable pass authTimeout leaseTTL w (gsend (GUnbind b) (set_reg (reg_update r a s') w))"
| taken: "takeAll (g_reg w) order = (r, drained) \<Longrightarrow> gstep G storable pass authTimeout leaseTTL w (set_reg r w)"
| exec_bind: "(c, GBind b, st) \<in> g_net w \<Longrightarrow> glBind G env b leaseTTL (g_store w) = (s', res) \<Longrightarrow>
    gstep G storable pass authTimeout leaseTTL w
      ((ganswer c (s', map_sum id fst res) w)\<lparr>g_over := g_over w \<union> replaced_by b w\<rparr>)"
| exec_renew: "(c, GRenew b, st) \<in> g_net w \<Longrightarrow>
    gstep G storable pass authTimeout leaseTTL w (ganswer c (glRenew G env b leaseTTL (g_store w)) w)"
| exec_unbind: "(c, GUnbind b, st) \<in> g_net w \<Longrightarrow> glUnbind G env b (g_store w) = (s', err) \<Longrightarrow>
    gstep G storable pass authTimeout leaseTTL w (w\<lparr>g_store := s'\<rparr>)"
| foreign_bind: "b \<notin> g_used w \<Longrightarrow> storable b \<Longrightarrow> ttl < 2 ^ 63 \<Longrightarrow> glBind G env b ttl (g_store w) = (s', res) \<Longrightarrow>
    gstep G storable pass authTimeout leaseTTL w (w\<lparr>g_store := s', g_over := g_over w \<union> replaced_by b w\<rparr>)"
| foreign_renew: "b \<notin> g_used w \<Longrightarrow> storable b \<Longrightarrow> ttl < 2 ^ 63 \<Longrightarrow> glRenew G env b ttl (g_store w) = (s', renewed) \<Longrightarrow>
    gstep G storable pass authTimeout leaseTTL w (w\<lparr>g_store := s'\<rparr>)"
| foreign_unbind: "b \<notin> g_used w \<Longrightarrow> storable b \<Longrightarrow> glUnbind G env b (g_store w) = (s', err) \<Longrightarrow>
    gstep G storable pass authTimeout leaseTTL w (w\<lparr>g_store := s'\<rparr>)"

definition gworld_start :: "time \<Rightarrow> 's \<Rightarrow> 's gworld" where
  "gworld_start now s = \<lparr>g_now = now, g_store = s, g_reg = reg_start, g_net = {}, g_replies = (\<lambda>_. {}),
     g_next = 0, g_used = {}, g_over = {}, g_auth = Map.empty, g_beat = Map.empty\<rparr>"

section \<open>Coverage\<close>

text \<open>
  A binding is covered until a moment: the moment is at most one lease away, and while it has not come
  the binding was replaced or given up, or the store holds it with an expiry in whole milliseconds
  that is not before the moment.
\<close>

definition covered ::
  "('s \<Rightarrow> gates) \<Rightarrow> int \<Rightarrow> time \<Rightarrow> 's \<Rightarrow> GateBinding set \<Rightarrow> GateBinding \<Rightarrow> time \<Rightarrow> bool" where
  "covered gates ms now s over b D =
     (D \<le> now + ms * millisecond \<and>
      (now < D \<longrightarrow> b \<in> over \<or>
        (\<exists>t. gates s (user_of b) = Some (b, t) \<and> D \<le> (now div millisecond + t + 1) * millisecond)))"

definition net_sound :: "'s gworld \<Rightarrow> bool" where
  "net_sound w =
     ((\<forall>c q st q' st'. (c, q, st) \<in> g_net w \<longrightarrow> (c, q', st') \<in> g_net w \<longrightarrow> q = q' \<and> st = st') \<and>
      (\<forall>c q st. (c, q, st) \<in> g_net w \<longrightarrow> c < g_next w \<and> st \<le> g_now w \<and> greq_binding q \<in> g_used w) \<and>
      (\<forall>c b st. (c, GUnbind b, st) \<in> g_net w \<longrightarrow> b \<in> g_over w) \<and>
      (\<forall>c. g_next w \<le> c \<longrightarrow> g_replies w c = {}))"

definition replies_sound :: "('s \<Rightarrow> gates) \<Rightarrow> int \<Rightarrow> 's gworld \<Rightarrow> bool" where
  "replies_sound gates ms w =
     (\<forall>c q st lease. (c, q, st) \<in> g_net w \<longrightarrow> Inr lease \<in> g_replies w c \<longrightarrow>
        lease = lease_of (greq_binding q) ms \<and>
        covered gates ms (g_now w) (g_store w) (g_over w) (greq_binding q) (st + ms * millisecond))"

definition calls_sound :: "'s gworld \<Rightarrow> bool" where
  "calls_sound w =
     ((\<forall>a c b st. g_auth w a = Some (c, b, st) \<longrightarrow> (c, GBind b, st) \<in> g_net w) \<and>
      (\<forall>a c b st. g_beat w a = Some (c, b, st) \<longrightarrow> (c, GRenew b, st) \<in> g_net w))"

definition session_sound :: "('s \<Rightarrow> gates) \<Rightarrow> int \<Rightarrow> 's gworld \<Rightarrow> session \<Rightarrow> bool" where
  "session_sound gates ms w s =
     (ValidGateBinding (s_binding s) \<longrightarrow> s_binding s \<in> g_used w \<and>
        covered gates ms (g_now w) (g_store w) (g_over w) (s_binding s) (s_leaseDeadline s))"

definition sessions_sound :: "('s \<Rightarrow> gates) \<Rightarrow> int \<Rightarrow> 's gworld \<Rightarrow> bool" where
  "sessions_sound gates ms w = (\<forall>a s. reg_heap (g_reg w) a = Some s \<longrightarrow> session_sound gates ms w s)"

definition gworld_ok :: "('s \<Rightarrow> bool) \<Rightarrow> ('s \<Rightarrow> gates) \<Rightarrow> (GateBinding \<Rightarrow> bool) \<Rightarrow> int \<Rightarrow> 's gworld \<Rightarrow> bool" where
  "gworld_ok good gates storable ms w =
     (good (g_store w) \<and> net_sound w \<and> (\<forall>b\<in>g_used w. storable b) \<and> replies_sound gates ms w \<and>
      calls_sound w \<and> sessions_sound gates ms w)"

lemma net_soundD:
  assumes "net_sound w"
  shows "(c, q, st) \<in> g_net w \<Longrightarrow> (c, q', st') \<in> g_net w \<Longrightarrow> q = q' \<and> st = st'"
    and "(c, q, st) \<in> g_net w \<Longrightarrow> c < g_next w \<and> st \<le> g_now w \<and> greq_binding q \<in> g_used w"
    and "(c, GUnbind b, st) \<in> g_net w \<Longrightarrow> b \<in> g_over w"
    and "g_next w \<le> c \<Longrightarrow> g_replies w c = {}"
proof -
  note parts = assms [unfolded net_sound_def]
  show "(c, q, st) \<in> g_net w \<Longrightarrow> (c, q', st') \<in> g_net w \<Longrightarrow> q = q' \<and> st = st'" using parts by blast
  show "(c, q, st) \<in> g_net w \<Longrightarrow> c < g_next w \<and> st \<le> g_now w \<and> greq_binding q \<in> g_used w" using parts by blast
  show "(c, GUnbind b, st) \<in> g_net w \<Longrightarrow> b \<in> g_over w" using parts by blast
  show "g_next w \<le> c \<Longrightarrow> g_replies w c = {}" using parts by blast
qed

lemma gworld_okD:
  assumes "gworld_ok good gates storable ms w"
  shows "good (g_store w)" "net_sound w" "b \<in> g_used w \<Longrightarrow> storable b" "replies_sound gates ms w"
    "calls_sound w" "sessions_sound gates ms w"
  using assms by (auto simp: gworld_ok_def)

lemma covered_fresh:
  assumes "gates s (user_of b) = Some (b, ms)" "D \<le> now + ms * millisecond"
  shows "covered gates ms now s over b D"
proof -
  have "now \<le> (now div millisecond + 1) * millisecond" by (simp add: millisecond_def nanosecond_def)
  then show ?thesis using assms by (auto simp: covered_def algebra_simps)
qed

lemma covered_mono: "covered gates ms now s over b D \<Longrightarrow> over \<subseteq> over' \<Longrightarrow> covered gates ms now s over' b D"
  by (auto simp: covered_def)

lemma covered_same: "covered gates ms now s over b D \<Longrightarrow> gates s' (user_of b) = gates s (user_of b) \<Longrightarrow>
    covered gates ms now s' over b D"
  by (simp add: covered_def)

lemma covered_over: "b \<in> over \<Longrightarrow> D \<le> now + ms * millisecond \<Longrightarrow> covered gates ms now s over b D"
  by (simp add: covered_def)

lemma covered_bound: "covered gates ms now s over b D \<Longrightarrow> D \<le> now + ms * millisecond"
  by (simp add: covered_def)

lemma covered_pass:
  assumes "covered gates ms now s over b D" "0 \<le> d"
    and "gates s' (user_of b) = elapse ((now + d) div millisecond - now div millisecond) (gates s (user_of b))"
  shows "covered gates ms (now + d) s' over b D"
proof -
  let ?m = "(now + d) div millisecond - now div millisecond"
  have "b \<in> over \<or> (\<exists>t. gates s' (user_of b) = Some (b, t) \<and> D \<le> ((now + d) div millisecond + t + 1) * millisecond)"
    if early: "now + d < D"
  proof (cases "b \<in> over")
    case False
    then obtain t where t: "gates s (user_of b) = Some (b, t)" "D \<le> (now div millisecond + t + 1) * millisecond"
      using assms(1,2) early by (auto simp: covered_def)
    have "\<not> t < ?m"
    proof
      assume "t < ?m"
      then have "(now div millisecond + t + 1) * millisecond \<le> (now + d) div millisecond * millisecond"
        by (intro mult_right_mono) (auto simp: millisecond_def nanosecond_def)
      also have "\<dots> \<le> now + d" by (simp add: millisecond_def nanosecond_def)
      finally show False using t(2) early by linarith
    qed
    then have "gates s' (user_of b) = Some (b, t - ?m)" using t(1) assms(3) by simp
    moreover have "(now + d) div millisecond + (t - ?m) + 1 = now div millisecond + t + 1" by simp
    ultimately show ?thesis using t(2) by metis
  qed simp
  then show ?thesis using assms(1,2) by (auto simp: covered_def)
qed

section \<open>Preservation\<close>

lemma gworld_simps [simp]:
  "g_now (gsend q w) = g_now w" "g_store (gsend q w) = g_store w" "g_reg (gsend q w) = g_reg w"
  "g_replies (gsend q w) = g_replies w" "g_next (gsend q w) = Suc (g_next w)" "g_used (gsend q w) = g_used w"
  "g_auth (gsend q w) = g_auth w" "g_beat (gsend q w) = g_beat w"
  "g_net (gsend q w) = insert (g_next w, q, g_now w) (g_net w)"
  "g_over (gsend q w) = (case q of GUnbind b \<Rightarrow> insert b (g_over w) | _ \<Rightarrow> g_over w)"
  "g_now (set_reg r w) = g_now w" "g_store (set_reg r w) = g_store w" "g_reg (set_reg r w) = r"
  "g_net (set_reg r w) = g_net w" "g_replies (set_reg r w) = g_replies w" "g_next (set_reg r w) = g_next w"
  "g_used (set_reg r w) = g_used w" "g_over (set_reg r w) = g_over w" "g_auth (set_reg r w) = g_auth w"
  "g_beat (set_reg r w) = g_beat w"
  by (simp_all add: gsend_def set_reg_def)

lemma gworld_ok_store:
  assumes ok: "gworld_ok good gates storable ms w" and good: "good s'" and over: "g_over w \<subseteq> over'"
    and keep: "\<And>b D. b \<in> g_used w \<Longrightarrow> covered gates ms (g_now w) (g_store w) (g_over w) b D \<Longrightarrow>
      covered gates ms (g_now w) s' over' b D"
  shows "gworld_ok good gates storable ms (w\<lparr>g_store := s', g_over := over'\<rparr>)" (is "gworld_ok _ _ _ _ ?w")
proof -
  note net = gworld_okD(2) [OF ok]
  have "net_sound ?w" unfolding net_sound_def using net over
    by (intro conjI allI impI) (auto dest: net_soundD [OF net])
  moreover have "replies_sound gates ms ?w"
    using gworld_okD(4) [OF ok] keep net_soundD(2) [OF net] unfolding replies_sound_def by simp
  moreover have "sessions_sound gates ms ?w"
    using gworld_okD(6) [OF ok] keep unfolding sessions_sound_def session_sound_def by simp
  ultimately show ?thesis using ok good by (simp add: gworld_ok_def calls_sound_def)
qed

lemma gworld_ok_reply:
  assumes ok: "gworld_ok good gates storable ms w" and call: "(c, q, st) \<in> g_net w"
    and reply: "\<And>lease. r = Inr lease \<Longrightarrow> lease = lease_of (greq_binding q) ms \<and>
      covered gates ms (g_now w) (g_store w) (g_over w) (greq_binding q) (st + ms * millisecond)"
  shows "gworld_ok good gates storable ms (w\<lparr>g_replies := (g_replies w)(c := insert r (g_replies w c))\<rparr>)"
    (is "gworld_ok _ _ _ _ ?w")
proof -
  note net = gworld_okD(2) [OF ok]
  have c: "c < g_next w" using net_soundD(2) [OF net call] by simp
  have "net_sound ?w" unfolding net_sound_def
    using c by (intro conjI allI impI) (auto dest: net_soundD [OF net])
  moreover have "replies_sound gates ms ?w"
    unfolding replies_sound_def
  proof (intro allI impI)
    fix c' q' st' lease
    assume a: "(c', q', st') \<in> g_net ?w" "Inr lease \<in> g_replies ?w c'"
    show "lease = lease_of (greq_binding q') ms \<and>
        covered gates ms (g_now ?w) (g_store ?w) (g_over ?w) (greq_binding q') (st' + ms * millisecond)"
    proof (cases "Inr lease \<in> g_replies w c'")
      case True
      then show ?thesis using a(1) gworld_okD(4) [OF ok] unfolding replies_sound_def by simp
    next
      case False
      then have "c' = c" "r = Inr lease" using a(2) by (auto split: if_splits)
      then show ?thesis using a(1) net_soundD(1) [OF net call] reply by auto
    qed
  qed
  ultimately show ?thesis using ok by (simp add: gworld_ok_def calls_sound_def sessions_sound_def session_sound_def)
qed

lemma gworld_ok_set_reg:
  assumes "gworld_ok good gates storable ms w"
    and "\<And>a s. reg_heap r a = Some s \<Longrightarrow> session_sound gates ms w s"
  shows "gworld_ok good gates storable ms (set_reg r w)"
  using assms
  by (simp add: gworld_ok_def net_sound_def replies_sound_def calls_sound_def sessions_sound_def session_sound_def)

lemma gworld_ok_send:
  assumes ok: "gworld_ok good gates storable ms w" and b: "greq_binding q \<in> g_used w"
  shows "gworld_ok good gates storable ms (gsend q w)" (is "gworld_ok _ _ _ _ ?w")
proof -
  note net = gworld_okD(2) [OF ok]
  have over: "g_over w \<subseteq> g_over ?w" by (auto split: greq.splits)
  have keep: "covered gates ms (g_now w) (g_store w) (g_over ?w) b D"
    if "covered gates ms (g_now w) (g_store w) (g_over w) b D" for b D
    using that over by (rule covered_mono)
  have "net_sound ?w" unfolding net_sound_def
  proof (intro conjI allI impI)
    fix c q1 st1 q2 st2
    assume "(c, q1, st1) \<in> g_net ?w" "(c, q2, st2) \<in> g_net ?w"
    then show "q1 = q2" "st1 = st2" using net_soundD(1) [OF net] by (auto dest: net_soundD(2) [OF net])
  next
    fix c assume "g_next ?w \<le> c"
    then show "g_replies ?w c = {}" using net_soundD(4) [OF net, of c] by simp
  qed (use b over in \<open>auto dest: net_soundD [OF net]\<close>)
  moreover have "replies_sound gates ms ?w"
    using gworld_okD(4) [OF ok] keep net_soundD(4) [OF net, of "g_next w"] unfolding replies_sound_def by auto
  moreover have "sessions_sound gates ms ?w"
    using gworld_okD(6) [OF ok] keep unfolding sessions_sound_def session_sound_def by simp
  ultimately show ?thesis using ok by (simp add: gworld_ok_def calls_sound_def)
qed

lemma gworld_ok_calls:
  assumes "gworld_ok good gates storable ms w"
    and "\<And>a c b st. auth a = Some (c, b, st) \<Longrightarrow> (c, GBind b, st) \<in> g_net w"
    and "\<And>a c b st. beat a = Some (c, b, st) \<Longrightarrow> (c, GRenew b, st) \<in> g_net w"
  shows "gworld_ok good gates storable ms (w\<lparr>g_auth := auth, g_beat := beat\<rparr>)"
  using assms
  by (simp add: gworld_ok_def net_sound_def replies_sound_def calls_sound_def sessions_sound_def session_sound_def)

lemma gworld_ok_used:
  assumes "gworld_ok good gates storable ms w" "storable b"
  shows "gworld_ok good gates storable ms (w\<lparr>g_used := insert b (g_used w)\<rparr>)"
  using assms
  by (simp add: gworld_ok_def net_sound_def replies_sound_def calls_sound_def sessions_sound_def session_sound_def)

lemma gworld_ok_tick:
  assumes ok: "gworld_ok good gates storable ms w" and d: "0 \<le> d"
    and store: "\<And>m k. 0 \<le> m \<Longrightarrow> good (pass m (g_store w)) \<and> gates (pass m (g_store w)) k = elapse m (gates (g_store w) k)"
  shows "gworld_ok good gates storable ms (w\<lparr>g_now := g_now w + d,
      g_store := pass ((g_now w + d) div millisecond - g_now w div millisecond) (g_store w)\<rparr>)"
    (is "gworld_ok _ _ _ _ ?w")
proof -
  have m: "0 \<le> (g_now w + d) div millisecond - g_now w div millisecond"
    using d by (simp add: zdiv_mono1 millisecond_def nanosecond_def)
  have keep: "covered gates ms (g_now ?w) (g_store ?w) (g_over ?w) b D"
    if "covered gates ms (g_now w) (g_store w) (g_over w) b D" for b D
    using covered_pass [OF that d] store [OF m] by simp
  note net = gworld_okD(2) [OF ok]
  have "net_sound ?w" unfolding net_sound_def
  proof (intro conjI allI impI)
    fix c q st assume "(c, q, st) \<in> g_net ?w"
    then show "st \<le> g_now ?w" using net_soundD(2) [OF net] d by force
  qed (auto dest: net_soundD [OF net])
  moreover have "replies_sound gates ms ?w"
    using gworld_okD(4) [OF ok] keep unfolding replies_sound_def by simp
  moreover have "sessions_sound gates ms ?w"
    using gworld_okD(6) [OF ok] keep unfolding sessions_sound_def session_sound_def by simp
  ultimately show ?thesis using ok store [OF m] by (simp add: gworld_ok_def calls_sound_def)
qed

text \<open>What executing the operations on one binding means for the coverage of the others.\<close>

context gate_locator
begin

lemma covered_bind:
  assumes "inv s" "storable b" "ttl < 2 ^ 63" "glBind G e b ttl s = (s', res)"
    and "covered gates ms now s over c D" "c = b \<Longrightarrow> ttl div millisecond = ms"
    and "c \<noteq> b \<Longrightarrow> user_of c = user_of b \<Longrightarrow> c \<in> over'" "over \<subseteq> over'"
  shows "covered gates ms now s' over' c D"
proof -
  from bind [OF assms(1-4)]
  consider "gates s' = gates s" | "gates s' = (gates s)(user_of b \<mapsto> (b, ttl div millisecond))" by blast
  then show ?thesis
  proof cases
    case 1
    then show ?thesis using covered_mono [OF covered_same [OF assms(5)] assms(8)] by simp
  next
    case 2
    consider "c = b" | "c \<noteq> b" "user_of c = user_of b" | "user_of c \<noteq> user_of b" by blast
    then show ?thesis
    proof cases
      case 1
      then show ?thesis using 2 assms(6) covered_bound [OF assms(5)] by (intro covered_fresh) simp_all
    next
      case 2
      then show ?thesis using assms(7) covered_bound [OF assms(5)] by (intro covered_over)
    next
      case 3
      then have "gates s' (user_of c) = gates s (user_of c)" using 2 by (metis fun_upd_other)
      then show ?thesis using covered_mono [OF covered_same [OF assms(5)] assms(8)] by blast
    qed
  qed
qed

lemma covered_renew:
  assumes "inv s" "storable b" "ttl < 2 ^ 63" "glRenew G e b ttl s = (s', res)"
    and "covered gates ms now s over c D" "c = b \<Longrightarrow> ttl div millisecond = ms"
  shows "covered gates ms now s' over c D"
proof -
  from renew_gate [OF assms(1-4)]
  consider "gates s' = gates s" | t where "gates s (user_of b) = Some (b, t)"
      "gates s' = (gates s)(user_of b \<mapsto> (b, ttl div millisecond))" by blast
  then show ?thesis
  proof cases
    case 1
    then show ?thesis using covered_same [OF assms(5)] by simp
  next
    case 2
    consider "c = b" | "c \<noteq> b" "user_of c = user_of b" | "user_of c \<noteq> user_of b" by blast
    then show ?thesis
    proof cases
      case 1
      then show ?thesis using 2 assms(6) covered_bound [OF assms(5)] by (intro covered_fresh) simp_all
    next
      case other: 2
      then show ?thesis using 2(1) assms(5) by (auto simp: covered_def)
    next
      case 3
      then have "gates s' (user_of c) = gates s (user_of c)" using 2(2) by (metis fun_upd_other)
      then show ?thesis using covered_same [OF assms(5)] by blast
    qed
  qed
qed

lemma covered_unbind:
  assumes "inv s" "storable b" "glUnbind G e b s = (s', res)"
    and "covered gates ms now s over c D" "c = b \<Longrightarrow> b \<in> over"
  shows "covered gates ms now s' over c D"
proof -
  from unbind [OF assms(1-3)]
  consider "gates s' = gates s" | t where "gates s (user_of b) = Some (b, t)"
      "gates s' = (gates s)(user_of b := None)" by blast
  then show ?thesis
  proof cases
    case 1
    then show ?thesis using covered_same [OF assms(4)] by simp
  next
    case 2
    consider "c = b" | "c \<noteq> b" "user_of c = user_of b" | "user_of c \<noteq> user_of b" by blast
    then show ?thesis
    proof cases
      case 1
      then show ?thesis using assms(5) covered_bound [OF assms(4)] by (intro covered_over) simp_all
    next
      case other: 2
      then show ?thesis using 2(1) assms(4) by (auto simp: covered_def)
    next
      case 3
      then have "gates s' (user_of c) = gates s (user_of c)" using 2(2) by (metis fun_upd_other)
      then show ?thesis using covered_same [OF assms(4)] by blast
    qed
  qed
qed

end

section \<open>The registry's operations and the heap\<close>

lemma reg_heap_simps [simp]:
  "reg_heap (openAdmission r) = reg_heap r" "reg_heap (closeAdmission r) = reg_heap r"
  "reg_heap (auth_done r) = reg_heap r" "reg_heap (reg_update r a s) = (reg_heap r)(a \<mapsto> s)"
  by (simp_all add: openAdmission_def closeAdmission_def auth_done_def reg_update_def)

lemma reg_add_heap: "reg_add r conn authTimeout now a = (r', err) \<Longrightarrow>
    reg_heap r' = reg_heap r \<or> reg_heap r' = (reg_heap r)(a \<mapsto> newSession conn authTimeout now)"
  by (auto simp: reg_add_def split: option.splits if_splits)

lemma admit_heap: "admitAuthentication r a ctxErr t = (r', ok) \<Longrightarrow> reg_heap r' = reg_heap r"
  by (auto simp: admitAuthentication_def split: option.splits if_splits)

lemma remove_heap: "reg_remove r conn = (r', x) \<Longrightarrow> reg_heap r' = reg_heap r"
  by (auto simp: reg_remove_def split: option.splits if_splits)

lemma takeAll_heap: "takeAll r order = (r', x) \<Longrightarrow> reg_heap r' = reg_heap r"
  by (auto simp: takeAll_def split: option.splits)

lemma commit_heap:
  assumes "commitAuthentication r a ctxErr lease st t t' = (r', True)"
  obtains s where "reg_heap r a = Some s" "reg_get r (ConnID_of (s_conn s)) = Some a"
    "t < s_authDeadline s" "t' < s_authDeadline s" "t' < st + TTL lease" "ctxErr = None"
    "reg_heap r' = (reg_heap r)(a \<mapsto> s\<lparr>s_binding := Binding lease, s_leaseDeadline := st + TTL lease, s_authTimer := False\<rparr>)"
    "reg_byConnID r' = reg_byConnID r" "reg_byConnID r \<noteq> None"
  using assms
  by (auto simp: commitAuthentication_def finishAuthentication_def canAuthenticate_def Let_def
      split: option.splits if_splits prod.splits)

lemma session_sound_unbound: "\<not> ValidGateBinding (s_binding s) \<Longrightarrow> session_sound gates ms w s"
  by (simp add: session_sound_def)

lemma session_sound_new [simp]: "session_sound gates ms w (newSession conn authTimeout now)"
  by (rule session_sound_unbound) (simp add: newSession_def)

lemma session_sound_set_reg [simp]: "session_sound gates ms (set_reg r w) s = session_sound gates ms w s"
  by (simp add: session_sound_def)

lemma gworld_ok_heap:
  assumes ok: "gworld_ok good gates storable ms w"
    and heap: "reg_heap r = reg_heap (g_reg w) \<or> (\<exists>a s. reg_heap r = (reg_heap (g_reg w))(a \<mapsto> s) \<and> session_sound gates ms w s)"
  shows "gworld_ok good gates storable ms (set_reg r w)"
  using gworld_okD(6) [OF ok] heap
  by (intro gworld_ok_set_reg [OF ok]) (auto simp: sessions_sound_def split: if_splits)

lemma gworld_ok_drop_auth:
  assumes ok: "gworld_ok good gates storable ms w"
  shows "gworld_ok good gates storable ms (w\<lparr>g_auth := (g_auth w)(a := None)\<rparr>)"
proof -
  have "gworld_ok good gates storable ms (w\<lparr>g_auth := (g_auth w)(a := None), g_beat := g_beat w\<rparr>)"
    using gworld_okD(5) [OF ok]
    by (intro gworld_ok_calls [OF ok]) (auto simp: calls_sound_def split: if_splits)
  then show ?thesis by simp
qed

lemma gworld_ok_drop_beat:
  assumes ok: "gworld_ok good gates storable ms w"
  shows "gworld_ok good gates storable ms (w\<lparr>g_beat := (g_beat w)(a := None)\<rparr>)"
proof -
  have "gworld_ok good gates storable ms (w\<lparr>g_auth := g_auth w, g_beat := (g_beat w)(a := None)\<rparr>)"
    using gworld_okD(5) [OF ok]
    by (intro gworld_ok_calls [OF ok]) (auto simp: calls_sound_def split: if_splits)
  then show ?thesis by simp
qed

lemma gworld_ok_new_auth:
  assumes ok: "gworld_ok good gates storable ms w" and call: "(c, GBind b, st) \<in> g_net w"
  shows "gworld_ok good gates storable ms (w\<lparr>g_auth := (g_auth w)(a \<mapsto> (c, b, st))\<rparr>)"
proof -
  have "gworld_ok good gates storable ms (w\<lparr>g_auth := (g_auth w)(a \<mapsto> (c, b, st)), g_beat := g_beat w\<rparr>)"
    using gworld_okD(5) [OF ok] call
    by (intro gworld_ok_calls [OF ok]) (auto simp: calls_sound_def split: if_splits)
  then show ?thesis by simp
qed

lemma gworld_ok_new_beat:
  assumes ok: "gworld_ok good gates storable ms w" and call: "(c, GRenew b, st) \<in> g_net w"
  shows "gworld_ok good gates storable ms (w\<lparr>g_beat := (g_beat w)(a \<mapsto> (c, b, st))\<rparr>)"
proof -
  have "gworld_ok good gates storable ms (w\<lparr>g_auth := g_auth w, g_beat := (g_beat w)(a \<mapsto> (c, b, st))\<rparr>)"
    using gworld_okD(5) [OF ok] call
    by (intro gworld_ok_calls [OF ok]) (auto simp: calls_sound_def split: if_splits)
  then show ?thesis by simp
qed

lemma gworld_ok_give_up:
  assumes "gworld_ok good gates storable ms w" "ValidGateBinding b \<Longrightarrow> b \<in> g_used w"
  shows "gworld_ok good gates storable ms (give_up b w)"
  using assms gworld_ok_send [of good gates storable ms w "GUnbind b"] by (simp add: give_up_def)

text \<open>A successful answer that a waiting call sees is the lease of its own binding, covered from the start of the call.\<close>

lemma gworld_ok_seen:
  assumes ok: "gworld_ok good gates storable ms w" and call: "(c, q, st) \<in> g_net w" and seen: "gseen w c (Inr lease)"
  shows "lease = lease_of (greq_binding q) ms \<and> greq_binding q \<in> g_used w \<and>
    covered gates ms (g_now w) (g_store w) (g_over w) (greq_binding q) (st + ms * millisecond)"
  using gworld_okD(4) [OF ok] call seen net_soundD(2) [OF gworld_okD(2) [OF ok] call]
  by (auto simp: replies_sound_def gseen_def)

lemma gworld_ok_commit:
  assumes ok: "gworld_ok good gates storable ms w" and auth: "g_auth w a = Some (c, b, st)"
    and seen: "gseen w c (Inr lease)" and com: "commitAuthentication (g_reg w) a ctxErr lease st t t' = (r, True)"
  shows "gworld_ok good gates storable ms ((set_reg (auth_done r) w)\<lparr>g_auth := (g_auth w)(a := None)\<rparr>)"
proof -
  have call: "(c, GBind b, st) \<in> g_net w" using gworld_okD(5) [OF ok] auth by (simp add: calls_sound_def)
  note lease = gworld_ok_seen [OF ok call seen]
  obtain s where s: "reg_heap r = (reg_heap (g_reg w))(a \<mapsto> s\<lparr>s_binding := Binding lease,
      s_leaseDeadline := st + TTL lease, s_authTimer := False\<rparr>)"
    using commit_heap [OF com] by metis
  have "session_sound gates ms w (s\<lparr>s_binding := Binding lease, s_leaseDeadline := st + TTL lease, s_authTimer := False\<rparr>)"
    using lease by (simp add: session_sound_def)
  then have "gworld_ok good gates storable ms (set_reg (auth_done r) w)"
    using s by (intro gworld_ok_heap [OF ok]) auto
  from gworld_ok_drop_auth [OF this] show ?thesis by simp
qed

lemma gworld_ok_beaten:
  assumes ok: "gworld_ok good gates storable ms w" and s: "reg_heap (g_reg w) a = Some s"
    and beat: "g_beat w a = Some (c, b, st)" and seen: "gseen w c (Inr lease)"
  shows "gworld_ok good gates storable ms (set_reg (reg_update (g_reg w) a (finishHeartbeat s b st (TTL lease))) w)"
proof -
  have call: "(c, GRenew b, st) \<in> g_net w" using gworld_okD(5) [OF ok] beat by (simp add: calls_sound_def)
  note lease = gworld_ok_seen [OF ok call seen]
  have "session_sound gates ms w s" using gworld_okD(6) [OF ok] s by (simp add: sessions_sound_def)
  then have "session_sound gates ms w (finishHeartbeat s b st (TTL lease))"
    using lease by (auto simp: finishHeartbeat_def session_sound_def)
  then show ?thesis by (intro gworld_ok_heap [OF ok]) auto
qed

section \<open>Every step\<close>

lemma gsend_calls:
  "gsend q (w\<lparr>g_auth := x\<rparr>) = (gsend q w)\<lparr>g_auth := x\<rparr>" "gsend q (w\<lparr>g_beat := x\<rparr>) = (gsend q w)\<lparr>g_beat := x\<rparr>"
  "(w\<lparr>g_auth := g_auth w\<rparr>) = w" "(w\<lparr>g_beat := g_beat w\<rparr>) = w"
  by (cases q; simp add: gsend_def)+

context gate_locator
begin

lemma exec_bind_ok:
  assumes ok: "gworld_ok inv gates storable (leaseTTL div millisecond) w" and call: "(c, GBind b, st) \<in> g_net w" and ttl: "leaseTTL < 2 ^ 63"
    and ex: "glBind G env b leaseTTL (g_store w) = (s', res)"
  shows "gworld_ok inv gates storable (leaseTTL div millisecond) ((ganswer c (s', map_sum id fst res) w)\<lparr>g_over := g_over w \<union> replaced_by b w\<rparr>)"
proof -
  let ?over = "g_over w \<union> replaced_by b w" and ?ms = "leaseTTL div millisecond"
  have b: "b \<in> g_used w" "st \<le> g_now w" using net_soundD(2) [OF gworld_okD(2) [OF ok] call] by simp_all
  note law = bind [OF gworld_okD(1) [OF ok] gworld_okD(3) [OF ok b(1)] ttl ex]
  have st: "gworld_ok inv gates storable (leaseTTL div millisecond) (w\<lparr>g_store := s', g_over := ?over\<rparr>)"
    using law b covered_bind [OF gworld_okD(1) [OF ok] gworld_okD(3) [OF ok b(1)] ttl ex]
    by (intro gworld_ok_store [OF ok]) (auto simp: replaced_by_def)
  have "gworld_ok inv gates storable (leaseTTL div millisecond) ((w\<lparr>g_store := s', g_over := ?over\<rparr>)
      \<lparr>g_replies := (g_replies w)(c := insert (map_sum id fst res) (g_replies w c))\<rparr>)"
  proof -
    have "lease = lease_of b ?ms \<and> covered gates ?ms (g_now w) s' ?over b (st + ?ms * millisecond)"
      if got: "map_sum id fst res = Inr lease" for lease
    proof -
      obtain prev where "res = Inr (lease, prev)" using got by (cases res) auto
      with law have "gates s' = (gates (g_store w))(user_of b \<mapsto> (b, ?ms))" "lease = lease_of b ?ms" by blast+
      with b(2) show ?thesis by (intro conjI covered_fresh) simp_all
    qed
    then show ?thesis using gworld_ok_reply [OF st, of c "GBind b" st "map_sum id fst res"] call by simp
  qed
  moreover have "(w\<lparr>g_store := s', g_over := ?over\<rparr>)
      \<lparr>g_replies := (g_replies w)(c := insert (map_sum id fst res) (g_replies w c))\<rparr> =
      (ganswer c (s', map_sum id fst res) w)\<lparr>g_over := ?over\<rparr>"
    by (cases w) (simp add: ganswer_def)
  ultimately show ?thesis by simp
qed

lemma exec_renew_ok:
  assumes ok: "gworld_ok inv gates storable (leaseTTL div millisecond) w" and call: "(c, GRenew b, st) \<in> g_net w" and ttl: "leaseTTL < 2 ^ 63"
  shows "gworld_ok inv gates storable (leaseTTL div millisecond) (ganswer c (glRenew G env b leaseTTL (g_store w)) w)"
proof -
  let ?ms = "leaseTTL div millisecond"
  obtain s' res where ex: "glRenew G env b leaseTTL (g_store w) = (s', res)" by fastforce
  have b: "b \<in> g_used w" "st \<le> g_now w" using net_soundD(2) [OF gworld_okD(2) [OF ok] call] by simp_all
  note law = renew_gate [OF gworld_okD(1) [OF ok] gworld_okD(3) [OF ok b(1)] ttl ex]
  have "gworld_ok inv gates storable (leaseTTL div millisecond) (w\<lparr>g_store := s', g_over := g_over w\<rparr>)"
    using law covered_renew [OF gworld_okD(1) [OF ok] gworld_okD(3) [OF ok b(1)] ttl ex]
    by (intro gworld_ok_store [OF ok]) auto
  then have st: "gworld_ok inv gates storable (leaseTTL div millisecond) (w\<lparr>g_store := s'\<rparr>)" by simp
  have "lease = lease_of b ?ms \<and> covered gates ?ms (g_now w) s' (g_over w) b (st + ?ms * millisecond)"
    if "res = Inr lease" for lease
  proof -
    from law that have "gates s' = (gates (g_store w))(user_of b \<mapsto> (b, ?ms))" "lease = lease_of b ?ms" by blast+
    with b(2) show ?thesis by (intro conjI covered_fresh) simp_all
  qed
  then have "gworld_ok inv gates storable (leaseTTL div millisecond) ((w\<lparr>g_store := s'\<rparr>)\<lparr>g_replies := (g_replies w)(c := insert res (g_replies w c))\<rparr>)"
    using gworld_ok_reply [OF st, of c "GRenew b" st res] call by simp
  then show ?thesis by (simp add: ganswer_def ex)
qed

lemma exec_unbind_ok:
  assumes ok: "gworld_ok inv gates storable (leaseTTL div millisecond) w"
    and b: "storable b" "b \<in> g_used w \<Longrightarrow> b \<in> g_over w"
    and ex: "glUnbind G env b (g_store w) = (s', err)"
  shows "gworld_ok inv gates storable (leaseTTL div millisecond) (w\<lparr>g_store := s'\<rparr>)"
proof -
  have "gworld_ok inv gates storable (leaseTTL div millisecond) (w\<lparr>g_store := s', g_over := g_over w\<rparr>)"
  proof (rule gworld_ok_store [OF ok])
    show "inv s'" using unbind [OF gworld_okD(1) [OF ok] b(1) ex] by simp
    fix c D
    assume "c \<in> g_used w" "covered gates (leaseTTL div millisecond) (g_now w) (g_store w) (g_over w) c D"
    then show "covered gates (leaseTTL div millisecond) (g_now w) s' (g_over w) c D"
      using covered_unbind [OF gworld_okD(1) [OF ok] b(1) ex] b(2) by blast
  qed simp
  then show ?thesis by simp
qed

lemma foreign_renew_ok:
  assumes ok: "gworld_ok inv gates storable (leaseTTL div millisecond) w"
    and b: "storable b" "b \<notin> g_used w" "ttl < 2 ^ 63"
    and ex: "glRenew G env b ttl (g_store w) = (s', res)"
  shows "gworld_ok inv gates storable (leaseTTL div millisecond) (w\<lparr>g_store := s'\<rparr>)"
proof -
  have "gworld_ok inv gates storable (leaseTTL div millisecond) (w\<lparr>g_store := s', g_over := g_over w\<rparr>)"
  proof (rule gworld_ok_store [OF ok])
    show "inv s'" using renew_gate [OF gworld_okD(1) [OF ok] b(1,3) ex] by simp
    fix c D
    assume "c \<in> g_used w" "covered gates (leaseTTL div millisecond) (g_now w) (g_store w) (g_over w) c D"
    then show "covered gates (leaseTTL div millisecond) (g_now w) s' (g_over w) c D"
      using covered_renew [OF gworld_okD(1) [OF ok] b(1,3) ex] b(2) by blast
  qed simp
  then show ?thesis by simp
qed

lemma foreign_bind_ok:
  assumes ok: "gworld_ok inv gates storable (leaseTTL div millisecond) w"
    and b: "storable b" "b \<notin> g_used w" "ttl < 2 ^ 63"
    and ex: "glBind G env b ttl (g_store w) = (s', res)"
  shows "gworld_ok inv gates storable (leaseTTL div millisecond)
    (w\<lparr>g_store := s', g_over := g_over w \<union> replaced_by b w\<rparr>)"
proof (rule gworld_ok_store [OF ok])
  show "inv s'" using bind [OF gworld_okD(1) [OF ok] b(1,3) ex] by simp
  fix c D
  assume "c \<in> g_used w" "covered gates (leaseTTL div millisecond) (g_now w) (g_store w) (g_over w) c D"
  then show "covered gates (leaseTTL div millisecond) (g_now w) s' (g_over w \<union> replaced_by b w) c D"
    using b(2) by (intro covered_bind [OF gworld_okD(1) [OF ok] b(1,3) ex]) (auto simp: replaced_by_def)
qed simp

lemma gstep_ok:
  assumes "gstep G storable pass authTimeout leaseTTL w w'" "leaseTTL < 2 ^ 63"
    and "gworld_ok inv gates storable (leaseTTL div millisecond) w"
  shows "gworld_ok inv gates storable (leaseTTL div millisecond) w'"
  using assms
proof (induction rule: gstep.induct)
  case (tick d w)
  then show ?case using pass_gates gworld_okD(1) [OF tick(3)] by (intro gworld_ok_tick) auto
next
  case (admission w b)
  then show ?case by (intro gworld_ok_heap) auto
next
  case (opened w a conn r err)
  show ?case
    by (rule gworld_ok_heap [OF opened(4)]) (use reg_add_heap [OF opened(2)] session_sound_new in metis)
next
  case (auth_admit w a ctxErr t r b)
  have "gworld_ok inv gates storable (leaseTTL div millisecond) ((set_reg r w)\<lparr>g_used := insert b (g_used w)\<rparr>)"
    using gworld_ok_used [OF gworld_ok_heap [OF auth_admit(7)] auth_admit(4), of r] admit_heap [OF auth_admit(1)] by simp
  then have "gworld_ok inv gates storable (leaseTTL div millisecond)
      (gsend (GBind b) ((set_reg r w)\<lparr>g_used := insert b (g_used w)\<rparr>))"
    by (rule gworld_ok_send) simp
  from gworld_ok_new_auth [OF this, of "g_next w" b "g_now w" a] show ?case by (simp add: gsend_calls)
next
  case (auth_failed w a c b st err)
  then show ?case using gworld_ok_drop_auth [OF gworld_ok_heap [OF auth_failed(4)], of "auth_done (g_reg w)" a] by simp
next
  case (auth_commit w a c b st lease ctxErr t t' r)
  then show ?case by (intro gworld_ok_commit)
next
  case (auth_fenced w a c b st lease ctxErr t t' r)
  have "(c, GBind b, st) \<in> g_net w" using gworld_okD(5) [OF auth_fenced(5)] auth_fenced(1) by (simp add: calls_sound_def)
  from gworld_ok_seen [OF auth_fenced(5) this auth_fenced(2)] have "Binding lease \<in> g_used w" by simp
  then show ?case
    using gworld_ok_drop_auth [OF gworld_ok_heap [OF auth_fenced(5)], of "auth_done (g_reg w)" a]
    by (intro gworld_ok_give_up) simp_all
next
  case (beat w a s b)
  then have "leaseValidLocked s (g_now w)" "s_binding s = b" by (auto simp: heartbeatRoute_def Let_def)
  then have "b \<in> g_used w"
    using gworld_okD(6) [OF beat(4)] beat(1) by (auto simp: sessions_sound_def session_sound_def leaseValidLocked_def)
  then have "gworld_ok inv gates storable (leaseTTL div millisecond) (gsend (GRenew b) w)"
    by (intro gworld_ok_send [OF beat(4)]) simp
  from gworld_ok_new_beat [OF this, of "g_next w" b "g_now w" a] show ?case by (simp add: gsend_calls)
next
  case (beaten w a s c b st reply)
  then show ?case
    using gworld_ok_drop_beat [OF beaten(5), of a] gworld_ok_drop_beat [OF gworld_ok_beaten [OF beaten(5,1,2)], of _ a]
    by (auto split: sum.splits)
next
  case (closed w a s s' b conn r removed)
  then have b: "s_binding s' = zeroBinding" "b = s_binding s" by (auto simp: detachForClose_def)
  then have "gworld_ok inv gates storable (leaseTTL div millisecond) (set_reg (reg_update r a s') w)"
    using remove_heap [OF closed(3)] session_sound_unbound [of s' gates "leaseTTL div millisecond" w]
    by (intro gworld_ok_heap [OF closed(5)]) auto
  then show ?case
    using gworld_okD(6) [OF closed(5)] closed(1) b(2)
    by (intro gworld_ok_give_up) (auto simp: sessions_sound_def session_sound_def)
next
  case (kicked b w a s t s' conn r removed)
  then have b: "s_binding s' = zeroBinding" "b = s_binding s" by (auto simp: detachForKick_def split: if_splits)
  then have "gworld_ok inv gates storable (leaseTTL div millisecond) (set_reg (reg_update r a s') w)"
    using remove_heap [OF kicked(4)] session_sound_unbound [of s' gates "leaseTTL div millisecond" w]
    by (intro gworld_ok_heap [OF kicked(6)]) auto
  then show ?case
    using gworld_okD(6) [OF kicked(6)] kicked(1,2) b(2)
    by (intro gworld_ok_send) (auto simp: sessions_sound_def session_sound_def)
next
  case (taken w order r drained)
  then show ?case using takeAll_heap [OF taken(1)] by (intro gworld_ok_heap) auto
next
  case (exec_bind c b st w env s' res)
  then show ?case by (intro exec_bind_ok)
next
  case (exec_renew c b st w env)
  then show ?case by (intro exec_renew_ok)
next
  case (exec_unbind c b st w env s' err)
  then have "b \<in> g_used w" "b \<in> g_over w"
    using net_soundD(2,3) [OF gworld_okD(2) [OF exec_unbind(4)] exec_unbind(1)] by simp_all
  with exec_unbind gworld_okD(3) [OF exec_unbind(4)] show ?case by (intro exec_unbind_ok) auto
next
  case (foreign_bind b w ttl env s' res)
  then show ?case by (intro foreign_bind_ok)
next
  case (foreign_renew b w ttl env s' renewed)
  then show ?case by (intro foreign_renew_ok)
next
  case (foreign_unbind b w env s' err)
  then show ?case by (intro exec_unbind_ok) auto
qed

lemma gworld_ok_start: "inv s \<Longrightarrow> gworld_ok inv gates storable ms (gworld_start now s)"
  by (simp add: gworld_ok_def gworld_start_def net_sound_def replies_sound_def calls_sound_def sessions_sound_def
      reg_start_def)

lemma lease_covered:
  assumes "inv s0" "leaseTTL < 2 ^ 63"
    and "(gstep G storable pass authTimeout leaseTTL)\<^sup>*\<^sup>* (gworld_start now s0) w"
    and "reg_heap (g_reg w) a = Some s" "leaseValidLocked s (g_now w)"
  shows "s_binding s \<in> g_over w \<or> (\<exists>t. gates (g_store w) (user_of (s_binding s)) = Some (s_binding s, t) \<and>
    s_leaseDeadline s \<le> (g_now w div millisecond + t + 1) * millisecond)"
proof -
  from assms(3) have "gworld_ok inv gates storable (leaseTTL div millisecond) w"
    by (induction rule: rtranclp_induct) (auto intro: gworld_ok_start [OF assms(1)] gstep_ok [OF _ assms(2)])
  from gworld_okD(6) [OF this] assms(4,5) show ?thesis
    by (auto simp: sessions_sound_def session_sound_def leaseValidLocked_def covered_def)
qed

end

section \<open>Counting authentications\<close>

text \<open>
  The wait group's counter is the number of authentications in flight, and only an authentication in
  flight writes a binding into a session.
\<close>

definition auths_counted :: "'s gworld \<Rightarrow> bool" where
  "auths_counted w = (finite (dom (g_auth w)) \<and> reg_auths (g_reg w) = card (dom (g_auth w)))"

lemma reg_auths_simps [simp]:
  "reg_auths (openAdmission r) = reg_auths r" "reg_auths (closeAdmission r) = reg_auths r"
  "reg_auths (auth_done r) = reg_auths r - 1" "reg_auths (reg_update r a s) = reg_auths r"
  by (simp_all add: openAdmission_def closeAdmission_def auth_done_def reg_update_def)

lemma reg_auths_same:
  "reg_add r conn authTimeout now a = (r', err) \<Longrightarrow> reg_auths r' = reg_auths r"
  "reg_remove r conn = (r', x) \<Longrightarrow> reg_auths r' = reg_auths r"
  "takeAll r order = (r', y) \<Longrightarrow> reg_auths r' = reg_auths r"
  "commitAuthentication r a ctxErr lease st t t' = (r', ok) \<Longrightarrow> reg_auths r' = reg_auths r"
  by (auto simp: reg_add_def reg_remove_def takeAll_def commitAuthentication_def Let_def
      split: option.splits if_splits prod.splits)

lemma admit_counts: "admitAuthentication r a ctxErr t = (r', True) \<Longrightarrow>
    reg_auths r' = reg_auths r + 1 \<and> reg_accepting r \<and> reg_registered r a"
  by (auto simp: admitAuthentication_def reg_registered_def split: option.splits if_splits)

lemma auths_counted_drop:
  assumes "auths_counted w" "g_auth w a = Some x" "reg_auths r = reg_auths (g_reg w)"
  shows "finite (dom ((g_auth w)(a := None))) \<and> reg_auths (auth_done r) = card (dom ((g_auth w)(a := None)))"
proof -
  have "a \<in> dom (g_auth w)" using assms(2) by auto
  then show ?thesis using assms(1,3) by (simp add: auths_counted_def)
qed

lemma give_up_simps [simp]: "g_reg (give_up b w) = g_reg w" "g_auth (give_up b w) = g_auth w"
  by (simp_all add: give_up_def)

lemma auths_counted_step:
  "gstep G storable pass authTimeout leaseTTL w w' \<Longrightarrow> auths_counted w \<Longrightarrow> auths_counted w'"
proof (induction rule: gstep.induct)
  case (auth_admit w a ctxErr t r b)
  then have "a \<notin> dom (g_auth w)" by auto
  then show ?case using auth_admit admit_counts [OF auth_admit(1)] by (simp add: auths_counted_def)
next
  case (auth_failed w a c b st err)
  then show ?case using auths_counted_drop [of w a "(c, b, st)" "g_reg w"] by (simp add: auths_counted_def)
next
  case (auth_commit w a c b st lease ctxErr t t' r)
  then show ?case
    using auths_counted_drop [of w a "(c, b, st)" r] reg_auths_same(4) [OF auth_commit(3)] by (simp add: auths_counted_def)
next
  case (auth_fenced w a c b st lease ctxErr t t' r)
  then show ?case using auths_counted_drop [of w a "(c, b, st)" "g_reg w"] by (simp add: auths_counted_def)
next
  case (beaten w a s c b st reply)
  then show ?case by (cases reply) (simp_all add: auths_counted_def)
qed (auto simp: auths_counted_def ganswer_def dest: reg_auths_same)

lemma auths_counted_reach:
  "(gstep G storable pass authTimeout leaseTTL)\<^sup>*\<^sup>* (gworld_start now s) w \<Longrightarrow> auths_counted w"
proof (induction rule: rtranclp_induct)
  case base
  show ?case by (simp add: auths_counted_def gworld_start_def reg_start_def)
qed (rule auths_counted_step)

end
