(* ===== verification/Redis_Properties.thy ===== *)
theory Redis_Properties
  imports Redis_Locator
begin

text \<open>
  What the Redis locator guarantees, stated for any server that satisfies the laws of
  \<open>redis_server\<close>, with the key-value store as the concrete server of the witnesses.
\<close>

section \<open>Keys\<close>

text \<open>
  C7. The key scheme: gate, node and epoch keys never collide across families, and within a family
  two keys are equal only for the same service and user or node; and the two keys a node script
  touches carry the same cluster hash tag, so the script runs on one slot.
\<close>

theorem locator_keys_sound:
  assumes "ValidServiceName s" "ValidServiceName s'"
  shows "(gateKey s u = gateKey s' u' \<longleftrightarrow> s = s' \<and> u = u') \<and>
    (nodeKey s u = nodeKey s' u' \<longleftrightarrow> s = s' \<and> u = u') \<and>
    (nodeEpochKey s n = nodeEpochKey s' n' \<longleftrightarrow> s = s' \<and> n = n') \<and>
    gateKey s u \<noteq> nodeKey s' u' \<and> gateKey s u \<noteq> nodeEpochKey s' n \<and> nodeKey s u \<noteq> nodeEpochKey s' n \<and>
    hash_tag (nodeKey s u) = hash_tag (nodeEpochKey s n)"
  using assms gateKey_inject node_key_hash_tag [of s] by (auto simp: ValidServiceName_def split: if_splits)

theorem locator_keys_sound_witness:
  "gateKey ''a'' ''b'' \<noteq> gateKey ''ab'' '''' \<and> hash_tag (nodeKey ''a'' ''b'') = hash_tag (nodeEpochKey ''a'' ''n'')"
proof -
  have "ValidServiceName ''a''" "ValidServiceName ''ab''" by code_simp+
  then show ?thesis
    using locator_keys_sound [of "''a''" "''ab''" "''b''" "''''" "''n''" "''n''"] by simp
qed

section \<open>Gate bindings\<close>

text \<open>
  C1. The bind script of the source leaves the block it opens with \<open>if current then\<close> unclosed, so the
  server cannot compile it: no call of \<open>BindGate\<close> ever binds anything or returns a lease.
\<close>

theorem bindGate_never_binds: "\<exists>err. BindGate R cjson e c ttl r = (r, Inl err)"
proof (cases "ValidGateBinding c \<and> (\<exists>ms. leaseMilliseconds ttl = Inr ms)")
  case True
  then obtain ms where ms: "leaseMilliseconds ttl = Inr ms" by blast
  let ?body = "bindGateScript R cjson (gateKey (ServiceName c) (UID c)) ms (json_marshal c) (ServiceName c) (UID c)"
  obtain err where "runScript e bindGateScript_source ?body r = (r, Inl err)"
    using runScript_not_closed [OF bindGateScript_not_closed, of e ?body r] by blast
  with True ms show ?thesis by (auto simp: BindGate_def BindGate_with_def)
qed (auto simp: BindGate_def BindGate_with_def split: sum.splits)

definition gate_demo_b1 :: GateBinding where
  "gate_demo_b1 = \<lparr>ServiceName = ''game'', UID = ''u1'', GateID = ''g1'', GateEndpoint = ''grpc://h:1'',
     ConnID = ''c1'', BindingToken = ''t1''\<rparr>"

definition gate_demo_b2 :: GateBinding where
  "gate_demo_b2 = gate_demo_b1\<lparr>GateID := ''g2'', ConnID := ''c2'', BindingToken := ''t2''\<rparr>"

definition done_env :: call_env where
  "done_env = \<lparr>io_outcome = Done, ctx_err = None, past_deadline = False, net_timeout = (\<lambda>_. False)\<rparr>"

text \<open>The script with the block closed after the two checks it guards.\<close>

definition bindGateScript_closed :: "string list" where
  "bindGateScript_closed = take 15 bindGateScript_source @ [''end''] @ drop 15 bindGateScript_source"

lemma bindGateScript_closed_ok: "lua_closed bindGateScript_closed"
  by code_simp

lemma demo_bindings_ok:
  "ValidGateBinding gate_demo_b1" "utf8_binding gate_demo_b1" "ValidGateBinding gate_demo_b2" "utf8_binding gate_demo_b2"
  by code_simp+

lemma utf8_storable: "utf8_binding b \<Longrightarrow> gate_storable json_parse b"
  by (simp add: gate_storable_def cjson_reads_def json_parse_marshal)


definition gate_demo_ttl :: duration where "gate_demo_ttl = 30 * second"

definition gate_demo_bind :: "GateBinding \<Rightarrow> kv \<Rightarrow> kv \<times> (goerr + GateLease \<times> GateBinding option)" where
  "gate_demo_bind b = BindGate_with bindGateScript_closed kv_ops json_parse done_env b gate_demo_ttl"

definition gate_demo_store :: kv where
  "gate_demo_store = kv_put (gateKey ''game'' ''u1'') (json_marshal gate_demo_b1) 30000 kv_empty"

lemma gate_demo_look:
  "kv_look gate_demo_store = (\<lambda>_. None)(gateKey (ServiceName gate_demo_b1) (UID gate_demo_b1) \<mapsto> (json_marshal gate_demo_b1, Some 30000))"
  by (rule ext) (simp add: gate_demo_store_def gate_demo_b1_def)

lemma gate_demo_gates:
  "gates_ok json_parse (kv_look gate_demo_store)"
  "gates_of (kv_look gate_demo_store) = (\<lambda>_. None)((''game'', ''u1'') \<mapsto> (gate_demo_b1, 30000))"
proof -
  have empty: "gates_ok json_parse (\<lambda>_. None)" "gates_of (\<lambda>_. None) = (\<lambda>_. None)"
    by (auto simp: gates_ok_def gates_of_def)
  show "gates_ok json_parse (kv_look gate_demo_store)"
    unfolding gate_demo_look
    by (rule gates_ok_put [OF empty(1) demo_bindings_ok(1) utf8_storable [OF demo_bindings_ok(2)]])
      (simp_all add: maxTTLMillis_def)
  show "gates_of (kv_look gate_demo_store) = (\<lambda>_. None)((''game'', ''u1'') \<mapsto> (gate_demo_b1, 30000))"
    unfolding gate_demo_look gates_of_put [OF demo_bindings_ok(1) utf8_storable [OF demo_bindings_ok(2)]] empty
    by (simp add: gate_demo_b1_def)
qed

lemma gate_demo_millis: "leaseMilliseconds gate_demo_ttl = Inr 30000"
  by code_simp


text \<open>
  C3. A gateway that no longer holds a user cannot disturb the one that does: renewing or unbinding a
  binding other than the stored one leaves every key of the store as it was, whether the call is
  answered, lost after it ran, or never sent.
\<close>

theorem stale_gate_calls_harmless:
  assumes "redis_server R look" "gates_ok cjson (look r)" "gate_storable cjson b" "ttl < 2 ^ 63"
    and "gates_of (look r) (user_of b) = Some (c, t)" "c \<noteq> b"
  shows "look (fst (RenewGateLease R e b ttl r)) = look r \<and> look (fst (UnbindGate R e b r)) = look r"
proof (cases "ValidGateBinding b")
  case False
  then show ?thesis by (simp add: RenewGateLease_def UnbindGate_def)
next
  case True
  note own = redis_server.gates_of_own [OF assms(1,2) True assms(3)]
  obtain r1 res1 where 1: "RenewGateLease R e b ttl r = (r1, res1)" by fastforce
  obtain r2 res2 where 2: "UnbindGate R e b r = (r2, res2)" by fastforce
  from own assms(5,6) have "look r (gateKey (ServiceName b) (UID b)) \<noteq> Some (json_marshal b, Some x)" for x
    by auto
  with redis_server.renewGateLease_state [OF assms(1) 1 assms(4)]
    redis_server.unbindGate_state [OF assms(1) 2] 1 2 show ?thesis by auto
qed

theorem stale_gate_calls_harmless_witness:
  "kv_look (fst (RenewGateLease kv_ops done_env gate_demo_b2 gate_demo_ttl gate_demo_store)) = kv_look gate_demo_store \<and>
   kv_look (fst (UnbindGate kv_ops done_env gate_demo_b2 gate_demo_store)) = kv_look gate_demo_store"
proof (rule stale_gate_calls_harmless [OF kv.redis_server_axioms gate_demo_gates(1) utf8_storable [OF demo_bindings_ok(4)]])
  show "gate_demo_ttl < 2 ^ 63" by (simp add: gate_demo_ttl_def second_def nanosecond_def)
  show "gates_of (kv_look gate_demo_store) (user_of gate_demo_b2) = Some (gate_demo_b1, 30000)"
    by (simp add: gate_demo_gates gate_demo_b2_def gate_demo_b1_def)
  show "gate_demo_b1 \<noteq> gate_demo_b2" by (simp add: gate_demo_b2_def gate_demo_b1_def)
qed

text \<open>
  C4. A lease the locator reports is exact and in range: it names the asked user with a valid binding,
  and its time to live is a positive whole number of milliseconds that did not wrap around.
\<close>

theorem locateGate_lease_sound:
  assumes "snd (LocateGate R e s u r) = Inr lease"
  shows "ServiceName (Binding lease) = s \<and> UID (Binding lease) = u \<and> ValidGateBinding (Binding lease) \<and>
    0 < TTL lease \<and> TTL lease < 2 ^ 63 \<and>
    (\<exists>raw ms. snd (locateGateScript R (gateKey s u) r) = Inr [LInt 1, LStr raw, LInt ms] \<and> TTL lease = ms * millisecond)"
proof -
  obtain r' vs where run: "locateGateScript R (gateKey s u) r = (r', Inr vs)" and dec: "decodeLeaseResult vs s u = Inr lease"
    using assms runScript_Inr [of e locateGateScript_source "locateGateScript R (gateKey s u)" r]
    by (auto simp: LocateGate_def split: if_splits prod.splits sum.splits)
  then obtain raw ms where vs: "vs = [LInt 1, LStr raw, LInt ms]"
    by (auto simp: locateGateScript_def Let_def decodeLeaseResult_def scriptStatus_def redis_simps
        split: option.splits if_splits)
  with dec have ms: "0 < ms" "ms \<le> maxTTLMillis"
    by (auto simp: decodeLeaseResult_def scriptStatus_def decodeLease_def leaseResultFields_def redis_simps
        split: if_splits sum.splits)
  then have "wrap64 (ms * millisecond) = ms * millisecond"
    by (simp add: wrap64_id maxTTLMillis_def millisecond_def nanosecond_def)
  with dec vs ms run show ?thesis
    by (auto simp: decodeLeaseResult_def scriptStatus_def decodeLease_def leaseResultFields_def decodeBinding_def
        redis_simps maxTTLMillis_def millisecond_def nanosecond_def split: if_splits sum.splits option.splits)
qed

theorem locateGate_lease_sound_witness:
  "TTL (lease_of gate_demo_b1 30000) < 2 ^ 63 \<and>
   snd (LocateGate kv_ops done_env ''game'' ''u1'' gate_demo_store) = Inr (lease_of gate_demo_b1 30000)"
proof -
  have "gate_holds json_parse (kv_look gate_demo_store) gate_demo_b1 30000"
    using demo_bindings_ok utf8_storable [of gate_demo_b1]
    by (simp add: gate_holds_def gate_demo_look gate_storable_def maxTTLMillis_def)
  from kv.locateGate_held [OF _ this, of done_env]
  have "snd (LocateGate kv_ops done_env ''game'' ''u1'' gate_demo_store) = Inr (lease_of gate_demo_b1 30000)"
    by (simp add: done_env_def gate_demo_b1_def)
  with locateGate_lease_sound [OF this] show ?thesis by blast
qed

section \<open>Node bindings\<close>

text \<open>
  C5. A node location is fenced by the epoch: however a bind call ends, it writes nothing unless the
  store holds exactly the caller's epoch for the node, and it touches no key but the user's; an
  answered call with the current epoch succeeds and the user is then located on that node; with
  another epoch or none it reports which and changes nothing.
\<close>

theorem bindNode_fenced:
  assumes "redis_server R look" "ValidNodeLocation s u n" "ep \<noteq> []"
  shows "(map_option fst (look r (nodeEpochKey s n)) \<noteq> Some ep \<longrightarrow> look (fst (BindNode R e s u n ep r)) = look r) \<and>
    (\<forall>k. k \<noteq> nodeKey s u \<longrightarrow> look (fst (BindNode R e s u n ep r)) k = look r k) \<and>
    (io_outcome e = Done \<longrightarrow>
      (if map_option fst (look r (nodeEpochKey s n)) = Some ep
       then snd (BindNode R e s u n ep r) = None \<and> LocateNode R e s u (fst (BindNode R e s u n ep r)) = Inr n
       else snd (BindNode R e s u n ep r) = Some (LocateErr
         (if look r (nodeEpochKey s n) = None then ErrNodeEpochNotFound else ErrNodeEpochConflict))))"
proof -
  obtain r' res where call: "BindNode R e s u n ep r = (r', res)" by fastforce
  note state = redis_server.bindNode_state [OF assms(1) call]
  have current: "res = None \<and> LocateNode R e s u r' = Inr n"
    if io: "io_outcome e = Done" and ep: "map_option fst (look r (nodeEpochKey s n)) = Some ep"
  proof -
    obtain r2 where "BindNode R e s u n ep r = (r2, None)" "look r2 = (look r)(nodeKey s u \<mapsto> (n, Some 21600000))"
      using redis_server.bindNode_current [OF assms(1) io assms(2,3) ep] by blast
    then show ?thesis using call redis_server.locateNode_bound [OF assms(1) io assms(2), of r2] by simp
  qed
  have stale: "res = Some (LocateErr
      (if look r (nodeEpochKey s n) = None then ErrNodeEpochNotFound else ErrNodeEpochConflict))"
    if "io_outcome e = Done" "map_option fst (look r (nodeEpochKey s n)) \<noteq> Some ep"
    using redis_server.bindNode_stale [OF assms(1) that(1) assms(2,3) that(2)] call by simp
  show ?thesis using state current stale call by (auto split: if_splits)
qed

definition node_demo_store :: kv where
  "node_demo_store = kv_put (nodeEpochKey ''game'' ''n1'') ''e1'' 30000 kv_empty"

theorem bindNode_fenced_witness:
  "snd (BindNode kv_ops done_env ''game'' ''u1'' ''n1'' ''e1'' node_demo_store) = None \<and>
   LocateNode kv_ops done_env ''game'' ''u1'' (fst (BindNode kv_ops done_env ''game'' ''u1'' ''n1'' ''e1'' node_demo_store)) = Inr ''n1''"
proof -
  have "ValidNodeLocation ''game'' ''u1'' ''n1''" by code_simp
  then show ?thesis
    using bindNode_fenced [OF kv.redis_server_axioms, of "''game''" "''u1''" "''n1''" "''e1''" node_demo_store done_env]
    by (simp add: node_demo_store_def done_env_def)
qed

text \<open>
  C6. Unbinding or renewing a node location acts only for the current epoch and only on a location that
  still names the node, so neither can remove or prolong another node's claim to the user.
\<close>

theorem node_calls_respect_owner:
  assumes "redis_server R look" "look r (nodeKey s u) = Some (m, t)" "m \<noteq> n"
  shows "look (fst (UnbindNode R e s u n ep r)) = look r \<and> look (fst (RenewNode R e s u n ep r)) = look r"
proof -
  obtain r1 res1 where 1: "UnbindNode R e s u n ep r = (r1, res1)" by fastforce
  obtain r2 res2 where 2: "RenewNode R e s u n ep r = (r2, res2)" by fastforce
  from redis_server.unbindNode_state [OF assms(1) 1] redis_server.renewNode_state [OF assms(1) 2] 1 2 assms(2,3)
  show ?thesis by auto
qed

theorem node_calls_respect_owner_witness:
  "kv_look (fst (UnbindNode kv_ops done_env ''game'' ''u1'' ''n1'' ''e1''
     (kv_put (nodeKey ''game'' ''u1'') ''n2'' 1000 node_demo_store))) =
   kv_look (kv_put (nodeKey ''game'' ''u1'') ''n2'' 1000 node_demo_store)"
  using node_calls_respect_owner [OF kv.redis_server_axioms,
      of "kv_put (nodeKey ''game'' ''u1'') ''n2'' 1000 node_demo_store" "''game''" "''u1''" "''n2''" "Some 1000" "''n1''"]
  by simp

end
