(* ===== verification/Gate_Properties.thy ===== *)
theory Gate_Properties
  imports Gate_World Redis_Properties
begin

text \<open>
  The sessions of a gateway over the Redis locator: the local lease of a session is covered by the
  store, and the count that a shutdown waits for is the number of authentications in flight.
\<close>

context redis_gates
begin

lemma redis_lease_covered:
  assumes "gates_ok cjson (look r)" "leaseTTL < 2 ^ 63"
    and "(gstep (redis_gate_ops src R cjson) (gate_storable cjson) pass authTimeout leaseTTL)\<^sup>*\<^sup>* (gworld_start now r) w"
    and "reg_heap (g_reg w) a = Some s" "leaseValidLocked s (g_now w)"
  shows "s_binding s \<in> g_over w \<or> (\<exists>t. gates_of (look (g_store w)) (user_of (s_binding s)) = Some (s_binding s, t) \<and>
    s_leaseDeadline s \<le> (g_now w div millisecond + t + 1) * millisecond)"
  using assms by (rule gates.lease_covered)

end


text \<open>One connection opens, authenticates and is bound in an empty store.\<close>

definition gw_demo_conn :: Connection where
  "gw_demo_conn = \<lparr>conn_addr = 1, ConnID_of = ''c1''\<rparr>"

definition gw_demo_lease :: GateLease where
  "gw_demo_lease = lease_of gate_demo_b1 30000"

definition gw_demo_session :: session where
  "gw_demo_session = (newSession gw_demo_conn second 0)
     \<lparr>s_binding := gate_demo_b1, s_leaseDeadline := 30 * second, s_authTimer := False\<rparr>"

definition gw_demo_reg :: "bool \<Rightarrow> nat \<Rightarrow> session \<Rightarrow> sessionRegistry" where
  "gw_demo_reg accepting n s = \<lparr>reg_byConnID = Some [''c1'' \<mapsto> 0], reg_accepting = accepting, reg_auths = n,
     reg_heap = [0 \<mapsto> s]\<rparr>"

definition gw_demo :: "kv gworld" where
  "gw_demo = \<lparr>g_now = 0, g_store = gate_demo_store, g_reg = gw_demo_reg True 0 gw_demo_session,
     g_net = {(0, GBind gate_demo_b1, 0)}, g_replies = (\<lambda>_. {})(0 := {Inr gw_demo_lease}), g_next = 1,
     g_used = {gate_demo_b1}, g_over = {}, g_auth = Map.empty, g_beat = Map.empty\<rparr>"

lemma gw_demo_bind:
  "BindGate_with bindGateScript_closed kv_ops json_parse done_env gate_demo_b1 gate_demo_ttl kv_empty =
     (gate_demo_store, Inr (gw_demo_lease, None))"
proof -
  have key: "gateKey (ServiceName gate_demo_b1) (UID gate_demo_b1) = gateKey ''game'' ''u1''"
    by (simp add: gate_demo_b1_def)
  have "decodeBinding (json_marshal gate_demo_b1) (ServiceName gate_demo_b1) (UID gate_demo_b1) = Inr gate_demo_b1"
    using demo_bindings_ok by (simp add: decodeBinding_marshal)
  then show ?thesis
    using demo_bindings_ok(1) gate_demo_millis bindGateScript_closed_ok
    by (simp add: BindGate_with_def runScript_Done done_env_def bindGateScript_def key kv_ops_def gate_demo_store_def
        scriptStatus_def decodeBindGateResult_def leaseResultFields_def gw_demo_lease_def redis_simps maxTTLMillis_def)
qed

lemma replaced_by_only: "g_used w \<subseteq> {b} \<Longrightarrow> replaced_by b w = {}"
  by (auto simp: replaced_by_def)

lemma gw_demo_reach:
  "(gstep (redis_gate_ops bindGateScript_closed kv_ops json_parse) (gate_storable json_parse) kv_pass second gate_demo_ttl)\<^sup>*\<^sup>*
     (gworld_start 0 kv_empty) gw_demo" (is "?S\<^sup>*\<^sup>* _ _")
proof -
  let ?w0 = "gworld_start 0 kv_empty :: kv gworld"
  let ?w1 = "set_reg (openAdmission (g_reg ?w0)) ?w0"
  let ?w2 = "set_reg (gw_demo_reg True 0 (newSession gw_demo_conn second 0)) ?w1"
  let ?w3 = "gsend (GBind gate_demo_b1) ((set_reg (gw_demo_reg True 1 (newSession gw_demo_conn second 0)) ?w2)
      \<lparr>g_used := {gate_demo_b1}, g_auth := Map.empty(0 \<mapsto> (0, gate_demo_b1, 0))\<rparr>)"
  let ?w4 = "(ganswer 0 (gate_demo_store, Inr gw_demo_lease) ?w3)\<lparr>g_over := {}\<rparr>"
  have "?S ?w0 ?w1" using gstep.admission [where w = ?w0 and b = True] by (simp cong: if_cong)
  moreover have "?S ?w1 ?w2"
    by (rule gstep.opened [where a = 0 and conn = gw_demo_conn and err = None])
      (simp_all add: gworld_start_def reg_start_def openAdmission_def set_reg_def reg_add_def gw_demo_conn_def gw_demo_reg_def)
  moreover have "?S ?w2 ?w3"
    using gstep.auth_admit [where w = ?w2 and a = 0 and ctxErr = None and t = 0 and b = gate_demo_b1
        and r = "gw_demo_reg True 1 (newSession gw_demo_conn second 0)" and storable = "gate_storable json_parse"]
      demo_bindings_ok utf8_storable
    by (simp add: gworld_start_def admitAuthentication_def gw_demo_reg_def reg_get_def gw_demo_conn_def
        newSession_def canAuthenticate_def second_def nanosecond_def set_reg_def)
  moreover have "?S ?w3 ?w4"
    using gstep.exec_bind [where w = ?w3 and c = 0 and b = gate_demo_b1 and st = 0 and env = done_env
        and s' = gate_demo_store and res = "Inr (gw_demo_lease, None)" and leaseTTL = gate_demo_ttl
        and G = "redis_gate_ops bindGateScript_closed kv_ops json_parse"] gw_demo_bind
    by (simp add: gworld_start_def redis_gate_ops_def set_reg_def gsend_def replaced_by_only)
  moreover have "?S ?w4 gw_demo"
    using gstep.auth_commit [where w = ?w4 and a = 0 and c = 0 and b = gate_demo_b1 and st = 0 and lease = gw_demo_lease
        and ctxErr = None and t = 0 and t' = 0 and r = "gw_demo_reg True 1 gw_demo_session"]
    by (simp add: gworld_start_def ganswer_def gseen_def gsend_def set_reg_def commitAuthentication_def gw_demo_reg_def
        reg_get_def gw_demo_conn_def newSession_def canAuthenticate_def finishAuthentication_def gw_demo_lease_def
        gw_demo_session_def auth_done_def gw_demo_def second_def millisecond_def nanosecond_def)
  ultimately show ?thesis by (meson converse_rtranclp_into_rtranclp rtranclp.rtrancl_refl)
qed



definition gw_demo_closed :: "kv gworld" where
  "gw_demo_closed = set_reg (closeAdmission (g_reg gw_demo)) gw_demo"


end
