(* ===== verification/Proto_Wire.thy ===== *)
theory Proto_Wire
  imports Protocol
begin

text \<open>
  What the transports rely on of the protobuf codec for the envelope \<open>Proto\<close>, as a locale, and the
  proto3 wire format of this message (field numbers 1 to 5 of \<open>api/protocol/v1/protocol.proto\<close>) as its
  instance. The codec itself is library code: the theories that use it take it as an argument. The
  instance decodes fields in any order, skips unknown fields, keeps the last value of a repeated one
  and rejects groups, which no proto3 message uses.
\<close>

section \<open>The contract\<close>

definition int32 :: "int \<Rightarrow> bool" where
  "int32 x = (- 2147483648 \<le> x \<and> x < 2147483648)"

definition proto_valid :: "Proto \<Rightarrow> bool" where
  "proto_valid p = (int32 (Op p) \<and> int32 (Seq p) \<and> int32 (Code p) \<and> int32 (Cmd p) \<and> length (Body p) < 2 ^ 63)"

record frame_codec =
  fc_Marshal :: "Proto \<Rightarrow> goerr + bytes"
  fc_Unmarshal :: "bytes \<Rightarrow> goerr + Proto"
  fc_Size :: "Proto \<Rightarrow> nat"

locale proto_codec =
  fixes codec :: frame_codec
  assumes marshal: "proto_valid p \<Longrightarrow> \<exists>b. fc_Marshal codec p = Inr b"
    and round_trip: "proto_valid p \<Longrightarrow> fc_Marshal codec p = Inr b \<Longrightarrow> fc_Unmarshal codec b = Inr p \<and> fc_Size codec p = length b"

section \<open>Varints\<close>

fun varint :: "nat \<Rightarrow> nat list" where
  "varint n = (if n < 128 then [n] else (n mod 128 + 128) # varint (n div 128))"

declare varint.simps [simp del]

text \<open>At most ten bytes, as the decoder accepts them; the first argument counts the bytes left.\<close>

fun read_varint :: "nat \<Rightarrow> nat list \<Rightarrow> (nat \<times> nat list) option" where
  "read_varint 0 bs = None"
| "read_varint (Suc k) [] = None"
| "read_varint (Suc k) (b # bs) =
     (if b < 128 then Some (b, bs)
      else case read_varint k bs of None \<Rightarrow> None | Some (n, rest) \<Rightarrow> Some ((b - 128) + 128 * n, rest))"

lemma varint_bytes: "b \<in> set (varint n) \<Longrightarrow> b < 256"
proof (induction n rule: varint.induct)
  case (1 n)
  have "n mod 128 + 128 < 256" by (simp add: pos_mod_bound)
  with 1 show ?case by (subst (asm) varint.simps) (auto split: if_splits)
qed

lemma varint_nonempty [simp]: "varint n \<noteq> []"
  by (subst varint.simps) simp

lemma read_varint_varint: "n < 128 ^ Suc k \<Longrightarrow> read_varint (Suc k) (varint n @ rest) = Some (n, rest)"
proof (induction k arbitrary: n)
  case 0
  then show ?case by (subst varint.simps) simp
next
  case (Suc k)
  show ?case
  proof (cases "n < 128")
    case True
    then show ?thesis by (subst varint.simps) simp
  next
    case False
    have "n div 128 < 128 ^ Suc k" using Suc(2) by (simp add: less_mult_imp_div_less mult.commute)
    then show ?thesis using False Suc.IH [of "n div 128"] by (subst varint.simps) simp
  qed
qed

lemma read_varint_shorter: "read_varint k bs = Some (n, rest) \<Longrightarrow> length rest < length bs"
  by (induction k bs arbitrary: n rule: read_varint.induct) (auto split: if_splits option.splits)

section \<open>Messages\<close>

definition int32_nat :: "int \<Rightarrow> nat" where
  "int32_nat x = nat (x mod 2 ^ 64)"

definition nat_int32 :: "nat \<Rightarrow> int" where
  "nat_int32 n = (int n + 2147483648) mod 4294967296 - 2147483648"

lemma nat_int32_nat:
  assumes "int32 x"
  shows "nat_int32 (int32_nat x) = x"
proof -
  let ?m = "4294967296 :: int" and ?h = "2147483648 :: int"
  have eq: "x mod 2 ^ 64 mod ?m = x mod ?m" by (rule mod_mod_cancel) simp
  have "(x mod 2 ^ 64 + ?h) mod ?m = (x mod 2 ^ 64 mod ?m + ?h) mod ?m" by (rule mod_add_left_eq [symmetric])
  also have "\<dots> = (x mod ?m + ?h) mod ?m" by (simp only: eq)
  also have "\<dots> = (x + ?h) mod ?m" by (rule mod_add_left_eq)
  also have "\<dots> = x + ?h" using assms by (simp add: int32_def)
  finally show ?thesis by (simp add: nat_int32_def int32_nat_def)
qed

definition varint_field :: "nat \<Rightarrow> int \<Rightarrow> nat list" where
  "varint_field tag x = (if x = 0 then [] else tag # varint (int32_nat x))"

definition bytes_field :: "nat \<Rightarrow> bytes \<Rightarrow> nat list" where
  "bytes_field tag b = (if b = [] then [] else tag # varint (length b) @ map byte_of b)"

definition proto_bytes :: "Proto \<Rightarrow> nat list" where
  "proto_bytes p =
     varint_field 8 (Op p) @ varint_field 16 (Seq p) @ varint_field 24 (Code p) @ varint_field 32 (Cmd p) @
     bytes_field 42 (Body p)"

text \<open>Skipping the value of an unknown field by its wire type.\<close>

definition skip_value :: "nat \<Rightarrow> nat list \<Rightarrow> nat list option" where
  "skip_value t bs =
     (if t = 0 then map_option snd (read_varint 10 bs)
      else if t = 1 then (if length bs < 8 then None else Some (drop 8 bs))
      else if t = 2 then
        (case read_varint 10 bs of None \<Rightarrow> None | Some (n, rest) \<Rightarrow> if length rest < n then None else Some (drop n rest))
      else if t = 5 then (if length bs < 4 then None else Some (drop 4 bs))
      else None)"

definition set_field :: "nat \<Rightarrow> int \<Rightarrow> Proto \<Rightarrow> Proto" where
  "set_field f x p =
     (if f = 1 then p\<lparr>Op := x\<rparr> else if f = 2 then p\<lparr>Seq := x\<rparr> else if f = 3 then p\<lparr>Code := x\<rparr> else p\<lparr>Cmd := x\<rparr>)"

definition read_field :: "nat list \<Rightarrow> Proto \<Rightarrow> (nat list \<times> Proto) option" where
  "read_field bs p =
     (case read_varint 10 bs of
        None \<Rightarrow> None
      | Some (tag, rest) \<Rightarrow>
          let f = tag div 8; t = tag mod 8 in
          if f = 0 \<or> f > 536870911 then None
          else if f \<in> {1, 2, 3, 4} \<and> t = 0 then
            (case read_varint 10 rest of None \<Rightarrow> None | Some (n, rest) \<Rightarrow> Some (rest, set_field f (nat_int32 n) p))
          else if f = 5 \<and> t = 2 then
            (case read_varint 10 rest of
               None \<Rightarrow> None
             | Some (n, rest) \<Rightarrow>
                 if length rest < n then None else Some (drop n rest, p\<lparr>Body := map char_of_byte (take n rest)\<rparr>))
          else map_option (\<lambda>rest. (rest, p)) (skip_value t rest))"

lemma skip_value_shorter: "skip_value t bs = Some rest \<Longrightarrow> length rest \<le> length bs"
  by (auto simp: skip_value_def split: if_splits option.splits dest!: read_varint_shorter)

lemma read_field_shorter: "read_field bs p = Some (rest, p') \<Longrightarrow> length rest < length bs"
  by (auto simp: read_field_def Let_def less_imp_diff_less split: if_splits option.splits
      dest!: read_varint_shorter skip_value_shorter)

function read_fields :: "nat list \<Rightarrow> Proto \<Rightarrow> Proto option" where
  "read_fields bs p =
     (if bs = [] then Some p
      else case read_field bs p of None \<Rightarrow> None | Some (rest, p') \<Rightarrow> read_fields rest p')"
  by pat_completeness auto
termination
  by (relation "measure (length \<circ> fst)") (auto dest: read_field_shorter)

declare read_fields.simps [simp del]

definition proto_codec_v3 :: frame_codec where
  "proto_codec_v3 =
     \<lparr>fc_Marshal = (\<lambda>p. Inr (map char_of_byte (proto_bytes p))),
      fc_Unmarshal = (\<lambda>b. case read_fields (map byte_of b) zeroProto of
         None \<Rightarrow> Inl (Fresh ''proto: cannot parse invalid wire-format data'') | Some p \<Rightarrow> Inr p),
      fc_Size = (\<lambda>p. length (proto_bytes p))\<rparr>"

section \<open>The round trip\<close>

lemma int32_nat_bound: "int32_nat x < 128 ^ Suc 9"
proof -
  have "x mod 2 ^ 64 < 2 ^ 64" by (simp add: pos_mod_bound)
  then have "nat (x mod 2 ^ 64) < 2 ^ 64" by (simp add: nat_less_iff)
  then show ?thesis by (simp add: int32_nat_def)
qed

lemma ten: "(10 :: nat) = Suc 9"
  by simp

lemma read_varint_one: "tag < 128 \<Longrightarrow> read_varint 10 (tag # bs) = Some (tag, bs)"
  unfolding ten read_varint.simps by simp

lemma read_varint_ten: "n < 128 ^ Suc 9 \<Longrightarrow> read_varint 10 (varint n @ rest) = Some (n, rest)"
  unfolding ten by (rule read_varint_varint)

lemma read_fields_varint:
  assumes "f \<in> {1, 2, 3, 4}" "int32 x" "x \<noteq> 0"
  shows "read_fields (varint_field (8 * f) x @ bs) p = read_fields bs (set_field f x p)"
proof -
  have "read_field ((8 * f) # varint (int32_nat x) @ bs) p = Some (bs, set_field f x p)"
    using assms by (auto simp: read_field_def Let_def read_varint_one read_varint_ten [OF int32_nat_bound] nat_int32_nat)
  then show ?thesis using assms(3) by (subst read_fields.simps) (simp add: varint_field_def)
qed

lemma read_fields_varint_or_zero:
  assumes "f \<in> {1, 2, 3, 4}" "int32 x" "set_field f 0 p = p"
  shows "read_fields (varint_field (8 * f) x @ bs) p = read_fields bs (set_field f x p)"
  using read_fields_varint [OF assms(1,2)] assms(3) by (cases "x = 0") (simp_all add: varint_field_def)

lemma read_fields_body:
  assumes "length b < 128 ^ Suc 9" "Body p = []"
  shows "read_fields (bytes_field 42 b) p = Some (p\<lparr>Body := b\<rparr>)"
proof (cases "b = []")
  case True
  then show ?thesis using assms(2) by (subst read_fields.simps) (simp add: bytes_field_def)
next
  case False
  have "map (char_of_byte \<circ> byte_of) b = b" by (simp add: comp_def)
  then have "read_field (42 # varint (length b) @ map byte_of b) p = Some ([], p\<lparr>Body := b\<rparr>)"
    by (simp add: read_field_def Let_def read_varint_one read_varint_ten [OF assms(1)])
  then show ?thesis using False by (subst read_fields.simps) (simp add: bytes_field_def read_fields.simps [of "[]"])
qed

lemma proto_bytes_bytes: "b \<in> set (proto_bytes p) \<Longrightarrow> b < 256"
  by (auto simp: proto_bytes_def varint_field_def bytes_field_def dest: varint_bytes split: if_splits)

lemma map_byte_of_char_of_byte: "\<forall>b\<in>set bs. b < 256 \<Longrightarrow> map byte_of (map char_of_byte bs) = bs"
  by (induction bs) auto

lemma proto_round_trip:
  assumes "proto_valid p"
  shows "read_fields (proto_bytes p) zeroProto = Some p"
proof -
  let ?p1 = "set_field 1 (Op p) zeroProto" let ?p2 = "set_field 2 (Seq p) ?p1"
  let ?p3 = "set_field 3 (Code p) ?p2" let ?p4 = "set_field 4 (Cmd p) ?p3"
  have v: "int32 (Op p)" "int32 (Seq p)" "int32 (Code p)" "int32 (Cmd p)" using assms by (auto simp: proto_valid_def)
  have len: "length (Body p) < 128 ^ Suc 9" using assms by (simp add: proto_valid_def)
  have "read_fields (proto_bytes p) zeroProto = read_fields (bytes_field 42 (Body p)) ?p4"
    using read_fields_varint_or_zero [of 1 "Op p" zeroProto] read_fields_varint_or_zero [of 2 "Seq p" ?p1]
      read_fields_varint_or_zero [of 3 "Code p" ?p2] read_fields_varint_or_zero [of 4 "Cmd p" ?p3] v
    by (simp add: proto_bytes_def set_field_def zeroProto_def)
  also have "\<dots> = Some (?p4\<lparr>Body := Body p\<rparr>)"
    by (rule read_fields_body [OF len]) (simp add: set_field_def zeroProto_def)
  finally show ?thesis by (simp add: set_field_def zeroProto_def)
qed

interpretation proto3: proto_codec proto_codec_v3
proof
  fix p b
  assume valid: "proto_valid p" and b: "fc_Marshal proto_codec_v3 p = Inr b"
  have "map byte_of b = proto_bytes p" "length b = length (proto_bytes p)"
    using b map_byte_of_char_of_byte [of "proto_bytes p"] proto_bytes_bytes by (auto simp: proto_codec_v3_def)
  then show "fc_Unmarshal proto_codec_v3 b = Inr p \<and> fc_Size proto_codec_v3 p = length b"
    using proto_round_trip [OF valid] by (simp add: proto_codec_v3_def)
qed (simp add: proto_codec_v3_def)

end
