(* ===== verification/Ws_Codec.thy ===== *)
theory Ws_Codec
  imports Proto_Wire
begin

text \<open>
  \<open>network/websocket/codec.go\<close> and the close frame of \<open>channel.go\<close>: encoding and decoding of message
  bodies, reading a frame into a bounded buffer, and the reason of a close frame. An \<open>io.Reader\<close> is the
  list of chunks it will deliver, each with the error that comes with it; a read returns at most what it
  asked for and an exhausted list is a read that waits.
\<close>

section \<open>Bodies\<close>

datatype ws_codec = DefaultFrameCodec frame_codec | CustomCodec frame_codec

fun wc_codec :: "ws_codec \<Rightarrow> frame_codec" where
  "wc_codec (DefaultFrameCodec c) = c"
| "wc_codec (CustomCodec c) = c"

definition canOptimizeFrames :: "ws_codec \<Rightarrow> bool" where
  "canOptimizeFrames codec = (case codec of DefaultFrameCodec _ \<Rightarrow> True | CustomCodec _ \<Rightarrow> False)"

definition validateFrameBody :: "bytes \<Rightarrow> goerr option" where
  "validateFrameBody body =
     (if length body = 0 then Some (NetErr ErrFrameLength)
      else if length body > MaxProtoSize then Some (NetErr ErrFrameTooLarge) else None)"

definition marshalFrame :: "ws_codec \<Rightarrow> Proto option \<Rightarrow> goerr + bytes" where
  "marshalFrame codec p =
     (case p of
        None \<Rightarrow> Inl (NetErr ErrNilPayload)
      | Some m \<Rightarrow>
          (case fc_Marshal (wc_codec codec) m of
             Inl err \<Rightarrow> Inl err
           | Inr body \<Rightarrow> (case validateFrameBody body of Some err \<Rightarrow> Inl err | None \<Rightarrow> Inr body)))"

definition unmarshalFrame :: "ws_codec \<Rightarrow> bytes \<Rightarrow> goerr + Proto" where
  "unmarshalFrame codec body =
     (case validateFrameBody body of
        Some err \<Rightarrow> Inl err
      | None \<Rightarrow>
          (case fc_Unmarshal (wc_codec codec) body of
             Inl err \<Rightarrow> Inl (Wrap [] [NetErr ErrInvalidFrame, err])
           | Inr p \<Rightarrow> Inr p))"

section \<open>Bounded reads\<close>

type_synonym reader = "(bytes \<times> goerr option) list"

definition rd_Read :: "nat \<Rightarrow> reader \<Rightarrow> (bytes \<times> goerr option \<times> reader) option" where
  "rd_Read n r =
     (case r of
        [] \<Rightarrow> None
      | (d, err) # rest \<Rightarrow>
          if length d \<le> n then Some (d, err, rest) else Some (take n d, None, (drop n d, err) # rest))"

definition rd_left :: "reader \<Rightarrow> nat" where
  "rd_left r = sum_list (map (\<lambda>c. length (fst c) + 1) r)"

lemma rd_Read_less: "rd_Read n r = Some (d, err, r') \<Longrightarrow> 0 < n \<Longrightarrow> rd_left r' < rd_left r"
  by (auto simp: rd_Read_def rd_left_def split: list.splits if_splits)

text \<open>
  The loop with the capacity of the buffer and what has been read into it; \<open>None\<close> while it waits for
  the reader.
\<close>

function readBounded :: "nat \<Rightarrow> bytes \<Rightarrow> reader \<Rightarrow> (goerr + bytes) option" where
  "readBounded cap buf r =
     (if length buf \<ge> cap then
        (case rd_Read 1 r of
           None \<Rightarrow> None
         | Some (d, err, r') \<Rightarrow>
             if d \<noteq> [] then Some (Inl (NetErr ErrFrameTooLarge))
             else case err of
               Some e \<Rightarrow> if errors_is e (IoErr ErrEOF) then Some (Inr buf) else Some (Inl e)
             | None \<Rightarrow> readBounded cap buf r')
      else
        (case rd_Read (cap - length buf) r of
           None \<Rightarrow> None
         | Some (d, err, r') \<Rightarrow>
             let buf = buf @ d in
             (case err of
                Some e \<Rightarrow> if errors_is e (IoErr ErrEOF) then Some (Inr buf) else Some (Inl e)
              | None \<Rightarrow> readBounded cap buf r')))"
  by pat_completeness auto
termination
  by (relation "measure (\<lambda>(cap, buf, r). rd_left r)") (auto dest: rd_Read_less)

declare readBounded.simps [simp del]

definition readBoundedFrame :: "reader \<Rightarrow> (goerr + bytes) option" where
  "readBoundedFrame r = readBounded MaxProtoSize [] r"

text \<open>What the reader delivers up to its first error, and the specification of a bounded read.\<close>

fun rd_stream :: "reader \<Rightarrow> bytes \<times> goerr option" where
  "rd_stream [] = ([], None)"
| "rd_stream ((d, Some e) # r) = (d, Some e)"
| "rd_stream ((d, None) # r) = (case rd_stream r of (b, e) \<Rightarrow> (d @ b, e))"

definition bounded_spec :: "nat \<Rightarrow> bytes \<times> goerr option \<Rightarrow> (goerr + bytes) option" where
  "bounded_spec cap s =
     (case s of (b, e) \<Rightarrow>
        if length b > cap then Some (Inl (NetErr ErrFrameTooLarge))
        else case e of
          None \<Rightarrow> None
        | Some e \<Rightarrow> if errors_is e (IoErr ErrEOF) then Some (Inr b) else Some (Inl e))"

lemma rd_Read_stream:
  assumes "rd_Read n r = Some (d, err, r')" "0 < n"
  shows "rd_stream r = (case err of Some e \<Rightarrow> (d, Some e) | None \<Rightarrow> (case rd_stream r' of (b, e) \<Rightarrow> (d @ b, e))) \<and> length d \<le> n"
proof -
  obtain c e rest where r: "r = (c, e) # rest" using assms by (cases r) (auto simp: rd_Read_def)
  show ?thesis
  proof (cases "length c \<le> n")
    case True
    then show ?thesis using assms r by (cases e) (auto simp: rd_Read_def)
  next
    case False
    then have "d = take n c" "err = None" "r' = (drop n c, e) # rest" using assms r by (auto simp: rd_Read_def)
    then show ?thesis using r False
      by (cases e) (auto split: prod.splits simp: append_assoc [symmetric] simp del: append_assoc)
  qed
qed

lemma rd_Read_None: "rd_Read n r = None \<longleftrightarrow> r = []"
  by (auto simp: rd_Read_def split: list.splits if_splits)

lemma rd_Read_Nil [simp]: "rd_Read n [] = None"
  by (simp add: rd_Read_None)

lemma readBounded_spec:
  "length buf \<le> cap \<Longrightarrow> readBounded cap buf r = bounded_spec cap (buf @ fst (rd_stream r), snd (rd_stream r))"
proof (induction cap buf r rule: readBounded.induct)
  case (1 cap buf r)
  let ?n = "if length buf \<ge> cap then 1 else cap - length buf"
  show ?case
  proof (cases "rd_Read ?n r")
    case None
    then show ?thesis using 1(3) by (subst readBounded.simps) (auto simp: rd_Read_None bounded_spec_def)
  next
    case (Some x)
    obtain d err r' where x: "x = (d, err, r')" by (cases x)
    have step: "rd_Read ?n r = Some (d, err, r')" using Some x by simp
    have st: "rd_stream r = (case err of Some e \<Rightarrow> (d, Some e) | None \<Rightarrow> (case rd_stream r' of (b, e) \<Rightarrow> (d @ b, e)))" "length d \<le> ?n"
      using rd_Read_stream [OF step] by auto
    show ?thesis
    proof (cases "length buf \<ge> cap")
      case True
      have read: "rd_Read 1 r = Some (d, err, r')" using step True by auto
      have "readBounded cap buf r' = bounded_spec cap (buf @ fst (rd_stream r'), snd (rd_stream r'))" if "err = None" "d = []"
        by (rule 1(1) [OF True read]) (use that 1(3) in auto)
      then show ?thesis using read True st(1) 1(3)
        by (subst readBounded.simps)
          (cases "d = []"; cases err; cases "rd_stream r'"; auto simp: bounded_spec_def split: option.splits)
    next
      case False
      have read: "rd_Read (cap - length buf) r = Some (d, err, r')" "length d \<le> cap - length buf" using step st(2) False by auto
      have "readBounded cap (buf @ d) r' = bounded_spec cap ((buf @ d) @ fst (rd_stream r'), snd (rd_stream r'))" if "err = None"
        by (rule 1(2) [OF False read(1)]) (use read(2) that 1(3) in auto)
      then show ?thesis using read False st(1) 1(3)
        by (subst readBounded.simps)
          (cases err; cases "rd_stream r'"; auto simp: bounded_spec_def Let_def split: option.splits)
    qed
  qed
qed

section \<open>Close reasons\<close>

text \<open>\<open>strings.ToValidUTF8\<close> with an empty replacement: the bytes of no valid encoding are dropped.\<close>

function to_valid_bytes :: "nat list \<Rightarrow> nat list" where
  "to_valid_bytes bs =
     (if bs = [] then []
      else case utf8_next bs of
        None \<Rightarrow> to_valid_bytes (tl bs)
      | Some (r, rest) \<Rightarrow> take (length bs - length rest) bs @ to_valid_bytes rest)"
  by pat_completeness auto
termination
  by (relation "measure length") (auto simp del: utf8_next.simps dest: utf8_next_shorter)

declare to_valid_bytes.simps [simp del]

definition ToValidUTF8 :: "string \<Rightarrow> string" where
  "ToValidUTF8 s = map char_of_byte (to_valid_bytes (map byte_of s))"

definition maxCloseReasonSize :: nat where "maxCloseReasonSize = 123"

text \<open>The payload of a close frame: the status code 1000 in network byte order and the reason.\<close>

definition formatCloseFrame :: "string \<Rightarrow> bytes" where
  "formatCloseFrame reason =
     (let reason = ToValidUTF8 reason;
          reason = (if length reason > maxCloseReasonSize then ToValidUTF8 (take maxCloseReasonSize reason) else reason)
      in map char_of_byte [3, 232] @ reason)"

lemma to_valid_bytes_step:
  assumes "utf8_next bs = Some (r, rest)"
  obtains q where "bs = q @ rest" "to_valid_bytes bs = q @ to_valid_bytes rest" "q \<noteq> []" "\<And>t. utf8_next (q @ t) = Some (r, t)"
proof -
  obtain q where q: "bs = q @ rest" "q \<noteq> []" "\<And>t. utf8_next (q @ t) = Some (r, t)"
    using utf8_next_local [OF assms] by blast
  have "to_valid_bytes bs = q @ to_valid_bytes rest"
    using assms q by (subst to_valid_bytes.simps) simp
  then show thesis using that q by blast
qed

lemma to_valid_bytes_drop: "bs \<noteq> [] \<Longrightarrow> utf8_next bs = None \<Longrightarrow> to_valid_bytes bs = to_valid_bytes (tl bs)"
  by (subst to_valid_bytes.simps) simp

lemma to_valid_bytes_ok:
  "length (to_valid_bytes bs) \<le> length bs \<and> set (to_valid_bytes bs) \<subseteq> set bs \<and> valid_utf8_bytes (to_valid_bytes bs)"
proof (induction bs rule: to_valid_bytes.induct)
  case (1 bs)
  consider "bs = []" | "bs \<noteq> []" "utf8_next bs = None" | r rest where "bs \<noteq> []" "utf8_next bs = Some (r, rest)"
    by (cases "utf8_next bs") auto
  then show ?case
  proof cases
    case 1
    then show ?thesis by (subst (1 2 3) to_valid_bytes.simps) simp
  next
    case 2
    then show ?thesis using 1(1) [OF 2] to_valid_bytes_drop [OF 2] by (cases bs) auto
  next
    case (3 r rest)
    obtain q where q: "bs = q @ rest" "to_valid_bytes bs = q @ to_valid_bytes rest" "q \<noteq> []" "\<And>t. utf8_next (q @ t) = Some (r, t)"
      using to_valid_bytes_step [OF 3(2)] by blast
    have "valid_utf8_bytes (q @ to_valid_bytes rest)"
      using q(3,4) 1(2) [OF 3(1,2) refl] by (subst valid_utf8_bytes.simps) simp
    then show ?thesis using 1(2) [OF 3(1,2) refl] q(1,2) by auto
  qed
qed

lemma ToValidUTF8_ok: "valid_utf8 (ToValidUTF8 s)" "length (ToValidUTF8 s) \<le> length s"
proof -
  have "\<forall>b\<in>set (to_valid_bytes (map byte_of s)). b < 256" using to_valid_bytes_ok [of "map byte_of s"] by auto
  then have "map byte_of (ToValidUTF8 s) = to_valid_bytes (map byte_of s)"
    unfolding ToValidUTF8_def by (rule map_byte_of_char_of_byte)
  then show "valid_utf8 (ToValidUTF8 s)" by (simp add: valid_utf8_def to_valid_bytes_ok)
  show "length (ToValidUTF8 s) \<le> length s" using to_valid_bytes_ok [of "map byte_of s"] by (simp add: ToValidUTF8_def)
qed

section \<open>Properties\<close>

text \<open>
  C25. Reading a frame in pieces is reading it at once: whatever chunks the connection delivers, the
  bounded read returns all bytes before the end of the message when they fit in \<open>MaxProtoSize\<close>, refuses
  a longer one with \<open>ErrFrameTooLarge\<close> without storing the excess, passes any other error on, and waits
  exactly when the reader has neither ended nor delivered too much.
\<close>

theorem readBoundedFrame_reads_all:
  "readBoundedFrame r = bounded_spec MaxProtoSize (rd_stream r)"
  using readBounded_spec [of "[]" MaxProtoSize r] by (simp add: readBoundedFrame_def)

text \<open>
  A close frame always fits into a WebSocket control frame: two bytes of status and at most 123
  bytes of reason, and the reason is valid UTF-8 even when it had to be cut.
\<close>

lemma close_frame_fits:
  "length (formatCloseFrame reason) \<le> 125 \<and> valid_utf8 (drop 2 (formatCloseFrame reason)) \<and>
   take 2 (formatCloseFrame reason) = map char_of_byte [3, 232]"
  using ToValidUTF8_ok [of reason] ToValidUTF8_ok [of "take maxCloseReasonSize (ToValidUTF8 reason)"]
  by (auto simp: formatCloseFrame_def Let_def maxCloseReasonSize_def)

end
