(* ===== verification/Conn_Limits.thy ===== *)
theory Conn_Limits
  imports Prelude
begin

text \<open>
  The contract between a transport server and the table that limits its connections: how many there are
  in all and per peer address. \<open>holds s H\<close> says that the table \<open>s\<close> accounts for the connections \<open>H\<close>, each
  with its key and peer address. The contract gives that the limits are never exceeded and the counts
  stay exact, however admissions and releases interleave. It is interpreted on the tables of the TCP and
  the WebSocket server.
\<close>

text \<open>The conversion \<open>int32(n)\<close>.\<close>

definition to_int32 :: "int \<Rightarrow> int" where
  "to_int32 x = (x + 2147483648) mod 4294967296 - 2147483648"

lemma to_int32_id: "- 2147483648 \<le> x \<Longrightarrow> x < 2147483648 \<Longrightarrow> to_int32 x = x"
  by (simp add: to_int32_def)

definition per_peer :: "('k \<times> string) list \<Rightarrow> string \<Rightarrow> int" where
  "per_peer H ip = int (length (filter (\<lambda>c. snd c = ip) H))"

text \<open>Reading a Go map of counters: an absent key counts zero.\<close>

definition peer_count :: "(string \<rightharpoonup> int) \<Rightarrow> string \<Rightarrow> int" where
  "peer_count m ip = (case m ip of None \<Rightarrow> 0 | Some n \<Rightarrow> n)"

definition counts_exact :: "(string \<rightharpoonup> int) \<Rightarrow> ('k \<times> string) list \<Rightarrow> bool" where
  "counts_exact m H = (\<forall>ip. m ip = (if per_peer H ip = 0 then None else Some (per_peer H ip)))"

lemma per_peer_Cons [simp]: "per_peer ((k, ip') # H) ip = (if ip' = ip then per_peer H ip + 1 else per_peer H ip)"
  by (simp add: per_peer_def)

lemma per_peer_nonneg [simp]: "0 \<le> per_peer H ip"
  by (simp add: per_peer_def)

lemma per_peer_remove1: "(k, ip') \<in> set H \<Longrightarrow> per_peer (remove1 (k, ip') H) ip = (if ip' = ip then per_peer H ip - 1 else per_peer H ip)"
  by (induction H) (auto simp: per_peer_def)

lemma per_peer_member: "(k, ip) \<in> set H \<Longrightarrow> 1 \<le> per_peer H ip"
  by (induction H) (auto simp: per_peer_def)

lemma per_peer_le: "per_peer H ip \<le> int (length H)"
  by (simp add: per_peer_def)

lemma counts_exact_count: "counts_exact m H \<Longrightarrow> peer_count m ip = per_peer H ip"
  by (simp add: counts_exact_def peer_count_def)

lemma counts_exact_admit:
  assumes "counts_exact m H"
  shows "counts_exact (m(ip \<mapsto> peer_count m ip + 1)) ((k, ip) # H)"
proof -
  have "per_peer H ip + 1 \<noteq> 0" using per_peer_nonneg [of H ip] by linarith
  then show ?thesis using assms counts_exact_count [OF assms, of ip] by (auto simp: counts_exact_def)
qed

definition peer_release :: "(string \<rightharpoonup> int) \<Rightarrow> string \<Rightarrow> (string \<rightharpoonup> int)" where
  "peer_release m ip = (if peer_count m ip = 1 then m(ip := None) else m(ip \<mapsto> peer_count m ip - 1))"

lemma counts_exact_release:
  assumes "counts_exact m H" "(k, ip) \<in> set H"
  shows "counts_exact (peer_release m ip) (remove1 (k, ip) H)"
  using assms per_peer_member [OF assms(2)] counts_exact_count [OF assms(1), of ip]
  by (auto simp: counts_exact_def per_peer_remove1 peer_release_def)

locale connection_table =
  fixes holds :: "'s \<Rightarrow> ('k \<times> string) list \<Rightarrow> bool" and limit per_limit :: "'s \<Rightarrow> int"
    and admit :: "'k \<Rightarrow> string \<Rightarrow> 's \<Rightarrow> 's \<times> bool" and release :: "'k \<Rightarrow> string \<Rightarrow> 's \<Rightarrow> 's"
    and shut :: "'s \<Rightarrow> 's" and counters :: "'s \<Rightarrow> (string \<rightharpoonup> int)"
  assumes admitted: "holds s H \<Longrightarrow> k \<notin> fst ` set H \<Longrightarrow> admit k ip s = (s', True) \<Longrightarrow>
      holds s' ((k, ip) # H) \<and> int (length H) < limit s \<and> per_peer H ip < per_limit s"
    and refused: "holds s H \<Longrightarrow> admit k ip s = (s', False) \<Longrightarrow> s' = s"
    and released: "holds s H \<Longrightarrow> (k, ip) \<in> set H \<Longrightarrow> holds (release k ip s) (remove1 (k, ip) H)"
    and shut_down: "holds s H \<Longrightarrow> holds (shut s) H"
    and limits: "limit (fst (admit k ip s)) = limit s" "per_limit (fst (admit k ip s)) = per_limit s"
      "limit (release k ip s) = limit s" "per_limit (release k ip s) = per_limit s"
      "limit (shut s) = limit s" "per_limit (shut s) = per_limit s"
    and exact: "holds s H \<Longrightarrow> counts_exact (counters s) H"
begin

inductive table_step :: "'s \<times> ('k \<times> string) list \<Rightarrow> 's \<times> ('k \<times> string) list \<Rightarrow> bool" where
  step_admit: "k \<notin> fst ` set H \<Longrightarrow> admit k ip s = (s', ok) \<Longrightarrow> table_step (s, H) (s', if ok then (k, ip) # H else H)"
| step_release: "(k, ip) \<in> set H \<Longrightarrow> table_step (s, H) (release k ip s, remove1 (k, ip) H)"
| step_shut: "table_step (s, H) (shut s, H)"

definition within :: "'s \<Rightarrow> ('k \<times> string) list \<Rightarrow> bool" where
  "within s H = (holds s H \<and> int (length H) \<le> limit s \<and> (\<forall>ip. per_peer H ip \<le> per_limit s))"

lemma within_step:
  assumes "table_step (s, H) (s', H')" "within s H"
  shows "within s' H' \<and> limit s' = limit s \<and> per_limit s' = per_limit s"
  using assms
proof (cases rule: table_step.cases)
  case (step_admit k ip ok)
  have lim: "limit s' = limit s" "per_limit s' = per_limit s" using limits(1,2) [of k ip s] step_admit by auto
  show ?thesis
  proof (cases ok)
    case True
    have "holds s' ((k, ip) # H) \<and> int (length H) < limit s \<and> per_peer H ip < per_limit s"
      by (rule admitted) (use assms(2) step_admit True in \<open>auto simp: within_def\<close>)
    then show ?thesis using assms(2) step_admit True lim by (auto simp: within_def)
  next
    case False
    then show ?thesis using assms(2) step_admit refused [of s H k ip s'] by (auto simp: within_def)
  qed
next
  case (step_release k ip)
  have "int (length (remove1 (k, ip) H)) \<le> int (length H)" by (simp add: length_remove1)
  moreover have "per_peer (remove1 (k, ip) H) x \<le> per_limit s" for x
    using step_release assms(2) by (auto simp: per_peer_remove1 within_def intro: order_trans [of _ "per_peer H x"])
  ultimately show ?thesis using assms(2) released step_release limits(3,4) by (auto simp: within_def intro: order_trans)
next
  case step_shut
  then show ?thesis using assms(2) shut_down limits(5,6) by (auto simp: within_def)
qed

lemma within_reach:
  assumes "table_step\<^sup>*\<^sup>* (s, H) (s', H')" "within s H"
  shows "within s' H' \<and> limit s' = limit s \<and> per_limit s' = per_limit s"
  using assms
proof (induction "(s', H')" arbitrary: s' H' rule: rtranclp_induct)
  case (step y)
  obtain t G where y: "y = (t, G)" by (cases y)
  from step(3) [OF y step(4)] within_step [of t G s' H'] step(2) y show ?case by auto
qed simp

end

end
