(* ===== verification/Netaddr.thy ===== *)
theory Netaddr
  imports Prelude
begin

text \<open>
  What the repository uses of \<open>net\<close>, \<open>net/netip\<close> and \<open>strconv\<close>: host and port strings, IP addresses
  and port numbers. The functions follow the standard library's own definitions, errors as
  \<open>None\<close> or as a message.
\<close>

section \<open>Hosts and ports\<close>

definition index_char :: "char \<Rightarrow> string \<Rightarrow> nat option" where
  "index_char c s = (if c \<in> set s then Some (length (takeWhile (\<lambda>d. d \<noteq> c) s)) else None)"

definition last_index_char :: "char \<Rightarrow> string \<Rightarrow> nat option" where
  "last_index_char c s = map_option (\<lambda>i. length s - 1 - i) (index_char c (rev s))"

definition addr_error :: "string \<Rightarrow> string \<Rightarrow> goerr" where
  "addr_error addr why = Fresh (''address '' @ addr @ '': '' @ why)"

definition SplitHostPort :: "string \<Rightarrow> goerr + (string \<times> string)" where
  "SplitHostPort hostport =
     (case last_index_char CHR '':'' hostport of
        None \<Rightarrow> Inl (addr_error hostport ''missing port in address'')
      | Some i \<Rightarrow>
          let finish = (\<lambda>host j k.
                if CHR ''['' \<in> set (drop j hostport) then Inl (addr_error hostport ''unexpected '[' in address'')
                else if CHR '']'' \<in> set (drop k hostport) then Inl (addr_error hostport ''unexpected ']' in address'')
                else Inr (host, drop (i + 1) hostport)) in
          if hd hostport = CHR ''['' then
            (case index_char CHR '']'' hostport of
               None \<Rightarrow> Inl (addr_error hostport ''missing ']' in address'')
             | Some e \<Rightarrow>
                 if e + 1 = length hostport then Inl (addr_error hostport ''missing port in address'')
                 else if e + 1 = i then finish (drop 1 (take e hostport)) 1 (e + 1)
                 else if hostport ! (e + 1) = CHR '':'' then Inl (addr_error hostport ''too many colons in address'')
                 else Inl (addr_error hostport ''missing port in address''))
          else if CHR '':'' \<in> set (take i hostport) then Inl (addr_error hostport ''too many colons in address'')
          else finish (take i hostport) 0 0)"

definition JoinHostPort :: "string \<Rightarrow> string \<Rightarrow> string" where
  "JoinHostPort host port =
     (if CHR '':'' \<in> set host then ''['' @ host @ '']:'' @ port else host @ '':'' @ port)"

lemma last_index_char_append:
  assumes "c \<notin> set t"
  shows "last_index_char c (s @ c # t) = Some (length s)"
proof -
  have "takeWhile (\<lambda>d. d \<noteq> c) (rev t @ c # rev s) = rev t" using assms by (auto simp: takeWhile_append)
  then show ?thesis by (simp add: last_index_char_def index_char_def)
qed

lemma index_char_append: "c \<notin> set s \<Longrightarrow> index_char c (s @ c # t) = Some (length s)"
  by (auto simp: index_char_def takeWhile_append)

text \<open>Splitting undoes joining for hosts and ports that hold no brackets, the port no colon.\<close>

lemma SplitHostPort_JoinHostPort:
  assumes "CHR ''['' \<notin> set host" "CHR '']'' \<notin> set host"
    "CHR '':'' \<notin> set port" "CHR ''['' \<notin> set port" "CHR '']'' \<notin> set port"
  shows "SplitHostPort (JoinHostPort host port) = Inr (host, port)"
proof (cases "CHR '':'' \<in> set host")
  case True
  let ?s = "''['' @ host @ '']:'' @ port"
  have last: "last_index_char CHR '':'' ?s = Some (length host + 2)"
    using last_index_char_append [of "CHR '':''" port "''['' @ host @ '']''"] assms(3) by simp
  have first: "index_char CHR '']'' ?s = Some (length host + 1)"
    using index_char_append [of "CHR '']''" "''['' @ host" "'':'' @ port"] assms(2) by simp
  show ?thesis unfolding JoinHostPort_def SplitHostPort_def
    using True last first assms by (simp add: Let_def)
next
  case False
  let ?s = "host @ '':'' @ port"
  have last: "last_index_char CHR '':'' ?s = Some (length host)"
    using last_index_char_append [of "CHR '':''" port host] assms(3) by simp
  have "hd ?s \<noteq> CHR ''[''" using assms(1) by (cases host) auto
  then show ?thesis unfolding JoinHostPort_def SplitHostPort_def
    using False last assms by (simp add: Let_def)
qed

section \<open>Numbers\<close>

definition digit :: "char \<Rightarrow> nat option" where
  "digit c = (let b = byte_of c in if 48 \<le> b \<and> b \<le> 57 then Some (b - 48) else None)"

definition is_digits :: "string \<Rightarrow> bool" where
  "is_digits s = (s \<noteq> [] \<and> list_all (\<lambda>c. digit c \<noteq> None) s)"

definition decimal :: "string \<Rightarrow> nat" where
  "decimal s = foldl (\<lambda>n c. n * 10 + the (digit c)) 0 s"

text \<open>\<open>strconv.ParseUint(s, 10, 16)\<close>; \<open>None\<close> is its error.\<close>

definition parse_port :: "string \<Rightarrow> nat option" where
  "parse_port s = (if is_digits s \<and> decimal s < 65536 then Some (decimal s) else None)"

definition hex_digit :: "char \<Rightarrow> nat option" where
  "hex_digit c =
     (let b = byte_of c in
      if 48 \<le> b \<and> b \<le> 57 then Some (b - 48)
      else if 97 \<le> b \<and> b \<le> 102 then Some (b - 97 + 10)
      else if 65 \<le> b \<and> b \<le> 70 then Some (b - 65 + 10) else None)"

section \<open>IP addresses\<close>

text \<open>An address is its bytes, four or sixteen of them, and its zone.\<close>

datatype ip = IPv4 "nat list" | IPv6 "nat list" string

fun split_on :: "char \<Rightarrow> string \<Rightarrow> string list" where
  "split_on c [] = [[]]"
| "split_on c (d # s) =
     (if d = c then [] # split_on c s
      else case split_on c s of [] \<Rightarrow> [[d]] | x # xs \<Rightarrow> (d # x) # xs)"

definition ipv4_field :: "string \<Rightarrow> nat option" where
  "ipv4_field f =
     (if is_digits f \<and> (length f = 1 \<or> hd f \<noteq> CHR ''0'') \<and> decimal f \<le> 255 then Some (decimal f) else None)"

definition parse_ipv4 :: "string \<Rightarrow> nat list option" where
  "parse_ipv4 s =
     (let fs = map ipv4_field (split_on CHR ''.'' s) in
      if length fs = 4 \<and> list_all (\<lambda>f. f \<noteq> None) fs then Some (map the fs) else None)"

text \<open>
  The loop over the groups of an IPv6 address: the bytes so far and where the ellipsis was, if there
  was one. The first argument bounds the groups; an address has at most eight.
\<close>

fun ipv6_groups :: "nat \<Rightarrow> string \<Rightarrow> nat list \<Rightarrow> nat option \<Rightarrow> (nat list \<times> nat option) option" where
  "ipv6_groups 0 s bs ell = (if s = [] then Some (bs, ell) else None)"
| "ipv6_groups (Suc k) s bs ell =
     (if length bs \<ge> 16 then (if s = [] then Some (bs, ell) else None)
      else
        let g = takeWhile (\<lambda>c. hex_digit c \<noteq> None) s; rest = drop (length g) s;
            n = foldl (\<lambda>n c. n * 16 + the (hex_digit c)) 0 g in
        if g = [] \<or> length g > 4 then None
        else if rest \<noteq> [] \<and> hd rest = CHR ''.'' then
          (if (ell = None \<and> length bs \<noteq> 12) \<or> length bs + 4 > 16 then None
           else case parse_ipv4 s of None \<Rightarrow> None | Some v \<Rightarrow> Some (bs @ v, ell))
        else
          let bs = bs @ [n div 256, n mod 256] in
          if rest = [] then Some (bs, ell)
          else if hd rest \<noteq> CHR '':'' \<or> length rest = 1 then None
          else
            let s = tl rest in
            if hd s = CHR '':'' then
              (if ell \<noteq> None then None
               else if tl s = [] then Some (bs, Some (length bs))
               else ipv6_groups k (tl s) bs (Some (length bs)))
            else ipv6_groups k s bs ell)"

definition ipv6_expand :: "nat list \<times> nat option \<Rightarrow> nat list option" where
  "ipv6_expand r =
     (case r of (bs, ell) \<Rightarrow>
        (case ell of
           None \<Rightarrow> if length bs = 16 then Some bs else None
         | Some e \<Rightarrow>
             if length bs < 16 then Some (take e bs @ replicate (16 - length bs) 0 @ drop e bs) else None))"

definition parse_ipv6 :: "string \<Rightarrow> ip option" where
  "parse_ipv6 s =
     (let (a, z) = (case index_char CHR ''%'' s of
              None \<Rightarrow> (s, None) | Some i \<Rightarrow> (take i s, Some (drop (i + 1) s))) in
      if z = Some [] then None
      else
        let zone = (case z of None \<Rightarrow> [] | Some z \<Rightarrow> z); lead = has_prefix a ''::''; a' = (if lead then drop 2 a else a) in
        if lead \<and> a' = [] then Some (IPv6 (replicate 16 0) zone)
        else case ipv6_groups 8 a' [] (if lead then Some 0 else None) of
          None \<Rightarrow> None
        | Some r \<Rightarrow> map_option (\<lambda>bs. IPv6 bs zone) (ipv6_expand r))"

text \<open>\<open>netip.ParseAddr\<close>: the first dot or colon decides.\<close>

definition ParseAddr :: "string \<Rightarrow> ip option" where
  "ParseAddr s =
     (case dropWhile (\<lambda>c. c \<notin> {CHR ''.'', CHR '':'', CHR ''%''}) s of
        [] \<Rightarrow> None
      | c # _ \<Rightarrow>
          if c = CHR ''.'' then map_option IPv4 (parse_ipv4 s)
          else if c = CHR '':'' then parse_ipv6 s else None)"

text \<open>\<open>net.ParseIP\<close> accepts the addresses without a zone.\<close>

definition ParseIP :: "string \<Rightarrow> ip option" where
  "ParseIP s = (case ParseAddr s of Some (IPv6 bs z) \<Rightarrow> if z = [] then Some (IPv6 bs z) else None | r \<Rightarrow> r)"

text \<open>The four bytes of an IPv4 address, also when it is mapped into IPv6.\<close>

definition To4 :: "ip \<Rightarrow> nat list option" where
  "To4 a =
     (case a of
        IPv4 bs \<Rightarrow> Some bs
      | IPv6 bs z \<Rightarrow> if take 12 bs = replicate 10 0 @ [255, 255] then Some (drop 12 bs) else None)"

definition ip_IsLoopback :: "ip \<Rightarrow> bool" where
  "ip_IsLoopback a =
     (case To4 a of
        Some bs \<Rightarrow> hd bs = 127
      | None \<Rightarrow> (case a of IPv6 bs z \<Rightarrow> bs = replicate 15 0 @ [1] | _ \<Rightarrow> False))"

definition ip_IsUnspecified :: "ip \<Rightarrow> bool" where
  "ip_IsUnspecified a =
     (case To4 a of
        Some bs \<Rightarrow> bs = [0, 0, 0, 0]
      | None \<Rightarrow> (case a of IPv6 bs z \<Rightarrow> bs = replicate 16 0 | _ \<Rightarrow> False))"

text \<open>\<open>netip.Addr.IsUnspecified\<close> compares the address as it is, with its zone and without unmapping.\<close>

definition addr_IsUnspecified :: "ip \<Rightarrow> bool" where
  "addr_IsUnspecified a = (a = IPv4 [0, 0, 0, 0] \<or> a = IPv6 (replicate 16 0) [])"

end
