(* ===== verification/Endpoint.thy ===== *)
theory Endpoint
  imports Netaddr
begin

text \<open>
  Addresses a service listens on and advertises: \<open>internal/grpcendpoint/endpoint.go\<close>,
  \<open>network/internal/host/host.go\<close>, \<open>internal/listener/owner.go\<close> and \<open>internal/tlsconfig/config.go\<close>.
  The parser of \<open>net/url\<close>, the operating system's interfaces and the sockets are arguments.
\<close>

section \<open>gRPC endpoints\<close>

record URL =
  url_Scheme :: string
  url_Opaque :: string
  url_User :: "string option"
  url_Host :: string
  url_Path :: string
  url_RawPath :: string
  url_ForceQuery :: bool
  url_RawQuery :: string
  url_Fragment :: string

definition zeroURL :: URL where
  "zeroURL = \<lparr>url_Scheme = [], url_Opaque = [], url_User = None, url_Host = [], url_Path = [], url_RawPath = [],
     url_ForceQuery = False, url_RawQuery = [], url_Fragment = []\<rparr>"

text \<open>An \<open>endpointError\<close> is its message around its cause.\<close>

definition invalidError :: "string \<Rightarrow> goerr" where
  "invalidError message = Wrap message [EndpointErr ErrInvalidEndpoint]"

definition transportError :: "string \<Rightarrow> goerr" where
  "transportError wantScheme =
     Wrap (''gRPC endpoint must use '' @ wantScheme @ '':// with a host'') [EndpointErr ErrTransportSecurity]"

definition scheme :: "bool \<Rightarrow> string" where
  "scheme secure = (if secure then ''grpcs'' else ''grpc'')"

definition isLoopback :: "string \<Rightarrow> bool" where
  "isLoopback host =
     (if host = ''localhost'' then True else case ParseIP host of None \<Rightarrow> False | Some a \<Rightarrow> ip_IsLoopback a)"

definition validHost :: "string \<Rightarrow> bool" where
  "validHost host =
     (if ParseAddr host \<noteq> None then True
      else if contains_any host (''%@/?#[]:'' @ [CHR 0x5C]) then False
      else \<not> list_ex (\<lambda>r. is_space r \<or> is_control r) (runes host))"

definition validate_endpoint :: "URL \<Rightarrow> goerr option" where
  "validate_endpoint u =
     (if url_Host u = [] then Some (invalidError ''gRPC endpoint host is required'')
      else if url_User u \<noteq> None \<or> url_Path u \<noteq> [] \<or> url_RawPath u \<noteq> [] \<or> url_RawQuery u \<noteq> [] \<or>
              url_ForceQuery u \<or> url_Fragment u \<noteq> [] \<or> url_Opaque u \<noteq> []
      then Some (invalidError ''gRPC endpoint must not include userinfo, path, query, or fragment'')
      else case SplitHostPort (url_Host u) of
        Inl _ \<Rightarrow> Some (invalidError (''invalid gRPC endpoint host '' @ url_Host u))
      | Inr (host, port) \<Rightarrow>
          if host = [] \<or> \<not> validHost host then Some (invalidError (''invalid gRPC endpoint host '' @ url_Host u))
          else case parse_port port of
            None \<Rightarrow> Some (invalidError (''invalid gRPC endpoint port '' @ port))
          | Some n \<Rightarrow> if n = 0 then Some (invalidError (''invalid gRPC endpoint port '' @ port)) else None)"

definition Validate :: "URL option \<Rightarrow> bool \<Rightarrow> goerr option" where
  "Validate endpoint secure =
     (case endpoint of
        None \<Rightarrow> Some (invalidError ''gRPC endpoint is required'')
      | Some u \<Rightarrow>
          if url_Scheme u \<noteq> ''grpc'' \<and> url_Scheme u \<noteq> ''grpcs''
          then Some (invalidError (''invalid gRPC endpoint scheme '' @ url_Scheme u))
          else if url_Scheme u \<noteq> scheme secure then Some (transportError (scheme secure))
          else validate_endpoint u)"

definition Advertise :: "string \<Rightarrow> string \<Rightarrow> bool \<Rightarrow> goerr + URL" where
  "Advertise listenAddress advertiseHost secure =
     (case SplitHostPort listenAddress of
        Inl err \<Rightarrow> Inl (Wrap (''invalid listen address '' @ listenAddress) [err])
      | Inr (listenHost, port) \<Rightarrow>
          if parse_port port = None \<or> parse_port port = Some 0 then Inl (Fresh (''invalid listen port '' @ port))
          else if isLoopback listenHost \<and> \<not> isLoopback advertiseHost
          then Inl (Fresh (''loopback listen host '' @ listenHost @ '' cannot advertise non-loopback host '' @ advertiseHost))
          else let endpoint = zeroURL\<lparr>url_Scheme := scheme secure, url_Host := JoinHostPort advertiseHost port\<rparr>
               in case Validate (Some endpoint) secure of Some err \<Rightarrow> Inl err | None \<Rightarrow> Inr endpoint)"

text \<open>\<open>Resolve\<close> may return no endpoint and no error.\<close>

definition Resolve_endpoint :: "URL option \<Rightarrow> string \<Rightarrow> string \<Rightarrow> bool \<Rightarrow> goerr + URL option" where
  "Resolve_endpoint endpoint listenAddress advertiseHost secure =
     (case endpoint of
        Some u \<Rightarrow> (case Validate (Some u) secure of Some err \<Rightarrow> Inl err | None \<Rightarrow> Inr (Some u))
      | None \<Rightarrow>
          if advertiseHost = [] then Inr None
          else if listenAddress = [] then Inl (Fresh ''address is required when advertise host is set'')
          else map_sum id Some (Advertise listenAddress advertiseHost secure))"

definition endpoint_Host :: "(string \<Rightarrow> goerr + URL) \<Rightarrow> string \<Rightarrow> bool \<Rightarrow> goerr + string" where
  "endpoint_Host url_parse raw secure =
     (case url_parse raw of
        Inl err \<Rightarrow> Inl (invalidError (''parse gRPC endpoint '' @ raw))
      | Inr endpoint \<Rightarrow>
          (case Validate (Some endpoint) secure of Some err \<Rightarrow> Inl err | None \<Rightarrow> Inr (url_Host endpoint)))"

section \<open>Addresses of the client transports\<close>

definition trim_brackets :: "string \<Rightarrow> string" where
  "trim_brackets host =
     (let h = (if has_prefix host ''['' then drop 1 host else host)
      in if has_suffix h '']'' then butlast h else h)"

definition normalizeAdvertiseHost :: "string \<Rightarrow> goerr + string" where
  "normalizeAdvertiseHost host =
     (let bracketed = has_prefix host ''['' \<and> has_suffix host '']''; h = (if bracketed then trim_brackets host else host) in
      if bracketed \<and> ParseAddr h = None then Inl (Fresh (''invalid advertise host '' @ h))
      else if h = [] then Inl (Fresh ''advertise host is empty'')
      else case ParseAddr h of
        Some a \<Rightarrow> if addr_IsUnspecified a then Inl (Fresh ''advertise host is unspecified'') else Inr h
      | None \<Rightarrow>
          if CHR '':'' \<in> set h then Inl (Fresh (''invalid advertise host '' @ h))
          else if contains_any h (''/@?#[]'' @ [CHR 0x5C] @ ''%'') \<or> list_ex (\<lambda>r. is_space r \<or> is_control r) (runes h)
          then Inl (Fresh (''invalid advertise host '' @ h))
          else Inr h)"

definition host_isUnspecified :: "string \<Rightarrow> bool" where
  "host_isUnspecified host =
     (if host = [] then True
      else case ParseIP (trim_brackets host) of None \<Rightarrow> False | Some a \<Rightarrow> ip_IsUnspecified a)"

text \<open>
  One network interface: its index, whether it is up, and its addresses, which reading may fail. An
  address is an IP with what the code asks of it: whether it is global unicast, and its text.
\<close>

record iface_addr =
  ia_ip :: ip
  ia_global :: bool
  ia_text :: string

record iface =
  if_index :: int
  if_up :: bool
  if_addrs :: "goerr + iface_addr list"

fun selectInterfaceIP :: "iface_addr list \<Rightarrow> iface_addr option \<Rightarrow> iface_addr option" where
  "selectInterfaceIP [] fallback = fallback"
| "selectInterfaceIP (a # rest) fallback =
     (if \<not> ia_global a then selectInterfaceIP rest fallback
      else if To4 (ia_ip a) \<noteq> None then Some a
      else selectInterfaceIP rest (Some a))"

definition iface_step :: "iface \<Rightarrow> (int \<times> iface_addr) option \<Rightarrow> (int \<times> iface_addr) option" where
  "iface_step i selected =
     (if \<not> if_up i \<or> (case selected of None \<Rightarrow> False | Some (k, _) \<Rightarrow> if_index i \<ge> k) then selected
      else case if_addrs i of
        Inl _ \<Rightarrow> selected
      | Inr addrs \<Rightarrow>
          (case selectInterfaceIP addrs None of None \<Rightarrow> selected | Some a \<Rightarrow> Some (if_index i, a)))"

definition extractInterfaceAddress :: "goerr + iface list \<Rightarrow> string \<Rightarrow> goerr + string" where
  "extractInterfaceAddress ifaces port =
     (case ifaces of
        Inl err \<Rightarrow> Inl err
      | Inr is \<Rightarrow>
          (case fold iface_step is None of
             None \<Rightarrow> Inl (Fresh ''no global-unicast interface address found'')
           | Some (_, a) \<Rightarrow> Inr (JoinHostPort (ia_text a) port)))"

text \<open>The address of a listener: a TCP address with its port and IP, or one of another type.\<close>

datatype lis_addr = TCPAddr string "(ip \<times> string) option" | OtherAddr

definition Extract :: "(goerr + iface list) \<Rightarrow> string \<Rightarrow> string \<Rightarrow> lis_addr option \<Rightarrow> goerr + string" where
  "Extract ifaces hostPort advertiseHost lis =
     (let split = SplitHostPort hostPort; (listenHost, port) = (case split of Inl _ \<Rightarrow> ([], []) | Inr hp \<Rightarrow> hp) in
      case (split, lis) of
        (Inl err, None) \<Rightarrow> Inl err
      | (_, Some OtherAddr) \<Rightarrow> Inl (Fresh ''failed to extract port'')
      | _ \<Rightarrow>
        let (listenHost, port) =
              (case lis of
                 Some (TCPAddr p addr) \<Rightarrow>
                   ((case addr of
                       Some (a, text) \<Rightarrow>
                         if advertiseHost = [] \<and> host_isUnspecified listenHost \<and> \<not> ip_IsUnspecified a then text else listenHost
                     | None \<Rightarrow> listenHost), p)
               | _ \<Rightarrow> (listenHost, port)) in
        if advertiseHost \<noteq> [] then
          (case normalizeAdvertiseHost advertiseHost of Inl err \<Rightarrow> Inl err | Inr host \<Rightarrow> Inr (JoinHostPort host port))
        else if \<not> host_isUnspecified listenHost then Inr (JoinHostPort listenHost port)
        else extractInterfaceAddress ifaces port)"

section \<open>TLS configurations\<close>

record tls_config =
  tls_InsecureSkipVerify :: bool
  tls_Certificates :: nat
  tls_GetCertificate :: bool
  tls_GetConfigForClient :: bool

definition tls_Clone :: "tls_config option \<Rightarrow> tls_config option" where
  "tls_Clone config = (case config of None \<Rightarrow> None | Some c \<Rightarrow> Some c)"

definition ValidateClient :: "tls_config option \<Rightarrow> goerr option" where
  "ValidateClient config =
     (case config of
        Some c \<Rightarrow> if tls_InsecureSkipVerify c then Some (OtherErr ErrVerificationDisabled) else None
      | None \<Rightarrow> None)"

definition ValidateServer :: "tls_config option \<Rightarrow> goerr option" where
  "ValidateServer config =
     (case ValidateClient config of
        Some err \<Rightarrow> Some err
      | None \<Rightarrow>
          (case config of
             Some c \<Rightarrow>
               if tls_Certificates c = 0 \<and> \<not> tls_GetCertificate c \<and> \<not> tls_GetConfigForClient c
               then Some (OtherErr ErrCertificateRequired) else None
           | None \<Rightarrow> None))"

section \<open>The owner of a listener\<close>

text \<open>
  A listener is an address in the heap of the operating system; \<open>Listen\<close> and \<open>Accept\<close> of it are given
  by their results.
\<close>

record Owner =
  ow_network :: string
  ow_address :: string
  ow_listener :: "nat option"
  ow_closed :: bool
  ow_accepting :: bool

definition owner_New :: "string \<Rightarrow> string \<Rightarrow> nat option \<Rightarrow> Owner" where
  "owner_New network address listener =
     \<lparr>ow_network = (if network = [] then ''tcp'' else network), ow_address = (if address = [] then '':0'' else address),
      ow_listener = listener, ow_closed = False, ow_accepting = False\<rparr>"

definition owner_Prepare :: "(string \<Rightarrow> string \<Rightarrow> goerr + nat) \<Rightarrow> Owner \<Rightarrow> Owner \<times> goerr option" where
  "owner_Prepare listen ow =
     (if ow_closed ow then (ow, Some (IoErr ErrNetClosed))
      else if ow_listener ow \<noteq> None then (ow, None)
      else case listen (ow_network ow) (ow_address ow) of
        Inl err \<Rightarrow> (ow, Some err)
      | Inr l \<Rightarrow> (ow\<lparr>ow_listener := Some l\<rparr>, None))"

text \<open>\<open>Accept\<close> up to the call of the listener: the listener to accept from.\<close>

definition owner_Accept :: "(string \<Rightarrow> string \<Rightarrow> goerr + nat) \<Rightarrow> Owner \<Rightarrow> Owner \<Rightarrow> Owner \<times> (goerr + nat)" where
  "owner_Accept listen ow between =
     (case owner_Prepare listen ow of
        (ow, Some err) \<Rightarrow> (ow, Inl err)
      | (_, None) \<Rightarrow>
          if ow_closed between then (between, Inl (IoErr ErrNetClosed))
          else (between\<lparr>ow_accepting := True\<rparr>, Inr (the (ow_listener between))))"

definition owner_Close :: "(nat \<Rightarrow> goerr option) \<Rightarrow> Owner \<Rightarrow> Owner \<times> nat option \<times> goerr option" where
  "owner_Close close ow =
     (if ow_closed ow then (ow, None, None)
      else case ow_listener ow of
        None \<Rightarrow> (ow\<lparr>ow_closed := True\<rparr>, None, None)
      | Some l \<Rightarrow>
          (ow\<lparr>ow_closed := True\<rparr>, Some l,
           (case close l of
              Some err \<Rightarrow> if errors_is err (IoErr ErrNetClosed) then None else Some err
            | None \<Rightarrow> None)))"

definition owner_Addr :: "(nat \<Rightarrow> string \<times> string) \<Rightarrow> Owner \<Rightarrow> string \<times> string" where
  "owner_Addr addr ow = (case ow_listener ow of Some l \<Rightarrow> addr l | None \<Rightarrow> (ow_network ow, ow_address ow))"

section \<open>Facts\<close>

lemma validate_endpoint_None:
  "validate_endpoint u = None \<longleftrightarrow>
     url_Host u \<noteq> [] \<and> url_User u = None \<and> url_Path u = [] \<and> url_RawPath u = [] \<and> url_RawQuery u = [] \<and>
     \<not> url_ForceQuery u \<and> url_Fragment u = [] \<and> url_Opaque u = [] \<and>
     (\<exists>host port n. SplitHostPort (url_Host u) = Inr (host, port) \<and> host \<noteq> [] \<and> validHost host \<and>
        parse_port port = Some n \<and> n \<noteq> 0)"
  by (auto simp: validate_endpoint_def split: sum.splits option.splits if_splits)

lemma Validate_None:
  "Validate e secure = None \<longleftrightarrow> (\<exists>u. e = Some u \<and> url_Scheme u = scheme secure \<and> validate_endpoint u = None)"
  by (auto simp: Validate_def scheme_def split: option.splits if_splits)

lemma parse_port_bound: "parse_port p = Some n \<Longrightarrow> n < 65536"
  by (auto simp: parse_port_def split: if_splits)

lemma endpoint_Host_ok:
  assumes "endpoint_Host url_parse raw secure = Inr hp"
  obtains u host port n where "url_parse raw = Inr u" "url_Host u = hp" "url_Scheme u = scheme secure"
    "SplitHostPort hp = Inr (host, port)" "host \<noteq> []" "parse_port port = Some n" "1 \<le> n" "n < 65536"
proof -
  obtain u where u: "url_parse raw = Inr u" "Validate (Some u) secure = None" "url_Host u = hp"
    using assms by (auto simp: endpoint_Host_def split: sum.splits option.splits)
  from u(2) obtain host port n where "SplitHostPort hp = Inr (host, port)" "host \<noteq> []" "parse_port port = Some n" "n \<noteq> 0"
    "url_Scheme u = scheme secure" using u(3) by (auto simp: Validate_None validate_endpoint_None)
  then show thesis using that u parse_port_bound by (metis One_nat_def Suc_leI neq0_conv)
qed

end
