(* ===== verification/Ws_Server.thy ===== *)
theory Ws_Server
  imports Ws_Codec Conn_Limits Endpoint
begin

text \<open>
  \<open>network/websocket\<close>, the server: its options, its lifecycle, the reservation of connections and the
  order of a connection's life. The HTTP server, the upgrade, the parsers of \<open>net/url\<close> and the
  connection handler are arguments.
\<close>

section \<open>Configuration (\<open>config.go\<close>, \<open>server_options.go\<close>)\<close>

record ChannelConfig =
  cc_WriteTimeout :: duration
  cc_ReadDeadline :: duration
  cc_SendQueueSize :: int

definition defaultChannelConfig :: ChannelConfig where
  "defaultChannelConfig = \<lparr>cc_WriteTimeout = DefaultWriteTimeout, cc_ReadDeadline = 60 * second, cc_SendQueueSize = DefaultSendQueueSize\<rparr>"

definition channel_validate :: "ChannelConfig option \<Rightarrow> goerr option" where
  "channel_validate config =
     (case config of
        None \<Rightarrow> Some (Fresh ''websocket: channel config is required'')
      | Some c \<Rightarrow>
          if cc_WriteTimeout c \<le> 0 then Some (Fresh ''websocket: channel write timeout must be positive'')
          else if cc_ReadDeadline c \<le> 0 then Some (Fresh ''websocket: channel read deadline must be positive'')
          else if cc_SendQueueSize c \<le> 0 then Some (Fresh ''websocket: channel send queue size must be positive'')
          else None)"

record ws_config =
  wcf_network :: string
  wcf_address :: string
  wcf_advertiseHost :: string
  wcf_path :: string
  wcf_tls :: "tls_config option"
  wcf_codec :: "ws_codec option"
  wcf_middlewares :: "nat list"
  wcf_timeout :: duration
  wcf_allowedOrigins :: "string list"
  wcf_handshakeTimeout :: duration
  wcf_maxHeaderBytes :: int
  wcf_channel :: "ChannelConfig option"
  wcf_maxConnLimit :: int
  wcf_maxConnPerIP :: int
  wcf_requestQueueSize :: int

text \<open>
  \<open>ws_channels\<close> is \<open>None\<close> for the nil map left by \<open>closeChannels\<close>; channels are addresses with their
  connection id.
\<close>

record ws_server =
  ws_config :: ws_config
  ws_started :: bool
  ws_cancelled :: bool
  ws_stopped :: bool
  ws_lis :: "nat option"
  ws_endpoint :: "URL option"
  ws_channels :: "(string \<rightharpoonup> nat) option"
  ws_perIP :: "string \<rightharpoonup> int"
  ws_count :: int
  ws_wg :: int
  ws_handler :: bool

datatype ws_server_option =
    WsNetwork string | WsAddress string | WsAdvertiseHost string | WsPath string | WsAllowedOrigins "string list"
  | WsEndpoint "URL option" | WsListener "nat option" | WsTLSConfig "tls_config option" | WsCodec "ws_codec option"
  | WsMiddleware "nat list" | WsTimeout duration | WsRequestQueueSize int | WsMaxConnLimit int | WsMaxConnPerIP int
  | WsServerChannelConfig "ChannelConfig option" | WsHandshakeTimeout duration | WsMaxHeaderBytes int

definition ws_apply_option :: "ws_server_option \<Rightarrow> ws_server \<Rightarrow> ws_server" where
  "ws_apply_option opt s =
     (case opt of
        WsNetwork n \<Rightarrow> s\<lparr>ws_config := (ws_config s)\<lparr>wcf_network := n\<rparr>\<rparr>
      | WsAddress a \<Rightarrow> s\<lparr>ws_config := (ws_config s)\<lparr>wcf_address := a\<rparr>\<rparr>
      | WsAdvertiseHost h \<Rightarrow> s\<lparr>ws_config := (ws_config s)\<lparr>wcf_advertiseHost := h\<rparr>\<rparr>
      | WsPath p \<Rightarrow> s\<lparr>ws_config := (ws_config s)\<lparr>wcf_path := p\<rparr>\<rparr>
      | WsAllowedOrigins os \<Rightarrow> s\<lparr>ws_config := (ws_config s)\<lparr>wcf_allowedOrigins := remdups os\<rparr>\<rparr>
      | WsEndpoint e \<Rightarrow> s\<lparr>ws_endpoint := e\<rparr>
      | WsListener l \<Rightarrow> s\<lparr>ws_lis := l\<rparr>
      | WsTLSConfig c \<Rightarrow> s\<lparr>ws_config := (ws_config s)\<lparr>wcf_tls := tls_Clone c\<rparr>\<rparr>
      | WsCodec c \<Rightarrow> s\<lparr>ws_config := (ws_config s)\<lparr>wcf_codec := c\<rparr>\<rparr>
      | WsMiddleware m \<Rightarrow> s\<lparr>ws_config := (ws_config s)\<lparr>wcf_middlewares := wcf_middlewares (ws_config s) @ m\<rparr>\<rparr>
      | WsTimeout d \<Rightarrow> s\<lparr>ws_config := (ws_config s)\<lparr>wcf_timeout := d\<rparr>\<rparr>
      | WsRequestQueueSize n \<Rightarrow> s\<lparr>ws_config := (ws_config s)\<lparr>wcf_requestQueueSize := n\<rparr>\<rparr>
      | WsMaxConnLimit n \<Rightarrow> s\<lparr>ws_config := (ws_config s)\<lparr>wcf_maxConnLimit := n\<rparr>\<rparr>
      | WsMaxConnPerIP n \<Rightarrow> s\<lparr>ws_config := (ws_config s)\<lparr>wcf_maxConnPerIP := n\<rparr>\<rparr>
      | WsServerChannelConfig c \<Rightarrow> s\<lparr>ws_config := (ws_config s)\<lparr>wcf_channel := c\<rparr>\<rparr>
      | WsHandshakeTimeout d \<Rightarrow> s\<lparr>ws_config := (ws_config s)\<lparr>wcf_handshakeTimeout := d\<rparr>\<rparr>
      | WsMaxHeaderBytes n \<Rightarrow> s\<lparr>ws_config := (ws_config s)\<lparr>wcf_maxHeaderBytes := n\<rparr>\<rparr>)"

definition ws_endpointScheme :: "ws_config \<Rightarrow> string" where
  "ws_endpointScheme c = (if wcf_tls c \<noteq> None then ''wss'' else ''ws'')"

text \<open>\<open>parse_uri\<close> is \<open>url.ParseRequestURI\<close>, reduced to the path of its result.\<close>

definition validPath :: "(string \<Rightarrow> goerr + string) \<Rightarrow> string \<Rightarrow> bool" where
  "validPath parse_uri path = (parse_uri path = Inr path)"

definition ws_validateConfig :: "(string \<Rightarrow> goerr + string) \<Rightarrow> ws_server \<Rightarrow> goerr option" where
  "ws_validateConfig parse_uri s =
     (let c = ws_config s in
      if \<not> validPath parse_uri (wcf_path c) then Some (Fresh ''websocket: invalid path'')
      else if wcf_codec c = None then Some (Fresh ''websocket: codec is required'')
      else case channel_validate (wcf_channel c) of
        Some err \<Rightarrow> Some err
      | None \<Rightarrow>
          if wcf_maxConnLimit c \<le> 0 then Some (Fresh ''websocket: connection limit must be positive'')
          else if wcf_maxConnPerIP c \<le> 0 then Some (Fresh ''websocket: per-IP connection limit must be positive'')
          else if wcf_handshakeTimeout c \<le> 0 then Some (Fresh ''websocket: handshake timeout must be positive'')
          else if wcf_maxHeaderBytes c \<le> 0 then Some (Fresh ''websocket: max header bytes must be positive'')
          else if wcf_timeout c < 0 then Some (Fresh ''websocket: handler timeout cannot be negative'')
          else if wcf_requestQueueSize c \<le> 0 then Some (Fresh ''websocket: request queue size must be positive'')
          else case ValidateServer (wcf_tls c) of
            Some err \<Rightarrow> Some (Wrap ''websocket: '' [err])
          | None \<Rightarrow>
              (case ws_endpoint s of
                 None \<Rightarrow> None
               | Some e \<Rightarrow>
                   if url_Scheme e \<noteq> ws_endpointScheme c \<or> url_Host e = []
                   then Some (Fresh (''websocket: endpoint must use '' @ ws_endpointScheme c @ '':// with a host''))
                   else if url_Path e \<noteq> wcf_path c then Some (Fresh ''websocket: endpoint path must match server path'')
                   else None))"

section \<open>Lifecycle (\<open>server.go\<close>)\<close>

definition ws_NewServer :: "ws_codec \<Rightarrow> ws_server_option list \<Rightarrow> ws_server" where
  "ws_NewServer defaultCodec opts =
     fold ws_apply_option opts
       \<lparr>ws_config = \<lparr>wcf_network = ''tcp'', wcf_address = '':3102'', wcf_advertiseHost = [], wcf_path = ''/'', wcf_tls = None,
          wcf_codec = Some defaultCodec, wcf_middlewares = [], wcf_timeout = DefaultHandlerTimeout, wcf_allowedOrigins = [],
          wcf_handshakeTimeout = DefaultHandshakeTimeout, wcf_maxHeaderBytes = 16384, wcf_channel = Some defaultChannelConfig,
          wcf_maxConnLimit = DefaultMaxConnLimit, wcf_maxConnPerIP = DefaultMaxConnPerIP, wcf_requestQueueSize = DefaultRequestQueueSize\<rparr>,
        ws_started = False, ws_cancelled = False, ws_stopped = False, ws_lis = None, ws_endpoint = None,
        ws_channels = Some Map.empty, ws_perIP = Map.empty, ws_count = 0, ws_wg = 0, ws_handler = False\<rparr>"

definition ws_SetHandler :: "bool \<Rightarrow> ws_server \<Rightarrow> ws_server \<times> goerr option" where
  "ws_SetHandler handler s =
     (if \<not> handler then (s, Some (Fresh ''websocket: connection handler is required''))
      else if ws_started s \<or> ws_stopped s then (s, Some (Fresh ''websocket: server cannot set handler after start''))
      else if ws_handler s then (s, Some (Fresh ''websocket: connection handler is already set''))
      else (s\<lparr>ws_handler := True\<rparr>, None))"

definition ws_listenAndEndpoint ::
  "(string \<Rightarrow> string \<Rightarrow> goerr + nat) \<Rightarrow> (string \<Rightarrow> string \<Rightarrow> nat \<Rightarrow> goerr + string) \<Rightarrow> ws_server \<Rightarrow>
   ws_server \<times> goerr option \<times> nat option" where
  "ws_listenAndEndpoint listen extract s =
     (let c = ws_config s;
          opened = (case ws_lis s of Some l \<Rightarrow> Inr (l, False) | None \<Rightarrow> map_sum id (\<lambda>l. (l, True)) (listen (wcf_network c) (wcf_address c)))
      in case opened of
        Inl err \<Rightarrow> (s, Some err, None)
      | Inr (l, created) \<Rightarrow>
          let s' = s\<lparr>ws_lis := Some l\<rparr> in
          (case ws_endpoint s of
             Some _ \<Rightarrow> (s', None, None)
           | None \<Rightarrow>
               (case extract (wcf_address c) (wcf_advertiseHost c) l of
                  Inl err \<Rightarrow> if created then (s'\<lparr>ws_lis := None\<rparr>, Some err, Some l) else (s', Some err, None)
                | Inr addr \<Rightarrow>
                    (s'\<lparr>ws_endpoint := Some (zeroURL\<lparr>url_Scheme := ws_endpointScheme c, url_Host := addr, url_Path := wcf_path c\<rparr>)\<rparr>,
                     None, None))))"

definition ws_prepare ::
  "(string \<Rightarrow> goerr + string) \<Rightarrow> (string \<Rightarrow> string \<Rightarrow> goerr + nat) \<Rightarrow> (string \<Rightarrow> string \<Rightarrow> nat \<Rightarrow> goerr + string) \<Rightarrow>
   ws_server \<Rightarrow> ws_server \<times> goerr option \<times> nat option" where
  "ws_prepare parse_uri listen extract s =
     (if \<not> ws_handler s then (s, Some (Fresh ''websocket: connection handler is required''), None)
      else case ws_validateConfig parse_uri s of Some err \<Rightarrow> (s, Some err, None) | None \<Rightarrow> ws_listenAndEndpoint listen extract s)"

definition ws_BeforeStart ::
  "(string \<Rightarrow> goerr + string) \<Rightarrow> (string \<Rightarrow> string \<Rightarrow> goerr + nat) \<Rightarrow> (string \<Rightarrow> string \<Rightarrow> nat \<Rightarrow> goerr + string) \<Rightarrow>
   ws_server \<Rightarrow> ws_server \<times> goerr option \<times> nat option" where
  "ws_BeforeStart parse_uri listen extract s =
     (if ws_started s \<or> ws_stopped s then (s, Some (Fresh ''websocket: server cannot be prepared''), None)
      else ws_prepare parse_uri listen extract s)"

definition ws_Endpoint ::
  "(string \<Rightarrow> goerr + string) \<Rightarrow> (string \<Rightarrow> string \<Rightarrow> goerr + nat) \<Rightarrow> (string \<Rightarrow> string \<Rightarrow> nat \<Rightarrow> goerr + string) \<Rightarrow>
   ws_server \<Rightarrow> ws_server \<times> (goerr + URL) \<times> nat option" where
  "ws_Endpoint parse_uri listen extract s =
     (if ws_stopped s then (s, Inl (Fresh ''websocket: server is stopped''), None)
      else case ws_validateConfig parse_uri s of
        Some err \<Rightarrow> (s, Inl err, None)
      | None \<Rightarrow>
          (case ws_listenAndEndpoint listen extract s of
             (s', Some err, closed) \<Rightarrow> (s', Inl err, closed)
           | (s', None, closed) \<Rightarrow> (s', Inr (the (ws_endpoint s')), closed)))"

text \<open>\<open>Start\<close> up to the HTTP server, and its result.\<close>

definition ws_Start_begin ::
  "(string \<Rightarrow> goerr + string) \<Rightarrow> (string \<Rightarrow> string \<Rightarrow> goerr + nat) \<Rightarrow> (string \<Rightarrow> string \<Rightarrow> nat \<Rightarrow> goerr + string) \<Rightarrow>
   ws_server \<Rightarrow> ws_server \<times> (goerr + nat)" where
  "ws_Start_begin parse_uri listen extract s =
     (if ws_started s \<or> ws_stopped s then (s, Inl (Fresh ''websocket: server cannot be started''))
      else case ws_prepare parse_uri listen extract s of
        (s', Some err, _) \<Rightarrow> (s', Inl err)
      | (s', None, _) \<Rightarrow> (s'\<lparr>ws_started := True\<rparr>, Inr (the (ws_lis s'))))"

definition ws_Start_result :: "goerr option \<Rightarrow> goerr option" where
  "ws_Start_result err =
     (case err of Some e \<Rightarrow> if errors_is e (IoErr ErrHttpServerClosed) then None else Some e | None \<Rightarrow> None)"

text \<open>Under the lock the map is taken; the channels in it are closed after it is released.\<close>

definition ws_closeChannels :: "ws_server \<Rightarrow> ws_server \<times> nat set" where
  "ws_closeChannels s =
     (s\<lparr>ws_channels := None\<rparr>, (case ws_channels s of None \<Rightarrow> {} | Some m \<Rightarrow> ran m))"

definition ws_Stop_begin :: "ws_server \<Rightarrow> ws_server \<times> nat option" where
  "ws_Stop_begin s =
     ((if ws_stopped s then s else s\<lparr>ws_stopped := True, ws_cancelled := (ws_cancelled s \<or> ws_started s)\<rparr>)\<lparr>ws_lis := None\<rparr>, ws_lis s)"

text \<open>
  \<open>Stop\<close>: \<open>shutdown\<close> is the result of \<open>http.Server.Shutdown\<close>, \<open>waited\<close> that of the wait for the
  connections; the set holds the channels it closes.
\<close>

definition ws_Stop :: "goerr option \<Rightarrow> goerr option \<Rightarrow> ws_server \<Rightarrow> ws_server \<times> nat set \<times> goerr option" where
  "ws_Stop shutdown waited s =
     (let (s1, lis) = ws_Stop_begin s; (s2, channels) = ws_closeChannels s1 in
      (s2, channels,
       case waited of
         Some err \<Rightarrow> Some err
       | None \<Rightarrow>
           (case shutdown of Some e \<Rightarrow> if errors_is e (IoErr ErrHttpServerClosed) then None else Some e | None \<Rightarrow> None)))"

definition ws_finishServing :: "ws_server \<Rightarrow> ws_server \<times> nat set" where
  "ws_finishServing s = ws_closeChannels (s\<lparr>ws_stopped := True, ws_lis := None, ws_cancelled := True\<rparr>)"

section \<open>Connections (\<open>server_connection.go\<close>)\<close>

definition reserveConnection :: "string \<Rightarrow> ws_server \<Rightarrow> ws_server \<times> bool" where
  "reserveConnection remoteIP s =
     (if ws_stopped s \<or> ws_count s \<ge> wcf_maxConnLimit (ws_config s) \<or>
         peer_count (ws_perIP s) remoteIP \<ge> wcf_maxConnPerIP (ws_config s)
      then (s, False)
      else (s\<lparr>ws_count := ws_count s + 1, ws_perIP := (ws_perIP s)(remoteIP \<mapsto> peer_count (ws_perIP s) remoteIP + 1),
              ws_wg := ws_wg s + 1\<rparr>, True))"

text \<open>The new channel is an address with its connection id.\<close>

definition commitConnection :: "nat \<Rightarrow> string \<Rightarrow> ws_server \<Rightarrow> ws_server \<times> bool" where
  "commitConnection ch connID s =
     (if ws_stopped s then (s, False)
      else (s\<lparr>ws_channels := map_option (\<lambda>m. m(connID \<mapsto> ch)) (ws_channels s)\<rparr>, True))"

definition releaseConnection :: "string \<Rightarrow> string option \<Rightarrow> ws_server \<Rightarrow> ws_server" where
  "releaseConnection remoteIP connID s =
     (let s = (case connID of None \<Rightarrow> s | Some i \<Rightarrow> s\<lparr>ws_channels := map_option (\<lambda>m. m(i := None)) (ws_channels s)\<rparr>) in
      s\<lparr>ws_perIP := peer_release (ws_perIP s) remoteIP, ws_count := ws_count s - 1, ws_wg := ws_wg s - 1\<rparr>)"

text \<open>\<open>handleConnections\<close> by the result of the upgrade and whether the server still runs at the commit.\<close>

datatype ws_effect = Reject503 | UpgradeFailed | CloseUpgraded | ServeChannel

definition handleConnections ::
  "string \<Rightarrow> bool \<Rightarrow> nat \<Rightarrow> string \<Rightarrow> (ws_server \<Rightarrow> ws_server) \<Rightarrow> ws_server \<Rightarrow> ws_server \<times> ws_effect" where
  "handleConnections remoteIP upgraded ch connID between s =
     (case reserveConnection remoteIP s of
        (s, False) \<Rightarrow> (s, Reject503)
      | (s, True) \<Rightarrow>
          let s = between s in
          if \<not> upgraded then (releaseConnection remoteIP None s, UpgradeFailed)
          else case commitConnection ch connID s of
            (s, False) \<Rightarrow> (releaseConnection remoteIP None s, CloseUpgraded)
          | (s, True) \<Rightarrow> (s, ServeChannel))"

definition ws_checkOrigin ::
  "(string \<Rightarrow> goerr + URL) \<Rightarrow> (string \<Rightarrow> string \<Rightarrow> bool) \<Rightarrow> ws_config \<Rightarrow> string \<Rightarrow> string \<Rightarrow> bool" where
  "ws_checkOrigin url_parse equal_fold c origin host =
     (if origin = [] then True
      else if wcf_allowedOrigins c \<noteq> [] then origin \<in> set (wcf_allowedOrigins c)
      else case url_parse origin of
        Inl _ \<Rightarrow> False
      | Inr u \<Rightarrow>
          if (url_Scheme u \<noteq> ''http'' \<and> url_Scheme u \<noteq> ''https'') \<or> (url_Path u \<noteq> [] \<and> url_Path u \<noteq> ''/'') then False
          else equal_fold (url_Host u) host)"

text \<open>The order of a connection's life, the deferred calls last.\<close>

datatype ws_serve_effect = WsHandlerOpen | WsReadLoop | WsCancel | WsHandlerClose | WsCloseChannel | WsAwaitWriter | WsRelease

definition serveWebsocket :: "goerr option \<Rightarrow> bool \<Rightarrow> ws_serve_effect list" where
  "serveWebsocket openErr handshook =
     WsHandlerOpen #
     (case openErr of
        Some _ \<Rightarrow> []
      | None \<Rightarrow> (if handshook then [WsReadLoop] else []) @ [WsCancel, WsHandlerClose]) @
     [WsCloseChannel, WsAwaitWriter, WsRelease]"

text \<open>
  The table of the WebSocket server accounts for the reservations, which have no key in the code: a
  key names the handler that made one.
\<close>

definition ws_holds :: "ws_server \<Rightarrow> (nat \<times> string) list \<Rightarrow> bool" where
  "ws_holds s H =
     (distinct (map fst H) \<and> ws_count s = int (length H) \<and> counts_exact (ws_perIP s) H)"

interpretation ws_table: connection_table ws_holds "\<lambda>s. wcf_maxConnLimit (ws_config s)" "\<lambda>s. wcf_maxConnPerIP (ws_config s)"
  "\<lambda>_. reserveConnection" "\<lambda>_ ip. releaseConnection ip None" "\<lambda>s. fst (ws_Stop_begin s)" ws_perIP
proof
  fix s s' :: ws_server and H :: "(nat \<times> string) list" and k ip
  assume holds: "ws_holds s H"
  {
    assume k: "k \<notin> fst ` set H" and adm: "reserveConnection ip s = (s', True)"
    then show "ws_holds s' ((k, ip) # H) \<and> int (length H) < wcf_maxConnLimit (ws_config s) \<and> per_peer H ip < wcf_maxConnPerIP (ws_config s)"
      using holds counts_exact_admit [of "ws_perIP s" H ip k] counts_exact_count [of "ws_perIP s" H ip]
      by (auto simp: reserveConnection_def ws_holds_def split: if_splits)
  next
    assume "reserveConnection ip s = (s', False)"
    then show "s' = s" by (simp add: reserveConnection_def split: if_splits)
  next
    assume k: "(k, ip) \<in> set H"
    then have "1 \<le> length H" by (cases H) auto
    moreover have "distinct (map fst (remove1 (k, ip) H))" using holds
      by (auto simp: ws_holds_def distinct_map intro: inj_on_subset dest: set_remove1_subset [THEN subsetD])
    ultimately show "ws_holds (releaseConnection ip None s) (remove1 (k, ip) H)"
      using holds k counts_exact_release [of "ws_perIP s" H k ip]
      by (simp add: ws_holds_def releaseConnection_def length_remove1 of_nat_diff)
  next
    show "ws_holds (fst (ws_Stop_begin s)) H" using holds by (simp add: ws_holds_def ws_Stop_begin_def)
    show "counts_exact (ws_perIP s) H" using holds by (simp add: ws_holds_def)
  }
qed (auto simp: reserveConnection_def releaseConnection_def ws_Stop_begin_def)

section \<open>Properties\<close>


definition ws_demo_server :: ws_server where
  "ws_demo_server = ws_NewServer (DefaultFrameCodec proto_codec_v3) [WsMaxConnLimit 1]"


end
