(* ===== verification/Heartbeat.thy ===== *)
theory Heartbeat
  imports Prelude
begin

text \<open>
  \<open>network/internal/heartbeat/heartbeat.go\<close>: the atomic heartbeat state of a client. Each method is
  written as the code has it, as a loop of loads and compare-and-swaps that other goroutines may
  interleave with, and as the atomic transition it stands for; the first is shown to behave as the
  second.
\<close>

section \<open>The state word\<close>

type_synonym hb = "32 word"

definition hb_idle :: hb where "hb_idle = 0"
definition hb_queued :: hb where "hb_queued = 1"
definition hb_writing :: hb where "hb_writing = 2"
definition hb_outstanding :: hb where "hb_outstanding = 3"

lemmas hb_defs = hb_idle_def hb_queued_def hb_writing_def hb_outstanding_def

datatype TickResult = TickQueue | TickPending | TickTimeout

definition CompareAndSwap :: "hb \<Rightarrow> hb \<Rightarrow> hb \<Rightarrow> hb \<times> bool" where
  "CompareAndSwap old new v = (if v = old then (new, True) else (v, False))"

definition CancelQueue :: "hb \<Rightarrow> hb \<times> bool" where
  "CancelQueue v = CompareAndSwap hb_queued hb_idle v"

definition BeginWrite :: "hb \<Rightarrow> hb \<times> bool" where
  "BeginWrite v = CompareAndSwap hb_queued hb_writing v"

text \<open>The second argument is the load after a failed swap.\<close>

definition FinishWrite :: "hb \<Rightarrow> hb \<Rightarrow> hb \<times> bool" where
  "FinishWrite v v' =
     (case CompareAndSwap hb_writing hb_outstanding v of
        (w, True) \<Rightarrow> (w, True)
      | (w, False) \<Rightarrow> (w, v' = hb_idle \<or> v' = hb_queued))"

text \<open>
  \<open>Tick\<close> and \<open>Reply\<close> over the values their loop observes: for each iteration the value of the load and
  the value the swap meets. The result is the value at the access that decides, the value it leaves
  and what the method returns; \<open>None\<close> when the observations end before the loop does.
\<close>

fun Tick :: "(hb \<times> hb) list \<Rightarrow> (hb \<times> hb \<times> TickResult) option" where
  "Tick [] = None"
| "Tick ((l, c) # rest) =
     (if l = hb_idle then
        (case CompareAndSwap hb_idle hb_queued c of (c', True) \<Rightarrow> Some (c, c', TickQueue) | (_, False) \<Rightarrow> Tick rest)
      else if l = hb_queued \<or> l = hb_writing then Some (l, l, TickPending)
      else if l = hb_outstanding then
        (case CompareAndSwap hb_outstanding hb_idle c of (c', True) \<Rightarrow> Some (c, c', TickTimeout) | (_, False) \<Rightarrow> Tick rest)
      else Tick rest)"

fun Reply :: "(hb \<times> hb) list \<Rightarrow> (hb \<times> hb \<times> bool) option" where
  "Reply [] = None"
| "Reply ((l, c) # rest) =
     (if l \<noteq> hb_writing \<and> l \<noteq> hb_outstanding then Some (l, l, False)
      else case CompareAndSwap l hb_idle c of (c', True) \<Rightarrow> Some (c, c', True) | (_, False) \<Rightarrow> Reply rest)"

section \<open>The transitions\<close>

definition hb_ok :: "hb \<Rightarrow> bool" where
  "hb_ok v = (v = hb_idle \<or> v = hb_queued \<or> v = hb_writing \<or> v = hb_outstanding)"

definition tick_atomic :: "hb \<Rightarrow> hb \<times> TickResult" where
  "tick_atomic v =
     (if v = hb_idle then (hb_queued, TickQueue)
      else if v = hb_outstanding then (hb_idle, TickTimeout) else (v, TickPending))"

definition reply_atomic :: "hb \<Rightarrow> hb \<times> bool" where
  "reply_atomic v = (if v = hb_writing \<or> v = hb_outstanding then (hb_idle, True) else (v, False))"

lemma Tick_atomic: "Tick obs = Some (v, v', r) \<Longrightarrow> tick_atomic v = (v', r)"
proof (induction obs)
  case (Cons p obs)
  then show ?case by (cases p) (auto simp: CompareAndSwap_def tick_atomic_def hb_defs split: if_splits)
qed simp

lemma Reply_atomic: "Reply obs = Some (v, v', r) \<Longrightarrow> reply_atomic v = (v', r)"
proof (induction obs)
  case (Cons p obs)
  then show ?case by (cases p) (auto simp: CompareAndSwap_def reply_atomic_def hb_defs split: if_splits)
qed simp

lemma Tick_interference: "Tick obs = None \<Longrightarrow> (l, c) \<in> set obs \<Longrightarrow> hb_ok l \<Longrightarrow> l \<noteq> c"
  by (induction obs rule: Tick.induct) (auto simp: CompareAndSwap_def hb_ok_def split: if_splits)

lemma Reply_interference: "Reply obs = None \<Longrightarrow> (l, c) \<in> set obs \<Longrightarrow> l \<noteq> c"
  by (induction obs rule: Reply.induct) (auto simp: CompareAndSwap_def split: if_splits)

section \<open>Generations\<close>

text \<open>The changes of the state word, in the order they happen.\<close>

datatype hb_event = EQueued | ECancelled | EWriting | EWritten | EReplied | ETimedOut

datatype hb_op = OpTick | OpCancelQueue | OpBeginWrite | OpFinishWrite hb | OpReply

fun hb_apply :: "hb_op \<Rightarrow> hb \<Rightarrow> hb \<times> hb_event list" where
  "hb_apply OpTick v =
     (case tick_atomic v of (v', TickQueue) \<Rightarrow> (v', [EQueued]) | (v', TickTimeout) \<Rightarrow> (v', [ETimedOut]) | (v', TickPending) \<Rightarrow> (v', []))"
| "hb_apply OpCancelQueue v = (case CancelQueue v of (v', ok) \<Rightarrow> (v', if ok then [ECancelled] else []))"
| "hb_apply OpBeginWrite v = (case BeginWrite v of (v', ok) \<Rightarrow> (v', if ok then [EWriting] else []))"
| "hb_apply (OpFinishWrite seen) v = (case FinishWrite v seen of (v', ok) \<Rightarrow> (v', if v = hb_writing then [EWritten] else []))"
| "hb_apply OpReply v = (case reply_atomic v of (v', ok) \<Rightarrow> (v', if ok then [EReplied] else []))"

fun hb_run :: "hb_op list \<Rightarrow> hb \<Rightarrow> hb \<times> hb_event list" where
  "hb_run [] v = (v, [])"
| "hb_run (opn # ops) v = (let (v', es) = hb_apply opn v; (v'', fs) = hb_run ops v' in (v'', es @ fs))"

text \<open>What the events of the current generation are, by state.\<close>

definition hb_current :: "hb \<Rightarrow> hb_event list" where
  "hb_current v =
     (if v = hb_queued then [EQueued] else if v = hb_writing then [EQueued, EWriting]
      else if v = hb_outstanding then [EQueued, EWriting, EWritten] else [])"

definition timeouts_justified :: "hb_event list \<Rightarrow> bool" where
  "timeouts_justified es =
     (\<forall>pre post. es = pre @ ETimedOut # post \<longrightarrow> (\<exists>p. pre = p @ [EQueued, EWriting, EWritten]))"

lemma hb_apply_ok: "hb_ok v \<Longrightarrow> hb_ok (fst (hb_apply opn v))"
  by (cases opn) (auto simp: hb_ok_def tick_atomic_def CancelQueue_def BeginWrite_def FinishWrite_def reply_atomic_def
      CompareAndSwap_def hb_defs split: TickResult.splits prod.splits if_splits)

lemma hb_apply_current:
  assumes "hb_ok v" "hb_apply opn v = (v', es)"
  shows "\<exists>p. hb_current v @ es = p @ hb_current v' \<and> (ETimedOut \<in> set es \<longrightarrow> v = hb_outstanding \<and> es = [ETimedOut])"
  using assms
  by (cases opn) (auto simp: hb_ok_def tick_atomic_def CancelQueue_def BeginWrite_def FinishWrite_def reply_atomic_def
      hb_current_def CompareAndSwap_def hb_defs split: TickResult.splits prod.splits if_splits)

lemma timeouts_justified_snoc:
  "timeouts_justified (es @ [e]) \<longleftrightarrow>
     timeouts_justified es \<and> (e = ETimedOut \<longrightarrow> (\<exists>p. es = p @ [EQueued, EWriting, EWritten]))"
proof -
  define ends where "ends pre = (\<exists>p. pre = p @ [EQueued, EWriting, EWritten])" for pre
  have eq: "es @ [e] = pre @ ETimedOut # post \<longleftrightarrow>
      (post = [] \<and> pre = es \<and> e = ETimedOut) \<or> (\<exists>post'. post = post' @ [e] \<and> es = pre @ ETimedOut # post')" for pre post
    by (cases post rule: rev_cases) auto
  show ?thesis unfolding timeouts_justified_def ends_def [symmetric] eq by auto
qed

lemma hb_apply_single: "hb_apply opn v = (v', es) \<Longrightarrow> es = [] \<or> (\<exists>e. es = [e])"
  by (cases opn) (auto split: prod.splits TickResult.splits if_splits)

lemma timeouts_justified_append:
  assumes "timeouts_justified (pre @ hb_current v)" "hb_ok v" "hb_apply opn v = (v', es)"
  shows "timeouts_justified (pre @ hb_current v @ es)"
proof -
  have out: "hb_current hb_outstanding = [EQueued, EWriting, EWritten]" by (simp add: hb_current_def hb_defs)
  consider "es = []" | e where "es = [e]" using hb_apply_single [OF assms(3)] by blast
  then show ?thesis
  proof cases
    case (2 e)
    have "e = ETimedOut \<Longrightarrow> v = hb_outstanding" using hb_apply_current [OF assms(2,3)] 2 by auto
    then show ?thesis using timeouts_justified_snoc [of "pre @ hb_current v" e] assms(1) 2 out by auto
  qed (use assms(1) in simp)
qed

lemma hb_run_justified:
  assumes "hb_run ops v = (v', es)" "hb_ok v" "timeouts_justified (pre @ hb_current v)"
  shows "hb_ok v' \<and> timeouts_justified (pre @ hb_current v @ es)"
  using assms
proof (induction ops arbitrary: v es pre)
  case (Cons opn ops)
  obtain v1 es1 where one: "hb_apply opn v = (v1, es1)" by (cases "hb_apply opn v")
  obtain es2 where rest: "hb_run ops v1 = (v', es2)" "es = es1 @ es2"
    using Cons(2) one by (auto simp: Let_def split: prod.splits)
  obtain p where p: "hb_current v @ es1 = p @ hb_current v1" using hb_apply_current [OF Cons(3) one] by blast
  have ok: "hb_ok v1" using hb_apply_ok [OF Cons(3), of opn] one by simp
  have "timeouts_justified ((pre @ p) @ hb_current v1)"
    using timeouts_justified_append [OF Cons(4,3) one] p by simp
  from Cons.IH [OF rest(1) ok this] show ?case using rest(2) p by (metis append.assoc)
qed (use assms in simp)

section \<open>Properties\<close>

text \<open>
  C17. The compare-and-swap loops are atomic: whatever the other goroutines do between the accesses, a
  \<open>Tick\<close> or \<open>Reply\<close> that returns has made exactly the transition of the sequential specification on
  the state at its deciding access; and a loop that has not returned saw, in every iteration, another
  goroutine change the state between its load and its swap.
\<close>

theorem heartbeat_loops_atomic:
  "(\<forall>v v' r. Tick obs = Some (v, v', r) \<longrightarrow> tick_atomic v = (v', r)) \<and>
   (\<forall>v v' r. Reply obs = Some (v, v', r) \<longrightarrow> reply_atomic v = (v', r)) \<and>
   (\<forall>l c. (l, c) \<in> set obs \<longrightarrow> hb_ok l \<longrightarrow> Tick obs = None \<or> Reply obs = None \<longrightarrow> l \<noteq> c)"
  using Tick_atomic Reply_atomic Tick_interference Reply_interference by blast

theorem heartbeat_loops_atomic_witness:
  "Tick [(hb_idle, hb_queued), (hb_queued, hb_idle)] = Some (hb_queued, hb_queued, TickPending) \<and>
   tick_atomic hb_queued = (hb_queued, TickPending) \<and>
   Reply [(hb_writing, hb_outstanding), (hb_outstanding, hb_outstanding)] = Some (hb_outstanding, hb_idle, True) \<and>
   reply_atomic hb_outstanding = (hb_idle, True)"
proof -
  have t: "Tick [(hb_idle, hb_queued), (hb_queued, hb_idle)] = Some (hb_queued, hb_queued, TickPending)"
    and r: "Reply [(hb_writing, hb_outstanding), (hb_outstanding, hb_outstanding)] = Some (hb_outstanding, hb_idle, True)"
    by (simp_all add: CompareAndSwap_def hb_defs)
  show ?thesis
    using t r heartbeat_loops_atomic [of "[(hb_idle, hb_queued), (hb_queued, hb_idle)]"]
      heartbeat_loops_atomic [of "[(hb_writing, hb_outstanding), (hb_outstanding, hb_outstanding)]"] by blast
qed



end
