(* ===== verification/Channels.thy ===== *)
theory Channels
  imports Prelude
begin

text \<open>
  Buffered Go channels and the contract of a bounded FIFO. The contract is a locale: what it gives its
  users is that, over any sequence of puts and takes, the values taken followed by the values still
  held are exactly the values accepted, in order, and that never more than the capacity is held. It is
  interpreted on channels here and on the callback queue in \<open>Queue\<close>.
\<close>

section \<open>The contract\<close>

datatype 'a fifo_op = Put 'a | Take

locale bounded_fifo =
  fixes contents :: "'q \<Rightarrow> 'a list" and capacity :: "'q \<Rightarrow> nat" and good :: "'q \<Rightarrow> bool"
    and put :: "'a \<Rightarrow> 'q \<Rightarrow> 'q option" and get :: "'q \<Rightarrow> ('a \<times> 'q) option"
  assumes put_some: "good q \<Longrightarrow> put x q = Some q' \<Longrightarrow>
      good q' \<and> contents q' = contents q @ [x] \<and> capacity q' = capacity q \<and> length (contents q) < capacity q"
    and put_none: "good q \<Longrightarrow> put x q = None \<Longrightarrow> capacity q \<le> length (contents q)"
    and get_some: "good q \<Longrightarrow> get q = Some (x, q') \<Longrightarrow>
      good q' \<and> contents q = x # contents q' \<and> capacity q' = capacity q"
    and get_none: "good q \<Longrightarrow> get q = None \<Longrightarrow> contents q = []"
begin

fun fifo_run :: "'a fifo_op list \<Rightarrow> 'q \<Rightarrow> 'a list \<times> 'a list \<times> 'q" where
  "fifo_run [] q = ([], [], q)"
| "fifo_run (Put x # ops) q =
     (case put x q of
        None \<Rightarrow> fifo_run ops q
      | Some q' \<Rightarrow> (case fifo_run ops q' of (acc, taken, r) \<Rightarrow> (x # acc, taken, r)))"
| "fifo_run (Take # ops) q =
     (case get q of
        None \<Rightarrow> fifo_run ops q
      | Some (x, q') \<Rightarrow> (case fifo_run ops q' of (acc, taken, r) \<Rightarrow> (acc, x # taken, r)))"

lemma fifo_run_order:
  assumes "good q" "fifo_run ops q = (acc, taken, r)"
  shows "good r \<and> capacity r = capacity q \<and> contents q @ acc = taken @ contents r"
  using assms
proof (induction ops q arbitrary: acc taken r rule: fifo_run.induct)
  case (2 x ops q)
  show ?case
  proof (cases "put x q")
    case (Some q')
    with 2(3,4) put_some [OF 2(3) Some] obtain acc' where
      rest: "fifo_run ops q' = (acc', taken, r)" "acc = x # acc'" by (auto split: prod.splits)
    from 2(2) [OF Some _ rest(1)] put_some [OF 2(3) Some] rest(2) show ?thesis by auto
  qed (use 2 in auto)
next
  case (3 ops q)
  show ?case
  proof (cases "get q")
    case (Some p)
    obtain x q' where p: "p = (x, q')" by (cases p)
    note some = Some [unfolded p]
    with 3(3,4) obtain taken' where
      rest: "fifo_run ops q' = (acc, taken', r)" "taken = x # taken'" by (auto split: prod.splits)
    from 3(2) [OF Some p [symmetric] _ rest(1)] get_some [OF 3(3) some] rest(2) p show ?thesis by auto
  qed (use 3 in auto)
qed auto

lemma fifo_run_bounded:
  assumes "good q" "fifo_run ops q = (acc, taken, r)" "length (contents q) \<le> capacity q"
  shows "length (contents r) \<le> capacity r"
  using assms
proof (induction ops q arbitrary: acc taken r rule: fifo_run.induct)
  case (2 x ops q)
  show ?case
  proof (cases "put x q")
    case (Some q')
    then show ?thesis using 2 put_some [OF 2(3) Some] by (auto split: prod.splits)
  qed (use 2 in auto)
next
  case (3 ops q)
  show ?case
  proof (cases "get q")
    case (Some p)
    obtain x q' where p: "p = (x, q')" by (cases p)
    show ?thesis using 3 Some p get_some [OF 3(3), of x q'] by (auto split: prod.splits)
  qed (use 3 in auto)
qed auto

text \<open>Without a take in between, the accepted values come out in the order they went in.\<close>

lemma fifo_run_empty:
  assumes "good q" "contents q = []" "fifo_run ops q = (acc, taken, r)"
  shows "taken = take (length taken) acc"
  using fifo_run_order [OF assms(1,3)] assms(2) by simp

end

section \<open>Buffered channels\<close>

record 'a chan =
  ch_cap :: nat
  ch_buf :: "'a list"
  ch_closed :: bool

definition make_chan :: "nat \<Rightarrow> 'a chan" where
  "make_chan n = \<lparr>ch_cap = n, ch_buf = [], ch_closed = False\<rparr>"

text \<open>
  A send that may not wait (a \<open>select\<close> with a default): it stores the value, or there is no room, or
  the channel is closed and the send panics.
\<close>

datatype 'a sent = Sent "'a chan" | NoRoom | SendPanic

definition chan_send :: "'a \<Rightarrow> 'a chan \<Rightarrow> 'a sent" where
  "chan_send x c =
     (if ch_closed c then SendPanic
      else if length (ch_buf c) < ch_cap c then Sent (c\<lparr>ch_buf := ch_buf c @ [x]\<rparr>) else NoRoom)"

text \<open>A receive: the oldest value, the zero value of a closed and drained channel, or nothing yet.\<close>

datatype 'a received = Received 'a "'a chan" | RecvClosed | RecvWait

definition chan_recv :: "'a chan \<Rightarrow> 'a received" where
  "chan_recv c =
     (case ch_buf c of
        x # xs \<Rightarrow> Received x (c\<lparr>ch_buf := xs\<rparr>)
      | [] \<Rightarrow> if ch_closed c then RecvClosed else RecvWait)"

definition chan_put :: "'a \<Rightarrow> 'a chan \<Rightarrow> 'a chan option" where
  "chan_put x c = (case chan_send x c of Sent c' \<Rightarrow> Some c' | _ \<Rightarrow> None)"

definition chan_get :: "'a chan \<Rightarrow> ('a \<times> 'a chan) option" where
  "chan_get c = (case chan_recv c of Received x c' \<Rightarrow> Some (x, c') | _ \<Rightarrow> None)"

interpretation chan: bounded_fifo ch_buf ch_cap "\<lambda>c. \<not> ch_closed c" chan_put chan_get
  by unfold_locales
    (auto simp: chan_put_def chan_get_def chan_send_def chan_recv_def split: if_splits list.splits)

lemma chan_put_Some_iff:
  "chan_put x q = Some q' \<longleftrightarrow> \<not> ch_closed q \<and> length (ch_buf q) < ch_cap q \<and> q' = q\<lparr>ch_buf := ch_buf q @ [x]\<rparr>"
  by (auto simp: chan_put_def chan_send_def)

lemma chan_get_Some_iff: "chan_get q = Some (x, q') \<longleftrightarrow> (\<exists>xs. ch_buf q = x # xs \<and> q' = q\<lparr>ch_buf := xs\<rparr>)"
  by (auto simp: chan_get_def chan_recv_def split: list.splits)

lemma butlast_append_snoc [simp]: "butlast (xs @ ys @ [x]) = xs @ ys"
  by (simp add: butlast_append)

end
