(* ===== verification/Ws_Channel.thy ===== *)
theory Ws_Channel
  imports Ws_Server Heartbeat Channels
begin

text \<open>
  \<open>network/websocket/channel.go\<close>: the send queue, the writer and the closing of a WebSocket connection.
  The Gorilla connection is the environment, a record of functions on the whole state. The sections under
  \<open>sendMu\<close> and the branches of a \<open>select\<close> are functions of their own; the goroutines that call them are the step
  relation below. \<open>wch_ctxErr\<close> is the error of the channel's context; \<open>wch_connOnce\<close>: the body of \<open>connOnce\<close> ran;
  \<open>wch_writerDone\<close> counts how often the channel was closed, a second close being a panic.
\<close>

section \<open>State\<close>

record outboundFrame =
  of_body :: bytes
  of_payloadBytes :: "64 word"
  of_heartbeat :: bool
  of_done :: bool

record ws_channel =
  wch_codec :: ws_codec
  wch_config :: ChannelConfig
  wch_ctxErr :: "goerr option"
  wch_outbound :: "outboundFrame chan"
  wch_heartbeat :: hb
  wch_closed :: bool
  wch_connOnce :: bool
  wch_connErr :: "goerr option"
  wch_writerErr :: "goerr option"
  wch_writerDone :: nat
  wch_pendingPayloadBytes :: "64 word"
  wch_queueDropped :: "64 word"

type_synonym 'a wch = "'a ws_channel_scheme"

definition ws_newChannel :: "goerr option \<Rightarrow> ws_codec \<Rightarrow> ChannelConfig \<Rightarrow> ws_channel" where
  "ws_newChannel ctxErr codec config =
     \<lparr>wch_codec = codec, wch_config = config, wch_ctxErr = ctxErr, wch_outbound = make_chan (nat (cc_SendQueueSize config)),
      wch_heartbeat = hb_idle, wch_closed = False, wch_connOnce = False, wch_connErr = None, wch_writerErr = None, wch_writerDone = 0,
      wch_pendingPayloadBytes = 0, wch_queueDropped = 0\<rparr>"

record SendStats =
  ss_QueueDepth :: nat
  ss_QueueCapacity :: nat
  ss_PendingPayloadBytes :: "64 word"
  ss_QueueDropped :: "64 word"
  ss_Closed :: bool

definition ws_SendStats :: "'a wch \<Rightarrow> SendStats" where
  "ws_SendStats ch =
     \<lparr>ss_QueueDepth = length (ch_buf (wch_outbound ch)), ss_QueueCapacity = ch_cap (wch_outbound ch),
      ss_PendingPayloadBytes = wch_pendingPayloadBytes ch, ss_QueueDropped = wch_queueDropped ch, ss_Closed = wch_closed ch\<rparr>"

section \<open>Sending\<close>

text \<open>
  The frame is encoded under the lock, once there is room; \<open>encode\<close> may change a state \<open>'m\<close> of its own (the
  shared encoding of a prepared message).
\<close>

definition ws_enqueueFrame ::
  "nat \<Rightarrow> bool \<Rightarrow> ('m \<Rightarrow> 'm \<times> (goerr + bytes)) \<Rightarrow> 'm \<Rightarrow> 'a wch \<Rightarrow> 'a wch \<times> 'm \<times> goerr option" where
  "ws_enqueueFrame payloadBytes heartbeat encode m ch =
     (let q = wch_outbound ch in
      if wch_closed ch then (ch, m, Some (NetErr ErrConnectionClosed))
      else if length (ch_buf q) = ch_cap q then
        (ch\<lparr>wch_queueDropped := wch_queueDropped ch + 1\<rparr>, m, Some (NetErr ErrSendQueueFull))
      else case encode m of
        (m, Inl err) \<Rightarrow> (ch, m, Some err)
      | (m, Inr body) \<Rightarrow>
          (ch\<lparr>wch_pendingPayloadBytes := wch_pendingPayloadBytes ch + word_of_nat payloadBytes,
              wch_outbound := q\<lparr>ch_buf := ch_buf q @
                [\<lparr>of_body = body, of_payloadBytes = word_of_nat payloadBytes, of_heartbeat = heartbeat, of_done = False\<rparr>]\<rparr>\<rparr>, m, None))"

definition ws_enqueueProto :: "Proto option \<Rightarrow> bool \<Rightarrow> 'a wch \<Rightarrow> 'a wch \<times> goerr option" where
  "ws_enqueueProto p heartbeat ch =
     (case p of
        None \<Rightarrow> (ch, Some (NetErr ErrNilPayload))
      | Some m \<Rightarrow>
          (case ws_enqueueFrame (length (Body m)) heartbeat (\<lambda>u. (u, marshalFrame (wch_codec ch) p)) () ch of (ch, _, err) \<Rightarrow> (ch, err)))"

definition ws_SendProto :: "Proto option \<Rightarrow> 'a wch \<Rightarrow> 'a wch \<times> goerr option" where
  "ws_SendProto p ch = ws_enqueueProto p False ch"

definition ws_sendHeartbeat :: "'a wch \<Rightarrow> 'a wch \<times> goerr option" where
  "ws_sendHeartbeat ch = ws_enqueueProto (Some (zeroProto\<lparr>Op := OpHeartbeat\<rparr>)) True ch"

text \<open>\<open>marshal\<close> is the protobuf encoding of a message.\<close>

definition ws_SendPrepared ::
  "(Proto \<Rightarrow> goerr + bytes) \<Rightarrow> PreparedProto option \<Rightarrow> 'a wch \<Rightarrow> 'a wch \<times> PreparedProto option \<times> goerr option" where
  "ws_SendPrepared marshal message ch =
     (case message of
        None \<Rightarrow> (ch, message, Some (NetErr ErrNilPayload))
      | Some _ \<Rightarrow>
          (case prepared_Message message of
             None \<Rightarrow> (ch, message, Some (NetErr ErrNilPayload))
           | Some p \<Rightarrow>
               if \<not> canOptimizeFrames (wch_codec ch) then (case ws_SendProto (Some p) ch of (ch, err) \<Rightarrow> (ch, message, err))
               else ws_enqueueFrame (length (Body p)) False
                 (\<lambda>m. case prepared_Marshal marshal m of
                        (m, Inl err) \<Rightarrow> (m, Inl err)
                      | (m, Inr body) \<Rightarrow> (m, case validateFrameBody body of Some err \<Rightarrow> Inl err | None \<Rightarrow> Inr body))
                 message ch))"

section \<open>Closing and writing\<close>

record 'w wc_env =
  we_SetReadDeadline :: "duration \<Rightarrow> 'w \<Rightarrow> 'w \<times> goerr option"
  we_NextReader :: "'w \<Rightarrow> 'w \<times> (goerr + (bool \<times> reader))"
  we_ReadAll :: "reader \<Rightarrow> (goerr + bytes) option"
  we_SetWriteDeadline :: "duration \<Rightarrow> 'w \<Rightarrow> 'w \<times> goerr option"
  we_WriteMessage :: "bytes \<Rightarrow> 'w \<Rightarrow> 'w \<times> goerr option"
  we_WriteControl :: "bytes \<Rightarrow> duration \<Rightarrow> 'w \<Rightarrow> 'w"
  we_Close :: "'w \<Rightarrow> 'w \<times> goerr option"
  we_load :: "'w \<Rightarrow> hb"

definition ws_markClosed :: "'a wch \<Rightarrow> 'a wch" where
  "ws_markClosed ch = ch\<lparr>wch_closed := True\<rparr>"

definition ws_cancel :: "'a wch \<Rightarrow> 'a wch" where
  "ws_cancel ch = (case wch_ctxErr ch of None \<Rightarrow> ch\<lparr>wch_ctxErr := Some ctx_canceled\<rparr> | Some _ \<Rightarrow> ch)"

definition ws_closeConnection :: "'a wch wc_env \<Rightarrow> string \<Rightarrow> 'a wch \<Rightarrow> 'a wch \<times> goerr option" where
  "ws_closeConnection env reason ch =
     (if wch_connOnce ch then (ch, wch_connErr ch)
      else let ch = we_WriteControl env (formatCloseFrame reason) (cc_WriteTimeout (wch_config ch)) (ch\<lparr>wch_connOnce := True\<rparr>) in
        case we_Close env ch of (ch, err) \<Rightarrow> (ch\<lparr>wch_connErr := err\<rparr>, err))"

definition ws_closeWithReason :: "'a wch wc_env \<Rightarrow> string \<Rightarrow> 'a wch \<Rightarrow> 'a wch \<times> goerr option" where
  "ws_closeWithReason env reason ch =
     (case ws_closeConnection env reason (ws_markClosed ch) of (ch, err) \<Rightarrow> (ws_cancel ch, err))"

definition ws_Close :: "'a wch wc_env \<Rightarrow> 'a wch \<Rightarrow> 'a wch \<times> goerr option" where
  "ws_Close env ch = ws_closeWithReason env ''channel closed'' ch"

definition ws_abort :: "'a wch wc_env \<Rightarrow> 'a wch \<Rightarrow> 'a wch \<times> goerr option" where
  "ws_abort env ch = (case we_Close env (ws_markClosed ch) of (ch, err) \<Rightarrow> (ws_cancel ch, err))"

definition ws_closeOnContext :: "'a wch wc_env \<Rightarrow> 'a wch \<Rightarrow> 'a wch" where
  "ws_closeOnContext env ch = fst (we_Close env (ws_markClosed ch))"

definition ws_finishWriter :: "'a wch wc_env \<Rightarrow> goerr option \<Rightarrow> 'a wch \<Rightarrow> 'a wch" where
  "ws_finishWriter env err ch =
     (case ws_closeConnection env ''writer stopped'' (ws_markClosed ch) of
        (ch, closeErr) \<Rightarrow>
          let ch = ws_cancel ch in ch\<lparr>wch_writerErr := errors_join [err, closeErr], wch_writerDone := wch_writerDone ch + 1\<rparr>)"

definition ws_writerError :: "'a wch \<Rightarrow> goerr" where
  "ws_writerError ch = (case wch_writerErr ch of Some err \<Rightarrow> err | None \<Rightarrow> NetErr ErrConnectionClosed)"

text \<open>
  \<open>CloseWithProto\<close> up to its \<open>select\<close> (an answer ends it, otherwise the last frame is to be queued), and its
  branches: the frame is taken, the writer was done or the context was.
\<close>

definition ws_CloseWithProto :: "Proto option \<Rightarrow> 'a wch \<Rightarrow> 'a wch \<times> (goerr + outboundFrame)" where
  "ws_CloseWithProto p ch =
     (case marshalFrame (wch_codec ch) p of
        Inl err \<Rightarrow> (ch, Inl err)
      | Inr body \<Rightarrow>
          if wch_closed ch then (ch, Inl (NetErr ErrConnectionClosed))
          else let size = word_of_nat (case p of None \<Rightarrow> 0 | Some m \<Rightarrow> length (Body m)) in
            (ch\<lparr>wch_closed := True, wch_pendingPayloadBytes := wch_pendingPayloadBytes ch + size\<rparr>,
             Inr \<lparr>of_body = body, of_payloadBytes = size, of_heartbeat = False, of_done = True\<rparr>))"

definition ws_final_sent :: "outboundFrame \<Rightarrow> 'a wch \<Rightarrow> 'a wch option" where
  "ws_final_sent frame ch =
     (case chan_put frame (wch_outbound ch) of None \<Rightarrow> None | Some q \<Rightarrow> Some (ch\<lparr>wch_outbound := q\<rparr>))"

definition ws_final_given_up :: "'a wch wc_env \<Rightarrow> goerr option \<Rightarrow> outboundFrame \<Rightarrow> 'a wch \<Rightarrow> 'a wch \<times> goerr option" where
  "ws_final_given_up env ctxErr frame ch =
     (let ch = ch\<lparr>wch_pendingPayloadBytes := wch_pendingPayloadBytes ch - of_payloadBytes frame\<rparr> in
      case ctxErr of
        None \<Rightarrow> (ch, Some (ws_writerError ch))
      | Some err \<Rightarrow> (case ws_abort env ch of (ch, abortErr) \<Rightarrow> (ch, errors_join [Some err, abortErr])))"

text \<open>
  \<open>waitFinal\<close>: the writer's result was there, or the writer was done or the context was first; the result is
  then looked for once more.
\<close>

datatype ws_final_wait = WsResult "goerr option" | WsWriterDone "goerr option option" | WsCtxDone goerr "goerr option option"

definition ws_waitFinal :: "'a wch wc_env \<Rightarrow> ws_final_wait \<Rightarrow> 'a wch \<Rightarrow> 'a wch \<times> goerr option" where
  "ws_waitFinal env ev ch =
     (case ev of
        WsResult r \<Rightarrow> (ch, r)
      | WsWriterDone (Some r) \<Rightarrow> (ch, r)
      | WsWriterDone None \<Rightarrow> (ch, Some (ws_writerError ch))
      | WsCtxDone err (Some r) \<Rightarrow> (ch, r)
      | WsCtxDone err None \<Rightarrow> (case ws_abort env ch of (ch, abortErr) \<Rightarrow> (ch, errors_join [Some err, abortErr])))"

definition ws_writeMessage :: "'a wch wc_env \<Rightarrow> bytes \<Rightarrow> 'a wch \<Rightarrow> 'a wch \<times> goerr option" where
  "ws_writeMessage env body ch =
     (case we_SetWriteDeadline env (cc_WriteTimeout (wch_config ch)) ch of
        (ch, Some err) \<Rightarrow> (ch, Some err)
      | (ch, None) \<Rightarrow> we_WriteMessage env body ch)"

text \<open>\<open>we_load\<close> is the load of the heartbeat word after a failed swap.\<close>

definition ws_writeOutbound :: "'a wch wc_env \<Rightarrow> outboundFrame \<Rightarrow> 'a wch \<Rightarrow> 'a wch \<times> goerr option" where
  "ws_writeOutbound env frame ch =
     (let (hb, begun) = (if of_heartbeat frame then BeginWrite (wch_heartbeat ch) else (wch_heartbeat ch, True)) in
      if \<not> begun then (ch, Some (NetErr ErrInvalidHeartbeatState))
      else case ws_writeMessage env (of_body frame) (ch\<lparr>wch_heartbeat := hb\<rparr>) of
        (ch, Some err) \<Rightarrow> (ch, Some err)
      | (ch, None) \<Rightarrow>
          if \<not> of_heartbeat frame then (ch, None)
          else let (hb, finished) = FinishWrite (wch_heartbeat ch) (we_load env ch) in
            (ch\<lparr>wch_heartbeat := hb\<rparr>, if finished then None else Some (NetErr ErrInvalidHeartbeatState)))"

definition ws_take :: "'a wch \<Rightarrow> (outboundFrame \<times> 'a wch) option" where
  "ws_take ch =
     (case chan_get (wch_outbound ch) of
        None \<Rightarrow> None
      | Some (frame, q) \<Rightarrow>
          Some (frame, ch\<lparr>wch_outbound := q, wch_pendingPayloadBytes := wch_pendingPayloadBytes ch - of_payloadBytes frame\<rparr>))"

text \<open>
  What \<open>writeLoop\<close> does with a frame it took: the error it ends with, if it ends, and the result it reports
  to the sender of a last frame.
\<close>

definition ws_write_turn ::
  "'a wch wc_env \<Rightarrow> outboundFrame \<Rightarrow> 'a wch \<Rightarrow> 'a wch \<times> goerr option option \<times> goerr option option" where
  "ws_write_turn env frame ch =
     (case ws_writeOutbound env frame ch of
        (ch, writeErr) \<Rightarrow>
          if of_done frame then
            (case ws_closeWithReason env ''kicked'' ch of
               (ch, closeErr) \<Rightarrow> let err = errors_join [writeErr, closeErr] in (ch, Some err, Some err))
          else (case writeErr of
                  None \<Rightarrow> (ch, None, None)
                | Some _ \<Rightarrow>
                    (case ws_closeWithReason env ''write failed'' ch of
                       (ch, closeErr) \<Rightarrow> (ch, Some (errors_join [writeErr, closeErr]), None))))"

text \<open>\<open>None\<close> while the read waits. Any codec but the default one reads the whole message, which the read limit of the connection bounds.\<close>

definition ws_readFrame :: "'a wch wc_env \<Rightarrow> 'a wch \<Rightarrow> ('a wch \<times> (goerr + Proto)) option" where
  "ws_readFrame env ch =
     (case we_SetReadDeadline env (cc_ReadDeadline (wch_config ch)) ch of
        (ch, Some err) \<Rightarrow> Some (ch, Inl err)
      | (ch, None) \<Rightarrow>
          (case we_NextReader env ch of
             (ch, Inl err) \<Rightarrow> Some (ch, Inl err)
           | (ch, Inr (binary, reader)) \<Rightarrow>
               if \<not> binary then Some (ch, Inl (Fresh ''websocket: binary message required''))
               else (case (if canOptimizeFrames (wch_codec ch) then readBoundedFrame reader else we_ReadAll env reader) of
                       None \<Rightarrow> None
                     | Some (Inl err) \<Rightarrow> Some (ch, Inl err)
                     | Some (Inr body) \<Rightarrow> Some (ch, unmarshalFrame (wch_codec ch) body))))"

section \<open>The goroutines of a channel\<close>

text \<open>
  The calls of the connection leave the channel alone; what other goroutines do meanwhile are steps of
  their own.
\<close>

definition ws_quiet :: "ws_channel wc_env \<Rightarrow> bool" where
  "ws_quiet env =
     ((\<forall>ch. fst (we_Close env ch) = ch) \<and> (\<forall>b d ch. we_WriteControl env b d ch = ch) \<and>
      (\<forall>d ch. fst (we_SetWriteDeadline env d ch) = ch) \<and> (\<forall>b ch. fst (we_WriteMessage env b ch) = ch))"

datatype ws_writer = WriterIdle | WriterHas outboundFrame | WriterEnds "goerr option" | WriterGone

text \<open>
  \<open>wy_final\<close> is the last frame a close waits to queue; \<open>wy_accepted\<close> and \<open>wy_taken\<close> record the frames queued and the
  frames the writer took.
\<close>

record ws_system =
  wy_ch :: ws_channel
  wy_writer :: ws_writer
  wy_final :: "outboundFrame option"
  wy_accepted :: "outboundFrame list"
  wy_taken :: "outboundFrame list"

inductive ws_step :: "ws_channel wc_env \<Rightarrow> ws_system \<Rightarrow> ws_system \<Rightarrow> bool" for env where
  w_enqueue: "ws_enqueueFrame n heartbeat encode (m :: PreparedProto option) (wy_ch s) = (c, m', err) \<Longrightarrow>
    ws_step env s (s\<lparr>wy_ch := c, wy_accepted := wy_accepted s @ (if err = None then [last (ch_buf (wch_outbound c))] else [])\<rparr>)"
| w_final: "ws_CloseWithProto p (wy_ch s) = (c, r) \<Longrightarrow>
    ws_step env s (s\<lparr>wy_ch := c, wy_final := (case r of Inl _ \<Rightarrow> wy_final s | Inr frame \<Rightarrow> Some frame)\<rparr>)"
| w_final_sent: "wy_final s = Some frame \<Longrightarrow> ws_final_sent frame (wy_ch s) = Some c \<Longrightarrow>
    ws_step env s (s\<lparr>wy_ch := c, wy_final := None, wy_accepted := wy_accepted s @ [frame]\<rparr>)"
| w_final_given_up: "wy_final s = Some frame \<Longrightarrow> ws_final_given_up env ctxErr frame (wy_ch s) = (c, err) \<Longrightarrow>
    ws_step env s (s\<lparr>wy_ch := c, wy_final := None\<rparr>)"
| w_wait: "ws_waitFinal env ev (wy_ch s) = (c, err) \<Longrightarrow> ws_step env s (s\<lparr>wy_ch := c\<rparr>)"
| w_take: "wy_writer s = WriterIdle \<Longrightarrow> ws_take (wy_ch s) = Some (frame, c) \<Longrightarrow>
    ws_step env s (s\<lparr>wy_ch := c, wy_writer := WriterHas frame, wy_taken := wy_taken s @ [frame]\<rparr>)"
| w_write: "wy_writer s = WriterHas frame \<Longrightarrow> ws_write_turn env frame (wy_ch s) = (c, ended, reported) \<Longrightarrow>
    ws_step env s (s\<lparr>wy_ch := c, wy_writer := (case ended of None \<Rightarrow> WriterIdle | Some err \<Rightarrow> WriterEnds err)\<rparr>)"
| w_ctx_done: "wy_writer s = WriterIdle \<Longrightarrow> wch_ctxErr (wy_ch s) \<noteq> None \<Longrightarrow>
    ws_step env s (s\<lparr>wy_writer := WriterEnds (wch_ctxErr (wy_ch s))\<rparr>)"
| w_finish: "wy_writer s = WriterEnds err \<Longrightarrow>
    ws_step env s (s\<lparr>wy_ch := ws_finishWriter env err (wy_ch s), wy_writer := WriterGone\<rparr>)"
| w_close: "ws_closeWithReason env reason (wy_ch s) = (c, err) \<Longrightarrow> ws_step env s (s\<lparr>wy_ch := c\<rparr>)"
| w_parent: "ws_step env s (s\<lparr>wy_ch := ws_cancel (wy_ch s)\<rparr>)"
| w_context: "wch_ctxErr (wy_ch s) \<noteq> None \<Longrightarrow> ws_step env s (s\<lparr>wy_ch := ws_closeOnContext env (wy_ch s)\<rparr>)"
| w_heartbeat: "ws_step env s (s\<lparr>wy_ch := (wy_ch s)\<lparr>wch_heartbeat := hb\<rparr>\<rparr>)"

definition ws_system_start :: "goerr option \<Rightarrow> ws_codec \<Rightarrow> ChannelConfig \<Rightarrow> ws_system" where
  "ws_system_start ctxErr codec config =
     \<lparr>wy_ch = ws_newChannel ctxErr codec config, wy_writer = WriterIdle, wy_final = None, wy_accepted = [], wy_taken = []\<rparr>"

definition ws_inv :: "ws_system \<Rightarrow> bool" where
  "ws_inv s =
     (let c = wy_ch s; q = wch_outbound c in
      \<not> ch_closed q \<and> length (ch_buf q) \<le> ch_cap q \<and>
      wch_writerDone c = of_bool (wy_writer s = WriterGone) \<and>
      wch_pendingPayloadBytes c = (case wy_final s of None \<Rightarrow> 0 | Some f \<Rightarrow> of_payloadBytes f) + sum_list (map of_payloadBytes (ch_buf q)) \<and>
      wy_accepted s = wy_taken s @ ch_buf q \<and>
      (\<forall>f. wy_final s = Some f \<longrightarrow> of_done f \<and> wch_closed c \<and> (\<forall>e\<in>set (wy_accepted s). \<not> of_done e)) \<and>
      (\<forall>e\<in>set (butlast (wy_accepted s)). \<not> of_done e) \<and>
      ((\<exists>e\<in>set (wy_accepted s). of_done e) \<longrightarrow> wch_closed c))"

text \<open>The operations that only close: the queue, its counters and the writer stay as they are.\<close>

definition closes_only :: "ws_channel \<Rightarrow> ws_channel \<Rightarrow> bool" where
  "closes_only c c' =
     (wch_outbound c' = wch_outbound c \<and> wch_writerDone c' = wch_writerDone c \<and>
      wch_pendingPayloadBytes c' = wch_pendingPayloadBytes c \<and> (wch_closed c \<longrightarrow> wch_closed c'))"

lemma closes_only_inv: "ws_inv s \<Longrightarrow> closes_only (wy_ch s) c \<Longrightarrow> ws_inv (s\<lparr>wy_ch := c\<rparr>)"
  by (simp add: ws_inv_def closes_only_def Let_def) blast

lemma closes_only_trans: "closes_only a b \<Longrightarrow> closes_only b c \<Longrightarrow> closes_only a c"
  by (simp add: closes_only_def)

lemma closes_only_simple [simp]:
  "closes_only c c" "closes_only c (ws_cancel c)" "closes_only c (ws_markClosed c)"
  "closes_only c (c\<lparr>wch_heartbeat := hb\<rparr>)" "closes_only c (c\<lparr>wch_connOnce := b\<rparr>)" "closes_only c (c\<lparr>wch_connErr := e\<rparr>)"
  by (auto simp: closes_only_def ws_cancel_def ws_markClosed_def split: option.splits)

lemma ws_quiet_fst:
  "ws_quiet env \<Longrightarrow> we_Close env c = (c', e) \<Longrightarrow> c' = c"
  "ws_quiet env \<Longrightarrow> we_SetWriteDeadline env d c = (c', e) \<Longrightarrow> c' = c"
  "ws_quiet env \<Longrightarrow> we_WriteMessage env b c = (c', e) \<Longrightarrow> c' = c"
  unfolding ws_quiet_def by (metis fst_conv)+

lemma ws_closeConnection_closes:
  assumes "ws_quiet env" "ws_closeConnection env reason c = (c', e)"
  shows "closes_only c c'"
proof (cases "wch_connOnce c")
  case True
  then show ?thesis using assms(2) by (simp add: ws_closeConnection_def)
next
  case False
  have wc: "we_WriteControl env b d ch = ch" for b d ch using assms(1) by (simp add: ws_quiet_def)
  obtain c1 e1 where 1: "we_Close env (c\<lparr>wch_connOnce := True\<rparr>) = (c1, e1)" by fastforce
  have "c' = c\<lparr>wch_connOnce := True, wch_connErr := e1\<rparr>"
    using assms(2) False 1 ws_quiet_fst(1) [OF assms(1) 1] by (auto simp: ws_closeConnection_def wc)
  then show ?thesis by (simp add: closes_only_def)
qed

lemma ws_closeWithReason_closes:
  assumes "ws_quiet env" "ws_closeWithReason env reason c = (c', e)"
  shows "closes_only c c'"
proof -
  obtain c1 where 1: "ws_closeConnection env reason (ws_markClosed c) = (c1, e)" "c' = ws_cancel c1"
    using assms(2) by (auto simp: ws_closeWithReason_def split: prod.splits)
  show ?thesis using ws_closeConnection_closes [OF assms(1) 1(1)] 1(2)
    by (meson closes_only_simple(2,3) closes_only_trans)
qed

lemma ws_abort_closes:
  assumes "ws_quiet env" "ws_abort env c = (c', e)"
  shows "closes_only c c'"
proof -
  obtain c1 where 1: "we_Close env (ws_markClosed c) = (c1, e)" "c' = ws_cancel c1"
    using assms(2) by (auto simp: ws_abort_def split: prod.splits)
  show ?thesis using ws_quiet_fst(1) [OF assms(1) 1(1)] 1(2) by (meson closes_only_simple(2,3) closes_only_trans)
qed

lemma ws_waitFinal_closes:
  assumes "ws_quiet env" "ws_waitFinal env ev c = (c', e)"
  shows "closes_only c c'"
  using assms(2) by (auto simp: ws_waitFinal_def split: ws_final_wait.splits option.splits prod.splits dest: ws_abort_closes [OF assms(1)])

lemma ws_writeOutbound_closes:
  assumes "ws_quiet env" "ws_writeOutbound env frame c = (c', e)"
  shows "closes_only c c'"
proof -
  have "c1 = c0" if "ws_writeMessage env b c0 = (c1, e1)" for b c0 c1 e1
  proof -
    obtain c2 e2 where 2: "we_SetWriteDeadline env (cc_WriteTimeout (wch_config c0)) c0 = (c2, e2)" by fastforce
    have "c2 = c0" by (rule ws_quiet_fst(2) [OF assms(1) 2])
    then show ?thesis using that 2 ws_quiet_fst(3) [OF assms(1)] by (cases e2) (auto simp: ws_writeMessage_def)
  qed
  then show ?thesis using assms(2)
    by (fastforce simp: ws_writeOutbound_def Let_def closes_only_def split: prod.splits if_splits option.splits)
qed

lemma ws_write_turn_closes:
  assumes "ws_quiet env" "ws_write_turn env frame c = (c', ended, reported)"
  shows "closes_only c c'"
proof -
  obtain c1 e1 where 1: "ws_writeOutbound env frame c = (c1, e1)" by fastforce
  have "closes_only c1 c'" using assms(2) 1
    by (auto simp: ws_write_turn_def Let_def split: if_splits prod.splits option.splits dest: ws_closeWithReason_closes [OF assms(1)])
  then show ?thesis using ws_writeOutbound_closes [OF assms(1) 1] closes_only_trans by blast
qed

lemma ws_enqueueFrame_cases:
  assumes "ws_enqueueFrame n heartbeat encode m c = (c', m', err)"
  obtains (refused) "err \<noteq> None" "closes_only c c'"
  | (queued) body where "err = None" "\<not> wch_closed c" "length (ch_buf (wch_outbound c)) \<noteq> ch_cap (wch_outbound c)"
      "c' = c\<lparr>wch_pendingPayloadBytes := wch_pendingPayloadBytes c + word_of_nat n,
         wch_outbound := (wch_outbound c)\<lparr>ch_buf := ch_buf (wch_outbound c) @
           [\<lparr>of_body = body, of_payloadBytes = word_of_nat n, of_heartbeat = heartbeat, of_done = False\<rparr>]\<rparr>\<rparr>"
proof -
  obtain m1 r where r: "encode m = (m1, r)" by fastforce
  show ?thesis
  proof (cases "wch_closed c \<or> length (ch_buf (wch_outbound c)) = ch_cap (wch_outbound c) \<or> (\<exists>e. r = Inl e)")
    case True
    then have "err \<noteq> None" "closes_only c c'" using assms r
      by (auto simp: ws_enqueueFrame_def Let_def closes_only_def split: if_splits)
    then show ?thesis by (rule refused)
  next
    case False
    then obtain body where "r = Inr body" by (cases r) auto
    then show ?thesis using False assms r queued by (auto simp: ws_enqueueFrame_def Let_def)
  qed
qed

lemma ws_enqueue_inv:
  assumes "ws_inv s" "ws_enqueueFrame n heartbeat encode m (wy_ch s) = (c, m', err)"
  shows "ws_inv (s\<lparr>wy_ch := c, wy_accepted := wy_accepted s @ (if err = None then [last (ch_buf (wch_outbound c))] else [])\<rparr>)"
  using assms(2)
proof (cases rule: ws_enqueueFrame_cases)
  case refused
  then show ?thesis using closes_only_inv [OF assms(1)] by auto
next
  case (queued body)
  then have "\<forall>e\<in>set (wy_accepted s). \<not> of_done e" "wy_final s = None" using assms(1) by (auto simp: ws_inv_def Let_def)
  then show ?thesis using assms(1) queued by (auto simp: ws_inv_def Let_def add.assoc)
qed

lemma ws_CloseWithProto_inv:
  assumes "ws_inv s" "ws_CloseWithProto p (wy_ch s) = (c, r)"
  shows "ws_inv (s\<lparr>wy_ch := c, wy_final := (case r of Inl _ \<Rightarrow> wy_final s | Inr frame \<Rightarrow> Some frame)\<rparr>)"
proof (cases r)
  case (Inl e)
  then have "c = wy_ch s" using assms(2) by (auto simp: ws_CloseWithProto_def Let_def split: sum.splits if_splits)
  then show ?thesis using assms(1) Inl by simp
next
  case (Inr frame)
  then have c: "\<not> wch_closed (wy_ch s)" "of_done frame"
    "c = (wy_ch s)\<lparr>wch_closed := True, wch_pendingPayloadBytes := wch_pendingPayloadBytes (wy_ch s) + of_payloadBytes frame\<rparr>"
    using assms(2) by (auto simp: ws_CloseWithProto_def Let_def split: sum.splits if_splits)
  then have "\<forall>e\<in>set (wy_accepted s). \<not> of_done e" "wy_final s = None" using assms(1) by (auto simp: ws_inv_def Let_def)
  then show ?thesis using assms(1) Inr c by (simp add: ws_inv_def Let_def add.commute)
qed

lemma ws_final_sent_inv:
  assumes "ws_inv s" "wy_final s = Some frame" "ws_final_sent frame (wy_ch s) = Some c"
  shows "ws_inv (s\<lparr>wy_ch := c, wy_final := None, wy_accepted := wy_accepted s @ [frame]\<rparr>)"
proof -
  have "\<not> ch_closed (wch_outbound (wy_ch s))" "length (ch_buf (wch_outbound (wy_ch s))) < ch_cap (wch_outbound (wy_ch s))"
    "c = (wy_ch s)\<lparr>wch_outbound := (wch_outbound (wy_ch s))\<lparr>ch_buf := ch_buf (wch_outbound (wy_ch s)) @ [frame]\<rparr>\<rparr>"
    using assms(3) by (auto simp: ws_final_sent_def chan_put_def chan_send_def split: if_splits)
  then show ?thesis using assms(1,2) by (auto simp: ws_inv_def Let_def)
qed

lemma ws_final_given_up_inv:
  assumes "ws_inv s" "ws_quiet env" "wy_final s = Some frame" "ws_final_given_up env ctxErr frame (wy_ch s) = (c, err)"
  shows "ws_inv (s\<lparr>wy_ch := c, wy_final := None\<rparr>)"
proof -
  let ?c = "(wy_ch s)\<lparr>wch_pendingPayloadBytes := wch_pendingPayloadBytes (wy_ch s) - of_payloadBytes frame\<rparr>"
  have "closes_only ?c c" using assms(4)
    by (auto simp: ws_final_given_up_def Let_def split: option.splits prod.splits dest: ws_abort_closes [OF assms(2)])
  moreover have "ws_inv (s\<lparr>wy_ch := ?c, wy_final := None\<rparr>)" using assms(1,3) by (simp add: ws_inv_def Let_def)
  ultimately show ?thesis using closes_only_inv [of "s\<lparr>wy_ch := ?c, wy_final := None\<rparr>" c] by (cases s) simp
qed

lemma ws_take_inv:
  assumes "ws_inv s" "wy_writer s = WriterIdle" "ws_take (wy_ch s) = Some (frame, c)"
  shows "ws_inv (s\<lparr>wy_ch := c, wy_writer := WriterHas frame, wy_taken := wy_taken s @ [frame]\<rparr>)"
proof -
  obtain xs where "ch_buf (wch_outbound (wy_ch s)) = frame # xs"
    "c = (wy_ch s)\<lparr>wch_outbound := (wch_outbound (wy_ch s))\<lparr>ch_buf := xs\<rparr>,
      wch_pendingPayloadBytes := wch_pendingPayloadBytes (wy_ch s) - of_payloadBytes frame\<rparr>"
    using assms(3) by (auto simp: ws_take_def chan_get_def chan_recv_def split: list.splits if_splits)
  then show ?thesis using assms(1,2) by (simp add: ws_inv_def Let_def) blast
qed

lemma ws_writer_inv:
  "ws_inv s \<Longrightarrow> wy_writer s \<noteq> WriterGone \<Longrightarrow> writer \<noteq> WriterGone \<Longrightarrow> ws_inv (s\<lparr>wy_writer := writer\<rparr>)"
  by (simp add: ws_inv_def Let_def) blast

lemma ws_finishWriter_inv:
  assumes "ws_inv s" "ws_quiet env" "wy_writer s = WriterEnds err"
  shows "ws_inv (s\<lparr>wy_ch := ws_finishWriter env err (wy_ch s), wy_writer := WriterGone\<rparr>)"
proof -
  obtain c1 e1 where 1: "ws_closeConnection env ''writer stopped'' (ws_markClosed (wy_ch s)) = (c1, e1)" by fastforce
  have "closes_only (wy_ch s) (ws_cancel c1)"
    by (meson ws_closeConnection_closes [OF assms(2) 1] closes_only_simple(2,3) closes_only_trans)
  from closes_only_inv [OF assms(1) this] show ?thesis using assms(3) 1
    by (simp add: ws_inv_def Let_def ws_finishWriter_def) blast
qed

lemma ws_step_inv: "ws_step env s s' \<Longrightarrow> ws_quiet env \<Longrightarrow> ws_inv s \<Longrightarrow> ws_inv s'"
proof (induction rule: ws_step.induct)
  case (w_wait ev s c err)
  then show ?case using closes_only_inv ws_waitFinal_closes by blast
next
  case (w_write s frame c ended reported)
  then have "ws_inv (s\<lparr>wy_ch := c\<rparr>)" using closes_only_inv ws_write_turn_closes by blast
  then show ?case using ws_writer_inv [of "s\<lparr>wy_ch := c\<rparr>"] w_write(1) by (simp split: option.split)
next
  case (w_ctx_done s)
  then show ?case by (simp add: ws_writer_inv)
next
  case (w_close reason s c err)
  then show ?case using closes_only_inv ws_closeWithReason_closes by blast
next
  case (w_context s)
  obtain c1 e1 where 1: "we_Close env (ws_markClosed (wy_ch s)) = (c1, e1)" by fastforce
  then have "ws_closeOnContext env (wy_ch s) = ws_markClosed (wy_ch s)"
    using ws_quiet_fst(1) [OF w_context(2) 1] by (simp add: ws_closeOnContext_def)
  then show ?case using w_context closes_only_inv by simp
qed (simp_all only: ws_enqueue_inv ws_CloseWithProto_inv ws_final_sent_inv ws_final_given_up_inv ws_take_inv ws_finishWriter_inv
  closes_only_inv closes_only_simple)

lemma ws_reach_inv:
  "(ws_step env)\<^sup>*\<^sup>* (ws_system_start ctxErr codec config) s \<Longrightarrow> ws_quiet env \<Longrightarrow> ws_inv s"
proof (induction rule: rtranclp_induct)
  case base
  then show ?case by (simp add: ws_inv_def ws_system_start_def ws_newChannel_def make_chan_def)
qed (blast intro: ws_step_inv)

text \<open>
  Under any interleaving the writer takes the frames in the order in which they were queued, the frame of
  \<open>CloseWithProto\<close> is the last one, the writer reports its end once, and the counter of pending bytes is exact.
\<close>

lemma ws_final_frame_last:
  assumes "(ws_step env)\<^sup>*\<^sup>* (ws_system_start ctxErr codec config) s" "ws_quiet env"
  shows "wy_accepted s = wy_taken s @ ch_buf (wch_outbound (wy_ch s))" "wch_writerDone (wy_ch s) \<le> 1"
    and "\<forall>e\<in>set (butlast (wy_accepted s)). \<not> of_done e"
    and "e \<in> set (wy_accepted s) \<Longrightarrow> of_done e \<Longrightarrow> ws_step env s s' \<Longrightarrow> wy_accepted s' = wy_accepted s"
    and "ss_PendingPayloadBytes (ws_SendStats (wy_ch s)) = sum_list (map of_payloadBytes (
      (case wy_final s of None \<Rightarrow> [] | Some f \<Rightarrow> [f]) @ ch_buf (wch_outbound (wy_ch s))))"
proof -
  have inv: "ws_inv s" by (rule ws_reach_inv [OF assms])
  show "wy_accepted s' = wy_accepted s" if "e \<in> set (wy_accepted s)" "of_done e" "ws_step env s s'"
  proof -
    have "wch_closed (wy_ch s)" "wy_final s = None"
      using inv that(1,2) by (cases "wy_final s"; auto simp: ws_inv_def Let_def)+
    moreover from this have "err \<noteq> None" if "ws_enqueueFrame n hb enc (m :: PreparedProto option) (wy_ch s) = (c, m', err)" for n hb enc m c m' err
      using that by (auto simp: ws_enqueueFrame_def Let_def)
    ultimately show ?thesis by (cases rule: ws_step.cases [OF that(3)]) auto
  qed
qed (use ws_reach_inv [OF assms] in \<open>auto simp: ws_inv_def Let_def ws_SendStats_def split: option.splits\<close>)

end
