(* ===== verification/Tcp_Codec.thy ===== *)
theory Tcp_Codec
  imports Proto_Wire
begin

text \<open>
  \<open>network/tcp/codec.go\<close>: length-prefixed frames over buffered readers and writers. The part of
  \<open>bufio\<close> and \<open>net.Conn\<close> the code uses is modelled first: a connection takes what it is given or fails
  as a script says, a writer buffers and remembers its first error, a reader sees the bytes still to
  come and the error after them.
\<close>

section \<open>Buffered input and output\<close>

text \<open>Each write takes everything, or the first \<open>n\<close> bytes and then fails.\<close>

record netconn =
  nc_sent :: bytes
  nc_script :: "(nat \<times> goerr) option list"

definition conn_write :: "bytes \<Rightarrow> netconn \<Rightarrow> netconn \<times> nat \<times> goerr option" where
  "conn_write b c =
     (case nc_script c of
        Some (n, err) # script \<Rightarrow> (c\<lparr>nc_sent := nc_sent c @ take n b, nc_script := script\<rparr>, min n (length b), Some err)
      | script \<Rightarrow> (c\<lparr>nc_sent := nc_sent c @ b, nc_script := tl script\<rparr>, length b, None))"

record bufw =
  bw_size :: nat
  bw_buf :: bytes
  bw_err :: "goerr option"
  bw_conn :: netconn

definition bw_Available :: "bufw \<Rightarrow> nat" where
  "bw_Available w = bw_size w - length (bw_buf w)"

definition bw_Flush :: "bufw \<Rightarrow> bufw \<times> goerr option" where
  "bw_Flush w =
     (if bw_err w \<noteq> None then (w, bw_err w)
      else if bw_buf w = [] then (w, None)
      else case conn_write (bw_buf w) (bw_conn w) of
        (c, n, None) \<Rightarrow> (w\<lparr>bw_buf := [], bw_conn := c\<rparr>, None)
      | (c, n, Some err) \<Rightarrow> (w\<lparr>bw_buf := drop n (bw_buf w), bw_err := Some err, bw_conn := c\<rparr>, Some err))"

text \<open>The loop of \<open>bufio.Writer.Write\<close>, which turns at most twice: fill and flush, then write through.\<close>

definition bw_direct :: "bytes \<Rightarrow> bufw \<Rightarrow> bufw \<times> goerr option" where
  "bw_direct p w =
     (if length p > bw_size w then
        (case conn_write p (bw_conn w) of
           (c, n, None) \<Rightarrow> (w\<lparr>bw_conn := c\<rparr>, None)
         | (c, n, Some err) \<Rightarrow> (w\<lparr>bw_conn := c, bw_err := Some err\<rparr>, Some err))
      else (w\<lparr>bw_buf := bw_buf w @ p\<rparr>, None))"

definition bw_Write :: "bytes \<Rightarrow> bufw \<Rightarrow> bufw \<times> goerr option" where
  "bw_Write p w =
     (if bw_err w \<noteq> None then (w, bw_err w)
      else if length p \<le> bw_Available w then (w\<lparr>bw_buf := bw_buf w @ p\<rparr>, None)
      else if bw_buf w = [] then bw_direct p w
      else let k = bw_Available w; (w', _) = bw_Flush (w\<lparr>bw_buf := bw_buf w @ take k p\<rparr>)
           in if bw_err w' \<noteq> None then (w', bw_err w') else bw_direct (drop k p) w')"

record bufr =
  br_size :: nat
  br_data :: bytes
  br_end :: goerr

definition br_Peek :: "nat \<Rightarrow> bufr \<Rightarrow> goerr + bytes" where
  "br_Peek n r =
     (if n > br_size r then Inl (IoErr ErrBufferFull)
      else if length (br_data r) < n then Inl (br_end r) else Inr (take n (br_data r)))"

definition br_Discard :: "nat \<Rightarrow> bufr \<Rightarrow> bufr \<times> goerr option" where
  "br_Discard n r =
     (r\<lparr>br_data := drop n (br_data r)\<rparr>, if length (br_data r) < n then Some (br_end r) else None)"

section \<open>Little-endian lengths\<close>

definition le32 :: "nat \<Rightarrow> bytes" where
  "le32 n = map char_of_byte [n mod 256, n div 256 mod 256, n div 65536 mod 256, n div 16777216 mod 256]"

definition of_le32 :: "bytes \<Rightarrow> nat" where
  "of_le32 b = foldr (\<lambda>c n. byte_of c + 256 * n) b 0"

lemma le32_length [simp]: "length (le32 n) = 4"
  by (simp add: le32_def)

lemma of_le32_le32: "n < 4294967296 \<Longrightarrow> of_le32 (le32 n) = n"
proof -
  assume n: "n < 4294967296"
  have "n div 256 div 256 = n div 65536" "n div 65536 div 256 = n div 16777216" by (simp_all add: div_mult2_eq [symmetric])
  moreover have "n div 16777216 < 256" using n by (simp add: less_mult_imp_div_less)
  ultimately show ?thesis
    using mod_mult_div_eq [of n 256] mod_mult_div_eq [of "n div 256" 256] mod_mult_div_eq [of "n div 65536" 256]
    by (simp add: of_le32_def le32_def)
qed

section \<open>Frames\<close>

text \<open>
  The default codec of the package writes through the protobuf library; any other codec is used as it
  is. The argument is the codec, for \<open>ProtoFrameCodec\<close> also the library it stands for.
\<close>

datatype tcp_codec = ProtoFrameCodec frame_codec | OtherCodec frame_codec

fun tc_codec :: "tcp_codec \<Rightarrow> frame_codec" where
  "tc_codec (ProtoFrameCodec c) = c"
| "tc_codec (OtherCodec c) = c"

definition framePrefixSize :: nat where "framePrefixSize = 4"

definition defaultIOBufferSize :: nat where "defaultIOBufferSize = MaxProtoSize + framePrefixSize"

definition validateFrameSize :: "nat \<Rightarrow> goerr option" where
  "validateFrameSize len =
     (if len = 0 then Some (NetErr ErrFrameLength)
      else if len > MaxProtoSize then Some (NetErr ErrFrameTooLarge) else None)"

definition readFrame :: "tcp_codec \<Rightarrow> bufr \<Rightarrow> bufr \<times> (goerr + Proto)" where
  "readFrame codec rr =
     (case br_Peek framePrefixSize rr of
        Inl err \<Rightarrow> (rr, Inl err)
      | Inr pre \<Rightarrow>
          let len = of_le32 pre in
          (case validateFrameSize len of
             Some err \<Rightarrow> (rr, Inl err)
           | None \<Rightarrow>
               (case br_Discard framePrefixSize rr of
                  (rr, Some err) \<Rightarrow> (rr, Inl err)
                | (rr, None) \<Rightarrow>
                    (case br_Peek len rr of
                       Inl err \<Rightarrow> (rr, Inl err)
                     | Inr body \<Rightarrow>
                         (case fc_Unmarshal (tc_codec codec) body of
                            Inl err \<Rightarrow> (rr, Inl (Wrap [] [NetErr ErrInvalidFrame, err]))
                          | Inr p \<Rightarrow>
                              (case br_Discard len rr of
                                 (rr, Some err) \<Rightarrow> (rr, Inl err)
                               | (rr, None) \<Rightarrow> (rr, Inr p)))))))"

definition writeFrameAppend :: "frame_codec \<Rightarrow> Proto \<Rightarrow> bufw \<Rightarrow> bufw \<times> goerr option" where
  "writeFrameAppend pb p wr =
     (let len = fc_Size pb p in
      case validateFrameSize len of
        Some err \<Rightarrow> (wr, Some err)
      | None \<Rightarrow>
          let (wr, flushed) = if bw_Available wr < framePrefixSize + len then bw_Flush wr else (wr, None) in
          (case flushed of
             Some err \<Rightarrow> (wr, Some err)
           | None \<Rightarrow>
               (case fc_Marshal pb p of
                  Inl err \<Rightarrow> (wr, Some err)
                | Inr body \<Rightarrow> bw_Write (le32 len @ body) wr)))"

definition writeFrame :: "tcp_codec \<Rightarrow> Proto \<Rightarrow> bufw \<Rightarrow> bufw \<times> goerr option" where
  "writeFrame codec p wr =
     (case codec of
        ProtoFrameCodec pb \<Rightarrow> writeFrameAppend pb p wr
      | OtherCodec c \<Rightarrow>
          (case fc_Marshal c p of
             Inl err \<Rightarrow> (wr, Some err)
           | Inr body \<Rightarrow>
               let len = length body in
               (case validateFrameSize len of
                  Some err \<Rightarrow> (wr, Some err)
                | None \<Rightarrow>
                    (case bw_Write (le32 len) wr of
                       (wr, Some err) \<Rightarrow> (wr, Some err)
                     | (wr, None) \<Rightarrow> bw_Write body wr))))"

definition validateFrame :: "tcp_codec \<Rightarrow> Proto \<Rightarrow> goerr option" where
  "validateFrame codec p =
     (case codec of
        ProtoFrameCodec pb \<Rightarrow> validateFrameSize (fc_Size pb p)
      | OtherCodec c \<Rightarrow>
          (case fc_Marshal c p of Inl err \<Rightarrow> Some err | Inr body \<Rightarrow> validateFrameSize (length body)))"

section \<open>What a writer has sent or holds\<close>

definition bw_stream :: "bufw \<Rightarrow> bytes" where
  "bw_stream w = nc_sent (bw_conn w) @ bw_buf w"

lemma conn_write_ok: "conn_write b c = (c', n, None) \<Longrightarrow> nc_sent c' = nc_sent c @ b \<and> n = length b"
  by (auto simp: conn_write_def split: list.splits option.splits)

lemma bw_Flush_ok: "bw_Flush w = (w', None) \<Longrightarrow>
    bw_stream w' = bw_stream w \<and> bw_buf w' = [] \<and> bw_err w' = None \<and> bw_size w' = bw_size w \<and> bw_err w = None"
  by (auto simp: bw_Flush_def bw_stream_def dest: conn_write_ok split: if_splits prod.splits option.splits)

lemma bw_direct_ok: "bw_direct p w = (w', None) \<Longrightarrow> bw_buf w = [] \<Longrightarrow> bw_err w = None \<Longrightarrow>
    bw_stream w' = bw_stream w @ p \<and> bw_err w' = None \<and> bw_size w' = bw_size w"
  by (auto simp: bw_direct_def bw_stream_def dest: conn_write_ok split: if_splits prod.splits option.splits)

lemma bw_Write_ok:
  assumes "bw_Write p w = (w', None)"
  shows "bw_stream w' = bw_stream w @ p \<and> bw_err w' = None \<and> bw_size w' = bw_size w"
proof -
  have err: "bw_err w = None" using assms by (cases "bw_err w") (auto simp: bw_Write_def)
  consider "length p \<le> bw_Available w" | "\<not> length p \<le> bw_Available w" "bw_buf w = []"
    | "\<not> length p \<le> bw_Available w" "bw_buf w \<noteq> []" by blast
  then show ?thesis
  proof cases
    case 3
    let ?w = "w\<lparr>bw_buf := bw_buf w @ take (bw_Available w) p\<rparr>"
    obtain w1 e where f: "bw_Flush ?w = (w1, e)" by (cases "bw_Flush ?w")
    have e: "e = bw_err w1" using f err 3 by (auto simp: bw_Flush_def split: prod.splits option.splits if_splits)
    with assms err 3 f have none: "e = None" "bw_direct (drop (bw_Available w) p) w1 = (w', None)"
      by (auto simp: bw_Write_def Let_def split: if_splits)
    note fl = bw_Flush_ok [OF f [unfolded none(1)]]
    from bw_direct_ok [OF none(2)] fl show ?thesis by (auto simp: bw_stream_def)
  qed (use assms err in \<open>auto simp: bw_Write_def bw_stream_def dest!: bw_direct_ok\<close>)
qed

lemma validateFrameSize_None: "validateFrameSize n = None \<longleftrightarrow> 1 \<le> n \<and> n \<le> MaxProtoSize"
  by (auto simp: validateFrameSize_def)

text \<open>What a successful write adds to the stream, for both ways of writing.\<close>

lemma writeFrame_ok:
  assumes "proto_codec (tc_codec codec)" "proto_valid p" "writeFrame codec p w = (w', None)"
  obtains b where "fc_Marshal (tc_codec codec) p = Inr b" "validateFrameSize (length b) = None"
    "bw_stream w' = bw_stream w @ le32 (length b) @ b" "bw_size w' = bw_size w"
proof -
  obtain b where b: "fc_Marshal (tc_codec codec) p = Inr b" using proto_codec.marshal [OF assms(1,2)] by blast
  have size: "fc_Size (tc_codec codec) p = length b" using proto_codec.round_trip [OF assms(1,2) b] by simp
  show thesis
  proof (cases codec)
    case (ProtoFrameCodec pb)
    then have v: "validateFrameSize (length b) = None" using assms(3) size
      by (auto simp: writeFrame_def writeFrameAppend_def Let_def split: option.splits)
    define w1 where "w1 = (if bw_Available w < framePrefixSize + length b then bw_Flush w else (w, None))"
    have w1: "snd w1 = None" "bw_Write (le32 (length b) @ b) (fst w1) = (w', None)"
      using assms(3) ProtoFrameCodec size b v
      by (auto simp: writeFrame_def writeFrameAppend_def Let_def w1_def split: option.splits prod.splits if_splits)
    have "bw_stream (fst w1) = bw_stream w \<and> bw_size (fst w1) = bw_size w"
      using w1(1) bw_Flush_ok [of w "fst w1"] by (auto simp: w1_def split: if_splits) (metis prod.collapse)+
    then show thesis using that [OF b v] bw_Write_ok [OF w1(2)] by simp
  next
    case (OtherCodec c)
    then have v: "validateFrameSize (length b) = None" using assms(3) b
      by (auto simp: writeFrame_def Let_def split: option.splits)
    obtain w1 where w1: "bw_Write (le32 (length b)) w = (w1, None)" "bw_Write b w1 = (w', None)"
      using assms(3) OtherCodec b v by (auto simp: writeFrame_def Let_def split: option.splits prod.splits)
    show thesis using that [OF b v] bw_Write_ok [OF w1(1)] bw_Write_ok [OF w1(2)] by simp
  qed
qed

section \<open>Reading\<close>

lemma readFrame_ok:
  assumes "readFrame codec r = (r', Inr p)"
  obtains body where "br_data r = take 4 (br_data r) @ body @ br_data r'" "length (take 4 (br_data r)) = 4"
    "of_le32 (take 4 (br_data r)) = length body" "validateFrameSize (length body) = None"
    "fc_Unmarshal (tc_codec codec) body = Inr p" "br_size r' = br_size r" "br_end r' = br_end r"
proof -
  let ?n = "of_le32 (take 4 (br_data r))"
  have four: "br_Peek 4 r = Inr (take 4 (br_data r))" "\<not> length (br_data r) < 4"
    using assms by (auto simp: readFrame_def framePrefixSize_def br_Peek_def split: if_splits)
  have v: "validateFrameSize ?n = None"
    using assms four(1) by (auto simp: readFrame_def framePrefixSize_def Let_def split: option.splits)
  have data: "length (drop 4 (br_data r)) \<ge> ?n" "fc_Unmarshal (tc_codec codec) (take ?n (drop 4 (br_data r))) = Inr p"
    "r' = r\<lparr>br_data := drop ?n (drop 4 (br_data r))\<rparr>"
    using assms four v
    by (auto simp: readFrame_def framePrefixSize_def Let_def br_Discard_def br_Peek_def split: if_splits sum.splits)
  have "br_data r = take 4 (br_data r) @ take ?n (drop 4 (br_data r)) @ drop ?n (drop 4 (br_data r))"
    by (simp only: append_take_drop_id)
  then have parts: "br_data r = take 4 (br_data r) @ take ?n (drop 4 (br_data r)) @ br_data r'"
    unfolding data(3) by simp
  show thesis
    by (rule that [of "take ?n (drop 4 (br_data r))", OF parts]) (use four data v in \<open>simp_all add: min_absorb2\<close>)
qed

lemma readFrame_frame:
  assumes "proto_codec (tc_codec codec)" "proto_valid p" "fc_Marshal (tc_codec codec) p = Inr b"
    "validateFrameSize (length b) = None" "MaxProtoSize \<le> br_size r" "br_data r = le32 (length b) @ b @ rest"
  shows "readFrame codec r = (r\<lparr>br_data := rest\<rparr>, Inr p)"
proof -
  have len: "1 \<le> length b" "length b \<le> 4096" using assms(4) by (auto simp: validateFrameSize_None MaxProtoSize_def)
  have un: "fc_Unmarshal (tc_codec codec) b = Inr p" using proto_codec.round_trip [OF assms(1-3)] by simp
  have "of_le32 (le32 (length b)) = length b" using len by (intro of_le32_le32) simp
  then show ?thesis using assms(4-6) len un
    by (simp add: readFrame_def framePrefixSize_def br_Peek_def br_Discard_def Let_def MaxProtoSize_def)
qed

text \<open>What the writer goroutines do with a message: write the frame, then flush.\<close>

fun writeFrames :: "tcp_codec \<Rightarrow> Proto list \<Rightarrow> bufw \<Rightarrow> bufw \<times> goerr option" where
  "writeFrames codec [] w = (w, None)"
| "writeFrames codec (p # ps) w =
     (case writeFrame codec p w of
        (w, Some err) \<Rightarrow> (w, Some err)
      | (w, None) \<Rightarrow> (case bw_Flush w of (w, Some err) \<Rightarrow> (w, Some err) | (w, None) \<Rightarrow> writeFrames codec ps w))"

fun readFrames :: "tcp_codec \<Rightarrow> nat \<Rightarrow> bufr \<Rightarrow> bufr \<times> Proto list" where
  "readFrames codec 0 r = (r, [])"
| "readFrames codec (Suc k) r =
     (case readFrame codec r of
        (r, Inl err) \<Rightarrow> (r, [])
      | (r, Inr p) \<Rightarrow> (case readFrames codec k r of (r, ps) \<Rightarrow> (r, p # ps)))"

lemma frames_round_trip:
  assumes "proto_codec (tc_codec codec)" "\<forall>p\<in>set ps. proto_valid p" "writeFrames codec ps w = (w', None)"
  shows "\<exists>s. bw_stream w' = bw_stream w @ s \<and>
    (\<forall>r rest. MaxProtoSize \<le> br_size r \<longrightarrow> br_data r = s @ rest \<longrightarrow>
       readFrames codec (length ps) r = (r\<lparr>br_data := rest\<rparr>, ps))"
  using assms
proof (induction ps arbitrary: w)
  case (Cons p ps)
  obtain w1 w2 where w: "writeFrame codec p w = (w1, None)" "bw_Flush w1 = (w2, None)" "writeFrames codec ps w2 = (w', None)"
    using Cons(4) by (auto split: prod.splits option.splits)
  have valid: "proto_valid p" "\<forall>p\<in>set ps. proto_valid p" using Cons(3) by auto
  obtain b where b: "fc_Marshal (tc_codec codec) p = Inr b" "validateFrameSize (length b) = None"
    "bw_stream w1 = bw_stream w @ le32 (length b) @ b" using writeFrame_ok [OF Cons(2) valid(1) w(1)] by blast
  obtain s where s: "bw_stream w' = bw_stream w2 @ s"
    "\<And>r rest. MaxProtoSize \<le> br_size r \<Longrightarrow> br_data r = s @ rest \<Longrightarrow> readFrames codec (length ps) r = (r\<lparr>br_data := rest\<rparr>, ps)"
    using Cons.IH [OF Cons(2) valid(2) w(3)] by blast
  show ?case
  proof (intro exI conjI allI impI)
    show "bw_stream w' = bw_stream w @ (le32 (length b) @ b @ s)" using s(1) b(3) bw_Flush_ok [OF w(2)] by simp
    fix r :: bufr and rest
    assume r: "MaxProtoSize \<le> br_size r" and d: "br_data r = (le32 (length b) @ b @ s) @ rest"
    then have "readFrame codec r = (r\<lparr>br_data := s @ rest\<rparr>, Inr p)"
      using readFrame_frame [OF Cons(2) valid(1) b(1,2) r] by simp
    then show "readFrames codec (length (p # ps)) r = (r\<lparr>br_data := rest\<rparr>, p # ps)"
      using s(2) [of "r\<lparr>br_data := s @ rest\<rparr>"] r by simp
  qed
qed simp

section \<open>Properties\<close>

text \<open>
  C21. What one side writes the other side reads: when the writer has written and flushed a list of
  messages without an error, the bytes it added to the connection, whatever follows them, are read back
  as exactly these messages, and the reader stands at what follows. This holds for the default codec and
  for any other codec that decodes what it encodes, and for a reader whose buffer just holds the
  largest frame.
\<close>

theorem tcp_frames_round_trip:
  assumes "proto_codec (tc_codec codec)" "\<forall>p\<in>set ps. proto_valid p"
    and "writeFrames codec ps w = (w', None)" "bw_buf w = []" "bw_buf w' = []" "MaxProtoSize \<le> br_size r"
    and "nc_sent (bw_conn w') = nc_sent (bw_conn w) @ sent" "br_data r = sent @ rest"
  shows "readFrames codec (length ps) r = (r\<lparr>br_data := rest\<rparr>, ps)"
  using frames_round_trip [OF assms(1-3)] assms(4-8) by (auto simp: bw_stream_def)

definition tcp_demo_messages :: "Proto list" where
  "tcp_demo_messages = [\<lparr>Op = OpRequest, Seq = 1, Code = 0, Cmd = 300, Body = ''ab''\<rparr>,
     \<lparr>Op = OpResponse, Seq = 0, Code = -1, Cmd = 0, Body = []\<rparr>]"

definition tcp_demo_writer :: bufw where
  "tcp_demo_writer = \<lparr>bw_size = 8, bw_buf = [], bw_err = None, bw_conn = \<lparr>nc_sent = [], nc_script = []\<rparr>\<rparr>"

definition tcp_demo_sent :: bytes where
  "tcp_demo_sent = nc_sent (bw_conn (fst (writeFrames (ProtoFrameCodec proto_codec_v3) tcp_demo_messages tcp_demo_writer)))"

lemma tcp_demo_bytes: "map proto_bytes tcp_demo_messages =
    [[8, 5, 16, 1, 32, 172, 2, 42, 2, 97, 98], [8, 6, 24, 255, 255, 255, 255, 255, 255, 255, 255, 255, 1]]"
  by (simp add: tcp_demo_messages_def proto_bytes_def varint_field_def bytes_field_def int32_nat_def varint.simps op_defs byte_of_def)

lemma tcp_demo_write:
  "writeFrames (ProtoFrameCodec proto_codec_v3) tcp_demo_messages tcp_demo_writer =
     (tcp_demo_writer\<lparr>bw_conn := \<lparr>nc_sent = tcp_demo_sent, nc_script = []\<rparr>\<rparr>, None)"
proof -
  obtain p q where pq: "tcp_demo_messages = [p, q]" by (simp add: tcp_demo_messages_def)
  have bytes: "proto_bytes p = [8, 5, 16, 1, 32, 172, 2, 42, 2, 97, 98]"
    "proto_bytes q = [8, 6, 24, 255, 255, 255, 255, 255, 255, 255, 255, 255, 1]"
    using tcp_demo_bytes unfolding pq by simp_all
  show ?thesis unfolding tcp_demo_sent_def pq
    by (simp add: writeFrame_def writeFrameAppend_def bytes proto_codec_v3_def validateFrameSize_def MaxProtoSize_def
        framePrefixSize_def bw_Available_def bw_Flush_def bw_Write_def bw_direct_def conn_write_def tcp_demo_writer_def Let_def)
qed

theorem tcp_frames_round_trip_witness:
  "readFrames (ProtoFrameCodec proto_codec_v3) 2
     \<lparr>br_size = MaxProtoSize, br_data = tcp_demo_sent @ ''rest'', br_end = IoErr ErrEOF\<rparr> =
   (\<lparr>br_size = MaxProtoSize, br_data = ''rest'', br_end = IoErr ErrEOF\<rparr>, tcp_demo_messages)"
proof -
  have valid: "\<forall>p\<in>set tcp_demo_messages. proto_valid p"
    by (simp add: tcp_demo_messages_def proto_valid_def int32_def op_defs)
  have len: "length tcp_demo_messages = 2" by (simp add: tcp_demo_messages_def)
  have codec: "proto_codec (tc_codec (ProtoFrameCodec proto_codec_v3))" by (simp add: proto3.proto_codec_axioms)
  show ?thesis
    using tcp_frames_round_trip [OF codec valid tcp_demo_write, of
        "\<lparr>br_size = MaxProtoSize, br_data = tcp_demo_sent @ ''rest'', br_end = IoErr ErrEOF\<rparr>" tcp_demo_sent "''rest''"] len
    by (simp add: tcp_demo_writer_def)
qed

text \<open>
  C22. A frame that is read has between 1 and \<open>MaxProtoSize\<close> bytes: the reader consumed exactly the
  four bytes of its length and its body, and the message is the decoded body. A length outside these
  bounds is refused without consuming anything, before any buffer is sized by it, and a reader that
  can hold the largest frame never runs out of buffer.
\<close>

theorem tcp_read_bounded:
  "(\<forall>p. readFrame codec r = (r', Inr p) \<longrightarrow>
      (\<exists>pre body. br_data r = pre @ body @ br_data r' \<and> length pre = 4 \<and> of_le32 pre = length body \<and>
         1 \<le> length body \<and> length body \<le> MaxProtoSize \<and> fc_Unmarshal (tc_codec codec) body = Inr p)) \<and>
   (4 \<le> length (br_data r) \<and> 4 \<le> br_size r \<and> validateFrameSize (of_le32 (take 4 (br_data r))) \<noteq> None \<longrightarrow>
      readFrame codec r = (r, Inl (the (validateFrameSize (of_le32 (take 4 (br_data r))))))) \<and>
   (MaxProtoSize \<le> br_size r \<and> br_end r \<noteq> IoErr ErrBufferFull \<longrightarrow> snd (readFrame codec r) \<noteq> Inl (IoErr ErrBufferFull))"
proof (intro conjI allI impI)
  fix p assume "readFrame codec r = (r', Inr p)"
  then obtain body where "br_data r = take 4 (br_data r) @ body @ br_data r'" "length (take 4 (br_data r)) = 4"
    "of_le32 (take 4 (br_data r)) = length body" "validateFrameSize (length body) = None"
    "fc_Unmarshal (tc_codec codec) body = Inr p" by (rule readFrame_ok)
  then show "\<exists>pre body. br_data r = pre @ body @ br_data r' \<and> length pre = 4 \<and> of_le32 pre = length body \<and>
      1 \<le> length body \<and> length body \<le> MaxProtoSize \<and> fc_Unmarshal (tc_codec codec) body = Inr p"
    by (intro exI [of _ "take 4 (br_data r)"] exI [of _ body]) (simp add: validateFrameSize_None)
next
  assume "4 \<le> length (br_data r) \<and> 4 \<le> br_size r \<and> validateFrameSize (of_le32 (take 4 (br_data r))) \<noteq> None"
  then show "readFrame codec r = (r, Inl (the (validateFrameSize (of_le32 (take 4 (br_data r))))))"
    by (auto simp: readFrame_def framePrefixSize_def br_Peek_def Let_def)
next
  assume a: "MaxProtoSize \<le> br_size r \<and> br_end r \<noteq> IoErr ErrBufferFull"
  have small: "br_Peek n r1 \<noteq> Inl (IoErr ErrBufferFull)" if "n \<le> MaxProtoSize" "br_size r1 = br_size r" "br_end r1 = br_end r" for n r1
    using that a by (auto simp: br_Peek_def)
  have "br_Peek 4 r \<noteq> Inl (IoErr ErrBufferFull)" by (rule small) (simp_all add: MaxProtoSize_def)
  moreover have "validateFrameSize n \<noteq> Some (IoErr ErrBufferFull)" for n by (simp add: validateFrameSize_def)
  moreover have "validateFrameSize n = None \<Longrightarrow> br_Peek n (r\<lparr>br_data := d\<rparr>) \<noteq> Inl (IoErr ErrBufferFull)" for n d
    by (rule small) (simp_all add: validateFrameSize_None)
  ultimately show "snd (readFrame codec r) \<noteq> Inl (IoErr ErrBufferFull)" using a
    by (auto simp: readFrame_def framePrefixSize_def br_Discard_def Let_def split: sum.splits option.splits if_splits)
qed

theorem tcp_read_bounded_witness:
  "readFrame (ProtoFrameCodec proto_codec_v3)
     \<lparr>br_size = MaxProtoSize, br_data = map char_of_byte [1, 16, 0, 0, 8, 5], br_end = IoErr ErrEOF\<rparr> =
   (\<lparr>br_size = MaxProtoSize, br_data = map char_of_byte [1, 16, 0, 0, 8, 5], br_end = IoErr ErrEOF\<rparr>, Inl (NetErr ErrFrameTooLarge))"
proof -
  let ?r = "\<lparr>br_size = MaxProtoSize, br_data = map char_of_byte [1, 16, 0, 0, 8, 5], br_end = IoErr ErrEOF\<rparr>"
  have len: "of_le32 (take 4 (br_data ?r)) = 4097" by (simp add: of_le32_def)
  have "validateFrameSize 4097 = Some (NetErr ErrFrameTooLarge)" by (simp add: validateFrameSize_def MaxProtoSize_def)
  then show ?thesis using tcp_read_bounded [of "ProtoFrameCodec proto_codec_v3" ?r ?r] len by (simp add: MaxProtoSize_def)
qed



end
