(* ===== verification/Tcp_Server.thy ===== *)
theory Tcp_Server
  imports Tcp_Codec Conn_Limits Endpoint
begin

text \<open>
  \<open>network/tcp\<close>, the server: its options, its lifecycle, the table of its connections and the loops
  that serve one connection. Sockets, the TLS layer and the connection handler are arguments; what a
  function does to them is its result or a trace of effects in order.
\<close>

section \<open>Configuration (\<open>server_options.go\<close>)\<close>

record tcp_config =
  tcf_network :: string
  tcf_address :: string
  tcf_advertiseHost :: string
  tcf_tls :: "tls_config option"
  tcf_codec :: "tcp_codec option"
  tcf_middlewares :: "nat list"
  tcf_timeout :: duration
  tcf_handshakeTimeout :: duration
  tcf_heartbeatTimeout :: duration
  tcf_writeTimeout :: duration
  tcf_maxConnLimit :: int
  tcf_maxConnPerIP :: int
  tcf_requestQueueSize :: int

text \<open>
  The server. \<open>ts_started\<close> says that \<open>cancel\<close> is set and \<open>ts_cancelled\<close> that it was called;
  \<open>ts_serveDone\<close> that the channel is closed; \<open>ts_wg\<close> counts the goroutines of connections.
\<close>

record tcp_server =
  ts_config :: tcp_config
  ts_started :: bool
  ts_cancelled :: bool
  ts_lis :: "nat option"
  ts_endpoint :: "URL option"
  ts_stopped :: bool
  ts_serveDone :: bool
  ts_conns :: "nat \<rightharpoonup> string"
  ts_perIP :: "string \<rightharpoonup> int"
  ts_wg :: int
  ts_handler :: bool

datatype tcp_server_option =
    TcpNetwork string | TcpAddress string | TcpAdvertiseHost string | TcpEndpoint "URL option"
  | TcpListener "nat option" | TcpTLSConfig "tls_config option" | TcpCodec "tcp_codec option"
  | TcpMiddleware "nat list" | TcpTimeout duration | TcpRequestQueueSize int | TcpMaxConnLimit int
  | TcpMaxConnPerIP int | TcpHandshakeTimeout duration | TcpHeartbeatTimeout duration | TcpWriteTimeout duration

definition tcp_apply_option :: "tcp_server_option \<Rightarrow> tcp_server \<Rightarrow> tcp_server" where
  "tcp_apply_option opt s =
     (case opt of
        TcpNetwork n \<Rightarrow> s\<lparr>ts_config := (ts_config s)\<lparr>tcf_network := n\<rparr>\<rparr>
      | TcpAddress a \<Rightarrow> s\<lparr>ts_config := (ts_config s)\<lparr>tcf_address := a\<rparr>\<rparr>
      | TcpAdvertiseHost h \<Rightarrow> s\<lparr>ts_config := (ts_config s)\<lparr>tcf_advertiseHost := h\<rparr>\<rparr>
      | TcpEndpoint e \<Rightarrow> s\<lparr>ts_endpoint := e\<rparr>
      | TcpListener l \<Rightarrow> s\<lparr>ts_lis := l\<rparr>
      | TcpTLSConfig c \<Rightarrow> s\<lparr>ts_config := (ts_config s)\<lparr>tcf_tls := tls_Clone c\<rparr>\<rparr>
      | TcpCodec c \<Rightarrow> s\<lparr>ts_config := (ts_config s)\<lparr>tcf_codec := c\<rparr>\<rparr>
      | TcpMiddleware m \<Rightarrow> s\<lparr>ts_config := (ts_config s)\<lparr>tcf_middlewares := tcf_middlewares (ts_config s) @ m\<rparr>\<rparr>
      | TcpTimeout d \<Rightarrow> s\<lparr>ts_config := (ts_config s)\<lparr>tcf_timeout := d\<rparr>\<rparr>
      | TcpRequestQueueSize n \<Rightarrow> s\<lparr>ts_config := (ts_config s)\<lparr>tcf_requestQueueSize := n\<rparr>\<rparr>
      | TcpMaxConnLimit n \<Rightarrow> s\<lparr>ts_config := (ts_config s)\<lparr>tcf_maxConnLimit := n\<rparr>\<rparr>
      | TcpMaxConnPerIP n \<Rightarrow> s\<lparr>ts_config := (ts_config s)\<lparr>tcf_maxConnPerIP := n\<rparr>\<rparr>
      | TcpHandshakeTimeout d \<Rightarrow> s\<lparr>ts_config := (ts_config s)\<lparr>tcf_handshakeTimeout := d\<rparr>\<rparr>
      | TcpHeartbeatTimeout d \<Rightarrow> s\<lparr>ts_config := (ts_config s)\<lparr>tcf_heartbeatTimeout := d\<rparr>\<rparr>
      | TcpWriteTimeout d \<Rightarrow> s\<lparr>ts_config := (ts_config s)\<lparr>tcf_writeTimeout := d\<rparr>\<rparr>)"

definition tcp_endpointScheme :: "tcp_config \<Rightarrow> string" where
  "tcp_endpointScheme c = (if tcf_tls c \<noteq> None then ''tcps'' else ''tcp'')"

definition tcp_validateConfig :: "tcp_server \<Rightarrow> goerr option" where
  "tcp_validateConfig s =
     (let c = ts_config s in
      if tcf_codec c = None then Some (Fresh ''tcp: codec is required'')
      else if tcf_timeout c < 0 then Some (Fresh ''tcp: handler timeout cannot be negative'')
      else if tcf_requestQueueSize c \<le> 0 then Some (Fresh ''tcp: request queue size must be positive'')
      else if tcf_maxConnLimit c \<le> 0 then Some (Fresh ''tcp: connection limit must be positive'')
      else if tcf_maxConnPerIP c \<le> 0 then Some (Fresh ''tcp: per-IP connection limit must be positive'')
      else if tcf_handshakeTimeout c \<le> 0 then Some (Fresh ''tcp: handshake timeout must be positive'')
      else if tcf_heartbeatTimeout c \<le> 0 then Some (Fresh ''tcp: heartbeat timeout must be positive'')
      else if tcf_writeTimeout c \<le> 0 then Some (Fresh ''tcp: write timeout must be positive'')
      else case ValidateServer (tcf_tls c) of
        Some err \<Rightarrow> Some (Wrap ''tcp: '' [err])
      | None \<Rightarrow>
          (case ts_endpoint s of
             None \<Rightarrow> None
           | Some e \<Rightarrow>
               if url_Scheme e \<noteq> tcp_endpointScheme c \<or> url_Host e = []
               then Some (Fresh (''tcp: endpoint must use '' @ tcp_endpointScheme c @ '':// with a host'')) else None))"

section \<open>Lifecycle (\<open>server.go\<close>)\<close>

definition tcp_NewServer :: "tcp_codec \<Rightarrow> tcp_server_option list \<Rightarrow> tcp_server" where
  "tcp_NewServer defaultCodec opts =
     fold tcp_apply_option opts
       \<lparr>ts_config = \<lparr>tcf_network = ''tcp'', tcf_address = '':3101'', tcf_advertiseHost = [], tcf_tls = None,
          tcf_codec = Some defaultCodec, tcf_middlewares = [], tcf_timeout = DefaultHandlerTimeout, tcf_handshakeTimeout = DefaultHandshakeTimeout,
          tcf_heartbeatTimeout = 15 * second, tcf_writeTimeout = DefaultWriteTimeout, tcf_maxConnLimit = DefaultMaxConnLimit,
          tcf_maxConnPerIP = DefaultMaxConnPerIP, tcf_requestQueueSize = DefaultRequestQueueSize\<rparr>,
        ts_started = False, ts_cancelled = False, ts_lis = None, ts_endpoint = None, ts_stopped = False,
        ts_serveDone = False, ts_conns = Map.empty, ts_perIP = Map.empty, ts_wg = 0, ts_handler = False\<rparr>"

definition tcp_SetHandler :: "bool \<Rightarrow> tcp_server \<Rightarrow> tcp_server \<times> goerr option" where
  "tcp_SetHandler handler s =
     (if \<not> handler then (s, Some (Fresh ''tcp: connection handler is required''))
      else if ts_started s \<or> ts_stopped s then (s, Some (Fresh ''tcp: server cannot set handler after start''))
      else if ts_handler s then (s, Some (Fresh ''tcp: connection handler is already set''))
      else (s\<lparr>ts_handler := True\<rparr>, None))"

text \<open>
  \<open>listen\<close> is \<open>net.Listen\<close>, \<open>extract\<close> is \<open>host.Extract\<close> for a listener; the third component of the
  result is the listener that was closed again.
\<close>

definition tcp_listenAndEndpoint ::
  "(string \<Rightarrow> string \<Rightarrow> goerr + nat) \<Rightarrow> (string \<Rightarrow> string \<Rightarrow> nat \<Rightarrow> goerr + string) \<Rightarrow> tcp_server \<Rightarrow>
   tcp_server \<times> goerr option \<times> nat option" where
  "tcp_listenAndEndpoint listen extract s =
     (let c = ts_config s;
          opened = (case ts_lis s of Some l \<Rightarrow> Inr (l, False) | None \<Rightarrow> map_sum id (\<lambda>l. (l, True)) (listen (tcf_network c) (tcf_address c)))
      in case opened of
        Inl err \<Rightarrow> (s, Some err, None)
      | Inr (l, created) \<Rightarrow>
          let s' = s\<lparr>ts_lis := Some l\<rparr> in
          (case ts_endpoint s of
             Some _ \<Rightarrow> (s', None, None)
           | None \<Rightarrow>
               (case extract (tcf_address c) (tcf_advertiseHost c) l of
                  Inl err \<Rightarrow> if created then (s'\<lparr>ts_lis := None\<rparr>, Some err, Some l) else (s', Some err, None)
                | Inr addr \<Rightarrow>
                    (s'\<lparr>ts_endpoint := Some (zeroURL\<lparr>url_Scheme := tcp_endpointScheme c, url_Host := addr\<rparr>)\<rparr>, None, None))))"

definition tcp_prepare ::
  "(string \<Rightarrow> string \<Rightarrow> goerr + nat) \<Rightarrow> (string \<Rightarrow> string \<Rightarrow> nat \<Rightarrow> goerr + string) \<Rightarrow> tcp_server \<Rightarrow>
   tcp_server \<times> goerr option \<times> nat option" where
  "tcp_prepare listen extract s =
     (if \<not> ts_handler s then (s, Some (Fresh ''tcp: connection handler is required''), None)
      else case tcp_validateConfig s of Some err \<Rightarrow> (s, Some err, None) | None \<Rightarrow> tcp_listenAndEndpoint listen extract s)"

definition tcp_BeforeStart ::
  "(string \<Rightarrow> string \<Rightarrow> goerr + nat) \<Rightarrow> (string \<Rightarrow> string \<Rightarrow> nat \<Rightarrow> goerr + string) \<Rightarrow> tcp_server \<Rightarrow>
   tcp_server \<times> goerr option \<times> nat option" where
  "tcp_BeforeStart listen extract s =
     (if ts_started s \<or> ts_stopped s then (s, Some (Fresh ''tcp: server cannot be prepared''), None)
      else tcp_prepare listen extract s)"

definition tcp_Endpoint ::
  "(string \<Rightarrow> string \<Rightarrow> goerr + nat) \<Rightarrow> (string \<Rightarrow> string \<Rightarrow> nat \<Rightarrow> goerr + string) \<Rightarrow> tcp_server \<Rightarrow>
   tcp_server \<times> (goerr + URL) \<times> nat option" where
  "tcp_Endpoint listen extract s =
     (if ts_stopped s then (s, Inl (Fresh ''tcp: server is stopped''), None)
      else case tcp_validateConfig s of
        Some err \<Rightarrow> (s, Inl err, None)
      | None \<Rightarrow>
          (case tcp_listenAndEndpoint listen extract s of
             (s', Some err, closed) \<Rightarrow> (s', Inl err, closed)
           | (s', None, closed) \<Rightarrow> (s', Inr (the (ts_endpoint s')), closed)))"

text \<open>\<open>Start\<close> up to the accept loop: the listener it accepts from.\<close>

definition tcp_Start_begin ::
  "(string \<Rightarrow> string \<Rightarrow> goerr + nat) \<Rightarrow> (string \<Rightarrow> string \<Rightarrow> nat \<Rightarrow> goerr + string) \<Rightarrow> tcp_server \<Rightarrow>
   tcp_server \<times> (goerr + nat)" where
  "tcp_Start_begin listen extract s =
     (if ts_started s \<or> ts_stopped s then (s, Inl (Fresh ''tcp: server cannot be started''))
      else case tcp_prepare listen extract s of
        (s', Some err, _) \<Rightarrow> (s', Inl err)
      | (s', None, _) \<Rightarrow> (s'\<lparr>ts_started := True\<rparr>, Inr (the (ts_lis s'))))"

text \<open>What \<open>Start\<close> returns when the accept loop ended with an error.\<close>

definition tcp_Start_result :: "goerr \<Rightarrow> goerr option" where
  "tcp_Start_result err = (if errors_is err (IoErr ErrNetClosed) then None else Some err)"

definition tcp_closeConnections :: "tcp_server \<Rightarrow> nat set" where
  "tcp_closeConnections s = dom (ts_conns s)"

text \<open>\<open>Stop\<close> under its lock: the listener to close and whether to wait for the serving goroutine.\<close>

definition tcp_Stop_begin :: "tcp_server \<Rightarrow> tcp_server \<times> nat option \<times> bool" where
  "tcp_Stop_begin s =
     (if ts_stopped s then (s, None, ts_started s)
      else (s\<lparr>ts_stopped := True, ts_cancelled := (ts_cancelled s \<or> ts_started s), ts_lis := None\<rparr>, ts_lis s, ts_started s))"

definition tcp_Stop :: "(nat \<Rightarrow> goerr option) \<Rightarrow> goerr option \<Rightarrow> tcp_server \<Rightarrow> tcp_server \<times> nat set \<times> goerr option" where
  "tcp_Stop closeListener waited s =
     (let (s', lis, started) = tcp_Stop_begin s;
          closeErr = (case lis of Some l \<Rightarrow> closeListener l | None \<Rightarrow> None) in
      (s', tcp_closeConnections s',
       if started \<and> waited \<noteq> None then waited
       else case closeErr of
         Some err \<Rightarrow> if errors_is err (IoErr ErrNetClosed) then None else Some err
       | None \<Rightarrow> None))"

text \<open>\<open>finishServing\<close> up to the wait for the connections, and its end.\<close>

definition tcp_finishServing :: "tcp_server \<Rightarrow> tcp_server \<times> nat option \<times> nat set" where
  "tcp_finishServing s =
     (s\<lparr>ts_stopped := True, ts_lis := None, ts_cancelled := True\<rparr>, ts_lis s, tcp_closeConnections s)"

definition tcp_serveDone :: "tcp_server \<Rightarrow> tcp_server option" where
  "tcp_serveDone s = (if ts_wg s = 0 then Some (s\<lparr>ts_serveDone := True\<rparr>) else None)"

section \<open>The table of connections (\<open>server_connection.go\<close>)\<close>

definition remote_ip :: "string \<Rightarrow> string" where
  "remote_ip addr = (case SplitHostPort addr of Inl _ \<Rightarrow> [] | Inr (host, _) \<Rightarrow> host)"

definition track_locked :: "nat \<Rightarrow> string \<Rightarrow> tcp_server \<Rightarrow> tcp_server \<times> bool" where
  "track_locked conn remoteIP s =
     (if ts_stopped s \<or> to_int32 (int (card (dom (ts_conns s)))) \<ge> tcf_maxConnLimit (ts_config s) \<or>
         peer_count (ts_perIP s) remoteIP \<ge> tcf_maxConnPerIP (ts_config s)
      then (s, False)
      else (s\<lparr>ts_conns := (ts_conns s)(conn \<mapsto> remoteIP),
              ts_perIP := (ts_perIP s)(remoteIP \<mapsto> peer_count (ts_perIP s) remoteIP + 1), ts_wg := ts_wg s + 1\<rparr>, True))"

definition trackConnection :: "nat \<Rightarrow> string \<Rightarrow> tcp_server \<Rightarrow> tcp_server \<times> bool" where
  "trackConnection conn remoteAddr s = track_locked conn (remote_ip remoteAddr) s"

definition untrackConnection :: "nat \<Rightarrow> tcp_server \<Rightarrow> tcp_server" where
  "untrackConnection conn s =
     (let remoteIP = (case ts_conns s conn of None \<Rightarrow> [] | Some ip \<Rightarrow> ip) in
      s\<lparr>ts_conns := (ts_conns s)(conn := None), ts_perIP := peer_release (ts_perIP s) remoteIP\<rparr>)"

text \<open>The table accounts for the connections with distinct keys.\<close>

definition tcp_holds :: "tcp_server \<Rightarrow> (nat \<times> string) list \<Rightarrow> bool" where
  "tcp_holds s H =
     (distinct (map fst H) \<and> ts_conns s = map_of H \<and> counts_exact (ts_perIP s) H \<and>
      tcf_maxConnLimit (ts_config s) < 2147483648 \<and> length H < 2147483648)"

lemma card_dom_map_of: "distinct (map fst H) \<Longrightarrow> card (dom (map_of H)) = length H"
  by (metis distinct_card dom_map_of_conv_image_fst length_map list.set_map)

lemma map_of_remove1:
  assumes "distinct (map fst H)" "(k, v) \<in> set H"
  shows "map_of (remove1 (k, v) H) = (map_of H)(k := None)"
  using assms
proof (induction H)
  case (Cons p H)
  obtain a b where p: "p = (a, b)" by (cases p)
  show ?case
  proof (cases "p = (k, v)")
    case True
    then have "map_of H k = None" using Cons(2) by (simp add: map_of_eq_None_iff)
    then show ?thesis using True by (auto simp: fun_eq_iff)
  next
    case False
    then have "a \<noteq> k" using Cons(2,3) p by (auto intro: rev_image_eqI)
    then show ?thesis using False Cons p by (auto simp: fun_eq_iff)
  qed
qed simp

lemma distinct_remove1_fst: "distinct (map fst H) \<Longrightarrow> distinct (map fst (remove1 x H))"
  by (induction H) (auto dest: set_remove1_subset [THEN subsetD])

interpretation tcp_table: connection_table tcp_holds "\<lambda>s. tcf_maxConnLimit (ts_config s)" "\<lambda>s. tcf_maxConnPerIP (ts_config s)"
  track_locked "\<lambda>conn _. untrackConnection conn" "\<lambda>s. fst (tcp_Stop_begin s)" ts_perIP
proof
  fix s s' :: tcp_server and H :: "(nat \<times> string) list" and k ip
  assume holds: "tcp_holds s H"
  {
    assume k: "k \<notin> fst ` set H" and adm: "track_locked k ip s = (s', True)"
    have small: "to_int32 (int (card (dom (ts_conns s)))) = int (length H)"
      using holds by (simp add: tcp_holds_def card_dom_map_of to_int32_id)
    then have lt: "int (length H) < tcf_maxConnLimit (ts_config s)" "per_peer H ip < tcf_maxConnPerIP (ts_config s)"
      using adm holds counts_exact_count [of "ts_perIP s" H ip] by (auto simp: track_locked_def tcp_holds_def split: if_splits)
    then show "tcp_holds s' ((k, ip) # H) \<and> int (length H) < tcf_maxConnLimit (ts_config s) \<and> per_peer H ip < tcf_maxConnPerIP (ts_config s)"
      using adm holds k counts_exact_admit [of "ts_perIP s" H ip k]
      by (auto simp: track_locked_def tcp_holds_def split: if_splits)
  next
    assume "track_locked k ip s = (s', False)"
    then show "s' = s" by (simp add: track_locked_def split: if_splits)
  next
    assume k: "(k, ip) \<in> set H"
    then have "ts_conns s k = Some ip" using holds by (simp add: tcp_holds_def)
    then show "tcp_holds (untrackConnection k s) (remove1 (k, ip) H)"
      using holds k counts_exact_release [of "ts_perIP s" H k ip]
      by (simp add: tcp_holds_def untrackConnection_def map_of_remove1 distinct_remove1_fst length_remove1 less_imp_diff_less)
  next
    show "tcp_holds (fst (tcp_Stop_begin s)) H" using holds by (simp add: tcp_holds_def tcp_Stop_begin_def)
    show "counts_exact (ts_perIP s) H" using holds by (simp add: tcp_holds_def)
  }
qed (auto simp: track_locked_def untrackConnection_def tcp_Stop_begin_def Let_def)

section \<open>Serving one connection\<close>

text \<open>
  What the accept loop does with a connection: whether its socket could be configured and whether it
  was tracked.
\<close>

datatype accepted = AcceptFailed goerr | NotTCP | ConfigureFailed goerr | Accepted nat string

datatype accept_effect = CloseConn | ServeConn nat | ReturnErr goerr

definition acceptTCP_turn :: "accepted \<Rightarrow> tcp_server \<Rightarrow> tcp_server \<times> accept_effect list" where
  "acceptTCP_turn a s =
     (case a of
        AcceptFailed err \<Rightarrow> (s, [ReturnErr err])
      | NotTCP \<Rightarrow> (s, [CloseConn, ReturnErr (Fresh ''tcp: accepted connection'')])
      | ConfigureFailed err \<Rightarrow> (s, [CloseConn])
      | Accepted conn remoteAddr \<Rightarrow>
          (case trackConnection conn remoteAddr s of
             (s', False) \<Rightarrow> (s', [CloseConn])
           | (s', True) \<Rightarrow> (s', [ServeConn conn])))"

text \<open>The end of a connection's goroutine, also after a panic: untrack, then \<open>Done\<close>.\<close>

definition serveAcceptedTCP_end :: "nat \<Rightarrow> tcp_server \<Rightarrow> tcp_server" where
  "serveAcceptedTCP_end conn s = (untrackConnection conn s)\<lparr>ts_wg := ts_wg s - 1\<rparr>"

text \<open>
  The order of a connection's life: the handler's \<open>Open\<close>, the writer, the read loop and, through the
  deferred calls, the ends in reverse order. \<open>openErr\<close> is the result of \<open>Open\<close>, \<open>handshook\<close> whether
  the handshake timer was stopped in time.
\<close>

datatype serve_effect = HandlerOpen | StartWriter | ReadLoop | CancelCtx | HandlerClose | SocketClose | ChannelClose

definition serveTCP :: "goerr option \<Rightarrow> bool \<Rightarrow> serve_effect list" where
  "serveTCP openErr handshook =
     HandlerOpen #
     (case openErr of
        Some _ \<Rightarrow> [SocketClose, ChannelClose, CancelCtx]
      | None \<Rightarrow>
          (if \<not> handshook then [] else [StartWriter, ReadLoop, CancelCtx]) @
          [HandlerClose, SocketClose, ChannelClose, CancelCtx])"

text \<open>
  The read loop. The environment \<open>'w\<close> holds the socket's deadline, the clock, the dispatcher or the
  invoker, and the channel.
\<close>

record 'w tcp_env =
  te_SetReadDeadline :: "time \<Rightarrow> 'w \<Rightarrow> 'w \<times> goerr option"
  te_Now :: "'w \<Rightarrow> time"
  te_Dispatch :: "(Proto \<Rightarrow> 'w \<Rightarrow> 'w \<times> goerr option) option"
  te_Invoke :: "Proto \<Rightarrow> 'w \<Rightarrow> 'w \<times> (goerr + Proto)"
  te_Reply :: "Proto \<Rightarrow> 'w \<Rightarrow> 'w \<times> goerr option"

text \<open>What the loop does with one message: the new deadline and, when it ends, its result.\<close>

definition tcp_handle_message ::
  "'w tcp_env \<Rightarrow> duration \<Rightarrow> Proto \<Rightarrow> time \<Rightarrow> 'w \<Rightarrow> 'w \<times> time \<times> goerr option option" where
  "tcp_handle_message env heartbeatTimeout m deadline w =
     (let deadline = (if Op m = OpHeartbeat then te_Now env w + heartbeatTimeout else deadline);
          m = (if Op m = OpHeartbeat then m\<lparr>Body := []\<rparr> else m) in
      case te_Dispatch env of
        Some dispatch \<Rightarrow> (case dispatch m w of (w, Some err) \<Rightarrow> (w, deadline, Some (Some err)) | (w, None) \<Rightarrow> (w, deadline, None))
      | None \<Rightarrow>
          (case te_Invoke env m w of
             (w, Inl err) \<Rightarrow> (w, deadline, Some None)
           | (w, Inr reply) \<Rightarrow>
               (case te_Reply env reply w of (w, Some err) \<Rightarrow> (w, deadline, Some (Some err)) | (w, None) \<Rightarrow> (w, deadline, None))))"

lemma readFrame_shorter:
  assumes "readFrame codec r = (r', Inr p)"
  shows "length (br_data r') < length (br_data r)"
proof (rule readFrame_ok [OF assms])
  fix body
  assume "br_data r = take 4 (br_data r) @ body @ br_data r'" "length (take 4 (br_data r)) = 4"
  then have "length (br_data r) = 4 + (length body + length (br_data r'))" by (metis length_append)
  then show ?thesis by simp
qed

function readTCPMessages ::
  "'w tcp_env \<Rightarrow> tcp_codec \<Rightarrow> duration \<Rightarrow> bufr \<Rightarrow> time \<Rightarrow> 'w \<Rightarrow> 'w \<times> goerr option" where
  "readTCPMessages env codec heartbeatTimeout rr deadline w =
     (case te_SetReadDeadline env deadline w of
        (w, Some err) \<Rightarrow> (w, Some err)
      | (w, None) \<Rightarrow>
          (case readFrame codec rr of
             (rr', Inl err) \<Rightarrow> (w, Some err)
           | (rr', Inr m) \<Rightarrow>
               (case tcp_handle_message env heartbeatTimeout m deadline w of
                  (w, deadline, Some result) \<Rightarrow> (w, result)
                | (w, deadline, None) \<Rightarrow> readTCPMessages env codec heartbeatTimeout rr' deadline w)))"
  by pat_completeness auto
termination
  by (relation "measure (\<lambda>(env, codec, h, rr, deadline, w). length (br_data rr))") (auto intro: readFrame_shorter [OF sym])

declare readTCPMessages.simps [simp del]

text \<open>
  The writer of a connection over the events \<open>next\<close> yields until it reports the stop: an event is a
  message and whether it is the last one. The result is the writer's error, the messages written and
  whether the result of the last one was reported.
\<close>

definition writeTCPEvent :: "(bufw \<Rightarrow> goerr option) \<Rightarrow> tcp_codec \<Rightarrow> Proto \<Rightarrow> bufw \<Rightarrow> bufw \<times> goerr option" where
  "writeTCPEvent setDeadline codec m wr =
     (case setDeadline wr of
        Some err \<Rightarrow> (wr, Some err)
      | None \<Rightarrow> (case writeFrame codec m wr of (wr, Some err) \<Rightarrow> (wr, Some err) | (wr, None) \<Rightarrow> bw_Flush wr))"

fun dispatchTCP ::
  "(bufw \<Rightarrow> goerr option) \<Rightarrow> tcp_codec \<Rightarrow> (Proto \<times> bool) list \<Rightarrow> bufw \<Rightarrow> bufw \<times> goerr option \<times> (goerr option) option" where
  "dispatchTCP setDeadline codec [] wr = (wr, None, None)"
| "dispatchTCP setDeadline codec ((m, final) # events) wr =
     (case writeTCPEvent setDeadline codec m wr of
        (wr, err) \<Rightarrow>
          if err \<noteq> None \<or> final then (wr, err, if final then Some err else None)
          else dispatchTCP setDeadline codec events wr)"

section \<open>Properties\<close>

text \<open>
  C27. The limits of a TCP server hold under any interleaving of accepted connections, ends of
  connections and a stop: there are never more than \<open>maxConnLimit\<close> connections, nor more than
  \<open>maxConnPerIP\<close> from one peer, the counter of each peer is exactly the number of its connections, and
  a peer without connections has no counter left.
\<close>

theorem tcp_limits_hold:
  assumes "tcp_table.table_step\<^sup>*\<^sup>* (s, []) (s', H)" "tcp_holds s []"
    and "0 \<le> tcf_maxConnLimit (ts_config s)" "0 \<le> tcf_maxConnPerIP (ts_config s)"
  shows "int (card (dom (ts_conns s'))) \<le> tcf_maxConnLimit (ts_config s) \<and>
    (\<forall>ip. ts_perIP s' ip = (if \<exists>c. ts_conns s' c = Some ip then Some (int (card {c. ts_conns s' c = Some ip})) else None) \<and>
       int (card {c. ts_conns s' c = Some ip}) \<le> tcf_maxConnPerIP (ts_config s))"
proof -
  have "tcp_table.within s []" using assms(2-4) by (simp add: tcp_table.within_def per_peer_def)
  from tcp_table.within_reach [OF assms(1) this]
  have w: "tcp_holds s' H" "int (length H) \<le> tcf_maxConnLimit (ts_config s)" "\<And>ip. per_peer H ip \<le> tcf_maxConnPerIP (ts_config s)"
    by (auto simp: tcp_table.within_def)
  have d: "distinct (map fst H)" "ts_conns s' = map_of H" "counts_exact (ts_perIP s') H" using w(1) by (auto simp: tcp_holds_def)
  have per: "int (card {c. ts_conns s' c = Some ip}) = per_peer H ip" for ip
  proof -
    have "{c. ts_conns s' c = Some ip} = fst ` set (filter (\<lambda>c. snd c = ip) H)" using d(1,2) by (force simp: image_iff)
    moreover have "distinct (map fst (filter (\<lambda>c. snd c = ip) H))" using d(1) by (simp add: distinct_map_filter)
    ultimately have "card {c. ts_conns s' c = Some ip} = length (filter (\<lambda>c. snd c = ip) H)"
      by (metis distinct_card length_map list.set_map)
    then show ?thesis by (simp add: per_peer_def)
  qed
  have "finite {c. ts_conns s' c = Some ip}" for ip
    by (rule finite_subset [of _ "dom (map_of H)"]) (auto simp: d(2) finite_dom_map_of)
  then have "(card {c. ts_conns s' c = Some ip} = 0) = ({c. ts_conns s' c = Some ip} = {})" for ip by simp
  then have some: "(\<exists>c. ts_conns s' c = Some ip) \<longleftrightarrow> per_peer H ip \<noteq> 0" for ip
    unfolding per [symmetric] of_nat_eq_0_iff by simp
  show ?thesis using w d per some by (simp add: card_dom_map_of counts_exact_def)
qed

definition tcp_demo_server :: tcp_server where
  "tcp_demo_server = tcp_NewServer (ProtoFrameCodec proto_codec_v3) [TcpMaxConnLimit 2, TcpMaxConnPerIP 1]"

theorem tcp_limits_hold_witness:
  "\<exists>s'. tcp_table.table_step\<^sup>*\<^sup>* (tcp_demo_server, []) (s', [(4, ''10.0.0.1'')]) \<and>
     ts_perIP s' ''10.0.0.1'' = Some 1 \<and> trackConnection 5 ''10.0.0.1:99'' s' = (s', False)"
proof -
  let ?s = "fst (track_locked 4 ''10.0.0.1'' tcp_demo_server)"
  have adm: "track_locked 4 ''10.0.0.1'' tcp_demo_server = (?s, True)"
    by (simp add: track_locked_def tcp_demo_server_def tcp_NewServer_def tcp_apply_option_def to_int32_def peer_count_def)
  from tcp_table.step_admit [OF _ this, of "[]"]
  have reach: "tcp_table.table_step\<^sup>*\<^sup>* (tcp_demo_server, []) (?s, [(4, ''10.0.0.1'')])" by auto
  have "tcp_holds tcp_demo_server []" "ts_config tcp_demo_server = ts_config ?s"
    by (simp_all add: tcp_holds_def tcp_demo_server_def tcp_NewServer_def tcp_apply_option_def counts_exact_def per_peer_def track_locked_def)
  from tcp_limits_hold [OF reach this(1)]
  have "ts_perIP ?s ''10.0.0.1'' = (if \<exists>c. ts_conns ?s c = Some ''10.0.0.1'' then Some (int (card {c. ts_conns ?s c = Some ''10.0.0.1''})) else None)"
    by (simp add: tcp_demo_server_def tcp_NewServer_def tcp_apply_option_def)
  moreover have "ts_conns ?s = [4 \<mapsto> ''10.0.0.1'']" "tcf_maxConnPerIP (ts_config ?s) = 1"
    by (simp_all add: track_locked_def tcp_demo_server_def tcp_NewServer_def tcp_apply_option_def to_int32_def peer_count_def)
  ultimately have one: "ts_perIP ?s ''10.0.0.1'' = Some 1" by simp
  have "remote_ip ''10.0.0.1:99'' = ''10.0.0.1''" by code_simp
  then have "trackConnection 5 ''10.0.0.1:99'' ?s = (?s, False)"
    using one \<open>tcf_maxConnPerIP (ts_config ?s) = 1\<close> by (simp add: trackConnection_def track_locked_def [of 5] peer_count_def)
  then show ?thesis using reach one by blast
qed

end
