(* ===== verification/Tcp_Channel.thy ===== *)
theory Tcp_Channel
  imports Tcp_Server Channels "HOL-Library.Word"
begin

text \<open>
  \<open>network/tcp/channel.go\<close>: the send queue of a TCP connection. Each section under the lock and each
  branch of a \<open>select\<close> is one function; the goroutines that call them are the step relation below. The
  counter of pending bytes is updated together with the section before it. \<open>tc_closing\<close> and \<open>tc_stop\<close> count
  how often the channel was closed, a second close being a panic; \<open>tc_cancel\<close> is absent while no cancel
  function is set, and otherwise tells whether it was called.
\<close>

section \<open>State and operations\<close>

record channelEvent =
  ce_proto :: Proto
  ce_done :: bool

record tcp_channel =
  tc_outbound :: "channelEvent chan"
  tc_closing :: nat
  tc_stop :: nat
  tc_frameCodec :: tcp_codec
  tc_cancel :: "bool option"
  tc_replyWG :: nat
  tc_closed :: bool
  tc_stopped :: bool
  tc_writerErr :: "goerr option"
  tc_pendingPayloadBytes :: "64 word"
  tc_queueDropped :: "64 word"

definition tcp_newChannel :: "nat \<Rightarrow> tcp_codec \<Rightarrow> tcp_channel" where
  "tcp_newChannel queueSize codec =
     \<lparr>tc_outbound = make_chan queueSize, tc_closing = 0, tc_stop = 0, tc_frameCodec = codec, tc_cancel = None, tc_replyWG = 0,
      tc_closed = False, tc_stopped = False, tc_writerErr = None, tc_pendingPayloadBytes = 0, tc_queueDropped = 0\<rparr>"

abbreviation payload :: "Proto \<Rightarrow> 64 word" where
  "payload p \<equiv> word_of_nat (length (Body p))"

definition tcp_push :: "Proto \<Rightarrow> tcp_channel \<Rightarrow> tcp_channel \<times> goerr option" where
  "tcp_push p c =
     (case validateFrame (tc_frameCodec c) p of
        Some err \<Rightarrow> (c, Some err)
      | None \<Rightarrow>
          if tc_closed c then (c, Some (NetErr ErrConnectionClosed))
          else let c = c\<lparr>tc_pendingPayloadBytes := tc_pendingPayloadBytes c + payload p\<rparr> in
            case chan_put \<lparr>ce_proto = p, ce_done = False\<rparr> (tc_outbound c) of
              Some q \<Rightarrow> (c\<lparr>tc_outbound := q\<rparr>, None)
            | None \<Rightarrow>
                (c\<lparr>tc_pendingPayloadBytes := tc_pendingPayloadBytes c - payload p, tc_queueDropped := tc_queueDropped c + 1\<rparr>,
                 Some (NetErr ErrSendQueueFull)))"

text \<open>\<open>reply\<close> up to its \<open>select\<close>, and the branches of it: the frame is taken, or the reply is given up.\<close>

datatype reply_position = ReplyReturns "goerr option" | ReplyWaitsClosed | ReplySends

definition tcp_reply :: "Proto \<Rightarrow> tcp_channel \<Rightarrow> tcp_channel \<times> reply_position" where
  "tcp_reply p c =
     (case validateFrame (tc_frameCodec c) p of
        Some err \<Rightarrow> (c, ReplyReturns (Some err))
      | None \<Rightarrow>
          if tc_closed c then (c, ReplyWaitsClosed)
          else (c\<lparr>tc_replyWG := tc_replyWG c + 1, tc_pendingPayloadBytes := tc_pendingPayloadBytes c + payload p\<rparr>, ReplySends))"

definition tcp_reply_sent :: "Proto \<Rightarrow> tcp_channel \<Rightarrow> tcp_channel option" where
  "tcp_reply_sent p c =
     (case chan_put \<lparr>ce_proto = p, ce_done = False\<rparr> (tc_outbound c) of
        None \<Rightarrow> None
      | Some q \<Rightarrow> Some (c\<lparr>tc_outbound := q, tc_replyWG := tc_replyWG c - 1\<rparr>))"

definition tcp_reply_given_up :: "Proto \<Rightarrow> tcp_channel \<Rightarrow> tcp_channel" where
  "tcp_reply_given_up p c =
     c\<lparr>tc_pendingPayloadBytes := tc_pendingPayloadBytes c - payload p, tc_replyWG := tc_replyWG c - 1\<rparr>"

definition tcp_stopLocked :: "tcp_channel \<Rightarrow> tcp_channel" where
  "tcp_stopLocked c =
     (let c = (if \<not> tc_closed c then c\<lparr>tc_closed := True, tc_closing := tc_closing c + 1\<rparr> else c) in
      if \<not> tc_stopped c then c\<lparr>tc_stopped := True, tc_stop := tc_stop c + 1\<rparr> else c)"

definition tcp_close :: "tcp_channel \<Rightarrow> tcp_channel" where
  "tcp_close c = (let c = tcp_stopLocked c in c\<lparr>tc_cancel := map_option (\<lambda>_. True) (tc_cancel c)\<rparr>)"

definition tcp_finishWriter :: "goerr option \<Rightarrow> tcp_channel \<Rightarrow> tcp_channel" where
  "tcp_finishWriter err c = tcp_close (c\<lparr>tc_writerErr := err\<rparr>)"

definition tcp_writerError :: "tcp_channel \<Rightarrow> goerr" where
  "tcp_writerError c = (case tc_writerErr c of Some err \<Rightarrow> err | None \<Rightarrow> NetErr ErrConnectionClosed)"

text \<open>
  \<open>closeWithProto\<close> up to the wait for the replies; an answer ends it. Once there are no more replies, the
  last frame is queued, or the call is given up because its context is done or the writer stopped.
\<close>

definition tcp_closeWithProto :: "Proto \<Rightarrow> tcp_channel \<Rightarrow> tcp_channel \<times> goerr option" where
  "tcp_closeWithProto p c =
     (case validateFrame (tc_frameCodec c) p of
        Some err \<Rightarrow> (c, Some err)
      | None \<Rightarrow>
          if tc_closed c then (c, Some (NetErr ErrConnectionClosed))
          else (c\<lparr>tc_closed := True, tc_closing := tc_closing c + 1\<rparr>, None))"

definition tcp_final_sent :: "Proto \<Rightarrow> tcp_channel \<Rightarrow> tcp_channel option" where
  "tcp_final_sent p c =
     (if tc_replyWG c \<noteq> 0 then None
      else case chan_put \<lparr>ce_proto = p, ce_done = True\<rparr> (tc_outbound c) of
        None \<Rightarrow> None
      | Some q \<Rightarrow> Some (c\<lparr>tc_outbound := q, tc_pendingPayloadBytes := tc_pendingPayloadBytes c + payload p\<rparr>))"

definition tcp_final_given_up :: "goerr option \<Rightarrow> Proto \<Rightarrow> tcp_channel \<Rightarrow> tcp_channel \<times> goerr" where
  "tcp_final_given_up ctxErr p c =
     (let c = c\<lparr>tc_pendingPayloadBytes := tc_pendingPayloadBytes c + payload p - payload p\<rparr> in
      case ctxErr of Some err \<Rightarrow> (tcp_close c, err) | None \<Rightarrow> (c, tcp_writerError c))"

text \<open>
  \<open>waitFinal\<close>: the writer's result was there, or the context was done or the writer stopped first; the result
  is then looked for once more.
\<close>

datatype final_wait = FinalResult "goerr option" | FinalCtx goerr "goerr option option" | FinalStop "goerr option option"

definition tcp_waitFinal :: "final_wait \<Rightarrow> tcp_channel \<Rightarrow> tcp_channel \<times> goerr option" where
  "tcp_waitFinal ev c =
     (case ev of
        FinalResult r \<Rightarrow> (c, r)
      | FinalCtx err (Some r) \<Rightarrow> (c, r)
      | FinalCtx err None \<Rightarrow> (tcp_close c, Some err)
      | FinalStop (Some r) \<Rightarrow> (c, r)
      | FinalStop None \<Rightarrow> (c, Some (tcp_writerError c)))"

text \<open>\<open>waitClosed\<close>: the channel stopped, or the context was done.\<close>

definition tcp_waitClosed :: "goerr option \<Rightarrow> goerr" where
  "tcp_waitClosed ctxErr = (case ctxErr of None \<Rightarrow> NetErr ErrConnectionClosed | Some err \<Rightarrow> err)"

definition tcp_next :: "tcp_channel \<Rightarrow> (channelEvent \<times> tcp_channel) option" where
  "tcp_next c =
     (case chan_get (tc_outbound c) of
        None \<Rightarrow> None
      | Some (e, q) \<Rightarrow> Some (e, c\<lparr>tc_outbound := q, tc_pendingPayloadBytes := tc_pendingPayloadBytes c - payload (ce_proto e)\<rparr>))"

section \<open>The goroutines of a connection\<close>

text \<open>
  \<open>cs_replies\<close> are the replies in their \<open>select\<close>, \<open>cs_final\<close> the last frame a close waits to queue;
  \<open>cs_accepted\<close> and \<open>cs_taken\<close> record the frames queued and the frames the writer took.
\<close>

record chan_system =
  cs_chan :: tcp_channel
  cs_replies :: "Proto list"
  cs_final :: "Proto option"
  cs_accepted :: "channelEvent list"
  cs_taken :: "channelEvent list"

inductive chan_step :: "chan_system \<Rightarrow> chan_system \<Rightarrow> bool" where
  step_push: "tcp_push p (cs_chan s) = (c, err) \<Longrightarrow>
    chan_step s (s\<lparr>cs_chan := c, cs_accepted := cs_accepted s @ (if err = None then [\<lparr>ce_proto = p, ce_done = False\<rparr>] else [])\<rparr>)"
| step_reply: "tcp_reply p (cs_chan s) = (c, pos) \<Longrightarrow>
    chan_step s (s\<lparr>cs_chan := c, cs_replies := (if pos = ReplySends then p # cs_replies s else cs_replies s)\<rparr>)"
| step_reply_sent: "p \<in> set (cs_replies s) \<Longrightarrow> tcp_reply_sent p (cs_chan s) = Some c \<Longrightarrow>
    chan_step s (s\<lparr>cs_chan := c, cs_replies := remove1 p (cs_replies s), cs_accepted := cs_accepted s @ [\<lparr>ce_proto = p, ce_done = False\<rparr>]\<rparr>)"
| step_reply_given_up: "p \<in> set (cs_replies s) \<Longrightarrow>
    chan_step s (s\<lparr>cs_chan := tcp_reply_given_up p (cs_chan s), cs_replies := remove1 p (cs_replies s)\<rparr>)"
| step_final: "tcp_closeWithProto p (cs_chan s) = (c, err) \<Longrightarrow>
    chan_step s (s\<lparr>cs_chan := c, cs_final := (if err = None then Some p else cs_final s)\<rparr>)"
| step_final_sent: "cs_final s = Some p \<Longrightarrow> tcp_final_sent p (cs_chan s) = Some c \<Longrightarrow>
    chan_step s (s\<lparr>cs_chan := c, cs_final := None, cs_accepted := cs_accepted s @ [\<lparr>ce_proto = p, ce_done = True\<rparr>]\<rparr>)"
| step_final_given_up: "cs_final s = Some p \<Longrightarrow> tcp_final_given_up ctxErr p (cs_chan s) = (c, err) \<Longrightarrow>
    chan_step s (s\<lparr>cs_chan := c, cs_final := None\<rparr>)"
| step_waitFinal: "tcp_waitFinal ev (cs_chan s) = (c, err) \<Longrightarrow> chan_step s (s\<lparr>cs_chan := c\<rparr>)"
| step_next: "tcp_next (cs_chan s) = Some (e, c) \<Longrightarrow> chan_step s (s\<lparr>cs_chan := c, cs_taken := cs_taken s @ [e]\<rparr>)"
| step_finishWriter: "chan_step s (s\<lparr>cs_chan := tcp_finishWriter err (cs_chan s)\<rparr>)"
| step_close: "chan_step s (s\<lparr>cs_chan := tcp_close (cs_chan s)\<rparr>)"

definition chan_start :: "nat \<Rightarrow> tcp_codec \<Rightarrow> chan_system" where
  "chan_start queueSize codec =
     \<lparr>cs_chan = (tcp_newChannel queueSize codec)\<lparr>tc_cancel := Some False\<rparr>, cs_replies = [], cs_final = None, cs_accepted = [], cs_taken = []\<rparr>"

definition chan_inv :: "chan_system \<Rightarrow> bool" where
  "chan_inv s =
     (let c = cs_chan s in
      \<not> ch_closed (tc_outbound c) \<and> length (ch_buf (tc_outbound c)) \<le> ch_cap (tc_outbound c) \<and>
      tc_closing c = of_bool (tc_closed c) \<and> tc_stop c = of_bool (tc_stopped c) \<and> (tc_stopped c \<longrightarrow> tc_closed c) \<and>
      tc_replyWG c = length (cs_replies s) \<and>
      tc_pendingPayloadBytes c = sum_list (map payload (cs_replies s)) + sum_list (map (payload \<circ> ce_proto) (ch_buf (tc_outbound c))) \<and>
      cs_accepted s = cs_taken s @ ch_buf (tc_outbound c) \<and>
      (cs_final s \<noteq> None \<longrightarrow> tc_closed c \<and> (\<forall>e\<in>set (cs_accepted s). \<not> ce_done e)) \<and>
      (\<forall>e\<in>set (butlast (cs_accepted s)). \<not> ce_done e) \<and>
      ((\<exists>e\<in>set (cs_accepted s). ce_done e) \<longrightarrow> tc_closed c \<and> cs_replies s = []))"

lemma chan_start_inv: "chan_inv (chan_start queueSize codec)"
  by (simp add: chan_inv_def chan_start_def tcp_newChannel_def make_chan_def)

lemma sum_list_remove1: "x \<in> set xs \<Longrightarrow> sum_list (map f (remove1 x xs)) = sum_list (map f xs) - (f x :: 'a :: ab_group_add)"
  by (simp add: sum_list_map_remove1)

lemma tcp_close_inv: "chan_inv s \<Longrightarrow> chan_inv (s\<lparr>cs_chan := tcp_close (cs_chan s)\<rparr>)"
  by (auto simp: chan_inv_def tcp_close_def tcp_stopLocked_def Let_def)

lemma chan_inv_writerErr: "chan_inv (s\<lparr>cs_chan := c\<lparr>tc_writerErr := err\<rparr>\<rparr>) = chan_inv (s\<lparr>cs_chan := c\<rparr>)"
  by (simp add: chan_inv_def)

lemma tcp_finishWriter_inv: "chan_inv s \<Longrightarrow> chan_inv (s\<lparr>cs_chan := tcp_finishWriter err (cs_chan s)\<rparr>)"
  using tcp_close_inv [of "s\<lparr>cs_chan := (cs_chan s)\<lparr>tc_writerErr := err\<rparr>\<rparr>"] chan_inv_writerErr [where s = s and c = "cs_chan s" and err = err]
  by (simp add: tcp_finishWriter_def)

lemma tcp_push_cases:
  assumes "tcp_push p c = (c', err)"
  obtains (refused) d where "err \<noteq> None" "c' = c\<lparr>tc_queueDropped := d\<rparr>"
  | (queued) q where "err = None" "\<not> tc_closed c" "chan_put \<lparr>ce_proto = p, ce_done = False\<rparr> (tc_outbound c) = Some q"
      "c' = c\<lparr>tc_outbound := q, tc_pendingPayloadBytes := tc_pendingPayloadBytes c + payload p\<rparr>"
proof (cases "validateFrame (tc_frameCodec c) p = None \<and> \<not> tc_closed c")
  case True
  then show ?thesis using assms refused [of "tc_queueDropped c + 1"] queued
    by (cases "chan_put \<lparr>ce_proto = p, ce_done = False\<rparr> (tc_outbound c)") (auto simp: tcp_push_def Let_def)
next
  case False
  then have "tcp_push p c = (c, snd (tcp_push p c)) \<and> snd (tcp_push p c) \<noteq> None"
    by (cases "validateFrame (tc_frameCodec c) p") (simp_all add: tcp_push_def)
  then have "c' = c" "err \<noteq> None" using assms by simp_all
  then show ?thesis using refused [of "tc_queueDropped c"] by simp
qed

lemma tcp_push_inv:
  assumes "chan_inv s" "tcp_push p (cs_chan s) = (c, err)"
  shows "chan_inv (s\<lparr>cs_chan := c, cs_accepted := cs_accepted s @ (if err = None then [\<lparr>ce_proto = p, ce_done = False\<rparr>] else [])\<rparr>)"
  using assms(2)
proof (cases rule: tcp_push_cases)
  case (refused d)
  have "chan_inv (s\<lparr>cs_chan := (cs_chan s)\<lparr>tc_queueDropped := d\<rparr>\<rparr>)" using assms(1) by (simp add: chan_inv_def Let_def)
  then show ?thesis using refused by auto
next
  case (queued q)
  then have "\<forall>e\<in>set (cs_accepted s). \<not> ce_done e" using assms(1) by (auto simp: chan_inv_def Let_def)
  then show ?thesis using assms(1) queued by (auto simp: chan_inv_def Let_def chan_put_Some_iff)
qed

lemma tcp_reply_inv:
  assumes "chan_inv s" "tcp_reply p (cs_chan s) = (c, pos)"
  shows "chan_inv (s\<lparr>cs_chan := c, cs_replies := (if pos = ReplySends then p # cs_replies s else cs_replies s)\<rparr>)"
  using assms by (auto simp: tcp_reply_def chan_inv_def Let_def algebra_simps split: option.splits if_splits)

lemma tcp_reply_sent_inv:
  assumes "chan_inv s" "p \<in> set (cs_replies s)" "tcp_reply_sent p (cs_chan s) = Some c"
  shows "chan_inv (s\<lparr>cs_chan := c, cs_replies := remove1 p (cs_replies s), cs_accepted := cs_accepted s @ [\<lparr>ce_proto = p, ce_done = False\<rparr>]\<rparr>)"
  using assms
  by (auto simp: tcp_reply_sent_def chan_inv_def Let_def chan_put_Some_iff sum_list_remove1 length_remove1 algebra_simps
    split: option.splits)

lemma tcp_reply_given_up_inv:
  assumes "chan_inv s" "p \<in> set (cs_replies s)"
  shows "chan_inv (s\<lparr>cs_chan := tcp_reply_given_up p (cs_chan s), cs_replies := remove1 p (cs_replies s)\<rparr>)"
  using assms by (auto simp: tcp_reply_given_up_def chan_inv_def Let_def sum_list_remove1 length_remove1 algebra_simps)

lemma tcp_closeWithProto_inv:
  assumes "chan_inv s" "tcp_closeWithProto p (cs_chan s) = (c, err)"
  shows "chan_inv (s\<lparr>cs_chan := c, cs_final := (if err = None then Some p else cs_final s)\<rparr>)"
  using assms by (auto simp: tcp_closeWithProto_def chan_inv_def Let_def split: option.splits if_splits)

lemma tcp_final_sent_inv:
  assumes "chan_inv s" "cs_final s = Some p" "tcp_final_sent p (cs_chan s) = Some c"
  shows "chan_inv (s\<lparr>cs_chan := c, cs_final := None, cs_accepted := cs_accepted s @ [\<lparr>ce_proto = p, ce_done = True\<rparr>]\<rparr>)"
  using assms
  by (auto simp: tcp_final_sent_def chan_inv_def Let_def chan_put_Some_iff algebra_simps split: option.splits if_splits)

lemma tcp_final_given_up_inv:
  assumes "chan_inv s" "tcp_final_given_up ctxErr p (cs_chan s) = (c, err)"
  shows "chan_inv (s\<lparr>cs_chan := c, cs_final := None\<rparr>)"
proof -
  have "chan_inv (s\<lparr>cs_chan := c\<rparr>)"
    using assms tcp_close_inv [of s] by (auto simp: tcp_final_given_up_def Let_def split: option.splits)
  then show ?thesis by (simp add: chan_inv_def Let_def)
qed

lemma tcp_next_inv:
  assumes "chan_inv s" "tcp_next (cs_chan s) = Some (e, c)"
  shows "chan_inv (s\<lparr>cs_chan := c, cs_taken := cs_taken s @ [e]\<rparr>)"
  using assms by (auto simp: tcp_next_def chan_inv_def Let_def chan_get_Some_iff algebra_simps split: option.splits)

lemma chan_step_inv: "chan_step s s' \<Longrightarrow> chan_inv s \<Longrightarrow> chan_inv s'"
proof (induction rule: chan_step.induct)
  case (step_waitFinal ev s c err)
  then show ?case using tcp_close_inv [of s]
    by (auto simp: tcp_waitFinal_def split: final_wait.splits option.splits)
qed (simp_all only: tcp_push_inv tcp_reply_inv tcp_reply_sent_inv tcp_reply_given_up_inv tcp_closeWithProto_inv tcp_final_sent_inv
  tcp_final_given_up_inv tcp_next_inv tcp_finishWriter_inv tcp_close_inv)

lemma chan_reach_inv: "chan_step\<^sup>*\<^sup>* (chan_start queueSize codec) s \<Longrightarrow> chan_inv s"
  by (induction rule: rtranclp_induct) (auto intro: chan_start_inv chan_step_inv)

lemmas chan_op_defs = tcp_push_def tcp_reply_def tcp_reply_sent_def tcp_reply_given_up_def tcp_closeWithProto_def tcp_final_sent_def
  tcp_final_given_up_def tcp_next_def tcp_finishWriter_def tcp_close_def tcp_stopLocked_def Let_def chan_put_Some_iff chan_get_Some_iff

lemma chan_step_cap: "chan_step s s' \<Longrightarrow> ch_cap (tc_outbound (cs_chan s')) = ch_cap (tc_outbound (cs_chan s))"
proof (induction rule: chan_step.induct)
  case (step_push p s c err)
  then show ?case by (cases rule: tcp_push_cases) (auto simp: chan_put_Some_iff)
next
  case (step_waitFinal ev s c err)
  then show ?case by (auto simp: tcp_waitFinal_def chan_op_defs split: final_wait.splits option.splits)
qed (auto simp: chan_op_defs split: option.splits if_splits)

lemma chan_reach_cap: "chan_step\<^sup>*\<^sup>* (chan_start n codec) s \<Longrightarrow> ch_cap (tc_outbound (cs_chan s)) = n"
  by (induction rule: rtranclp_induct) (auto simp: chan_step_cap chan_start_def tcp_newChannel_def make_chan_def)

lemma final_ends_queue:
  assumes "chan_step s s'" "chan_inv s" "e \<in> set (cs_accepted s)" "ce_done e"
  shows "cs_accepted s' = cs_accepted s"
proof -
  have inv: "tc_closed (cs_chan s)" "cs_replies s = []" "cs_final s = None"
    using assms(2-4) by (auto simp: chan_inv_def Let_def)
  have "err \<noteq> None" if "tcp_push p (cs_chan s) = (c, err)" for p c err
    using that inv(1) by (cases rule: tcp_push_cases) auto
  with assms(1) inv show ?thesis by (cases rule: chan_step.cases) auto
qed

lemma final_ends_queue_reach:
  assumes "chan_step\<^sup>*\<^sup>* s s'" "chan_inv s" "e \<in> set (cs_accepted s)" "ce_done e"
  shows "cs_accepted s' = cs_accepted s \<and> chan_inv s'"
  using assms(1)
proof (induction rule: rtranclp_induct)
  case base
  then show ?case using assms(2) by simp
next
  case (step t t')
  then have "cs_accepted t' = cs_accepted t" using final_ends_queue [of t t' e] assms(3,4) by simp
  then show ?case using step chan_step_inv [of t t'] by simp
qed

section \<open>Properties\<close>


definition kick_demo :: Proto where
  "kick_demo = zeroProto\<lparr>Op := OpKick, Code := KickCodeServerShutdown\<rparr>"

lemma kick_demo_valid: "validateFrame (ProtoFrameCodec proto_codec_v3) kick_demo = None"
  by (simp add: validateFrame_def proto_codec_v3_def proto_bytes_def kick_demo_def zeroProto_def varint_field_def bytes_field_def
    validateFrameSize_def op_defs KickCodeServerShutdown_def MaxProtoSize_def int32_nat_def varint.simps)


end
