(* ===== verification/Dispatcher.thy ===== *)
theory Dispatcher
  imports Tcp_Server Channels
begin

text \<open>
  \<open>network/internal/inbound/dispatcher.go\<close> and \<open>network/internal/auth/reply.go\<close>: the synchronous phase before
  the authentication, the queue and the one goroutine after it, and the reply a client waits for. The
  invoker, the connection and what the handlers do are the environment on a state \<open>'w\<close>; logging is left out.
\<close>

section \<open>Operations\<close>

text \<open>\<open>dp_ctxErr\<close> is the error of the dispatcher's context; \<open>dp_done\<close> is absent while there is no goroutine, then whether its channel is closed.\<close>

record dispatcher =
  dp_ctxErr :: "goerr option"
  dp_capacity :: nat
  dp_requests :: "Proto chan option"
  dp_done :: "bool option"

definition dp_New :: "goerr option \<Rightarrow> nat \<Rightarrow> dispatcher" where
  "dp_New ctxErr capacity = \<lparr>dp_ctxErr = ctxErr, dp_capacity = capacity, dp_requests = None, dp_done = None\<rparr>"

record 'w dp_env =
  de_invoke :: "Proto \<Rightarrow> 'w \<Rightarrow> 'w \<times> (goerr + Proto)"
  de_SendProto :: "Proto \<Rightarrow> 'w \<Rightarrow> 'w \<times> goerr option"

definition dp_deliver :: "'w dp_env \<Rightarrow> Proto \<Rightarrow> 'w \<Rightarrow> 'w \<times> goerr option" where
  "dp_deliver env message w =
     (case de_invoke env message w of
        (w, Inl err) \<Rightarrow> (w, Some err)
      | (w, Inr reply) \<Rightarrow> de_SendProto env reply w)"

definition dp_Handle :: "'w dp_env \<Rightarrow> Proto \<Rightarrow> dispatcher \<Rightarrow> 'w \<Rightarrow> dispatcher \<times> 'w \<times> goerr option" where
  "dp_Handle env message d w =
     (case dp_ctxErr d of
        Some err \<Rightarrow> (d, w, Some err)
      | None \<Rightarrow>
          (case dp_requests d of
             None \<Rightarrow>
               (case de_invoke env message w of
                  (w, Inl err) \<Rightarrow> (d, w, Some err)
                | (w, Inr reply) \<Rightarrow>
                    let authenticated = (Op reply = OpAuthReply \<and> Code reply = 0) in
                    (case de_SendProto env reply w of
                       (w, Some err) \<Rightarrow> (d, w, Some err)
                     | (w, None) \<Rightarrow>
                         (if authenticated then d\<lparr>dp_requests := Some (make_chan (dp_capacity d)), dp_done := Some False\<rparr> else d, w, None)))
           | Some q \<Rightarrow>
               if Op message = OpHeartbeat then (case dp_deliver env message w of (w, err) \<Rightarrow> (d, w, err))
               else case chan_put message q of
                 Some q \<Rightarrow> (d\<lparr>dp_requests := Some q\<rparr>, w, None)
               | None \<Rightarrow> (d, w, Some (NetErr ErrRequestQueueFull))))"

definition dp_cancel :: "goerr \<Rightarrow> dispatcher \<Rightarrow> dispatcher" where
  "dp_cancel cause d = (case dp_ctxErr d of None \<Rightarrow> d\<lparr>dp_ctxErr := Some cause\<rparr> | Some _ \<Rightarrow> d)"

text \<open>\<open>Stop\<close> cancels, waits for the goroutine and drops what is queued.\<close>

definition dp_Stop_wait :: "dispatcher \<Rightarrow> dispatcher option" where
  "dp_Stop_wait d = (if dp_done d = Some False then None else Some (d\<lparr>dp_requests := None\<rparr>))"

text \<open>
  \<open>run\<close>: what it does with a message it received (a cancelled context drops it), and what it does when the
  delivery ended; the flag tells whether the connection is closed. A panic is recovered like an error.
\<close>

definition run_receive :: "dispatcher \<Rightarrow> (dispatcher \<times> Proto option) option" where
  "run_receive d =
     (case dp_requests d of
        None \<Rightarrow> None
      | Some q \<Rightarrow>
          (case chan_get q of
             None \<Rightarrow> None
           | Some (m, q) \<Rightarrow>
               let d = d\<lparr>dp_requests := Some q\<rparr> in
               if dp_ctxErr d \<noteq> None then Some (d\<lparr>dp_done := Some True\<rparr>, None) else Some (d, Some m)))"

datatype delivery = Delivered | DeliveryFailed goerr | DeliveryPanicked

definition run_delivered :: "delivery \<Rightarrow> dispatcher \<Rightarrow> dispatcher \<times> bool" where
  "run_delivered r d =
     (case r of
        Delivered \<Rightarrow> (d, False)
      | _ \<Rightarrow> ((dp_cancel ctx_canceled d)\<lparr>dp_done := Some True\<rparr>, True))"

text \<open>
  \<open>ReadReply\<close>: pushes before the authentication reply are kept, up to the limit, so that the loop ends after
  at most \<open>limit + 1\<close> reads.
\<close>

function ReadReply_loop ::
  "string \<Rightarrow> goerr \<Rightarrow> int \<Rightarrow> ('w \<Rightarrow> 'w \<times> (goerr + Proto)) \<Rightarrow> Proto list \<Rightarrow> 'w \<Rightarrow> 'w \<times> (goerr + Proto list)" where
  "ReadReply_loop transport rejected limit read pending w =
     (case read w of
        (w, Inl err) \<Rightarrow> (w, Inl err)
      | (w, Inr reply) \<Rightarrow>
          if Op reply = OpPush then
            if int (length pending) \<ge> limit then (w, Inl (Fresh (transport @ '': too many pushes before authentication reply'')))
            else ReadReply_loop transport rejected limit read (pending @ [reply]) w
          else if Op reply \<noteq> OpAuthReply then (w, Inl (Fresh (transport @ '': invalid authentication response'')))
          else if Code reply \<noteq> 0 then (w, Inl (Wrap ''code'' [rejected]))
          else (w, Inr pending))"
  by pat_completeness auto
termination
  by (relation "measure (\<lambda>(_, _, limit, _, pending, _). nat (limit - int (length pending)))") auto

declare ReadReply_loop.simps [simp del]

definition ReadReply ::
  "string \<Rightarrow> goerr \<Rightarrow> int \<Rightarrow> ('w \<Rightarrow> 'w \<times> (goerr + Proto)) \<Rightarrow> 'w \<Rightarrow> 'w \<times> (goerr + Proto list)" where
  "ReadReply transport rejected limit read w = ReadReply_loop transport rejected limit read [] w"

section \<open>The read loop and the goroutine\<close>

text \<open>
  \<open>ds_busy\<close> is the message whose delivery the goroutine waits for; \<open>ds_accepted\<close> and \<open>ds_started\<close> record the
  messages queued and the messages whose delivery the goroutine began; \<open>ds_stopped\<close>: \<open>Stop\<close> returned.
\<close>

record disp_system =
  ds_disp :: dispatcher
  ds_busy :: "Proto option"
  ds_accepted :: "Proto list"
  ds_started :: "Proto list"
  ds_stopped :: bool

inductive disp_step :: "'w dp_env \<Rightarrow> disp_system \<Rightarrow> disp_system \<Rightarrow> bool" for env where
  d_Handle: "dp_Handle env m (ds_disp s) w = (d, w', err) \<Longrightarrow>
    disp_step env s (s\<lparr>ds_disp := d, ds_accepted := ds_accepted s @
      (if err = None \<and> dp_requests (ds_disp s) \<noteq> None \<and> Op m \<noteq> OpHeartbeat then [m] else [])\<rparr>)"
| d_cancel: "disp_step env s (s\<lparr>ds_disp := dp_cancel cause (ds_disp s)\<rparr>)"
| d_exit: "dp_done (ds_disp s) = Some False \<Longrightarrow> ds_busy s = None \<Longrightarrow> dp_ctxErr (ds_disp s) \<noteq> None \<Longrightarrow>
    disp_step env s (s\<lparr>ds_disp := (ds_disp s)\<lparr>dp_done := Some True\<rparr>\<rparr>)"
| d_receive: "dp_done (ds_disp s) = Some False \<Longrightarrow> ds_busy s = None \<Longrightarrow> run_receive (ds_disp s) = Some (d, got) \<Longrightarrow>
    disp_step env s (s\<lparr>ds_disp := d, ds_busy := got, ds_started := ds_started s @ (case got of None \<Rightarrow> [] | Some m \<Rightarrow> [m])\<rparr>)"
| d_delivered: "ds_busy s = Some m \<Longrightarrow> run_delivered r (ds_disp s) = (d, closes) \<Longrightarrow>
    disp_step env s (s\<lparr>ds_disp := d, ds_busy := None\<rparr>)"
| d_Stop: "dp_ctxErr (ds_disp s) \<noteq> None \<Longrightarrow> dp_Stop_wait (ds_disp s) = Some d \<Longrightarrow>
    disp_step env s (s\<lparr>ds_disp := d, ds_stopped := True\<rparr>)"

definition disp_start :: "goerr option \<Rightarrow> nat \<Rightarrow> disp_system" where
  "disp_start ctxErr capacity =
     \<lparr>ds_disp = dp_New ctxErr capacity, ds_busy = None, ds_accepted = [], ds_started = [], ds_stopped = False\<rparr>"

definition disp_inv :: "disp_system \<Rightarrow> bool" where
  "disp_inv s =
     (let d = ds_disp s in
      (ds_busy s \<noteq> None \<longrightarrow> dp_done d = Some False) \<and>
      (dp_done d = None \<longrightarrow> dp_requests d = None \<and> ds_accepted s = [] \<and> ds_started s = []) \<and>
      (dp_done d = Some False \<longrightarrow> (\<exists>q. dp_requests d = Some q \<and> ds_accepted s = ds_started s @ ch_buf q)) \<and>
      (\<forall>q. dp_requests d = Some q \<longrightarrow> \<not> ch_closed q \<and> length (ch_buf q) \<le> dp_capacity d \<and> ch_cap q = dp_capacity d) \<and>
      (dp_done d = Some True \<longrightarrow> dp_ctxErr d \<noteq> None) \<and>
      (\<exists>rest. ds_accepted s = ds_started s @ rest) \<and>
      (ds_stopped s \<longrightarrow> dp_done d \<noteq> Some False \<and> dp_ctxErr d \<noteq> None \<and> dp_requests d = None))"

lemma disp_start_inv: "disp_inv (disp_start ctxErr capacity)"
  by (simp add: disp_inv_def disp_start_def dp_New_def)

lemma dp_cancel_fields [simp]:
  "dp_requests (dp_cancel cause d) = dp_requests d" "dp_done (dp_cancel cause d) = dp_done d"
  "dp_capacity (dp_cancel cause d) = dp_capacity d" "\<exists>y. dp_ctxErr (dp_cancel cause d) = Some y"
  by (auto simp: dp_cancel_def split: option.splits)

lemma dp_Handle_cases:
  assumes "dp_Handle env m d w = (d', w', err)"
  obtains (same) "d' = d" "err = None \<Longrightarrow> dp_requests d = None \<or> Op m = OpHeartbeat"
  | (opened) "dp_ctxErr d = None" "dp_requests d = None" "d' = d\<lparr>dp_requests := Some (make_chan (dp_capacity d)), dp_done := Some False\<rparr>"
  | (queued) q q' where "dp_ctxErr d = None" "dp_requests d = Some q" "Op m \<noteq> OpHeartbeat" "chan_put m q = Some q'" "err = None"
      "d' = d\<lparr>dp_requests := Some q'\<rparr>"
proof (cases "dp_ctxErr d")
  case None
  then show ?thesis using assms same opened queued unfolding dp_Handle_def Let_def
    by (auto split: option.splits prod.splits sum.splits if_splits)
next
  case (Some e)
  then have "dp_Handle env m d w = (d, w, Some e)" by (simp add: dp_Handle_def)
  then show ?thesis using assms same by simp
qed

lemma dp_Handle_inv:
  assumes "disp_inv s" "dp_Handle env m (ds_disp s) w = (d, w', err)"
  shows "disp_inv (s\<lparr>ds_disp := d, ds_accepted := ds_accepted s @
      (if err = None \<and> dp_requests (ds_disp s) \<noteq> None \<and> Op m \<noteq> OpHeartbeat then [m] else [])\<rparr>)"
  using assms(2)
proof (cases rule: dp_Handle_cases)
  case same
  then have "\<not> (err = None \<and> dp_requests (ds_disp s) \<noteq> None \<and> Op m \<noteq> OpHeartbeat)" by blast
  then show ?thesis using assms(1) same(1) by (simp only: if_False append_Nil2) simp
next
  case opened
  have "dp_done (ds_disp s) = None" using assms(1) opened by (cases "dp_done (ds_disp s)") (auto simp: disp_inv_def Let_def)
  then show ?thesis using assms(1) opened by (auto simp: disp_inv_def Let_def make_chan_def)
next
  case (queued q q')
  have "dp_done (ds_disp s) = Some False" using assms(1) queued by (cases "dp_done (ds_disp s)") (auto simp: disp_inv_def Let_def)
  then show ?thesis using assms(1) queued
    by (auto simp: disp_inv_def Let_def chan_put_def chan_send_def split: if_splits)
qed

lemma disp_step_inv: "disp_step env s s' \<Longrightarrow> disp_inv s \<Longrightarrow> disp_inv s'"
proof (induction rule: disp_step.induct)
  case (d_Handle m s w d w' err)
  then show ?case by (simp only: dp_Handle_inv)
next
  case (d_cancel s cause)
  then show ?case by (auto simp: disp_inv_def Let_def)
next
  case (d_receive s d got)
  then show ?case
    by (auto simp: disp_inv_def Let_def run_receive_def chan_get_def chan_recv_def split: option.splits list.splits if_splits prod.splits)
next
  case (d_delivered s m r d closes)
  then show ?case by (auto simp: disp_inv_def Let_def run_delivered_def split: delivery.splits)
next
  case (d_Stop s d)
  then show ?case by (auto simp: disp_inv_def Let_def dp_Stop_wait_def split: if_splits)
qed (auto simp: disp_inv_def Let_def)

lemma disp_reach_inv: "(disp_step env)\<^sup>*\<^sup>* (disp_start ctxErr capacity) s \<Longrightarrow> disp_inv s"
  by (induction rule: rtranclp_induct) (auto intro: disp_start_inv disp_step_inv)

section \<open>Facts\<close>

text \<open>
  Deliveries by the goroutine begin in the order in which the messages were queued, each once and one at a
  time; never more than the capacity waits.
\<close>

lemma dispatcher_in_order:
  assumes "(disp_step env)\<^sup>*\<^sup>* (disp_start ctxErr capacity) s"
  shows "\<exists>rest. ds_accepted s = ds_started s @ rest"
    and "dp_requests (ds_disp s) = Some q \<Longrightarrow> length (ch_buf q) \<le> dp_capacity (ds_disp s)"
  using disp_reach_inv [OF assms] by (auto simp: disp_inv_def Let_def)

text \<open>Once \<open>Stop\<close> returned, no delivery is under way and no step begins one: the handler may be closed.\<close>

lemma dispatcher_stop_quiesces:
  assumes "(disp_step env)\<^sup>*\<^sup>* (disp_start ctxErr capacity) s" "ds_stopped s"
  shows "ds_busy s = None" and "disp_step env s s' \<Longrightarrow> ds_started s' = ds_started s \<and> ds_stopped s'"
    and "\<exists>err. dp_Handle env m (ds_disp s) w = (ds_disp s, w, Some err)"
proof -
  have inv: "dp_done (ds_disp s) \<noteq> Some False" "dp_ctxErr (ds_disp s) \<noteq> None" "ds_busy s = None"
    using disp_reach_inv [OF assms(1)] assms(2) by (auto simp: disp_inv_def Let_def)
  show "ds_busy s = None" by (fact inv(3))
  show "\<exists>err. dp_Handle env m (ds_disp s) w = (ds_disp s, w, Some err)" using inv(2) by (auto simp: dp_Handle_def)
  show "disp_step env s s' \<Longrightarrow> ds_started s' = ds_started s \<and> ds_stopped s'"
    by (erule disp_step.cases) (use inv assms(2) in auto)
qed

text \<open>The messages \<open>ReadReply\<close> keeps are pushes, no more than its limit.\<close>

lemma ReadReply_loop_bounded:
  assumes "ReadReply_loop transport rejected limit read pending w = (w', Inr ps)" "\<forall>p\<in>set pending. Op p = OpPush"
    "int (length pending) \<le> max 0 limit"
  shows "(\<forall>p\<in>set ps. Op p = OpPush) \<and> int (length ps) \<le> max 0 limit"
  using assms
proof (induction transport rejected limit read pending w rule: ReadReply_loop.induct)
  case (1 transport rejected limit read pending w)
  obtain w1 r where r: "read w = (w1, r)" by fastforce
  show ?case
  proof (cases "\<exists>reply. r = Inr reply \<and> Op reply = OpPush")
    case True
    then obtain reply where reply: "r = Inr reply" "Op reply = OpPush" by blast
    then have below: "int (length pending) < limit"
      using 1(2) r by (subst (asm) ReadReply_loop.simps) (auto split: if_splits)
    then have "ReadReply_loop transport rejected limit read (pending @ [reply]) w1 = (w', Inr ps)"
      using 1(2) r reply by (subst (asm) ReadReply_loop.simps) simp
    then show ?thesis using 1(1) [OF r [symmetric] reply(1) reply(2)] 1(3) below reply(2) by auto
  next
    case False
    then have "ps = pending" using 1(2) r by (subst (asm) ReadReply_loop.simps) (auto split: sum.splits if_splits)
    then show ?thesis using 1(3,4) by simp
  qed
qed

lemma ReadReply_bounded:
  "ReadReply transport rejected limit read w = (w', Inr ps) \<Longrightarrow> (\<forall>p\<in>set ps. Op p = OpPush) \<and> int (length ps) \<le> max 0 limit"
  unfolding ReadReply_def by (drule ReadReply_loop_bounded) auto

end
