(* ===== verification/Connections.thy ===== *)
theory Connections
  imports Ws_Channel Tcp_Channel Dispatcher
begin

text \<open>
  The connections of the servers as their handlers see them: the read loop of a WebSocket connection
  (\<open>network/websocket/server_connection.go\<close>), which composes the channel with the dispatcher, and the connection the
  TCP server hands out with the set-up of its socket (\<open>network/tcp/server_connection.go\<close>).
\<close>

section \<open>WebSocket\<close>

text \<open>\<open>endpoint\<close> is the printed endpoint of the server, if it has one; the result is the transporter put into the context.\<close>

definition ws_connectionContext :: "string option \<Rightarrow> string \<Rightarrow> string \<Rightarrow> Transport" where
  "ws_connectionContext endpoint remoteAddr connID =
     (let remoteIP = (case SplitHostPort remoteAddr of Inl _ \<Rightarrow> remoteAddr | Inr (host, _) \<Rightarrow> host) in
      NewTransport KindWebSocket (case endpoint of None \<Rightarrow> [] | Some e \<Rightarrow> e) remoteIP connID)"

text \<open>
  A served connection: its channel and the dispatcher of its read loop, if the handler has heartbeats. What the
  goroutine of the dispatcher does during a turn of the loop shows after that turn.
\<close>

record ws_served = ws_channel +
  wsv_dispatcher :: "dispatcher option"

type_synonym 'a wsv = "'a ws_served_scheme"

text \<open>One turn of the loop; the result tells whether it goes on. \<open>None\<close> is a read that never ends.\<close>

definition ws_message_turn ::
  "'a wsv wc_env \<Rightarrow> (Proto \<Rightarrow> 'a wsv \<Rightarrow> 'a wsv \<times> (goerr + Proto)) \<Rightarrow> 'a wsv \<Rightarrow> ('a wsv \<times> bool) option" where
  "ws_message_turn env invoke c =
     (case ws_readFrame env c of
        None \<Rightarrow> None
      | Some (c, Inl err) \<Rightarrow> Some (c, False)
      | Some (c, Inr message) \<Rightarrow>
          let message = (if Op message = OpHeartbeat then message\<lparr>Body := []\<rparr> else message) in
          (case wsv_dispatcher c of
             Some d \<Rightarrow>
               (case dp_Handle \<lparr>de_invoke = invoke, de_SendProto = \<lambda>p. ws_SendProto (Some p)\<rparr> message d c of
                  (d, c, err) \<Rightarrow> Some (c\<lparr>wsv_dispatcher := Some d\<rparr>, err = None))
           | None \<Rightarrow>
               (case invoke message c of
                  (c, Inl err) \<Rightarrow> Some (c, False)
                | (c, Inr reply) \<Rightarrow> (case ws_SendProto (Some reply) c of (c, err) \<Rightarrow> Some (c, err = None)))))"

partial_function (option) ws_message_loop ::
  "'a wsv wc_env \<Rightarrow> (Proto \<Rightarrow> 'a wsv \<Rightarrow> 'a wsv \<times> (goerr + Proto)) \<Rightarrow> 'a wsv \<Rightarrow> 'a wsv option" where
  "ws_message_loop env invoke c =
     (case ws_message_turn env invoke c of
        None \<Rightarrow> None
      | Some (c, goesOn) \<Rightarrow> if goesOn then ws_message_loop env invoke c else Some c)"

text \<open>
  \<open>heartbeats\<close>: the handler has heartbeats. \<open>settle\<close> is the wait of \<open>Stop\<close>, in which the dispatcher's goroutine ends.
\<close>

definition readWebSocketMessages ::
  "'a wsv wc_env \<Rightarrow> (Proto \<Rightarrow> 'a wsv \<Rightarrow> 'a wsv \<times> (goerr + Proto)) \<Rightarrow> (dispatcher \<Rightarrow> dispatcher) \<Rightarrow> bool \<Rightarrow> int \<Rightarrow> 'a wsv \<Rightarrow> 'a wsv option" where
  "readWebSocketMessages env invoke settle heartbeats requestQueueSize c =
     (case ws_message_loop env invoke
        (c\<lparr>wsv_dispatcher := (if heartbeats then Some (dp_New (wch_ctxErr c) (nat requestQueueSize)) else None)\<rparr>) of
        None \<Rightarrow> None
      | Some c \<Rightarrow>
          (case wsv_dispatcher c of
             None \<Rightarrow> Some c
           | Some d \<Rightarrow> map_option (\<lambda>d. c\<lparr>wsv_dispatcher := Some d\<rparr>) (dp_Stop_wait (settle (dp_cancel ctx_canceled d)))))"

section \<open>TCP\<close>

record tcpConnection =
  tn_remoteAddr :: string
  tn_ch :: tcp_channel

type_synonym 'a tcn = "'a tcpConnection_scheme"

definition tn_SendProto :: "Proto \<Rightarrow> 'a tcn \<Rightarrow> 'a tcn \<times> goerr option" where
  "tn_SendProto p c = (case tcp_push p (tn_ch c) of (ch, err) \<Rightarrow> (c\<lparr>tn_ch := ch\<rparr>, err))"

definition tn_SendStats :: "'a tcn \<Rightarrow> SendStats" where
  "tn_SendStats c =
     (let ch = tn_ch c in
      \<lparr>ss_QueueDepth = length (ch_buf (tc_outbound ch)), ss_QueueCapacity = ch_cap (tc_outbound ch),
       ss_PendingPayloadBytes = tc_pendingPayloadBytes ch, ss_QueueDropped = tc_queueDropped ch, ss_Closed = tc_closed ch\<rparr>)"

text \<open>
  \<open>closeConn\<close> closes the socket. \<open>closeWithProto\<close> is the call on the channel, from its first part to its wait
  for the writer (\<open>tcp_closeWithProto\<close> to \<open>tcp_waitFinal\<close>).
\<close>

definition tn_CloseWithProto ::
  "('a tcn \<Rightarrow> 'a tcn \<times> goerr option) \<Rightarrow> ('a tcn \<Rightarrow> 'a tcn \<times> goerr option) \<Rightarrow> 'a tcn \<Rightarrow> 'a tcn \<times> goerr option" where
  "tn_CloseWithProto closeConn closeWithProto c =
     (case closeWithProto c of (c, err) \<Rightarrow> (if tc_closed (tn_ch c) then fst (closeConn c) else c, err))"

definition tn_Close :: "('a tcn \<Rightarrow> 'a tcn \<times> goerr option) \<Rightarrow> 'a tcn \<Rightarrow> 'a tcn \<times> goerr option" where
  "tn_Close closeConn c = closeConn (c\<lparr>tn_ch := tcp_close (tn_ch c)\<rparr>)"

text \<open>The socket: which TCP connection is below a connection, and its settings.\<close>

datatype net_conn = TCPConn nat | TLSConn net_conn | OtherConn

definition underlyingTCPConn :: "net_conn \<Rightarrow> nat option" where
  "underlyingTCPConn conn =
     (case conn of
        TCPConn c \<Rightarrow> Some c
      | TLSConn inner \<Rightarrow> (case inner of TCPConn c \<Rightarrow> Some c | _ \<Rightarrow> None)
      | OtherConn \<Rightarrow> None)"

record 'w sock_env =
  so_SetKeepAlive :: "bool \<Rightarrow> 'w \<Rightarrow> 'w \<times> goerr option"
  so_SetReadBuffer :: "nat \<Rightarrow> 'w \<Rightarrow> 'w \<times> goerr option"
  so_SetWriteBuffer :: "nat \<Rightarrow> 'w \<Rightarrow> 'w \<times> goerr option"

definition configureTCPConnection :: "'w sock_env \<Rightarrow> 'w \<Rightarrow> 'w \<times> goerr option" where
  "configureTCPConnection env w =
     (case so_SetKeepAlive env False w of
        (w, Some err) \<Rightarrow> (w, Some (Wrap ''disable keepalive'' [err]))
      | (w, None) \<Rightarrow>
          (case so_SetReadBuffer env 4096 w of
             (w, Some err) \<Rightarrow> (w, Some (Wrap ''set read buffer'' [err]))
           | (w, None) \<Rightarrow>
               (case so_SetWriteBuffer env 4096 w of
                  (w, Some err) \<Rightarrow> (w, Some (Wrap ''set write buffer'' [err]))
                | (w, None) \<Rightarrow> (w, None))))"

section \<open>Facts\<close>

text \<open>
  When the read loop of a connection has ended, its dispatcher is cancelled, no goroutine of it runs and nothing is
  queued, so that the handler may close the connection.
\<close>

lemma dp_Stop_wait_quiet:
  "dp_Stop_wait d = Some d' \<Longrightarrow> dp_requests d' = None \<and> dp_done d' \<noteq> Some False \<and> dp_ctxErr d' = dp_ctxErr d"
  by (auto simp: dp_Stop_wait_def split: if_splits)

lemma read_loop_leaves_quiet:
  assumes "readWebSocketMessages env invoke settle heartbeats n c = Some c'" "wsv_dispatcher c' = Some d"
    and settle: "\<And>d. dp_ctxErr d \<noteq> None \<Longrightarrow> dp_ctxErr (settle d) \<noteq> None"
  shows "dp_ctxErr d \<noteq> None \<and> dp_requests d = None \<and> dp_done d \<noteq> Some False"
proof -
  have "dp_ctxErr (dp_cancel ctx_canceled e) \<noteq> None" for e by (simp add: dp_cancel_def split: option.splits)
  then show ?thesis using assms(1,2) settle
    by (fastforce simp: readWebSocketMessages_def dest: dp_Stop_wait_quiet split: option.splits)
qed

text \<open>The loop ends with the first read that fails, whatever was handled before.\<close>

lemma ws_message_loop_ends: "ws_message_turn env invoke c = Some (c', False) \<Longrightarrow> ws_message_loop env invoke c = Some c'"
  by (subst ws_message_loop.simps) simp

lemma ws_message_loop_turn:
  "ws_message_turn env invoke c = Some (c', True) \<Longrightarrow> ws_message_loop env invoke c = ws_message_loop env invoke c'"
  by (subst ws_message_loop.simps) simp

end
