(* ===== verification/Queue.thy ===== *)
theory Queue
  imports Channels
begin

text \<open>
  \<open>internal/queue/queue.go\<close>: the bounded callback queue with one worker. A callback is a name of type
  \<open>'f\<close>, a nil callback is \<open>None\<close>; running it is recorded in a log. The mutex sections are atomic
  operations on the queue; the worker, the submitters and the terminations interleave freely in
  \<open>qstep\<close>.
\<close>

section \<open>The queue\<close>

text \<open>Terminal callbacks run behind a gate: a receive from the channel \<open>ready\<close> the caller closes.\<close>

datatype 'f terminal = AwaitReady nat | Terminal 'f

record 'f queue =
  q_capacity :: int
  q_wake :: "unit chan"
  q_tasks :: "'f list"
  q_terminals :: "'f terminal list"
  q_closed :: bool

text \<open>\<open>None\<close> is the panic of a capacity that is not positive.\<close>

definition queue_New :: "int \<Rightarrow> 'f queue option" where
  "queue_New capacity =
     (if capacity \<le> 0 then None
      else Some \<lparr>q_capacity = capacity, q_wake = make_chan 1, q_tasks = [], q_terminals = [], q_closed = False\<rparr>)"

definition hasNilCallback :: "'f option list \<Rightarrow> bool" where
  "hasNilCallback callbacks = list_ex (\<lambda>c. c = None) callbacks"

definition wake_up :: "unit chan \<Rightarrow> unit chan" where
  "wake_up c = (case chan_send () c of Sent c' \<Rightarrow> c' | _ \<Rightarrow> c)"

definition SubmitBatch :: "'f option list \<Rightarrow> 'f queue \<Rightarrow> 'f queue \<times> goerr option" where
  "SubmitBatch callbacks q =
     (if hasNilCallback callbacks then (q, Some (QueueErr ErrNilCallback))
      else if q_closed q then (q, Some (QueueErr ErrQueueClosed))
      else if int (length callbacks) > q_capacity q - int (length (q_tasks q)) then (q, Some (QueueErr ErrQueueFull))
      else (q\<lparr>q_tasks := q_tasks q @ List.map_filter id callbacks,
              q_wake := (if callbacks = [] then q_wake q else wake_up (q_wake q))\<rparr>, None))"

definition queue_Submit :: "'f option \<Rightarrow> 'f queue \<Rightarrow> 'f queue \<times> goerr option" where
  "queue_Submit callback q = SubmitBatch [callback] q"

definition closeWithTerminals :: "'f terminal list \<Rightarrow> 'f queue \<Rightarrow> 'f queue \<times> bool" where
  "closeWithTerminals terminals q =
     (if q_closed q then (q, False)
      else (q\<lparr>q_closed := True, q_tasks := [], q_terminals := terminals, q_wake := (q_wake q)\<lparr>ch_closed := True\<rparr>\<rparr>, True))"

definition queue_Stop :: "'f queue \<Rightarrow> 'f queue" where
  "queue_Stop q = fst (closeWithTerminals [] q)"

text \<open>
  What \<open>BeginTermination\<close> returns: nil, the function that runs the terminals in the caller, or the
  function that opens the gate \<open>ready\<close>.
\<close>

datatype 'f release = NoRelease | RunTerminals "'f list" | OpenGate nat

definition BeginTermination :: "nat \<Rightarrow> 'f option list \<Rightarrow> 'f queue \<Rightarrow> 'f queue \<times> 'f release" where
  "BeginTermination ready terminals q =
     (if terminals = [] \<or> hasNilCallback terminals then (queue_Stop q, NoRelease)
      else let fs = List.map_filter id terminals;
               (q', won) = closeWithTerminals (AwaitReady ready # map Terminal fs) q
           in (q', if won then OpenGate ready else RunTerminals fs))"

definition queue_next :: "'f queue \<Rightarrow> 'f queue \<times> 'f option \<times> 'f terminal list \<times> bool" where
  "queue_next q =
     (if q_closed q then (q\<lparr>q_terminals := []\<rparr>, None, q_terminals q, True)
      else case q_tasks q of
        [] \<Rightarrow> (q, None, [], False)
      | f # fs \<Rightarrow> (q\<lparr>q_tasks := fs\<rparr>, Some f, [], False))"

section \<open>The worker and its callers\<close>

datatype 'f worker = Looping | Invoking 'f | Waiting | Terminating "'f terminal list" | Returned

text \<open>
  \<open>qw_log\<close> lists the callbacks the worker has invoked, in order, \<open>qw_accepted\<close> those a submission
  accepted. A panic of a callback is recovered by \<open>invokeSafely\<close>, so an invocation always ends.
\<close>

record 'f qworld =
  qw_q :: "'f queue"
  qw_worker :: "'f worker"
  qw_log :: "'f list"
  qw_accepted :: "'f list"
  qw_ready :: "nat set"
  qw_gates :: "nat set"

definition qworld_start :: "'f queue \<Rightarrow> 'f qworld" where
  "qworld_start q = \<lparr>qw_q = q, qw_worker = Looping, qw_log = [], qw_accepted = [], qw_ready = {}, qw_gates = {}\<rparr>"

text \<open>One turn of the loop of \<open>Run\<close> after the call of \<open>next\<close>.\<close>

definition run_turn :: "'f qworld \<Rightarrow> 'f qworld" where
  "run_turn w =
     (case queue_next (qw_q w) of
        (q, Some f, _, _) \<Rightarrow> w\<lparr>qw_q := q, qw_worker := Invoking f\<rparr>
      | (q, None, terminals, True) \<Rightarrow> w\<lparr>qw_q := q, qw_worker := Terminating terminals\<rparr>
      | (q, None, _, False) \<Rightarrow> w\<lparr>qw_q := q, qw_worker := Waiting\<rparr>)"

inductive qstep :: "'f qworld \<Rightarrow> 'f qworld \<Rightarrow> bool" where
  submit: "SubmitBatch cs (qw_q w) = (q, err) \<Longrightarrow>
    qstep w (w\<lparr>qw_q := q, qw_accepted := qw_accepted w @ (if err = None then List.map_filter id cs else [])\<rparr>)"
| stop: "qstep w (w\<lparr>qw_q := queue_Stop (qw_q w)\<rparr>)"
| terminate: "ready \<notin> qw_gates w \<Longrightarrow> BeginTermination ready cs (qw_q w) = (q, release) \<Longrightarrow>
    qstep w (w\<lparr>qw_q := q, qw_gates := insert ready (qw_gates w)\<rparr>)"
| open_gate: "ready \<in> qw_gates w \<Longrightarrow> qstep w (w\<lparr>qw_ready := insert ready (qw_ready w)\<rparr>)"
| turn: "qw_worker w = Looping \<Longrightarrow> qstep w (run_turn w)"
| invoke: "qw_worker w = Invoking f \<Longrightarrow> qstep w (w\<lparr>qw_worker := Looping, qw_log := qw_log w @ [f]\<rparr>)"
| wake: "qw_worker w = Waiting \<Longrightarrow> chan_recv (q_wake (qw_q w)) = Received u c \<Longrightarrow>
    qstep w (w\<lparr>qw_worker := Looping, qw_q := (qw_q w)\<lparr>q_wake := c\<rparr>\<rparr>)"
| wake_closed: "qw_worker w = Waiting \<Longrightarrow> chan_recv (q_wake (qw_q w)) = RecvClosed \<Longrightarrow>
    qstep w (w\<lparr>qw_worker := Looping\<rparr>)"
| gate: "qw_worker w = Terminating (AwaitReady r # ts) \<Longrightarrow> r \<in> qw_ready w \<Longrightarrow>
    qstep w (w\<lparr>qw_worker := Terminating ts\<rparr>)"
| terminal: "qw_worker w = Terminating (Terminal f # ts) \<Longrightarrow>
    qstep w (w\<lparr>qw_worker := Terminating ts\<rparr>)"
| returned: "qw_worker w = Terminating [] \<Longrightarrow> qstep w (w\<lparr>qw_worker := Returned\<rparr>)"

section \<open>Invariants\<close>

definition queue_ok :: "'f queue \<Rightarrow> bool" where
  "queue_ok q =
     (0 < q_capacity q \<and> int (length (q_tasks q)) \<le> q_capacity q \<and> ch_cap (q_wake q) = 1 \<and>
      length (ch_buf (q_wake q)) \<le> 1 \<and> ch_closed (q_wake q) = q_closed q \<and>
      (q_closed q \<longrightarrow> q_tasks q = []) \<and> (\<not> q_closed q \<longrightarrow> q_terminals q = []))"

fun in_hand :: "'f worker \<Rightarrow> 'f list" where
  "in_hand (Invoking f) = [f]"
| "in_hand _ = []"

text \<open>
  A waiting worker has something to wake it whenever there is work or the queue is closed; the
  callbacks invoked, in hand and queued are the accepted ones in order, until a close drops the
  queued ones.
\<close>

definition qworld_ok :: "'f qworld \<Rightarrow> bool" where
  "qworld_ok w =
     (queue_ok (qw_q w) \<and>
      (qw_worker w = Waiting \<longrightarrow> q_tasks (qw_q w) = [] \<or> ch_buf (q_wake (qw_q w)) \<noteq> []) \<and>
      (\<exists>dropped. qw_accepted w = qw_log w @ in_hand (qw_worker w) @ q_tasks (qw_q w) @ dropped \<and>
        (\<not> q_closed (qw_q w) \<longrightarrow> dropped = [])))"

lemma map_filter_id_length: "\<not> hasNilCallback cs \<Longrightarrow> length (List.map_filter id cs) = length cs"
  by (induction cs) (auto simp: hasNilCallback_def List.map_filter_def)

lemma queue_New_ok: "queue_New n = Some q \<Longrightarrow> queue_ok q"
  by (auto simp: queue_New_def queue_ok_def make_chan_def split: if_splits)

lemma wake_up_ok:
  "ch_cap (wake_up c) = ch_cap c" "ch_closed (wake_up c) = ch_closed c"
  "ch_cap c = Suc 0 \<Longrightarrow> length (ch_buf c) \<le> Suc 0 \<Longrightarrow> length (ch_buf (wake_up c)) \<le> Suc 0"
  "ch_cap c = Suc 0 \<Longrightarrow> \<not> ch_closed c \<Longrightarrow> ch_buf (wake_up c) \<noteq> []"
  by (auto simp: wake_up_def chan_send_def)

lemma SubmitBatch_cases:
  assumes "SubmitBatch cs q = (q', err)" "queue_ok q"
  shows "queue_ok q' \<and> q_closed q' = q_closed q \<and>
    (err \<noteq> None \<and> q' = q \<or>
     err = None \<and> \<not> q_closed q \<and> q_tasks q' = q_tasks q @ List.map_filter id cs \<and>
       (q_tasks q' = [] \<or> ch_buf (q_wake q') \<noteq> [] \<or> cs = [] \<and> q' = q))"
  using assms map_filter_id_length [of cs]
  by (auto simp: SubmitBatch_def queue_ok_def wake_up_ok List.map_filter_def split: if_splits)

lemma closeWithTerminals_ok: "queue_ok q \<Longrightarrow> queue_ok (fst (closeWithTerminals ts q))"
  by (auto simp: closeWithTerminals_def queue_ok_def)

lemma closeWithTerminals_tasks:
  "q_closed (fst (closeWithTerminals ts q))"
  "queue_ok q \<Longrightarrow> q_tasks (fst (closeWithTerminals ts q)) = []"
  by (auto simp: closeWithTerminals_def queue_ok_def)

lemma BeginTermination_close:
  "fst (BeginTermination r cs q) =
     (if cs = [] \<or> hasNilCallback cs then fst (closeWithTerminals [] q)
      else fst (closeWithTerminals (AwaitReady r # map Terminal (List.map_filter id cs)) q))"
  by (simp add: BeginTermination_def queue_Stop_def Let_def split: prod.splits)

lemma qworld_ok_close:
  assumes "qworld_ok w"
  shows "qworld_ok (w\<lparr>qw_q := fst (closeWithTerminals ts (qw_q w))\<rparr>)"
proof -
  have ok: "queue_ok (qw_q w)" using assms by (simp add: qworld_ok_def)
  obtain dropped where "qw_accepted w = qw_log w @ in_hand (qw_worker w) @ q_tasks (qw_q w) @ dropped"
    using assms by (auto simp: qworld_ok_def)
  then show ?thesis using closeWithTerminals_ok [OF ok] closeWithTerminals_tasks(2) [OF ok]
    by (auto simp: qworld_ok_def closeWithTerminals_tasks(1) intro!: exI [of _ "q_tasks (qw_q w) @ dropped"])
qed

lemma queue_next_cases:
  assumes "queue_ok q"
  shows "(\<exists>f fs. \<not> q_closed q \<and> q_tasks q = f # fs \<and> queue_next q = (q\<lparr>q_tasks := fs\<rparr>, Some f, [], False)) \<or>
    (\<not> q_closed q \<and> q_tasks q = [] \<and> queue_next q = (q, None, [], False)) \<or>
    (q_closed q \<and> q_tasks q = [] \<and> queue_next q = (q\<lparr>q_terminals := []\<rparr>, None, q_terminals q, True))"
  using assms by (auto simp: queue_next_def queue_ok_def split: list.splits)

lemma qworld_ok_turn:
  assumes "qworld_ok w" "qw_worker w = Looping"
  shows "qworld_ok (run_turn w)"
proof -
  have ok: "queue_ok (qw_q w)" using assms by (simp add: qworld_ok_def)
  show ?thesis using queue_next_cases [OF ok] assms
    by (elim disjE exE conjE) (auto simp: run_turn_def qworld_ok_def queue_ok_def)
qed

lemma chan_recv_Received: "chan_recv c = Received x c' \<longleftrightarrow> (\<exists>xs. ch_buf c = x # xs \<and> c' = c\<lparr>ch_buf := xs\<rparr>)"
  by (auto simp: chan_recv_def split: list.splits if_splits)

lemma qstep_ok:
  assumes "qstep w w'" "qworld_ok w"
  shows "qworld_ok w'"
  using assms
proof (cases rule: qstep.cases)
  case (submit cs q err)
  have ok: "queue_ok (qw_q w)" using assms(2) by (simp add: qworld_ok_def)
  show ?thesis using SubmitBatch_cases [OF submit(2) ok] assms(2) unfolding submit(1)
    by (elim conjE disjE) (auto simp: qworld_ok_def List.map_filter_def)
next
  case stop
  then show ?thesis using qworld_ok_close [OF assms(2), of "[]"] by (simp add: queue_Stop_def)
next
  case (terminate ready cs q release)
  have "q = fst (BeginTermination ready cs (qw_q w))" using terminate by simp
  then have "qworld_ok (w\<lparr>qw_q := q\<rparr>)" using qworld_ok_close [OF assms(2)] by (simp add: BeginTermination_close)
  then show ?thesis unfolding terminate(1) by (simp add: qworld_ok_def)
next
  case turn
  then show ?thesis using qworld_ok_turn assms(2) by blast
qed (auto simp: qworld_ok_def queue_ok_def chan_recv_Received)

lemma qstep_reach_ok:
  assumes "qstep\<^sup>*\<^sup>* w w'" "qworld_ok w"
  shows "qworld_ok w'"
  using assms by (induction rule: rtranclp_induct) (auto intro: qstep_ok)

lemma qworld_ok_start: "queue_New n = Some q \<Longrightarrow> qworld_ok (qworld_start q)"
  using queue_New_ok [of n q] by (auto simp: qworld_ok_def qworld_start_def queue_New_def split: if_splits)

section \<open>The queue as a bounded FIFO\<close>

definition queue_put :: "'f \<Rightarrow> 'f queue \<Rightarrow> 'f queue option" where
  "queue_put f q = (case queue_Submit (Some f) q of (q', None) \<Rightarrow> Some q' | (_, Some _) \<Rightarrow> None)"

definition queue_get :: "'f queue \<Rightarrow> ('f \<times> 'f queue) option" where
  "queue_get q = (case queue_next q of (q', Some f, _) \<Rightarrow> Some (f, q') | _ \<Rightarrow> None)"

interpretation callbacks: bounded_fifo q_tasks "\<lambda>q. nat (q_capacity q)" "\<lambda>q. queue_ok q \<and> \<not> q_closed q" queue_put queue_get
proof
  fix q q' :: "'f queue" and x
  assume good: "queue_ok q \<and> \<not> q_closed q"
  {
    assume "queue_put x q = Some q'"
    then have "SubmitBatch [Some x] q = (q', None)"
      by (auto simp: queue_put_def queue_Submit_def split: prod.splits option.splits)
    then show "(queue_ok q' \<and> \<not> q_closed q') \<and> q_tasks q' = q_tasks q @ [x] \<and>
        nat (q_capacity q') = nat (q_capacity q) \<and> length (q_tasks q) < nat (q_capacity q)"
      using SubmitBatch_cases [of "[Some x]" q q' None] good
      by (auto simp: SubmitBatch_def List.map_filter_def split: if_splits)
  next
    assume "queue_put x q = None"
    then show "nat (q_capacity q) \<le> length (q_tasks q)"
      using good by (auto simp: queue_put_def queue_Submit_def SubmitBatch_def hasNilCallback_def split: if_splits)
  next
    assume "queue_get q = Some (x, q')"
    then show "(queue_ok q' \<and> \<not> q_closed q') \<and> q_tasks q = x # q_tasks q' \<and> nat (q_capacity q') = nat (q_capacity q)"
      using good by (auto simp: queue_get_def queue_next_def queue_ok_def split: list.splits)
  next
    assume "queue_get q = None"
    then show "q_tasks q = []" using good by (auto simp: queue_get_def queue_next_def split: list.splits)
  }
qed

section \<open>Properties\<close>

text \<open>
  C15. A callback queue runs callbacks in order and exactly once: in every reachable state the callbacks
  the worker has invoked or is invoking are a prefix of the accepted ones, never more than the capacity
  wait, and nothing accepted is missing as long as the queue is open. A worker that waits for the wake
  channel can always go on when there is a callback to run or the queue is closed.
\<close>

theorem queue_delivers_in_order:
  assumes "queue_New n = Some q0" "qstep\<^sup>*\<^sup>* (qworld_start q0) w"
  shows "(\<exists>rest. qw_accepted w = qw_log w @ in_hand (qw_worker w) @ rest) \<and>
    int (length (q_tasks (qw_q w))) \<le> q_capacity (qw_q w) \<and>
    (\<not> q_closed (qw_q w) \<longrightarrow> qw_accepted w = qw_log w @ in_hand (qw_worker w) @ q_tasks (qw_q w)) \<and>
    (qw_worker w = Waiting \<and> (q_tasks (qw_q w) \<noteq> [] \<or> q_closed (qw_q w)) \<longrightarrow>
       chan_recv (q_wake (qw_q w)) \<noteq> RecvWait)"
proof -
  have ok: "qworld_ok w" using qstep_reach_ok [OF assms(2) qworld_ok_start [OF assms(1)]] .
  then have q: "queue_ok (qw_q w)" by (simp add: qworld_ok_def)
  have "chan_recv (q_wake (qw_q w)) \<noteq> RecvWait"
    if "qw_worker w = Waiting" "q_tasks (qw_q w) \<noteq> [] \<or> q_closed (qw_q w)"
    using that ok q by (auto simp: qworld_ok_def queue_ok_def chan_recv_def split: list.splits)
  then show ?thesis using ok q by (auto simp: qworld_ok_def queue_ok_def)
qed

definition queue_demo :: "nat queue" where
  "queue_demo = the (queue_New 2)"

definition queue_demo_world :: "nat qworld" where
  "queue_demo_world = (qworld_start queue_demo)
     \<lparr>qw_q := (queue_demo\<lparr>q_tasks := [8], q_wake := \<lparr>ch_cap = 1, ch_buf = [()], ch_closed = False\<rparr>\<rparr>),
      qw_worker := Invoking 7, qw_accepted := [7, 8]\<rparr>"

lemma queue_demo_reach: "qstep\<^sup>*\<^sup>* (qworld_start queue_demo) queue_demo_world"
proof -
  let ?q1 = "queue_demo\<lparr>q_tasks := [7, 8], q_wake := \<lparr>ch_cap = 1, ch_buf = [()], ch_closed = False\<rparr>\<rparr>"
  let ?w1 = "(qworld_start queue_demo)\<lparr>qw_q := ?q1, qw_accepted := [7, 8]\<rparr>"
  have "SubmitBatch [Some 7, Some 8] (qw_q (qworld_start queue_demo)) = (?q1, None)"
    by (simp add: SubmitBatch_def qworld_start_def queue_demo_def queue_New_def hasNilCallback_def
        make_chan_def wake_up_def chan_send_def List.map_filter_def)
  from qstep.submit [OF this] have "qstep (qworld_start queue_demo) ?w1"
    by (simp add: qworld_start_def List.map_filter_def)
  moreover have "qstep ?w1 queue_demo_world"
    using qstep.turn [of ?w1]
    by (simp add: queue_demo_world_def qworld_start_def run_turn_def queue_next_def queue_demo_def queue_New_def)
  ultimately show ?thesis by (meson converse_rtranclp_into_rtranclp rtranclp.rtrancl_refl)
qed

theorem queue_delivers_in_order_witness:
  "(\<exists>rest. qw_accepted queue_demo_world = qw_log queue_demo_world @ in_hand (qw_worker queue_demo_world) @ rest) \<and>
   qw_accepted queue_demo_world = [7, 8]"
  using queue_delivers_in_order [of 2 queue_demo queue_demo_world] queue_demo_reach
  by (simp add: queue_demo_def queue_New_def queue_demo_world_def qworld_start_def)



end
