(* ===== verification/Tracker.thy ===== *)
theory Tracker
  imports Protocol Channels
begin

unbundle bit_operations_syntax

text \<open>
  \<open>network/internal/request/tracker.go\<close>: the sequence numbers of a client's requests and the table of
  requests that wait for their response. A \<open>Pending\<close> is an address in a heap because the table
  compares pointers; its channel \<open>done\<close> has capacity one.
\<close>

section \<open>Sequence numbers\<close>

definition seq_mask :: "32 word" where "seq_mask = 0x7FFFFFFF"

text \<open>The low 31 bits of the counter.\<close>

definition seq_low :: "32 word \<Rightarrow> int" where
  "seq_low s = uint s mod 2147483648"

lemma seq_mask_uint: "uint (s AND seq_mask) = seq_low s"
proof -
  have "s AND seq_mask = take_bit 31 s" by (simp add: seq_mask_def take_bit_eq_mask mask_eq_exp_minus_1)
  then have "uint (s AND seq_mask) = take_bit 31 (uint s)" by (simp only: unsigned_take_bit_eq)
  then show ?thesis by (simp add: seq_low_def take_bit_eq_mod)
qed

lemma seq_low_Suc: "seq_low (s + 1) = (seq_low s + 1) mod 2147483648"
proof -
  have "uint (s + 1) = (uint s + 1) mod 4294967296" by (simp add: uint_word_ariths)
  then have "seq_low (s + 1) = (uint s + 1) mod 4294967296 mod 2147483648" by (simp add: seq_low_def)
  also have "\<dots> = (uint s + 1) mod 2147483648" by (rule mod_mod_cancel) simp
  finally show ?thesis by (simp add: seq_low_def mod_add_left_eq)
qed

lemma seq_low_zero: "(x AND seq_mask = 0) = (seq_low x = 0)"
  by (metis seq_mask_uint unsigned_0 word_uint_eqI)

lemma seq_mask_nonzero: "(s + 1) AND seq_mask = 0 \<Longrightarrow> (s + 1 + 1) AND seq_mask \<noteq> 0"
  using seq_low_Suc [of "s + 1"] by (simp only: seq_low_zero) simp

function nextSequence :: "32 word \<Rightarrow> 32 word \<times> int" where
  "nextSequence seq =
     (let seq = seq + 1; n = seq AND seq_mask in if n \<noteq> 0 then (seq, uint n) else nextSequence seq)"
  by auto
termination
  by (relation "measure (\<lambda>s. if (s + 1) AND seq_mask = 0 then 1 else 0)") (use seq_mask_nonzero in auto)

declare nextSequence.simps [simp del]

section \<open>The tracker\<close>

record outcome =
  oc_body :: bytes
  oc_code :: int
  oc_err :: "goerr option"

record Pending =
  p_seq :: int
  p_done :: "outcome chan"

record Tracker =
  tk_seq :: "32 word"
  tk_pending :: "int \<rightharpoonup> nat"
  tk_heap :: "nat \<rightharpoonup> Pending"

text \<open>
  The loop of \<open>Begin\<close> retries while the number is taken; \<open>a\<close> is the address of the new \<open>Pending\<close>.
\<close>

partial_function (option) Begin :: "nat \<Rightarrow> int \<Rightarrow> bytes \<Rightarrow> Tracker \<Rightarrow> (Tracker \<times> Proto \<times> nat) option" where
  "Begin a command body t =
     (let (s, seq) = nextSequence (tk_seq t); t' = t\<lparr>tk_seq := s\<rparr> in
      if tk_pending t seq \<noteq> None then Begin a command body t'
      else Some (t'\<lparr>tk_pending := (tk_pending t)(seq \<mapsto> a),
                    tk_heap := (tk_heap t)(a \<mapsto> \<lparr>p_seq = seq, p_done = make_chan 1\<rparr>)\<rparr>,
                 \<lparr>Op = OpRequest, Seq = seq, Code = 0, Cmd = command, Body = body\<rparr>, a))"

definition LoadAndDelete :: "int \<Rightarrow> Tracker \<Rightarrow> Tracker \<times> nat option" where
  "LoadAndDelete seq t = (t\<lparr>tk_pending := (tk_pending t)(seq := None)\<rparr>, tk_pending t seq)"

definition CompareAndDelete :: "int \<Rightarrow> nat \<Rightarrow> Tracker \<Rightarrow> Tracker \<times> bool" where
  "CompareAndDelete seq a t =
     (if tk_pending t seq = Some a then (t\<lparr>tk_pending := (tk_pending t)(seq := None)\<rparr>, True) else (t, False))"

text \<open>The send on \<open>done\<close>; \<open>None\<close> is a send that would have to wait.\<close>

definition deliver :: "nat \<Rightarrow> outcome \<Rightarrow> Tracker \<Rightarrow> Tracker option" where
  "deliver a oc t =
     (case tk_heap t a of
        None \<Rightarrow> None
      | Some p \<Rightarrow>
          (case chan_send oc (p_done p) of
             Sent c \<Rightarrow> Some (t\<lparr>tk_heap := (tk_heap t)(a \<mapsto> p\<lparr>p_done := c\<rparr>)\<rparr>)
           | _ \<Rightarrow> None))"

definition Resolve :: "Proto \<Rightarrow> Tracker \<Rightarrow> (Tracker \<times> bool) option" where
  "Resolve response t =
     (case LoadAndDelete (Seq response) t of
        (t', None) \<Rightarrow> Some (t, False)
      | (t', Some a) \<Rightarrow>
          (case deliver a \<lparr>oc_body = Body response, oc_code = Code response, oc_err = None\<rparr> t' of
             None \<Rightarrow> None
           | Some t'' \<Rightarrow> Some (t'', True)))"

text \<open>\<open>Fail\<close> visits the entries the range yields, in the order of the argument.\<close>

fun Fail :: "goerr \<Rightarrow> (int \<times> nat) list \<Rightarrow> Tracker \<Rightarrow> Tracker option" where
  "Fail err [] t = Some t"
| "Fail err ((seq, a) # rest) t =
     (case CompareAndDelete seq a t of
        (t', False) \<Rightarrow> Fail err rest t'
      | (t', True) \<Rightarrow>
          (case deliver a \<lparr>oc_body = [], oc_code = 0, oc_err = Some err\<rparr> t' of
             None \<Rightarrow> None
           | Some t'' \<Rightarrow> Fail err rest t''))"

definition pending_Cancel :: "nat \<Rightarrow> Tracker \<Rightarrow> Tracker" where
  "pending_Cancel a t =
     (case tk_heap t a of None \<Rightarrow> t | Some p \<Rightarrow> fst (CompareAndDelete (p_seq p) a t))"

text \<open>The receive from \<open>done\<close>; \<open>None\<close> while it waits.\<close>

definition take_outcome :: "nat \<Rightarrow> Tracker \<Rightarrow> (Tracker \<times> outcome) option" where
  "take_outcome a t =
     (case tk_heap t a of
        None \<Rightarrow> None
      | Some p \<Rightarrow>
          (case chan_recv (p_done p) of
             Received oc c \<Rightarrow> Some (t\<lparr>tk_heap := (tk_heap t)(a \<mapsto> p\<lparr>p_done := c\<rparr>)\<rparr>, oc)
           | _ \<Rightarrow> None))"

text \<open>
  \<open>Wait\<close> by the case its \<open>select\<close> takes: a cancelled wait that no longer finds its entry receives the
  outcome that is on its way.
\<close>

definition pending_Wait :: "nat \<Rightarrow> goerr option \<Rightarrow> Tracker \<Rightarrow> (Tracker \<times> outcome) option" where
  "pending_Wait a ctxDone t =
     (case ctxDone of
        None \<Rightarrow> take_outcome a t
      | Some err \<Rightarrow>
          (case tk_heap t a of
             None \<Rightarrow> None
           | Some p \<Rightarrow>
               (case CompareAndDelete (p_seq p) a t of
                  (t', True) \<Rightarrow> Some (t', \<lparr>oc_body = [], oc_code = 0, oc_err = Some err\<rparr>)
                | (t', False) \<Rightarrow> take_outcome a t')))"

section \<open>The cycle of the numbers\<close>

abbreviation seq_max :: int where "seq_max \<equiv> 2147483647"

lemma seq_low_range: "0 \<le> seq_low s" "seq_low s < 2147483648"
  by (simp_all add: seq_low_def)

lemma nextSequence_step:
  assumes "nextSequence s = (s', n)"
  shows "n = (if seq_low s = seq_max then 1 else seq_low s + 1)" "seq_low s' = n"
proof -
  have low: "seq_low (x + 1) = (if seq_low x = seq_max then 0 else seq_low x + 1)" for x
    using seq_low_range [of x] by (auto simp: seq_low_Suc)
  have res: "(s', n) = (if seq_low (s + 1) \<noteq> 0 then (s + 1, seq_low (s + 1)) else (s + 1 + 1, seq_low (s + 1 + 1)))"
    using assms low [of "s + 1"]
    by (subst (asm) nextSequence.simps, subst (asm) nextSequence.simps)
      (simp add: Let_def seq_mask_uint seq_low_zero split: if_splits)
  then show "n = (if seq_low s = seq_max then 1 else seq_low s + 1)" "seq_low s' = n"
    using low [of s] low [of "s + 1"] seq_low_range [of s] by (auto split: if_splits)
qed

text \<open>The number a sequence of calls yields last.\<close>

fun seq_iter :: "nat \<Rightarrow> 32 word \<Rightarrow> 32 word" where
  "seq_iter 0 s = s"
| "seq_iter (Suc k) s = fst (nextSequence (seq_iter k s))"

lemma seq_wrap: "(if x mod seq_max + 1 = seq_max then 1 else x mod seq_max + 1 + 1) = (x + 1) mod seq_max + 1"
proof -
  have "0 \<le> x mod seq_max" "x mod seq_max < seq_max" by simp_all
  moreover have "(x + 1) mod seq_max = (x mod seq_max + 1) mod seq_max" by (simp add: mod_add_left_eq)
  ultimately show ?thesis by (cases "x mod seq_max + 1 = seq_max") auto
qed

lemma seq_iter_low: "seq_low (seq_iter (Suc k) s) = (seq_low s + int k) mod seq_max + 1"
proof (induction k)
  case 0
  obtain s' n where "nextSequence s = (s', n)" by (cases "nextSequence s")
  from nextSequence_step [OF this] this seq_low_range [of s] show ?case by (auto split: if_splits)
next
  case (Suc k)
  obtain s' n where nxt: "nextSequence (seq_iter (Suc k) s) = (s', n)" by (cases "nextSequence (seq_iter (Suc k) s)")
  have "seq_low (seq_iter (Suc (Suc k)) s) = (if seq_low (seq_iter (Suc k) s) = seq_max then 1 else seq_low (seq_iter (Suc k) s) + 1)"
    using nextSequence_step [OF nxt] nxt by simp
  also have "\<dots> = (seq_low s + int k + 1) mod seq_max + 1" unfolding Suc by (rule seq_wrap)
  finally show ?case by (simp add: ac_simps)
qed

lemma nextSequence_low: "snd (nextSequence s) = seq_low (fst (nextSequence s))"
  using nextSequence_step(2) [of s] by (cases "nextSequence s") auto

lemma seq_iter_range: "seq_low (seq_iter (Suc k) s) \<in> {1..seq_max}"
proof -
  have "0 \<le> x mod seq_max" "x mod seq_max < seq_max" for x :: int by simp_all
  then show ?thesis unfolding seq_iter_low by (simp add: add1_zle_eq)
qed

lemma seq_iter_distinct:
  assumes "i < nat seq_max" "j < nat seq_max" "seq_low (seq_iter (Suc i) s) = seq_low (seq_iter (Suc j) s)"
  shows "i = j"
proof -
  have small: "0 \<le> int i" "int i < seq_max" "0 \<le> int j" "int j < seq_max" using assms(1,2) by auto
  have "(seq_low s + int i) mod seq_max = (seq_low s + int j) mod seq_max"
    using assms(3) unfolding seq_iter_low by simp
  then have "seq_max dvd int i - int j" by (simp add: mod_eq_dvd_iff)
  then have "int i mod seq_max = int j mod seq_max" by (simp add: mod_eq_dvd_iff)
  then show ?thesis using small by simp
qed

section \<open>Begin returns\<close>

text \<open>The result of \<open>Begin\<close> when the number after \<open>k\<close> taken ones is free.\<close>

definition begun :: "nat \<Rightarrow> int \<Rightarrow> bytes \<Rightarrow> nat \<Rightarrow> Tracker \<Rightarrow> Tracker \<times> Proto \<times> nat" where
  "begun a command body k t =
     (let s = seq_iter (Suc k) (tk_seq t); seq = seq_low s in
      (t\<lparr>tk_seq := s, tk_pending := (tk_pending t)(seq \<mapsto> a),
         tk_heap := (tk_heap t)(a \<mapsto> \<lparr>p_seq = seq, p_done = make_chan 1\<rparr>)\<rparr>,
       \<lparr>Op = OpRequest, Seq = seq, Code = 0, Cmd = command, Body = body\<rparr>, a))"

lemma seq_iter_shift: "seq_iter k (fst (nextSequence s)) = seq_iter (Suc k) s"
  by (induction k) simp_all

lemma Begin_steps:
  assumes "\<forall>i<k. tk_pending t (seq_low (seq_iter (Suc i) (tk_seq t))) \<noteq> None"
    and "tk_pending t (seq_low (seq_iter (Suc k) (tk_seq t))) = None"
  shows "Begin a command body t = Some (begun a command body k t)"
  using assms
proof (induction k arbitrary: t)
  case 0
  then show ?case
    by (subst Begin.simps) (simp add: begun_def nextSequence_low Let_def case_prod_beta)
next
  case (Suc k)
  let ?t = "t\<lparr>tk_seq := fst (nextSequence (tk_seq t))\<rparr>"
  have taken: "tk_pending t (snd (nextSequence (tk_seq t))) \<noteq> None"
    using Suc(2) by (force simp: nextSequence_low)
  have "Begin a command body ?t = Some (begun a command body k ?t)"
    by (rule Suc.IH) (use Suc(2,3) in \<open>simp_all add: seq_iter_shift del: seq_iter.simps\<close>)
  moreover have "begun a command body k ?t = begun a command body (Suc k) t"
    by (simp add: begun_def seq_iter_shift Let_def del: seq_iter.simps)
  ultimately show ?case using taken by (subst Begin.simps) (simp add: Let_def case_prod_beta)
qed

lemma free_sequence:
  assumes "finite (dom m)" "card (dom m) < nat seq_max"
  shows "\<exists>k<nat seq_max. m (seq_low (seq_iter (Suc k) s)) = None"
proof (rule ccontr)
  let ?f = "\<lambda>k. seq_low (seq_iter (Suc k) s)"
  assume "\<not> ?thesis"
  then have "?f ` {..<nat seq_max} \<subseteq> dom m" by auto
  then have "card (?f ` {..<nat seq_max}) \<le> card (dom m)" by (rule card_mono [OF assms(1)])
  moreover have "inj_on ?f {..<nat seq_max}" using seq_iter_distinct by (auto intro!: inj_onI)
  ultimately show False using assms(2) by (simp only: card_image card_lessThan)
qed

lemma Begin_returns:
  assumes "finite (dom (tk_pending t))" "card (dom (tk_pending t)) < nat seq_max"
  obtains k where "Begin a command body t = Some (begun a command body k t)"
    "tk_pending t (seq_low (seq_iter (Suc k) (tk_seq t))) = None"
proof -
  let ?free = "\<lambda>k. tk_pending t (seq_low (seq_iter (Suc k) (tk_seq t))) = None"
  obtain k where "?free k" using free_sequence [OF assms, of "tk_seq t"] by blast
  then have least: "?free (LEAST k. ?free k)" "\<forall>i<(LEAST k. ?free k). \<not> ?free i"
    using LeastI [of ?free k] not_less_Least [of _ ?free] by auto
  show thesis by (rule that [of "LEAST k. ?free k"]) (use Begin_steps least in auto)
qed

section \<open>Requests, responses and failures in any order\<close>

text \<open>
  \<open>tw_sending\<close> holds the outcomes that have left the table and are about to be sent on \<open>done\<close>,
  \<open>tw_got\<close> the responses received so far and \<open>tw_result\<close> what each wait returned. A \<open>Fail\<close> is any
  number of its visits.
\<close>

record tworld =
  tw_tk :: Tracker
  tw_sending :: "(nat \<times> outcome) list"
  tw_got :: "Proto list"
  tw_result :: "nat \<rightharpoonup> outcome"

definition tworld_start :: "tworld" where
  "tworld_start = \<lparr>tw_tk = \<lparr>tk_seq = 0, tk_pending = Map.empty, tk_heap = Map.empty\<rparr>, tw_sending = [], tw_got = [],
     tw_result = Map.empty\<rparr>"

inductive tstep :: "tworld \<Rightarrow> tworld \<Rightarrow> bool" where
  begin_request: "tk_heap (tw_tk w) a = None \<Longrightarrow> Begin a command body (tw_tk w) = Some (t, msg, a') \<Longrightarrow>
    tstep w (w\<lparr>tw_tk := t\<rparr>)"
| resolve: "LoadAndDelete (Seq response) (tw_tk w) = (t, Some a) \<Longrightarrow>
    tstep w (w\<lparr>tw_tk := t, tw_got := tw_got w @ [response],
      tw_sending := tw_sending w @ [(a, \<lparr>oc_body = Body response, oc_code = Code response, oc_err = None\<rparr>)]\<rparr>)"
| stray: "LoadAndDelete (Seq response) (tw_tk w) = (t, None) \<Longrightarrow> tstep w (w\<lparr>tw_got := tw_got w @ [response]\<rparr>)"
| failed: "CompareAndDelete seq a (tw_tk w) = (t, True) \<Longrightarrow>
    tstep w (w\<lparr>tw_tk := t, tw_sending := tw_sending w @ [(a, \<lparr>oc_body = [], oc_code = 0, oc_err = Some err\<rparr>)]\<rparr>)"
| sent: "tw_sending w = xs @ (a, oc) # ys \<Longrightarrow> deliver a oc (tw_tk w) = Some t \<Longrightarrow>
    tstep w (w\<lparr>tw_tk := t, tw_sending := xs @ ys\<rparr>)"
| cancel: "tstep w (w\<lparr>tw_tk := pending_Cancel a (tw_tk w)\<rparr>)"
| waited: "tw_result w a = None \<Longrightarrow> pending_Wait a ctxDone (tw_tk w) = Some (t, oc) \<Longrightarrow>
    tstep w (w\<lparr>tw_tk := t, tw_result := (tw_result w)(a \<mapsto> oc)\<rparr>)"

text \<open>Where the outcome of one request is: none or exactly one of these holds.\<close>

definition tracked :: "tworld \<Rightarrow> nat \<Rightarrow> Pending \<Rightarrow> bool" where
  "tracked w a p = (tk_pending (tw_tk w) (p_seq p) = Some a)"

definition outcome_sound :: "tworld \<Rightarrow> Pending \<Rightarrow> outcome \<Rightarrow> bool" where
  "outcome_sound w p oc =
     (oc_err oc = None \<longrightarrow> (\<exists>r\<in>set (tw_got w). Seq r = p_seq p \<and> oc_body oc = Body r \<and> oc_code oc = Code r))"

definition entry_ok :: "tworld \<Rightarrow> nat \<Rightarrow> Pending \<Rightarrow> bool" where
  "entry_ok w a p =
     (ch_cap (p_done p) = 1 \<and> \<not> ch_closed (p_done p) \<and> p_seq p \<in> {1..seq_max} \<and>
      length (filter (\<lambda>x. fst x = a) (tw_sending w)) + length (ch_buf (p_done p)) + (if tracked w a p then 1 else 0) \<le> 1 \<and>
      (\<forall>oc. (a, oc) \<in> set (tw_sending w) \<or> oc \<in> set (ch_buf (p_done p)) \<or> tw_result w a = Some oc \<longrightarrow> outcome_sound w p oc) \<and>
      (tw_result w a \<noteq> None \<longrightarrow> \<not> tracked w a p \<and> ch_buf (p_done p) = [] \<and> (\<forall>oc. (a, oc) \<notin> set (tw_sending w))))"

definition tworld_ok :: "tworld \<Rightarrow> bool" where
  "tworld_ok w =
     ((\<forall>a p. tk_heap (tw_tk w) a = Some p \<longrightarrow> entry_ok w a p) \<and>
      (\<forall>seq a. tk_pending (tw_tk w) seq = Some a \<longrightarrow> (\<exists>p. tk_heap (tw_tk w) a = Some p \<and> p_seq p = seq)) \<and>
      (\<forall>a oc. (a, oc) \<in> set (tw_sending w) \<longrightarrow> tk_heap (tw_tk w) a \<noteq> None) \<and>
      (\<forall>a. tw_result w a \<noteq> None \<longrightarrow> tk_heap (tw_tk w) a \<noteq> None))"

lemma tworld_ok_start: "tworld_ok tworld_start"
  by (simp add: tworld_ok_def tworld_start_def)

lemma Begin_result:
  "Begin a command body t = Some r \<Longrightarrow>
     \<exists>k. r = begun a command body k t \<and> tk_pending t (seq_low (seq_iter (Suc k) (tk_seq t))) = None"
proof (induction rule: Begin.raw_induct [rotated, consumes 1, case_names turn])
  case (turn rec a command body t r)
  let ?t = "t\<lparr>tk_seq := fst (nextSequence (tk_seq t))\<rparr>"
  show ?case
  proof (cases "tk_pending t (snd (nextSequence (tk_seq t)))")
    case None
    then show ?thesis using turn(2) by (intro exI [of _ 0]) (auto simp: begun_def nextSequence_low Let_def case_prod_beta)
  next
    case (Some b)
    then have "rec a command body ?t = Some r" using turn(2) by (auto simp: Let_def case_prod_beta)
    from turn(1) [OF this] obtain k where k: "r = begun a command body k ?t"
      "tk_pending t (seq_low (seq_iter (Suc k) (fst (nextSequence (tk_seq t))))) = None" by (auto simp del: seq_iter.simps)
    then show ?thesis by (intro exI [of _ "Suc k"]) (simp add: begun_def seq_iter_shift Let_def del: seq_iter.simps)
  qed
qed

lemma tworld_okD:
  assumes "tworld_ok w"
  shows "tk_heap (tw_tk w) a = Some p \<Longrightarrow> entry_ok w a p"
    and "tk_pending (tw_tk w) seq = Some a \<Longrightarrow> \<exists>p. tk_heap (tw_tk w) a = Some p \<and> p_seq p = seq"
    and "(a, oc) \<in> set (tw_sending w) \<Longrightarrow> tk_heap (tw_tk w) a \<noteq> None"
    and "tw_result w a = Some oc \<Longrightarrow> tk_heap (tw_tk w) a \<noteq> None"
  using assms unfolding tworld_ok_def by blast+

lemma filter_fst_empty: "(\<forall>oc. (a, oc) \<notin> set xs) \<Longrightarrow> filter (\<lambda>x. fst x = a) xs = []"
  by (auto simp: filter_empty_conv)

lemma tworld_ok_begun:
  assumes ok: "tworld_ok w" and fresh: "tk_heap (tw_tk w) a = None"
    and free: "tk_pending (tw_tk w) seq = None" "seq \<in> {1..seq_max}"
  shows "tworld_ok (w\<lparr>tw_tk := (tw_tk w)\<lparr>tk_seq := s, tk_pending := (tk_pending (tw_tk w))(seq \<mapsto> a),
         tk_heap := (tk_heap (tw_tk w))(a \<mapsto> \<lparr>p_seq = seq, p_done = make_chan 1\<rparr>)\<rparr>\<rparr>)" (is "tworld_ok ?w")
proof -
  have none: "(a, oc) \<notin> set (tw_sending w)" "tw_result w a = None" for oc
    using tworld_okD(3) [OF ok, of a oc] tworld_okD(4) [OF ok, of a] fresh by (auto, cases "tw_result w a", auto)
  have new: "entry_ok ?w a \<lparr>p_seq = seq, p_done = make_chan 1\<rparr>"
    using none free(2) filter_fst_empty [of a "tw_sending w"]
    by (simp add: entry_ok_def tracked_def outcome_sound_def make_chan_def)
  have old: "entry_ok ?w b p" if "tk_heap (tw_tk w) b = Some p" "b \<noteq> a" for b p
  proof -
    have "tracked ?w b p = tracked w b p" using that free(1) by (auto simp: tracked_def)
    then show ?thesis using tworld_okD(1) [OF ok that(1)] by (simp add: entry_ok_def outcome_sound_def)
  qed
  show ?thesis unfolding tworld_ok_def
  proof (intro conjI allI impI)
    fix s b assume "tk_pending (tw_tk ?w) s = Some b"
    then show "\<exists>p. tk_heap (tw_tk ?w) b = Some p \<and> p_seq p = s"
      using tworld_okD(2) [OF ok, of s b] fresh by (auto split: if_splits)
  qed (use new old tworld_okD(3,4) [OF ok] in \<open>auto split: if_splits\<close>)
qed

text \<open>Taking an entry out of the table and putting its outcome on the way.\<close>

lemma tworld_ok_removed:
  assumes ok: "tworld_ok w" and at: "tk_pending (tw_tk w) seq = Some a"
    and xs: "xs = [] \<or> (\<exists>oc. xs = [(a, oc)])" and got: "set (tw_got w) \<subseteq> set got"
    and sound: "\<And>oc p. (a, oc) \<in> set xs \<Longrightarrow> tk_heap (tw_tk w) a = Some p \<Longrightarrow> outcome_sound (w\<lparr>tw_got := got\<rparr>) p oc"
  shows "tworld_ok (w\<lparr>tw_tk := (tw_tk w)\<lparr>tk_pending := (tk_pending (tw_tk w))(seq := None)\<rparr>, tw_got := got,
     tw_sending := tw_sending w @ xs\<rparr>)" (is "tworld_ok ?w")
proof -
  obtain p where p: "tk_heap (tw_tk w) a = Some p" "p_seq p = seq" using tworld_okD(2) [OF ok at] by blast
  have keep: "outcome_sound w q oc \<Longrightarrow> outcome_sound ?w q oc" for q oc using got by (auto simp: outcome_sound_def)
  have entry: "entry_ok ?w b q" if b: "tk_heap (tw_tk w) b = Some q" for b q
  proof (cases "b = a")
    case True
    then have q: "q = p" using b p by simp
    have tr: "tracked w a p" "\<not> tracked ?w a p" using at p by (auto simp: tracked_def)
    have empty: "filter (\<lambda>x. fst x = a) (tw_sending w) = []" "ch_buf (p_done p) = []" "tw_result w a = None"
      using tworld_okD(1) [OF ok p(1)] tr(1) by (auto simp: entry_ok_def)
    have "\<forall>oc. (a, oc) \<notin> set (tw_sending w)" using empty(1) by (auto simp: filter_empty_conv)
    then show ?thesis using True q tr empty xs sound [OF _ p(1)] tworld_okD(1) [OF ok p(1)]
      by (auto simp: entry_ok_def outcome_sound_def)
  next
    case False
    have "tracked ?w b q = tracked w b q" using False at by (auto simp: tracked_def)
    moreover have "filter (\<lambda>x. fst x = b) xs = []" "\<And>oc. (b, oc) \<notin> set xs" using xs False by auto
    ultimately show ?thesis using tworld_okD(1) [OF ok b] keep by (simp add: entry_ok_def)
  qed
  show ?thesis unfolding tworld_ok_def
  proof (intro conjI allI impI)
    fix s b assume "tk_pending (tw_tk ?w) s = Some b"
    then show "\<exists>p. tk_heap (tw_tk ?w) b = Some p \<and> p_seq p = s"
      using tworld_okD(2) [OF ok, of s b] by (auto split: if_splits)
  next
    fix b oc assume "(b, oc) \<in> set (tw_sending ?w)"
    then show "tk_heap (tw_tk ?w) b \<noteq> None" using tworld_okD(3) [OF ok] xs p(1) by auto
  qed (use entry tworld_okD(4) [OF ok] in auto)
qed

lemma deliver_Some:
  "deliver a oc t = Some t' \<longleftrightarrow>
     (\<exists>p c. tk_heap t a = Some p \<and> chan_send oc (p_done p) = Sent c \<and> t' = t\<lparr>tk_heap := (tk_heap t)(a \<mapsto> p\<lparr>p_done := c\<rparr>)\<rparr>)"
  by (auto simp: deliver_def split: option.splits sent.splits)

lemma take_outcome_Some:
  "take_outcome a t = Some (t', oc) \<longleftrightarrow>
     (\<exists>p rest. tk_heap t a = Some p \<and> ch_buf (p_done p) = oc # rest \<and>
        t' = t\<lparr>tk_heap := (tk_heap t)(a \<mapsto> p\<lparr>p_done := (p_done p)\<lparr>ch_buf := rest\<rparr>\<rparr>)\<rparr>)"
  by (auto simp: take_outcome_def chan_recv_def split: option.splits list.splits if_splits)

lemma tworld_ok_entry:
  assumes ok: "tworld_ok w" and p: "tk_heap (tw_tk w) a = Some p" "p_seq q = p_seq p"
    and entry: "entry_ok (w\<lparr>tw_sending := sending, tw_result := result\<rparr>) a q"
    and others: "\<And>b. b \<noteq> a \<Longrightarrow> filter (\<lambda>x. fst x = b) sending = filter (\<lambda>x. fst x = b) (tw_sending w) \<and> result b = tw_result w b"
    and sub: "set sending \<subseteq> set (tw_sending w)"
  shows "tworld_ok (w\<lparr>tw_tk := (tw_tk w)\<lparr>tk_heap := (tk_heap (tw_tk w))(a \<mapsto> q)\<rparr>, tw_sending := sending, tw_result := result\<rparr>)"
    (is "tworld_ok ?w")
proof -
  have mem: "(b, oc) \<in> set sending \<longleftrightarrow> (b, oc) \<in> set (tw_sending w)" if "b \<noteq> a" for b oc
  proof -
    have "(b, oc) \<in> set (filter (\<lambda>x. fst x = b) sending) \<longleftrightarrow> (b, oc) \<in> set (filter (\<lambda>x. fst x = b) (tw_sending w))"
      using others [OF that] by simp
    then show ?thesis by simp
  qed
  have here: "entry_ok ?w a q" using entry by (simp add: entry_ok_def tracked_def outcome_sound_def)
  have there: "entry_ok ?w b r" if "tk_heap (tw_tk w) b = Some r" "b \<noteq> a" for b r
    using tworld_okD(1) [OF ok that(1)] others [OF that(2)] mem [OF that(2)]
    by (simp add: entry_ok_def tracked_def outcome_sound_def)
  show ?thesis unfolding tworld_ok_def
  proof (intro conjI allI impI)
    fix s b assume "tk_pending (tw_tk ?w) s = Some b"
    then show "\<exists>p. tk_heap (tw_tk ?w) b = Some p \<and> p_seq p = s"
      using tworld_okD(2) [OF ok, of s b] p by auto
  next
    fix b oc assume "(b, oc) \<in> set (tw_sending ?w)"
    then show "tk_heap (tw_tk ?w) b \<noteq> None" using tworld_okD(3) [OF ok, of b oc] sub p(1) by auto
  next
    fix b assume "tw_result ?w b \<noteq> None"
    then show "tk_heap (tw_tk ?w) b \<noteq> None" using tworld_okD(4) [OF ok, of b] others [of b] p(1) by (cases "b = a") auto
  qed (use here there in \<open>auto split: if_splits\<close>)
qed

lemma tworld_ok_got:
  assumes "tworld_ok w"
  shows "tworld_ok (w\<lparr>tw_got := tw_got w @ [r]\<rparr>)"
proof -
  have "entry_ok w a p \<Longrightarrow> entry_ok (w\<lparr>tw_got := tw_got w @ [r]\<rparr>) a p" for a p
    unfolding entry_ok_def tracked_def outcome_sound_def by auto
  then show ?thesis using assms by (simp add: tworld_ok_def)
qed

lemma tworld_ok_sent:
  assumes ok: "tworld_ok w" and at: "tw_sending w = xs @ (a, oc) # ys" and sent: "deliver a oc (tw_tk w) = Some t"
  shows "tworld_ok (w\<lparr>tw_tk := t, tw_sending := xs @ ys\<rparr>)"
proof -
  obtain p c where p: "tk_heap (tw_tk w) a = Some p" "chan_send oc (p_done p) = Sent c"
    and t: "t = (tw_tk w)\<lparr>tk_heap := (tk_heap (tw_tk w))(a \<mapsto> p\<lparr>p_done := c\<rparr>)\<rparr>"
    using sent by (auto simp: deliver_Some)
  have c: "c = (p_done p)\<lparr>ch_buf := ch_buf (p_done p) @ [oc]\<rparr>" using p(2) by (auto simp: chan_send_def split: if_splits)
  have old: "entry_ok w a p" using tworld_okD(1) [OF ok p(1)] .
  have entry: "entry_ok (w\<lparr>tw_sending := xs @ ys, tw_result := tw_result w\<rparr>) a (p\<lparr>p_done := c\<rparr>)"
    using old at c by (auto simp: entry_ok_def tracked_def outcome_sound_def)
  have "tworld_ok (w\<lparr>tw_tk := (tw_tk w)\<lparr>tk_heap := (tk_heap (tw_tk w))(a \<mapsto> p\<lparr>p_done := c\<rparr>)\<rparr>,
      tw_sending := xs @ ys, tw_result := tw_result w\<rparr>)"
    by (rule tworld_ok_entry [OF ok p(1) _ entry]) (use at in auto)
  then show ?thesis using t by simp
qed

lemma tworld_ok_taken:
  assumes ok: "tworld_ok w" and t: "take_outcome a (tw_tk w) = Some (t, oc)"
  shows "tworld_ok (w\<lparr>tw_tk := t, tw_result := (tw_result w)(a \<mapsto> oc)\<rparr>)"
proof -
  obtain p rest where p: "tk_heap (tw_tk w) a = Some p" "ch_buf (p_done p) = oc # rest"
    and t': "t = (tw_tk w)\<lparr>tk_heap := (tk_heap (tw_tk w))(a \<mapsto> p\<lparr>p_done := (p_done p)\<lparr>ch_buf := rest\<rparr>\<rparr>)\<rparr>"
    using t by (auto simp: take_outcome_Some)
  have old: "entry_ok w a p" using tworld_okD(1) [OF ok p(1)] .
  have none: "\<not> tracked w a p" "rest = []" "filter (\<lambda>x. fst x = a) (tw_sending w) = []" "outcome_sound w p oc"
    using old p(2) by (auto simp: entry_ok_def split: if_splits)
  have "\<forall>x. (a, x) \<notin> set (tw_sending w)" using none(3) by (auto simp: filter_empty_conv)
  then have entry: "entry_ok (w\<lparr>tw_sending := tw_sending w, tw_result := (tw_result w)(a \<mapsto> oc)\<rparr>) a
      (p\<lparr>p_done := (p_done p)\<lparr>ch_buf := rest\<rparr>\<rparr>)"
    using old none by (simp add: entry_ok_def tracked_def outcome_sound_def)
  have "tworld_ok (w\<lparr>tw_tk := (tw_tk w)\<lparr>tk_heap := (tk_heap (tw_tk w))(a \<mapsto> p\<lparr>p_done := (p_done p)\<lparr>ch_buf := rest\<rparr>\<rparr>)\<rparr>,
      tw_sending := tw_sending w, tw_result := (tw_result w)(a \<mapsto> oc)\<rparr>)"
    by (rule tworld_ok_entry [OF ok p(1) _ entry]) simp_all
  then show ?thesis using t' by simp
qed

lemma tworld_ok_dropped:
  assumes ok: "tworld_ok w" and at: "CompareAndDelete (p_seq p) a (tw_tk w) = (t, True)" "tk_heap (tw_tk w) a = Some p"
  shows "tworld_ok (w\<lparr>tw_tk := t, tw_result := (tw_result w)(a \<mapsto> \<lparr>oc_body = [], oc_code = 0, oc_err = Some err\<rparr>)\<rparr>)"
proof -
  have pend: "tk_pending (tw_tk w) (p_seq p) = Some a" and
    t: "t = (tw_tk w)\<lparr>tk_pending := (tk_pending (tw_tk w))(p_seq p := None)\<rparr>"
    using at(1) by (auto simp: CompareAndDelete_def split: if_splits)
  let ?w = "w\<lparr>tw_tk := t\<rparr>"
  have ok': "tworld_ok ?w" using tworld_ok_removed [OF ok pend, of "[]" "tw_got w"] t by simp
  have old: "entry_ok w a p" using tworld_okD(1) [OF ok at(2)] .
  have p: "tk_heap (tw_tk ?w) a = Some p" using at(2) t by simp
  have "filter (\<lambda>x. fst x = a) (tw_sending w) = []" "ch_buf (p_done p) = []"
    using old pend by (auto simp: entry_ok_def tracked_def)
  moreover from this(1) have "\<forall>x. (a, x) \<notin> set (tw_sending w)" by (auto simp: filter_empty_conv)
  ultimately have entry: "entry_ok (?w\<lparr>tw_sending := tw_sending ?w,
      tw_result := (tw_result w)(a \<mapsto> \<lparr>oc_body = [], oc_code = 0, oc_err = Some err\<rparr>)\<rparr>) a p"
    using old t by (simp add: entry_ok_def tracked_def outcome_sound_def)
  have same: "t\<lparr>tk_heap := (tk_heap t)(a \<mapsto> p)\<rparr> = t" using p by (simp add: fun_upd_idem)
  have "tworld_ok (?w\<lparr>tw_tk := (tw_tk ?w)\<lparr>tk_heap := (tk_heap (tw_tk ?w))(a \<mapsto> p)\<rparr>, tw_sending := tw_sending ?w,
      tw_result := (tw_result w)(a \<mapsto> \<lparr>oc_body = [], oc_code = 0, oc_err = Some err\<rparr>)\<rparr>)"
    by (rule tworld_ok_entry [OF ok' p _ entry]) simp_all
  then show ?thesis using same by simp
qed

lemma tworld_ok_waited:
  assumes ok: "tworld_ok w" and wait: "pending_Wait a ctxDone (tw_tk w) = Some (t, oc)"
  shows "tworld_ok (w\<lparr>tw_tk := t, tw_result := (tw_result w)(a \<mapsto> oc)\<rparr>)"
proof (cases ctxDone)
  case None
  then show ?thesis using tworld_ok_taken [OF ok] wait by (simp add: pending_Wait_def)
next
  case (Some err)
  then obtain p where p: "tk_heap (tw_tk w) a = Some p" using wait by (auto simp: pending_Wait_def split: option.splits)
  show ?thesis
  proof (cases "CompareAndDelete (p_seq p) a (tw_tk w)")
    case (Pair t' won)
    then show ?thesis using tworld_ok_dropped [OF ok _ p] tworld_ok_taken [OF ok] wait Some p
      by (cases won) (auto simp: pending_Wait_def CompareAndDelete_def split: if_splits)
  qed
qed

lemma tstep_ok:
  assumes "tstep w w'" "tworld_ok w"
  shows "tworld_ok w'"
  using assms
proof (cases rule: tstep.cases)
  case (begin_request a command body t msg a')
  then obtain k where k: "(t, msg, a') = begun a command body k (tw_tk w)"
    "tk_pending (tw_tk w) (seq_low (seq_iter (Suc k) (tk_seq (tw_tk w)))) = None" using Begin_result by blast
  show ?thesis using tworld_ok_begun [OF assms(2) begin_request(2) k(2) seq_iter_range] k(1)
    unfolding begin_request(1) by (simp add: begun_def Let_def del: seq_iter.simps)
next
  case (resolve response t a)
  then have at: "tk_pending (tw_tk w) (Seq response) = Some a" by (auto simp: LoadAndDelete_def)
  obtain p where p: "tk_heap (tw_tk w) a = Some p" "p_seq p = Seq response" using tworld_okD(2) [OF assms(2) at] by blast
  have "tworld_ok (w\<lparr>tw_tk := (tw_tk w)\<lparr>tk_pending := (tk_pending (tw_tk w))(Seq response := None)\<rparr>, tw_got := tw_got w @ [response],
      tw_sending := tw_sending w @ [(a, \<lparr>oc_body = Body response, oc_code = Code response, oc_err = None\<rparr>)]\<rparr>)"
    by (rule tworld_ok_removed [OF assms(2) at]) (use p in \<open>auto simp: outcome_sound_def\<close>)
  then show ?thesis using resolve by (auto simp: LoadAndDelete_def)
next
  case (stray response t)
  then show ?thesis using tworld_ok_got [OF assms(2)] by simp
next
  case (failed seq a t err)
  then have "tk_pending (tw_tk w) seq = Some a" by (auto simp: CompareAndDelete_def split: if_splits)
  from tworld_ok_removed [OF assms(2) this, of "[(a, \<lparr>oc_body = [], oc_code = 0, oc_err = Some err\<rparr>)]" "tw_got w"] failed
  show ?thesis by (auto simp: CompareAndDelete_def outcome_sound_def split: if_splits)
next
  case (sent xs a oc ys t)
  then show ?thesis using tworld_ok_sent [OF assms(2)] by simp
next
  case (cancel a)
  show ?thesis
  proof (cases "tk_heap (tw_tk w) a")
    case (Some p)
    then show ?thesis using cancel tworld_ok_removed [OF assms(2), of "p_seq p" a "[]" "tw_got w"] assms(2)
      by (auto simp: pending_Cancel_def CompareAndDelete_def)
  qed (use cancel assms(2) in \<open>simp add: pending_Cancel_def\<close>)
next
  case (waited a ctxDone t oc)
  then show ?thesis using tworld_ok_waited [OF assms(2)] by simp
qed

lemma tstep_reach_ok: "tstep\<^sup>*\<^sup>* tworld_start w \<Longrightarrow> tworld_ok w"
  by (induction rule: rtranclp_induct) (auto intro: tstep_ok tworld_ok_start)

section \<open>Properties\<close>

text \<open>
  C19. \<open>Begin\<close> returns: with fewer than \<open>2^31 - 1\<close> requests waiting, whatever the counter and also
  across its wrap-around, it finds a free number between 1 and \<open>2^31 - 1\<close>, puts the request in the
  table under it and leaves every other entry alone; the number loop itself never repeats one of the
  other numbers before all of them were used.
\<close>

theorem begin_returns_fresh:
  assumes "finite (dom (tk_pending t))" "card (dom (tk_pending t)) < 2147483647"
  shows "\<exists>t' msg. Begin a command body t = Some (t', msg, a) \<and> 1 \<le> Seq msg \<and> Seq msg \<le> 2147483647 \<and>
    tk_pending t (Seq msg) = None \<and> tk_pending t' = (tk_pending t)(Seq msg \<mapsto> a) \<and>
    Op msg = OpRequest \<and> Cmd msg = command \<and> Body msg = body"
proof -
  have card: "card (dom (tk_pending t)) < nat seq_max" using assms(2) by simp
  obtain k where k: "Begin a command body t = Some (begun a command body k t)"
    "tk_pending t (seq_low (seq_iter (Suc k) (tk_seq t))) = None" using Begin_returns [OF assms(1) card] .
  show ?thesis using k seq_iter_range [of k "tk_seq t"]
    by (simp add: begun_def Let_def del: seq_iter.simps)
qed

definition tracker_full :: Tracker where
  "tracker_full = \<lparr>tk_seq = 0xFFFFFFFF, tk_pending = [1 \<mapsto> 7], tk_heap = Map.empty\<rparr>"

theorem begin_returns_fresh_witness:
  "\<exists>t' msg. Begin 9 4 ''hi'' tracker_full = Some (t', msg, 9) \<and> tk_pending t' (Seq msg) = Some 9 \<and> Seq msg \<noteq> 1 \<and>
     tk_pending t' 1 = Some 7"
proof -
  have "finite (dom (tk_pending tracker_full))" "card (dom (tk_pending tracker_full)) < 2147483647"
    by (simp_all add: tracker_full_def)
  from begin_returns_fresh [OF this, of 9 4 "''hi''"] show ?thesis
    by (elim exE conjE) (auto simp: tracker_full_def split: if_splits)
qed

text \<open>
  C20. Whatever the order of requests, responses, failures, cancellations and waits, an outcome on its
  way to a request is handed over without waiting, a request gets at most one, and a wait that returns
  without an error returns the body and code of a received response with the number of its own request.
\<close>

theorem tracker_single_outcome:
  assumes "tstep\<^sup>*\<^sup>* tworld_start w" "tk_heap (tw_tk w) a = Some p"
  shows "((a, oc) \<in> set (tw_sending w) \<longrightarrow> deliver a oc (tw_tk w) \<noteq> None) \<and>
    length (filter (\<lambda>x. fst x = a) (tw_sending w)) + length (ch_buf (p_done p)) \<le> 1 \<and>
    (tw_result w a = Some oc \<and> oc_err oc = None \<longrightarrow>
       (\<exists>r\<in>set (tw_got w). Seq r = p_seq p \<and> oc_body oc = Body r \<and> oc_code oc = Code r))"
proof -
  have entry: "entry_ok w a p" using tworld_okD(1) [OF tstep_reach_ok [OF assms(1)] assms(2)] .
  have "deliver a oc (tw_tk w) \<noteq> None" if "(a, oc) \<in> set (tw_sending w)"
  proof -
    have "filter (\<lambda>x. fst x = a) (tw_sending w) \<noteq> []" using that by (force simp: filter_empty_conv)
    then have "length (filter (\<lambda>x. fst x = a) (tw_sending w)) \<ge> 1" by (cases "filter (\<lambda>x. fst x = a) (tw_sending w)") auto
    then have "ch_buf (p_done p) = []" using entry unfolding entry_ok_def by (cases "ch_buf (p_done p)") auto
    then show ?thesis using entry assms(2) by (simp add: deliver_def chan_send_def entry_ok_def)
  qed
  then show ?thesis using entry by (auto simp: entry_ok_def outcome_sound_def)
qed

definition tracker_demo :: tworld where
  "tracker_demo = \<lparr>tw_tk = \<lparr>tk_seq = 1, tk_pending = Map.empty(1 := None), tk_heap = [5 \<mapsto> \<lparr>p_seq = 1, p_done = make_chan 1\<rparr>]\<rparr>,
     tw_sending = [(5, \<lparr>oc_body = ''ok'', oc_code = 0, oc_err = None\<rparr>)],
     tw_got = [\<lparr>Op = OpResponse, Seq = 1, Code = 0, Cmd = 0, Body = ''ok''\<rparr>], tw_result = Map.empty\<rparr>"

lemma nextSequence_0: "nextSequence 0 = (1, 1)"
  by (subst nextSequence.simps) (simp add: seq_mask_def)

lemma tracker_demo_reach: "tstep\<^sup>*\<^sup>* tworld_start tracker_demo"
proof -
  let ?t = "\<lparr>tk_seq = 1, tk_pending = [1 \<mapsto> 5], tk_heap = [5 \<mapsto> \<lparr>p_seq = 1, p_done = make_chan 1\<rparr>]\<rparr>"
  let ?msg = "\<lparr>Op = OpRequest, Seq = 1, Code = 0, Cmd = 3, Body = []\<rparr>"
  let ?response = "\<lparr>Op = OpResponse, Seq = 1, Code = 0, Cmd = 0, Body = ''ok''\<rparr>"
  have "Begin 5 3 [] (tw_tk tworld_start) = Some (?t, ?msg, 5)"
    by (subst Begin.simps) (simp add: tworld_start_def nextSequence_0)
  from tstep.begin_request [OF _ this] have "tstep tworld_start (tworld_start\<lparr>tw_tk := ?t\<rparr>)" by (simp add: tworld_start_def)
  moreover have "tstep (tworld_start\<lparr>tw_tk := ?t\<rparr>) tracker_demo"
    using tstep.resolve [of ?response "tworld_start\<lparr>tw_tk := ?t\<rparr>" _ 5]
    by (simp add: LoadAndDelete_def tracker_demo_def tworld_start_def)
  ultimately show ?thesis by (meson converse_rtranclp_into_rtranclp rtranclp.rtrancl_refl)
qed

theorem tracker_single_outcome_witness:
  "deliver 5 \<lparr>oc_body = ''ok'', oc_code = 0, oc_err = None\<rparr> (tw_tk tracker_demo) \<noteq> None"
  using tracker_single_outcome [OF tracker_demo_reach, of 5 "\<lparr>p_seq = 1, p_done = make_chan 1\<rparr>"]
  by (simp add: tracker_demo_def)

end
