(* ===== verification/Tcp_Client.thy ===== *)
theory Tcp_Client
  imports Dispatcher Queue Tracker Heartbeat
begin

text \<open>
  \<open>network/tcp/client.go\<close> and \<open>client_options.go\<close>: options, connection, authentication and the loops of the TCP client, on
  top of its frames, request tracker, heartbeat word and callback queue. Sockets, contexts and what other
  goroutines do during a call are the environment; the interleaving of requests, responses and the one
  shutdown is the step relation at the end. Callbacks are names; a nil entry of the push handlers is a missing
  one. Fields \<open>NewClient\<close> always sets are not optional. Logging is left out.
\<close>

section \<open>Options\<close>

record tcp_client_options =
  tco_endpoint :: string
  tco_serviceName :: string
  tco_token :: bytes
  tco_tlsConf :: "tls_config option"
  tco_codec :: "tcp_codec option"
  tco_pushHandlers :: "int \<rightharpoonup> nat"
  tco_kickHandler :: "nat option"
  tco_disconnectFunc :: "nat option"
  tco_connectFunc :: "nat option"
  tco_pingInterval :: duration
  tco_readTimeout :: duration
  tco_writeTimeout :: duration
  tco_requestTimeout :: duration
  tco_callbackQueueSize :: int

datatype tcp_client_option =
    TcWithAddress string | TcWithServiceName string | TcWithToken string | TcWithTLSConfig "tls_config option"
  | TcWithCodec "tcp_codec option" | TcWithPushHandler "int \<rightharpoonup> nat" | TcWithKickHandler "nat option" | TcWithConnectFunc "nat option"
  | TcWithDisconnectFunc "nat option" | TcWithPingInterval duration | TcWithReadTimeout duration | TcWithWriteTimeout duration
  | TcWithRequestTimeout duration | TcWithCallbackQueueSize int

fun tcp_client_apply_option :: "tcp_client_option \<Rightarrow> tcp_client_options \<Rightarrow> tcp_client_options" where
  "tcp_client_apply_option (TcWithAddress e) o' = o'\<lparr>tco_endpoint := e\<rparr>"
| "tcp_client_apply_option (TcWithServiceName n) o' = o'\<lparr>tco_serviceName := n\<rparr>"
| "tcp_client_apply_option (TcWithToken t) o' = o'\<lparr>tco_token := t\<rparr>"
| "tcp_client_apply_option (TcWithTLSConfig c) o' = o'\<lparr>tco_tlsConf := c\<rparr>"
| "tcp_client_apply_option (TcWithCodec c) o' = o'\<lparr>tco_codec := c\<rparr>"
| "tcp_client_apply_option (TcWithPushHandler hs) o' = o'\<lparr>tco_pushHandlers := hs\<rparr>"
| "tcp_client_apply_option (TcWithKickHandler h) o' = o'\<lparr>tco_kickHandler := h\<rparr>"
| "tcp_client_apply_option (TcWithConnectFunc f) o' = o'\<lparr>tco_connectFunc := f\<rparr>"
| "tcp_client_apply_option (TcWithDisconnectFunc f) o' = o'\<lparr>tco_disconnectFunc := f\<rparr>"
| "tcp_client_apply_option (TcWithPingInterval d) o' = o'\<lparr>tco_pingInterval := d\<rparr>"
| "tcp_client_apply_option (TcWithReadTimeout d) o' = o'\<lparr>tco_readTimeout := d\<rparr>"
| "tcp_client_apply_option (TcWithWriteTimeout d) o' = o'\<lparr>tco_writeTimeout := d\<rparr>"
| "tcp_client_apply_option (TcWithRequestTimeout d) o' = o'\<lparr>tco_requestTimeout := d\<rparr>"
| "tcp_client_apply_option (TcWithCallbackQueueSize n) o' = o'\<lparr>tco_callbackQueueSize := n\<rparr>"

definition tcp_resolveClientOptions :: "tcp_codec \<Rightarrow> tcp_client_option list \<Rightarrow> goerr + tcp_client_options" where
  "tcp_resolveClientOptions defaultCodec opts =
     (let c = fold tcp_client_apply_option opts
        \<lparr>tco_endpoint = ''127.0.0.1:3101'', tco_serviceName = [], tco_token = [], tco_tlsConf = None, tco_codec = Some defaultCodec,
         tco_pushHandlers = Map.empty, tco_kickHandler = None, tco_disconnectFunc = None, tco_connectFunc = None,
         tco_pingInterval = 5 * second, tco_readTimeout = 15 * second, tco_writeTimeout = 10 * second,
         tco_requestTimeout = 30 * second, tco_callbackQueueSize = 64\<rparr> in
      if tco_endpoint c = [] then Inl (Fresh ''tcp: endpoint is required'')
      else if tco_serviceName c = [] then Inl (Fresh ''tcp: service name is required'')
      else if tco_token c = [] then Inl (Fresh ''tcp: token is required'')
      else if tco_codec c = None then Inl (Fresh ''tcp: codec is required'')
      else if tco_pingInterval c \<le> 0 then Inl (Fresh ''tcp: ping interval must be positive'')
      else if tco_readTimeout c \<le> 0 then Inl (Fresh ''tcp: read timeout must be positive'')
      else if tco_readTimeout c \<le> tco_pingInterval c then Inl (Fresh ''tcp: read timeout must exceed ping interval'')
      else if tco_writeTimeout c \<le> 0 then Inl (Fresh ''tcp: write timeout must be positive'')
      else if tco_requestTimeout c \<le> 0 then Inl (Fresh ''tcp: request timeout must be positive'')
      else if tco_callbackQueueSize c \<le> 0 then Inl (Fresh ''tcp: callback queue size must be positive'')
      else case ValidateClient (tco_tlsConf c) of
        Some err \<Rightarrow> Inl (Wrap ''tcp'' [err])
      | None \<Rightarrow> Inr (c\<lparr>tco_tlsConf := tls_Clone (tco_tlsConf c)\<rparr>))"

section \<open>The client\<close>

datatype callback = CbConnect nat | CbPush nat bytes | CbKick nat int | CbDisconnect nat

text \<open>
  \<open>cl_done\<close> counts how often \<open>done\<close> was closed, a second close being a panic; \<open>cl_closing\<close>: the body of \<open>closeOnce\<close> began.
  \<open>cl_gates\<close> are the gates of terminal callbacks that were opened, \<open>cl_ran\<close> the terminals run by the caller.
\<close>

record tcp_client =
  cl_outbound :: "Proto chan"
  cl_pushHandlers :: "int \<rightharpoonup> nat"
  cl_kickHandler :: "nat option"
  cl_disconnectFunc :: "nat option"
  cl_requests :: Tracker
  cl_codec :: "tcp_codec option"
  cl_done :: nat
  cl_closing :: bool
  cl_callbacks :: "callback queue"
  cl_heartbeat :: hb
  cl_pingInterval :: duration
  cl_readTimeout :: duration
  cl_writeTimeout :: duration
  cl_requestTimeout :: duration
  cl_gates :: "nat set"
  cl_ran :: "callback list"

type_synonym 'a tcl = "'a tcp_client_scheme"

text \<open>
  \<open>le_pending\<close> is what ranging over the tracker yields, \<open>le_new\<close> the address of a new object, \<open>le_wait\<close> the branch the wait
  for a response takes (the context's error, or none for a response), \<open>le_load\<close> the load after a failed swap.
\<close>

record 'w cl_env =
  le_SetReadDeadline :: "duration \<Rightarrow> 'w \<Rightarrow> 'w \<times> goerr option"
  le_SetWriteDeadline :: "duration \<Rightarrow> 'w \<Rightarrow> 'w \<times> goerr option"
  le_CloseConn :: "'w \<Rightarrow> 'w"
  le_ctxErr :: "ctx \<Rightarrow> 'w \<Rightarrow> 'w \<times> goerr option"
  le_wait :: "ctx \<Rightarrow> nat \<Rightarrow> 'w \<Rightarrow> 'w \<times> goerr option"
  le_pending :: "'w \<Rightarrow> (int \<times> nat) list"
  le_new :: "'w \<Rightarrow> nat"
  le_load :: "'w \<Rightarrow> hb"

text \<open>\<open>before\<close>: \<open>done\<close> was found closed by the first check, before the frame is validated and the lock is taken.\<close>

definition client_send :: "bool \<Rightarrow> Proto \<Rightarrow> 'a tcl \<Rightarrow> 'a tcl \<times> goerr option" where
  "client_send before p c =
     (if before then (c, Some (IoErr ErrNetClosed))
      else case cl_codec c of
        None \<Rightarrow> (c, Some (Fresh ''tcp: client codec is nil''))
      | Some codec \<Rightarrow>
          (case validateFrame codec p of
             Some err \<Rightarrow> (c, Some err)
           | None \<Rightarrow>
               if Op p \<noteq> OpHeartbeat \<and> Op p \<noteq> OpRequest then (c, Some (Fresh ''tcp: unsupported outgoing operation''))
               else if cl_done c > 0 then (c, Some (IoErr ErrNetClosed))
               else case chan_put p (cl_outbound c) of
                 Some q \<Rightarrow> (c\<lparr>cl_outbound := q\<rparr>, None)
               | None \<Rightarrow> (c, Some (NetErr ErrSendQueueFull))))"

text \<open>The parts of \<open>shutdownWith\<close>: ending the callbacks, and closing \<open>done\<close>.\<close>

definition shutdown_begin :: "nat \<Rightarrow> callback option \<Rightarrow> 'a tcl \<Rightarrow> 'a tcl \<times> callback release" where
  "shutdown_begin ready kick c =
     (let terminals = (case kick of None \<Rightarrow> [] | Some f \<Rightarrow> [Some f]) @
            (case cl_disconnectFunc c of None \<Rightarrow> [] | Some f \<Rightarrow> [Some (CbDisconnect f)]);
          (q, release) = BeginTermination ready terminals (cl_callbacks c) in
      (c\<lparr>cl_closing := True, cl_callbacks := q\<rparr>, release))"

definition shutdown_done :: "'a tcl \<Rightarrow> 'a tcl" where
  "shutdown_done c = c\<lparr>cl_done := cl_done c + 1\<rparr>"

definition finishCallbacks :: "callback release \<Rightarrow> 'a tcl \<Rightarrow> 'a tcl" where
  "finishCallbacks release c =
     (case release of
        NoRelease \<Rightarrow> c
      | RunTerminals fs \<Rightarrow> c\<lparr>cl_ran := cl_ran c @ fs\<rparr>
      | OpenGate r \<Rightarrow> c\<lparr>cl_gates := insert r (cl_gates c)\<rparr>)"

text \<open>\<open>None\<close> is a call that would not return.\<close>

definition tcp_shutdownWith :: "'a tcl cl_env \<Rightarrow> callback option \<Rightarrow> 'a tcl \<Rightarrow> 'a tcl option" where
  "tcp_shutdownWith env kick c =
     (if cl_closing c then Some c
      else let (c, release) = shutdown_begin (le_new env c) kick c; c = le_CloseConn env (shutdown_done c) in
        case Fail (IoErr ErrNetClosed) (le_pending env c) (cl_requests c) of
          None \<Rightarrow> None
        | Some t \<Rightarrow> Some (finishCallbacks release (c\<lparr>cl_requests := t\<rparr>)))"

definition tcp_client_Close :: "'a tcl cl_env \<Rightarrow> 'a tcl \<Rightarrow> 'a tcl option" where
  "tcp_client_Close env c = tcp_shutdownWith env None c"

definition tcp_client_Request ::
  "'a tcl cl_env \<Rightarrow> ctx option \<Rightarrow> int \<Rightarrow> goerr + bytes \<Rightarrow> 'a tcl \<Rightarrow> ('a tcl \<times> bytes \<times> int \<times> goerr option) option" where
  "tcp_client_Request env ctx command msg c =
     (case ctx of
        None \<Rightarrow> Some (c, [], 0, Some (Fresh ''tcp: request context is nil''))
      | Some ctx \<Rightarrow>
          (case le_ctxErr env ctx c of
             (c, Some err) \<Rightarrow> Some (c, [], 0, Some err)
           | (c, None) \<Rightarrow>
               (case msg of
                  Inl err \<Rightarrow> Some (c, [], 0, Some err)
                | Inr body \<Rightarrow>
                    let ctx = WithTimeout ctx (cl_requestTimeout c) in
                    (case le_ctxErr env ctx c of
                       (c, Some err) \<Rightarrow> Some (c, [], 0, Some err)
                     | (c, None) \<Rightarrow>
                         (case Begin (le_new env c) command body (cl_requests c) of
                            None \<Rightarrow> None
                          | Some (t, message, a) \<Rightarrow>
                              (case client_send (cl_done c > 0) message (c\<lparr>cl_requests := t\<rparr>) of
                                 (c, Some err) \<Rightarrow> Some (c\<lparr>cl_requests := pending_Cancel a (cl_requests c)\<rparr>, [], 0, Some err)
                               | (c, None) \<Rightarrow>
                                   (case le_wait env ctx a c of
                                      (c, ctxDone) \<Rightarrow>
                                        (case pending_Wait a ctxDone (cl_requests c) of
                                           None \<Rightarrow> None
                                         | Some (t, oc) \<Rightarrow> Some (c\<lparr>cl_requests := t\<rparr>, oc_body oc, oc_code oc, oc_err oc)))))))))"

text \<open>The result tells whether the read loop goes on.\<close>

definition tcp_handleIncoming :: "'a tcl cl_env \<Rightarrow> Proto \<Rightarrow> 'a tcl \<Rightarrow> ('a tcl \<times> bool) option" where
  "tcp_handleIncoming env p c =
     (let stops = map_option (\<lambda>c. (c, False)) in
      if Op p = OpHeartbeatReply then
        (case reply_atomic (cl_heartbeat c) of
           (hb, True) \<Rightarrow> Some (c\<lparr>cl_heartbeat := hb\<rparr>, True)
         | (hb, False) \<Rightarrow> stops (tcp_client_Close env c))
      else if Op p = OpPush then
        (case cl_pushHandlers c (Cmd p) of
           None \<Rightarrow> Some (c, True)
         | Some h \<Rightarrow>
             (case queue_Submit (Some (CbPush h (Body p))) (cl_callbacks c) of
                (q, None) \<Rightarrow> Some (c\<lparr>cl_callbacks := q\<rparr>, True)
              | (q, Some err) \<Rightarrow> stops (tcp_client_Close env (c\<lparr>cl_callbacks := q\<rparr>))))
      else if Op p = OpResponse then
        (case Resolve p (cl_requests c) of None \<Rightarrow> None | Some (t, found) \<Rightarrow> Some (c\<lparr>cl_requests := t\<rparr>, True))
      else if Op p = OpKick then
        stops (tcp_shutdownWith env (map_option (\<lambda>h. CbKick h (Code p)) (cl_kickHandler c)) c)
      else Some (c, True))"

function tcp_readLoop :: "'a tcl cl_env \<Rightarrow> tcp_codec \<Rightarrow> bufr \<Rightarrow> 'a tcl \<Rightarrow> 'a tcl option" where
  "tcp_readLoop env codec rr c =
     (case le_SetReadDeadline env (cl_readTimeout c) c of
        (c, Some err) \<Rightarrow> tcp_client_Close env c
      | (c, None) \<Rightarrow>
          (case readFrame codec rr of
             (rr', Inl err) \<Rightarrow> tcp_client_Close env c
           | (rr', Inr p) \<Rightarrow>
               (case tcp_handleIncoming env p c of
                  None \<Rightarrow> None
                | Some (c, False) \<Rightarrow> Some c
                | Some (c, True) \<Rightarrow> tcp_readLoop env codec rr' c)))"
  by pat_completeness auto
termination
  by (relation "measure (\<lambda>(env, codec, rr, c). length (br_data rr))") (auto intro: readFrame_shorter [OF sym])

declare tcp_readLoop.simps [simp del]

definition tcp_writeMessage :: "'a tcl cl_env \<Rightarrow> tcp_codec \<Rightarrow> Proto \<Rightarrow> bufw \<Rightarrow> 'a tcl \<Rightarrow> 'a tcl \<times> bufw \<times> goerr option" where
  "tcp_writeMessage env codec p wr c =
     (case le_SetWriteDeadline env (cl_writeTimeout c) c of
        (c, Some err) \<Rightarrow> (c, wr, Some (Wrap ''set write deadline'' [err]))
      | (c, None) \<Rightarrow>
          (case writeFrame codec p wr of
             (wr, Some err) \<Rightarrow> (c, wr, Some (Wrap ''encode frame'' [err]))
           | (wr, None) \<Rightarrow>
               (case bw_Flush wr of (wr, Some err) \<Rightarrow> (c, wr, Some (Wrap ''flush frame'' [err])) | (wr, None) \<Rightarrow> (c, wr, None))))"

text \<open>What \<open>writeLoop\<close> does with a message it took from \<open>outbound\<close>; the result tells whether it goes on.\<close>

definition tcp_write_turn :: "'a tcl cl_env \<Rightarrow> tcp_codec \<Rightarrow> Proto \<Rightarrow> bufw \<Rightarrow> 'a tcl \<Rightarrow> ('a tcl \<times> bufw \<times> bool) option" where
  "tcp_write_turn env codec p wr c =
     (let ends = (\<lambda>wr. map_option (\<lambda>c. (c, wr, False)));
          (hb, begun) = (if Op p = OpHeartbeat then BeginWrite (cl_heartbeat c) else (cl_heartbeat c, True)) in
      if \<not> begun then ends wr (tcp_client_Close env c)
      else case tcp_writeMessage env codec p wr (c\<lparr>cl_heartbeat := hb\<rparr>) of
        (c, wr, Some err) \<Rightarrow> ends wr (tcp_client_Close env c)
      | (c, wr, None) \<Rightarrow>
          if Op p \<noteq> OpHeartbeat then Some (c, wr, True)
          else let (hb, finished) = FinishWrite (cl_heartbeat c) (le_load env c); c = c\<lparr>cl_heartbeat := hb\<rparr> in
            if finished then Some (c, wr, True) else ends wr (tcp_client_Close env c))"

text \<open>What \<open>heartbeatLoop\<close> does on a tick; the result tells whether it goes on.\<close>

definition tcp_heartbeat_turn :: "'a tcl cl_env \<Rightarrow> 'a tcl \<Rightarrow> ('a tcl \<times> bool) option" where
  "tcp_heartbeat_turn env c =
     (let ends = map_option (\<lambda>c. (c, False)) in
      case tick_atomic (cl_heartbeat c) of
        (hb, TickPending) \<Rightarrow> Some (c\<lparr>cl_heartbeat := hb\<rparr>, True)
      | (hb, TickTimeout) \<Rightarrow> ends (tcp_client_Close env (c\<lparr>cl_heartbeat := hb\<rparr>))
      | (hb, TickQueue) \<Rightarrow>
          (case client_send (cl_done c > 0) (zeroProto\<lparr>Op := OpHeartbeat\<rparr>) (c\<lparr>cl_heartbeat := hb\<rparr>) of
             (c, None) \<Rightarrow> Some (c, True)
           | (c, Some err) \<Rightarrow> ends (tcp_client_Close env (c\<lparr>cl_heartbeat := fst (CancelQueue (cl_heartbeat c))\<rparr>))))"

section \<open>Connecting\<close>

text \<open>
  The environment of a client that is being made: dialling (with TLS when a configuration is given), the
  socket with what it will deliver and accept, and the contexts. \<open>ae_stopInterrupt\<close> tells whether the interruption by
  the context was prevented.
\<close>

record 'w ae_env =
  ae_dial :: "ctx \<Rightarrow> string \<Rightarrow> tls_config option \<Rightarrow> 'w \<Rightarrow> 'w \<times> (goerr + (bufr \<times> bufw))"
  ae_SetDeadline :: "ctx \<Rightarrow> 'w \<Rightarrow> 'w \<times> goerr option"
  ae_ClearDeadline :: "'w \<Rightarrow> 'w"
  ae_CloseConn :: "'w \<Rightarrow> 'w"
  ae_stopInterrupt :: "'w \<Rightarrow> 'w \<times> bool"
  ae_ctxErr :: "ctx \<Rightarrow> 'w \<Rightarrow> 'w \<times> goerr option"
  ae_netTimeout :: "goerr \<Rightarrow> bool"
  ae_marshalAuth :: "string \<Rightarrow> bytes \<Rightarrow> goerr + bytes"

definition auth_io_error :: "'w ae_env \<Rightarrow> ctx \<Rightarrow> goerr \<Rightarrow> 'w \<Rightarrow> 'w \<times> goerr" where
  "auth_io_error env ctx err w = (case ae_ctxErr env ctx w of (w, ctxErr) \<Rightarrow> (w, AuthenticationIOError ctxErr (ae_netTimeout env) err))"

definition tcp_readAuthenticationReply ::
  "'w ae_env \<Rightarrow> tcp_codec \<Rightarrow> int \<Rightarrow> ctx \<Rightarrow> bufr \<times> 'w \<Rightarrow> (bufr \<times> 'w) \<times> (goerr + Proto list)" where
  "tcp_readAuthenticationReply env codec limit authCtx =
     ReadReply ''tcp'' (NetErr ErrAuthenticationRejected) limit
       (\<lambda>(rr, w). case readFrame codec rr of
          (rr, Inl err) \<Rightarrow> (case auth_io_error env authCtx err w of (w, err) \<Rightarrow> ((rr, w), Inl err))
        | (rr, Inr reply) \<Rightarrow> ((rr, w), Inr reply))"

definition tcp_authenticate ::
  "'w ae_env \<Rightarrow> tcp_client_options \<Rightarrow> tcp_codec \<Rightarrow> ctx \<Rightarrow> bufr \<Rightarrow> bufw \<Rightarrow> 'w \<Rightarrow> 'w \<times> bufr \<times> bufw \<times> (goerr + Proto list)" where
  "tcp_authenticate env o' codec ctx rr wr w =
     (let authCtx = WithTimeout ctx (3 * second) in
      case ae_SetDeadline env authCtx w of
        (w, Some err) \<Rightarrow> (w, rr, wr, Inl err)
      | (w, None) \<Rightarrow>
          (case (case ae_marshalAuth env (tco_serviceName o') (tco_token o') of
                   Inl err \<Rightarrow> (w, rr, wr, Inl err)
                 | Inr body \<Rightarrow>
                     (case writeFrame codec (zeroProto\<lparr>Op := OpAuth, Body := body\<rparr>) wr of
                        (wr, Some err) \<Rightarrow> (case auth_io_error env authCtx err w of (w, err) \<Rightarrow> (w, rr, wr, Inl err))
                      | (wr, None) \<Rightarrow>
                          (case bw_Flush wr of
                             (wr, Some err) \<Rightarrow> (case auth_io_error env authCtx err w of (w, err) \<Rightarrow> (w, rr, wr, Inl err))
                           | (wr, None) \<Rightarrow>
                               (case tcp_readAuthenticationReply env codec (tco_callbackQueueSize o') authCtx (rr, w) of
                                  ((rr, w), r) \<Rightarrow> (w, rr, wr, r))))) of
             (w, rr, wr, r) \<Rightarrow>
               (case ae_stopInterrupt env w of (w, stopped) \<Rightarrow> (if stopped then ae_ClearDeadline env w else w, rr, wr, r))))"

definition tcp_initialCallbacks :: "(int \<rightharpoonup> nat) \<Rightarrow> nat option \<Rightarrow> Proto list \<Rightarrow> callback list" where
  "tcp_initialCallbacks handlers connect pending =
     (case connect of None \<Rightarrow> [] | Some f \<Rightarrow> [CbConnect f]) @
     List.map_filter (\<lambda>m. map_option (\<lambda>h. CbPush h (Body m)) (handlers (Cmd m))) pending"

definition callbackSlot :: "bool \<Rightarrow> int" where
  "callbackSlot enabled = (if enabled then 1 else 0)"

text \<open>The result is the client with its reader and writer. \<open>None\<close> would be the panic of a queue without capacity.\<close>

definition tcp_NewClient ::
  "'w ae_env \<Rightarrow> tcp_codec \<Rightarrow> ctx option \<Rightarrow> tcp_client_option list \<Rightarrow> 'w \<Rightarrow> ('w \<times> (goerr + (tcp_client \<times> bufr \<times> bufw))) option" where
  "tcp_NewClient env defaultCodec ctx opts w =
     (case ctx of
        None \<Rightarrow> Some (w, Inl (Fresh ''tcp: context is nil''))
      | Some ctx \<Rightarrow>
          (case tcp_resolveClientOptions defaultCodec opts of
             Inl err \<Rightarrow> Some (w, Inl err)
           | Inr o' \<Rightarrow>
               let codec = (case tco_codec o' of None \<Rightarrow> defaultCodec | Some c \<Rightarrow> c) in
               (case ae_dial env ctx (tco_endpoint o') (tco_tlsConf o') w of
                  (w, Inl err) \<Rightarrow> Some (w, Inl err)
                | (w, Inr (rr, wr)) \<Rightarrow>
                    (case tcp_authenticate env o' codec ctx rr wr w of
                       (w, rr, wr, Inl err) \<Rightarrow> Some (ae_CloseConn env w, Inl err)
                     | (w, rr, wr, Inr pending) \<Rightarrow>
                         (case ae_ctxErr env ctx w of
                            (w, Some err) \<Rightarrow> Some (ae_CloseConn env w, Inl err)
                          | (w, None) \<Rightarrow>
                              if int (length pending) + callbackSlot (tco_connectFunc o' \<noteq> None) > tco_callbackQueueSize o'
                              then Some (ae_CloseConn env w, Inl (Fresh ''tcp: initial callbacks exceed callback queue capacity''))
                              else (case queue_New (tco_callbackQueueSize o') of
                                      None \<Rightarrow> None
                                    | Some q \<Rightarrow>
                                        (case SubmitBatch (map Some (tcp_initialCallbacks (tco_pushHandlers o') (tco_connectFunc o') pending)) q of
                                           (q, Some err) \<Rightarrow> Some (ae_CloseConn env w, Inl (Fresh ''tcp: initial callbacks are unavailable''))
                                         | (q, None) \<Rightarrow>
                                             Some (w, Inr
                                               (\<lparr>cl_outbound = make_chan 100, cl_pushHandlers = tco_pushHandlers o', cl_kickHandler = tco_kickHandler o',
                                                 cl_disconnectFunc = tco_disconnectFunc o',
                                                 cl_requests = \<lparr>tk_seq = 0, tk_pending = Map.empty, tk_heap = Map.empty\<rparr>, cl_codec = tco_codec o',
                                                 cl_done = 0, cl_closing = False, cl_callbacks = q, cl_heartbeat = hb_idle,
                                                 cl_pingInterval = tco_pingInterval o', cl_readTimeout = tco_readTimeout o',
                                                 cl_writeTimeout = tco_writeTimeout o', cl_requestTimeout = tco_requestTimeout o',
                                                 cl_gates = {}, cl_ran = []\<rparr>, rr, wr)))))))))"

section \<open>Facts on options and connecting\<close>

text \<open>Resolved options are usable: identity and token are there and the read timeout exceeds the heartbeat interval.\<close>

lemma tcp_client_resolved_ok:
  assumes "tcp_resolveClientOptions defaultCodec opts = Inr o'"
  shows "tco_endpoint o' \<noteq> [] \<and> tco_serviceName o' \<noteq> [] \<and> tco_token o' \<noteq> [] \<and> tco_codec o' \<noteq> None \<and> 0 < tco_pingInterval o' \<and>
    tco_pingInterval o' < tco_readTimeout o' \<and> 0 < tco_writeTimeout o' \<and> 0 < tco_requestTimeout o' \<and> 0 < tco_callbackQueueSize o'"
  using assms by (auto simp: tcp_resolveClientOptions_def Let_def split: if_splits option.splits)

lemma tcp_initialCallbacks_length:
  "int (length (tcp_initialCallbacks handlers connect pending)) \<le> int (length pending) + callbackSlot (connect \<noteq> None)"
proof -
  have "length (List.map_filter f xs) \<le> length xs" for f :: "Proto \<Rightarrow> callback option" and xs
    by (induction xs) (auto simp: List.map_filter_simps split: option.splits)
  then show ?thesis by (auto simp: tcp_initialCallbacks_def callbackSlot_def split: option.splits intro: le_SucI)
qed

text \<open>Making a client always returns, and its initial callbacks find room once they passed the check of their number.\<close>

lemma initial_callbacks_fit:
  "queue_New n = Some q \<Longrightarrow> int (length cs) \<le> n \<Longrightarrow> snd (SubmitBatch (map Some cs) q) = None"
  by (auto simp: queue_New_def SubmitBatch_def hasNilCallback_def list_ex_iff split: if_splits)

lemma tcp_NewClient_returns: "tcp_NewClient env defaultCodec ctx opts w \<noteq> None"
proof -
  have "(queue_New (tco_callbackQueueSize o') :: callback queue option) \<noteq> None" if "tcp_resolveClientOptions defaultCodec opts = Inr o'" for o'
    using tcp_client_resolved_ok [OF that] by (simp add: queue_New_def)
  then show ?thesis
    by (cases ctx; cases "tcp_resolveClientOptions defaultCodec opts")
      (auto simp: tcp_NewClient_def Let_def split: prod.splits sum.splits option.splits)
qed

section \<open>Requests and the shutdown\<close>

text \<open>
  A request is begun with its message, then waits once the message was accepted, and is over. The one
  shutdown ends the callbacks, closes \<open>done\<close> and fails what ranging over the tracker yields: every entry that is
  there when it begins, and any others.
\<close>

datatype req_pos = ReqBegun Proto | ReqWaits | ReqOver

datatype shutdown_stage = Running | CallbacksEnded | DoneClosed | Failing "(int \<times> nat) list" | ShutDown

record client_system =
  cy_c :: tcp_client
  cy_reqs :: "nat \<rightharpoonup> req_pos"
  cy_stage :: shutdown_stage

definition ranged :: "Tracker \<Rightarrow> (int \<times> nat) list \<Rightarrow> bool" where
  "ranged t entries = (\<forall>seq a. tk_pending t seq = Some a \<longrightarrow> (seq, a) \<in> set entries)"

inductive client_step :: "client_system \<Rightarrow> client_system \<Rightarrow> bool" where
  y_begin: "tk_heap (cl_requests (cy_c s)) a = None \<Longrightarrow> Begin a command body (cl_requests (cy_c s)) = Some (t, message, a') \<Longrightarrow>
    client_step s (s\<lparr>cy_c := (cy_c s)\<lparr>cl_requests := t\<rparr>, cy_reqs := (cy_reqs s)(a \<mapsto> ReqBegun message)\<rparr>)"
| y_sent: "cy_reqs s a = Some (ReqBegun message) \<Longrightarrow> client_send before message (cy_c s) = (c, None) \<Longrightarrow>
    client_step s (s\<lparr>cy_c := c, cy_reqs := (cy_reqs s)(a \<mapsto> ReqWaits)\<rparr>)"
| y_refused: "cy_reqs s a = Some (ReqBegun message) \<Longrightarrow> client_send before message (cy_c s) = (c, Some err) \<Longrightarrow>
    client_step s (s\<lparr>cy_c := c\<lparr>cl_requests := pending_Cancel a (cl_requests c)\<rparr>, cy_reqs := (cy_reqs s)(a \<mapsto> ReqOver)\<rparr>)"
| y_waited: "cy_reqs s a = Some ReqWaits \<Longrightarrow> pending_Wait a ctxDone (cl_requests (cy_c s)) = Some (t, oc) \<Longrightarrow>
    client_step s (s\<lparr>cy_c := (cy_c s)\<lparr>cl_requests := t\<rparr>, cy_reqs := (cy_reqs s)(a \<mapsto> ReqOver)\<rparr>)"
| y_response: "Resolve p (cl_requests (cy_c s)) = Some (t, found) \<Longrightarrow>
    client_step s (s\<lparr>cy_c := (cy_c s)\<lparr>cl_requests := t\<rparr>\<rparr>)"
| y_heartbeat: "client_send before (zeroProto\<lparr>Op := OpHeartbeat\<rparr>) (cy_c s) = (c, err) \<Longrightarrow>
    client_step s (s\<lparr>cy_c := c\<lparr>cl_heartbeat := hb\<rparr>\<rparr>)"
| y_push: "queue_Submit cb (cl_callbacks (cy_c s)) = (q, err) \<Longrightarrow> client_step s (s\<lparr>cy_c := (cy_c s)\<lparr>cl_callbacks := q\<rparr>\<rparr>)"
| y_take: "chan_get (cl_outbound (cy_c s)) = Some (p, q) \<Longrightarrow> client_step s (s\<lparr>cy_c := (cy_c s)\<lparr>cl_outbound := q\<rparr>\<rparr>)"
| y_shutdown: "cy_stage s = Running \<Longrightarrow> shutdown_begin ready kick (cy_c s) = (c, release) \<Longrightarrow>
    client_step s (s\<lparr>cy_c := c, cy_stage := CallbacksEnded\<rparr>)"
| y_done: "cy_stage s = CallbacksEnded \<Longrightarrow> client_step s (s\<lparr>cy_c := shutdown_done (cy_c s), cy_stage := DoneClosed\<rparr>)"
| y_range: "cy_stage s = DoneClosed \<Longrightarrow> ranged (cl_requests (cy_c s)) entries \<Longrightarrow> client_step s (s\<lparr>cy_stage := Failing entries\<rparr>)"
| y_fail: "cy_stage s = Failing (e # entries) \<Longrightarrow> Fail (IoErr ErrNetClosed) [e] (cl_requests (cy_c s)) = Some t \<Longrightarrow>
    client_step s (s\<lparr>cy_c := (cy_c s)\<lparr>cl_requests := t\<rparr>, cy_stage := Failing entries\<rparr>)"
| y_finished: "cy_stage s = Failing [] \<Longrightarrow>
    client_step s (s\<lparr>cy_c := finishCallbacks release (cy_c s), cy_stage := ShutDown\<rparr>)"

definition fresh_client :: "tcp_client \<Rightarrow> bool" where
  "fresh_client c =
     (cl_requests c = \<lparr>tk_seq = 0, tk_pending = Map.empty, tk_heap = Map.empty\<rparr> \<and> cl_done c = 0 \<and> \<not> cl_closing c)"

definition client_start :: "tcp_client \<Rightarrow> client_system" where
  "client_start c = \<lparr>cy_c = c, cy_reqs = Map.empty, cy_stage = Running\<rparr>"

text \<open>
  An entry of the tracker has room for its one outcome while it is pending; a request that is not over is pending or has
  its outcome.
\<close>

definition pending_ok :: "Tracker \<Rightarrow> bool" where
  "pending_ok t =
     ((\<forall>a p. tk_heap t a = Some p \<longrightarrow> ch_cap (p_done p) = 1 \<and> \<not> ch_closed (p_done p) \<and>
        (tk_pending t (p_seq p) = Some a \<longrightarrow> ch_buf (p_done p) = [])) \<and>
      (\<forall>seq a. tk_pending t seq = Some a \<longrightarrow> (\<exists>p. tk_heap t a = Some p \<and> p_seq p = seq)))"

definition request_held :: "Tracker \<Rightarrow> nat \<Rightarrow> bool" where
  "request_held t a = (\<exists>p. tk_heap t a = Some p \<and> (tk_pending t (p_seq p) = Some a \<or> ch_buf (p_done p) \<noteq> []))"

definition is_pending :: "Tracker \<Rightarrow> int \<Rightarrow> nat \<Rightarrow> bool" where
  "is_pending t seq a = (tk_pending t seq = Some a)"

definition client_inv :: "client_system \<Rightarrow> bool" where
  "client_inv s =
     (let t = cl_requests (cy_c s) in
      pending_ok t \<and> (\<forall>a r. cy_reqs s a = Some r \<longrightarrow> r \<noteq> ReqOver \<longrightarrow> request_held t a) \<and>
      (\<forall>a. tk_heap t a = None \<longrightarrow> cy_reqs s a = None) \<and>
      cl_done (cy_c s) = of_bool (cy_stage s \<notin> {Running, CallbacksEnded}) \<and> cl_closing (cy_c s) = (cy_stage s \<noteq> Running) \<and>
      (\<forall>entries. cy_stage s = Failing entries \<longrightarrow>
         (\<forall>a seq. cy_reqs s a = Some ReqWaits \<longrightarrow> is_pending t seq a \<longrightarrow> (seq, a) \<in> set entries)) \<and>
      (cy_stage s = ShutDown \<longrightarrow> (\<forall>a seq. cy_reqs s a = Some ReqWaits \<longrightarrow> \<not> is_pending t seq a)))"

lemma client_start_inv: "fresh_client c \<Longrightarrow> client_inv (client_start c)"
  by (simp add: client_inv_def client_start_def fresh_client_def pending_ok_def)

text \<open>A change of the tracker that keeps every request but those of \<open>gone\<close> held, and adds no entry.\<close>

definition settled :: "nat set \<Rightarrow> Tracker \<Rightarrow> Tracker \<Rightarrow> bool" where
  "settled gone t t' =
     (pending_ok t' \<and> (\<forall>b. b \<notin> gone \<longrightarrow> request_held t b \<longrightarrow> request_held t' b) \<and>
      (\<forall>b. (tk_heap t' b = None) = (tk_heap t b = None)) \<and> (\<forall>q b. is_pending t' q b \<longrightarrow> is_pending t q b))"

lemma settled_refl: "pending_ok t \<Longrightarrow> settled gone t t"
  by (simp add: settled_def)

lemma client_inv_settled:
  assumes "client_inv s" "settled {} (cl_requests (cy_c s)) t"
  shows "client_inv (s\<lparr>cy_c := (cy_c s)\<lparr>cl_requests := t\<rparr>\<rparr>)"
  using assms unfolding client_inv_def settled_def Let_def by simp blast

lemma client_inv_over:
  assumes "client_inv s" "settled {a} (cl_requests (cy_c s)) t" "tk_heap (cl_requests (cy_c s)) a \<noteq> None"
  shows "client_inv (s\<lparr>cy_c := (cy_c s)\<lparr>cl_requests := t\<rparr>, cy_reqs := (cy_reqs s)(a \<mapsto> ReqOver)\<rparr>)"
  using assms unfolding client_inv_def settled_def Let_def by simp blast

lemma pending_ok_update:
  assumes "pending_ok t" "tk_heap t a = Some p" "p_seq q = p_seq p" "ch_cap (p_done q) = 1" "\<not> ch_closed (p_done q)"
    "pend (p_seq p) = Some a \<longrightarrow> ch_buf (p_done q) = []" "\<And>seq b. pend seq = Some b \<Longrightarrow> tk_pending t seq = Some b"
  shows "pending_ok (t\<lparr>tk_pending := pend, tk_heap := (tk_heap t)(a \<mapsto> q)\<rparr>)"
  unfolding pending_ok_def
proof (intro conjI allI impI)
  fix seq b
  assume "tk_pending (t\<lparr>tk_pending := pend, tk_heap := (tk_heap t)(a \<mapsto> q)\<rparr>) seq = Some b"
  then have "\<exists>r. tk_heap t b = Some r \<and> p_seq r = seq" using assms(1,7) by (simp add: pending_ok_def)
  then show "\<exists>r. tk_heap (t\<lparr>tk_pending := pend, tk_heap := (tk_heap t)(a \<mapsto> q)\<rparr>) b = Some r \<and> p_seq r = seq"
    using assms(2,3) by auto
qed (use assms in \<open>auto simp: pending_ok_def split: if_splits\<close>)

text \<open>Removing the entry of \<open>seq\<close> and giving it an outcome always works.\<close>

lemma settle_entry:
  assumes "pending_ok t" "tk_pending t seq = Some a"
  obtains t' where "deliver a oc (t\<lparr>tk_pending := (tk_pending t)(seq := None)\<rparr>) = Some t'" "settled {} t t'" "\<not> is_pending t' seq a"
proof -
  obtain p where p: "tk_heap t a = Some p" "p_seq p = seq" "ch_cap (p_done p) = 1" "\<not> ch_closed (p_done p)" "ch_buf (p_done p) = []"
    using assms by (fastforce simp: pending_ok_def)
  let ?t = "t\<lparr>tk_pending := (tk_pending t)(seq := None), tk_heap := (tk_heap t)(a \<mapsto> p\<lparr>p_done := (p_done p)\<lparr>ch_buf := [oc]\<rparr>\<rparr>)\<rparr>"
  have "deliver a oc (t\<lparr>tk_pending := (tk_pending t)(seq := None)\<rparr>) = Some ?t"
    using p by (simp add: deliver_def chan_send_def)
  moreover have "pending_ok ?t" by (rule pending_ok_update [OF assms(1) p(1)]) (use p in \<open>auto split: if_splits\<close>)
  moreover have "request_held ?t b" if "request_held t b" for b
    using that p assms by (cases "b = a") (auto simp: request_held_def)
  ultimately show thesis using p(1) by (intro that [of ?t]) (auto simp: settled_def is_pending_def)
qed

lemma Resolve_settled:
  assumes "pending_ok t" "Resolve p t = Some (t', found)"
  shows "settled {} t t'"
proof (cases "tk_pending t (Seq p)")
  case None
  then show ?thesis using assms by (simp add: Resolve_def LoadAndDelete_def settled_refl)
next
  case (Some a)
  obtain t1 where "deliver a \<lparr>oc_body = Body p, oc_code = Code p, oc_err = None\<rparr> (t\<lparr>tk_pending := (tk_pending t)(Seq p := None)\<rparr>) = Some t1"
    "settled {} t t1" by (rule settle_entry [OF assms(1) Some])
  then show ?thesis using assms(2) Some by (simp add: Resolve_def LoadAndDelete_def)
qed

lemma Fail_one:
  assumes "pending_ok t"
  obtains t' where "Fail err [(seq, a)] t = Some t'" "settled {} t t'" "\<not> is_pending t' seq a"
proof (cases "tk_pending t seq = Some a")
  case True
  obtain t' where "deliver a \<lparr>oc_body = [], oc_code = 0, oc_err = Some err\<rparr> (t\<lparr>tk_pending := (tk_pending t)(seq := None)\<rparr>) = Some t'"
    "settled {} t t'" "\<not> is_pending t' seq a" by (rule settle_entry [OF assms True])
  then show thesis using True by (intro that [of t']) (simp_all add: CompareAndDelete_def)
next
  case False
  then show thesis using assms by (intro that [of t]) (simp_all add: CompareAndDelete_def settled_refl is_pending_def)
qed

lemma remove_settled:
  assumes "pending_ok t" "tk_heap t a = Some p"
  shows "settled {a} t (fst (CompareAndDelete (p_seq p) a t))"
proof (cases "tk_pending t (p_seq p) = Some a")
  case True
  have held: "request_held (t\<lparr>tk_pending := (tk_pending t)(p_seq p := None)\<rparr>) b" if "b \<noteq> a" "request_held t b" for b
    using that True by (auto simp: request_held_def)
  have "pending_ok (t\<lparr>tk_pending := (tk_pending t)(p_seq p := None)\<rparr>)" using assms(1) by (auto simp: pending_ok_def)
  then show ?thesis using True held by (auto simp: settled_def CompareAndDelete_def is_pending_def)
next
  case False
  then show ?thesis using assms(1) by (simp add: CompareAndDelete_def settled_refl)
qed

lemma take_settled:
  assumes "pending_ok t" "take_outcome a t = Some (t', oc)"
  shows "settled {a} t t'"
proof -
  obtain p rest where p: "tk_heap t a = Some p" "ch_buf (p_done p) = oc # rest"
    "t' = t\<lparr>tk_heap := (tk_heap t)(a \<mapsto> p\<lparr>p_done := (p_done p)\<lparr>ch_buf := rest\<rparr>\<rparr>)\<rparr>"
    using assms(2) by (auto simp: take_outcome_Some)
  have "ch_cap (p_done p) = 1" "\<not> ch_closed (p_done p)" "tk_pending t (p_seq p) \<noteq> Some a" using assms(1) p by (auto simp: pending_ok_def)
  then have "pending_ok t'" using pending_ok_update [OF assms(1) p(1), of _ "tk_pending t"] p(3) by simp
  then show ?thesis using p by (auto simp: settled_def request_held_def is_pending_def)
qed

lemma settled_trans: "settled g t u \<Longrightarrow> settled g u v \<Longrightarrow> settled g t v"
  unfolding settled_def by blast

lemma Wait_settled:
  assumes "pending_ok t" "pending_Wait a ctxDone t = Some (t', oc)"
  shows "settled {a} t t' \<and> tk_heap t a \<noteq> None"
proof (cases ctxDone)
  case None
  then show ?thesis using assms take_settled [OF assms(1)] by (auto simp: pending_Wait_def take_outcome_def split: option.splits)
next
  case (Some err)
  obtain p where p: "tk_heap t a = Some p" using assms(2) Some by (auto simp: pending_Wait_def split: option.splits)
  obtain t1 b where 1: "CompareAndDelete (p_seq p) a t = (t1, b)" by fastforce
  have s1: "settled {a} t t1" using remove_settled [OF assms(1) p] 1 by simp
  then have "settled {a} t1 t'" using assms(2) Some p 1 take_settled [of t1 a t' oc]
    by (cases b) (auto simp: pending_Wait_def settled_def)
  then show ?thesis using s1 settled_trans p by blast
qed

lemma client_send_fields:
  assumes "client_send before p c = (c', err)"
  shows "cl_requests c' = cl_requests c" "cl_done c' = cl_done c" "cl_closing c' = cl_closing c"
    and "err = None \<Longrightarrow> cl_done c = 0" "err \<noteq> None \<Longrightarrow> c' = c"
proof -
  have "(c' = c \<and> err \<noteq> None) \<or> (\<exists>q. c' = c\<lparr>cl_outbound := q\<rparr> \<and> err = None \<and> cl_done c = 0)"
  proof (cases "cl_codec c")
    case None
    then show ?thesis using assms by (auto simp: client_send_def split: if_splits)
  next
    case (Some codec)
    then show ?thesis using assms
      by (cases "validateFrame codec p") (auto simp: client_send_def split: if_splits option.splits)
  qed
  then show "cl_requests c' = cl_requests c" "cl_done c' = cl_done c" "cl_closing c' = cl_closing c"
    and "err = None \<Longrightarrow> cl_done c = 0" "err \<noteq> None \<Longrightarrow> c' = c" by auto
qed

lemma client_inv_cong:
  assumes "client_inv s" "cl_requests c = cl_requests (cy_c s)" "cl_done c = cl_done (cy_c s)" "cl_closing c = cl_closing (cy_c s)"
  shows "client_inv (s\<lparr>cy_c := c\<rparr>)"
  using assms unfolding client_inv_def Let_def by simp

lemma client_inv_begin:
  assumes "client_inv s" "tk_heap (cl_requests (cy_c s)) a = None" "Begin a command body (cl_requests (cy_c s)) = Some (t, message, a')"
  shows "client_inv (s\<lparr>cy_c := (cy_c s)\<lparr>cl_requests := t\<rparr>, cy_reqs := (cy_reqs s)(a \<mapsto> ReqBegun message)\<rparr>)"
proof -
  let ?t = "cl_requests (cy_c s)"
  obtain q seq where t: "t = ?t\<lparr>tk_seq := q, tk_pending := (tk_pending ?t)(seq \<mapsto> a),
      tk_heap := (tk_heap ?t)(a \<mapsto> \<lparr>p_seq = seq, p_done = make_chan 1\<rparr>)\<rparr>" "tk_pending ?t seq = None"
    using Begin_result [OF assms(3)] by (auto simp: begun_def Let_def)
  have ok: "pending_ok ?t" using assms(1) by (simp add: client_inv_def Let_def)
  have "tk_pending ?t q' \<noteq> Some a" for q' using ok assms(2) unfolding pending_ok_def by (metis option.distinct(1))
  with ok have "pending_ok t" using t assms(2) unfolding pending_ok_def by (auto simp: make_chan_def)
  moreover have "request_held t b" if "request_held ?t b" for b
    using that t assms(2) by (auto simp: request_held_def)
  moreover have "request_held t a" using t by (simp add: request_held_def)
  moreover have "is_pending t q' b \<Longrightarrow> b \<noteq> a \<Longrightarrow> is_pending ?t q' b" for q' b using t by (auto simp: is_pending_def split: if_splits)
  moreover have "tk_heap t b = None \<Longrightarrow> b \<noteq> a \<and> tk_heap ?t b = None" for b using t by (auto split: if_splits)
  ultimately show ?thesis using assms(1) unfolding client_inv_def Let_def by (fastforce split: if_splits)
qed

lemma client_inv_sent:
  assumes "client_inv s" "cy_reqs s a = Some (ReqBegun message)" "client_send before message (cy_c s) = (c, None)"
  shows "client_inv (s\<lparr>cy_c := c, cy_reqs := (cy_reqs s)(a \<mapsto> ReqWaits)\<rparr>)"
proof -
  note send = client_send_fields [OF assms(3)]
  have stage: "cy_stage s \<in> {Running, CallbacksEnded}" using assms(1) send(4) by (auto simp: client_inv_def Let_def split: if_splits)
  have "request_held (cl_requests (cy_c s)) a" "tk_heap (cl_requests (cy_c s)) a \<noteq> None"
    using assms(1,2) by (auto simp: client_inv_def Let_def)
  then show ?thesis using assms(1) send(1-3) stage unfolding client_inv_def Let_def by auto
qed

lemma client_step_inv: "client_step s s' \<Longrightarrow> client_inv s \<Longrightarrow> client_inv s'"
proof (induction rule: client_step.induct)
  case (y_begin s a command body t message a')
  then show ?case by (simp only: client_inv_begin)
next
  case (y_sent s a message before c)
  then show ?case by (simp only: client_inv_sent)
next
  case (y_refused s a message before c err)
  have c: "c = cy_c s" using client_send_fields(5) [OF y_refused(2)] by simp
  have ok: "pending_ok (cl_requests c)" and "tk_heap (cl_requests c) a \<noteq> None"
    using y_refused(1,3) c by (auto simp: client_inv_def Let_def)
  then obtain p where p: "tk_heap (cl_requests c) a = Some p" by blast
  have "settled {a} (cl_requests c) (pending_Cancel a (cl_requests c))"
    using remove_settled [OF ok p] p by (simp add: pending_Cancel_def)
  then show ?case using client_inv_over [OF y_refused(3)] c p by simp
next
  case (y_waited s a ctxDone t oc)
  have "pending_ok (cl_requests (cy_c s))" using y_waited(3) by (simp add: client_inv_def Let_def)
  from Wait_settled [OF this y_waited(2)] show ?case using client_inv_over [OF y_waited(3)] by blast
next
  case (y_response p s t found)
  have "pending_ok (cl_requests (cy_c s))" using y_response(2) by (simp add: client_inv_def Let_def)
  then show ?case using client_inv_settled [OF y_response(2)] Resolve_settled [OF _ y_response(1)] by blast
next
  case (y_heartbeat before s c err hb)
  show ?case by (rule client_inv_cong [OF y_heartbeat(2)]) (simp_all add: client_send_fields [OF y_heartbeat(1)])
next
  case (y_push cb s q err)
  then show ?case by (simp add: client_inv_cong)
next
  case (y_take s p q)
  then show ?case by (simp add: client_inv_cong)
next
  case (y_shutdown s ready kick c release)
  then have "cl_requests c = cl_requests (cy_c s) \<and> cl_done c = cl_done (cy_c s) \<and> cl_closing c"
    by (auto simp: shutdown_begin_def Let_def split: prod.splits)
  then show ?case using y_shutdown(1,3) unfolding client_inv_def Let_def by auto
next
  case (y_done s)
  then show ?case unfolding client_inv_def Let_def shutdown_done_def by auto
next
  case (y_range s entries)
  then show ?case unfolding client_inv_def Let_def ranged_def is_pending_def by auto
next
  case (y_fail s e entries t)
  obtain seq a where e: "e = (seq, a)" by (cases e)
  have ok: "pending_ok (cl_requests (cy_c s))" using y_fail(3) by (simp add: client_inv_def Let_def)
  obtain t' where t': "Fail (IoErr ErrNetClosed) [(seq, a)] (cl_requests (cy_c s)) = Some t'" "settled {} (cl_requests (cy_c s)) t'"
    "\<not> is_pending t' seq a" by (rule Fail_one [OF ok])
  have t: "t = t'" using y_fail(2) t'(1) e by simp
  have "client_inv (s\<lparr>cy_c := (cy_c s)\<lparr>cl_requests := t\<rparr>\<rparr>)" using client_inv_settled [OF y_fail(3)] t'(2) t by simp
  then show ?case using y_fail(1) t'(3) t e unfolding client_inv_def Let_def by fastforce
next
  case (y_finished s release)
  then show ?case unfolding client_inv_def Let_def by (auto simp: finishCallbacks_def split: release.splits)
qed

lemma client_reach_inv: "client_step\<^sup>*\<^sup>* (client_start c) s \<Longrightarrow> fresh_client c \<Longrightarrow> client_inv s"
  by (induction rule: rtranclp_induct) (auto intro: client_start_inv client_step_inv)

section \<open>Properties\<close>

text \<open>
  C24. No request of a TCP client is left waiting by a shutdown, under any interleaving of requests,
  responses, heartbeats and the shutdown: \<open>done\<close> is closed at most once; from then on every message is
  refused; failing the pending requests never blocks; and once the shutdown is over, every request whose
  message had been accepted finds its outcome, so that its wait returns.
\<close>

theorem tcp_requests_all_end:
  assumes "client_step\<^sup>*\<^sup>* (client_start c) s" "fresh_client c"
  shows "cl_done (cy_c s) \<le> 1 \<and>
    (0 < cl_done (cy_c s) \<longrightarrow> (\<forall>before p. \<exists>err. client_send before p (cy_c s) = (cy_c s, Some err))) \<and>
    (\<forall>err e. \<exists>t. Fail err [e] (cl_requests (cy_c s)) = Some t) \<and>
    (cy_stage s = ShutDown \<longrightarrow>
      (\<forall>a. cy_reqs s a = Some ReqWaits \<longrightarrow> (\<exists>t oc. pending_Wait a None (cl_requests (cy_c s)) = Some (t, oc))))"
proof -
  have inv: "client_inv s" by (rule client_reach_inv [OF assms])
  then have ok: "pending_ok (cl_requests (cy_c s))" by (simp add: client_inv_def Let_def)
  have "\<exists>err. client_send before p (cy_c s) = (cy_c s, Some err)" if "0 < cl_done (cy_c s)" for before p
  proof (cases "client_send before p (cy_c s)")
    case (Pair c err)
    then show ?thesis using client_send_fields(4,5) [OF Pair] that by (cases err) auto
  qed
  moreover have "\<exists>t. Fail err [e] (cl_requests (cy_c s)) = Some t" for err e
    using Fail_one [OF ok, of err "fst e" "snd e"] by (metis prod.collapse)
  moreover have "\<exists>t oc. pending_Wait a None (cl_requests (cy_c s)) = Some (t, oc)"
    if "cy_stage s = ShutDown" "cy_reqs s a = Some ReqWaits" for a
  proof -
    have "request_held (cl_requests (cy_c s)) a" "\<And>seq. \<not> is_pending (cl_requests (cy_c s)) seq a"
      using inv that by (auto simp: client_inv_def Let_def)
    then obtain p oc rest where "tk_heap (cl_requests (cy_c s)) a = Some p" "ch_buf (p_done p) = oc # rest"
      by (auto simp: request_held_def is_pending_def neq_Nil_conv)
    then show ?thesis by (simp add: pending_Wait_def take_outcome_def chan_recv_def)
  qed
  ultimately show ?thesis using inv by (simp add: client_inv_def Let_def)
qed

text \<open>A client with one accepted request that is shut down.\<close>

definition client_demo :: tcp_client where
  "client_demo =
     \<lparr>cl_outbound = make_chan 100, cl_pushHandlers = Map.empty, cl_kickHandler = None, cl_disconnectFunc = Some 1,
      cl_requests = \<lparr>tk_seq = 0, tk_pending = Map.empty, tk_heap = Map.empty\<rparr>,
      cl_codec = Some (OtherCodec \<lparr>fc_Marshal = \<lambda>p. Inr ''m'', fc_Unmarshal = \<lambda>b. Inr zeroProto, fc_Size = \<lambda>p. 1\<rparr>),
      cl_done = 0, cl_closing = False,
      cl_callbacks = \<lparr>q_capacity = 1, q_wake = make_chan 1, q_tasks = [], q_terminals = [], q_closed = False\<rparr>,
      cl_heartbeat = hb_idle, cl_pingInterval = 5, cl_readTimeout = 15, cl_writeTimeout = 10, cl_requestTimeout = 30,
      cl_gates = {}, cl_ran = []\<rparr>"

lemma client_demo_waits:
  "\<exists>s. client_step\<^sup>*\<^sup>* (client_start client_demo) s \<and> cy_reqs s 7 = Some ReqWaits \<and> cy_stage s = Running \<and>
     tk_pending (cl_requests (cy_c s)) = [1 \<mapsto> 7]"
proof -
  let ?t = "\<lparr>tk_seq = 1, tk_pending = [1 \<mapsto> 7], tk_heap = [7 \<mapsto> \<lparr>p_seq = 1, p_done = make_chan 1\<rparr>]\<rparr>"
  let ?m = "\<lparr>Op = OpRequest, Seq = 1, Code = 0, Cmd = 3, Body = []\<rparr>"
  let ?s0 = "client_start client_demo"
  let ?s1 = "?s0\<lparr>cy_c := client_demo\<lparr>cl_requests := ?t\<rparr>, cy_reqs := [7 \<mapsto> ReqBegun ?m]\<rparr>"
  have "Begin 7 3 [] (cl_requests (cy_c ?s0)) = Some (?t, ?m, 7)"
    by (subst Begin.simps) (simp add: client_start_def client_demo_def nextSequence_0)
  from y_begin [OF _ this] have 1: "client_step ?s0 ?s1" by (simp add: client_start_def client_demo_def)
  have "client_send False ?m (cy_c ?s1) = ((cy_c ?s1)\<lparr>cl_outbound := \<lparr>ch_cap = 100, ch_buf = [?m], ch_closed = False\<rparr>\<rparr>, None)"
    by (simp add: client_send_def client_demo_def validateFrame_def validateFrameSize_def MaxProtoSize_def chan_put_def chan_send_def
      make_chan_def op_defs)
  from y_sent [OF _ this, of 7] obtain s2 where 2: "client_step ?s1 s2" "cy_reqs s2 7 = Some ReqWaits" "cy_stage s2 = Running"
    "tk_pending (cl_requests (cy_c s2)) = [1 \<mapsto> 7]" by (simp add: client_start_def)
  have "client_step\<^sup>*\<^sup>* ?s0 s2" using 1 2(1) by (meson converse_rtranclp_into_rtranclp rtranclp.rtrancl_refl)
  then show ?thesis using 2(2-4) by blast
qed

theorem tcp_requests_all_end_witness:
  "\<exists>s. client_step\<^sup>*\<^sup>* (client_start client_demo) s \<and> cy_stage s = ShutDown \<and> cy_reqs s 7 = Some ReqWaits \<and>
     (\<exists>t oc. pending_Wait 7 None (cl_requests (cy_c s)) = Some (t, oc))"
proof -
  have fresh: "fresh_client client_demo" by (simp add: fresh_client_def client_demo_def)
  obtain s where s: "client_step\<^sup>*\<^sup>* (client_start client_demo) s" "cy_reqs s 7 = Some ReqWaits" "cy_stage s = Running"
    "tk_pending (cl_requests (cy_c s)) = [1 \<mapsto> 7]" using client_demo_waits by blast
  obtain c r where c: "shutdown_begin 0 None (cy_c s) = (c, r)" by fastforce
  let ?s1 = "s\<lparr>cy_c := c, cy_stage := CallbacksEnded\<rparr>"
  let ?s2 = "?s1\<lparr>cy_c := shutdown_done c, cy_stage := DoneClosed\<rparr>"
  let ?s3 = "?s2\<lparr>cy_stage := Failing [(1, 7)]\<rparr>"
  have reqs: "cl_requests c = cl_requests (cy_c s)" using c by (auto simp: shutdown_begin_def Let_def split: prod.splits)
  have 1: "client_step s ?s1" by (rule y_shutdown [OF s(3) c])
  have 2: "client_step ?s1 ?s2" using y_done [of ?s1] by simp
  have "ranged (cl_requests (cy_c ?s2)) [(1, 7)]" using s(4) reqs by (auto simp: ranged_def shutdown_done_def split: if_splits)
  from y_range [OF _ this] have 3: "client_step ?s2 ?s3" by simp
  have r3: "client_step\<^sup>*\<^sup>* (client_start client_demo) ?s3" using s(1) 1 2 3 by (meson rtranclp.rtrancl_into_rtrancl)
  obtain t where t: "Fail (IoErr ErrNetClosed) [(1, 7)] (cl_requests (cy_c ?s3)) = Some t"
    using tcp_requests_all_end [OF r3 fresh] by blast
  let ?s4 = "?s3\<lparr>cy_c := (cy_c ?s3)\<lparr>cl_requests := t\<rparr>, cy_stage := Failing []\<rparr>"
  let ?s5 = "?s4\<lparr>cy_c := finishCallbacks r (cy_c ?s4), cy_stage := ShutDown\<rparr>"
  have 4: "client_step ?s3 ?s4" using y_fail [OF _ t] by simp
  have 5: "client_step ?s4 ?s5" using y_finished [of ?s4 r] by simp
  have r5: "client_step\<^sup>*\<^sup>* (client_start client_demo) ?s5" using r3 4 5 by (meson rtranclp.rtrancl_into_rtrancl)
  have "cy_stage ?s5 = ShutDown" "cy_reqs ?s5 7 = Some ReqWaits" using s(2) by simp_all
  then show ?thesis using tcp_requests_all_end [OF r5 fresh] r5 by blast
qed

end
