(* ===== verification/Ws_Client.thy ===== *)
theory Ws_Client
  imports Ws_Channel Tcp_Client
begin

text \<open>
  \<open>network/websocket/client.go\<close> and \<open>client_options.go\<close>: options, connection, authentication and the loops of the WebSocket
  client. The client's state extends that of its channel, so that the operations of \<open>Ws_Channel\<close> apply to it.
  Callbacks and the first callbacks of a client are those of \<open>Tcp_Client\<close>, whose code is the same.
\<close>

section \<open>Options\<close>

record ws_client_options =
  wco_tlsConf :: "tls_config option"
  wco_timeout :: duration
  wco_endpoint :: string
  wco_serviceName :: string
  wco_token :: bytes
  wco_codec :: "ws_codec option"
  wco_connectFunc :: "nat option"
  wco_disconnectFunc :: "nat option"
  wco_pushHandler :: "int \<rightharpoonup> nat"
  wco_kickHandler :: "nat option"
  wco_channel :: "ChannelConfig option"
  wco_pingInterval :: duration
  wco_requestTimeout :: duration
  wco_callbackQueueSize :: int

datatype ws_client_option =
    WcWithEndpoint string | WcWithTimeout duration | WcWithToken string | WcWithServiceName string | WcWithTLSConfig "tls_config option"
  | WcWithCodec "ws_codec option" | WcWithChannelConfig "ChannelConfig option" | WcWithPingInterval duration
  | WcWithRequestTimeout duration | WcWithCallbackQueueSize int | WcWithConnectFunc "nat option" | WcWithDisconnectFunc "nat option"
  | WcWithPushHandler "int \<rightharpoonup> nat" | WcWithKickHandler "nat option"

fun ws_client_apply_option :: "ws_client_option \<Rightarrow> ws_client_options \<Rightarrow> ws_client_options" where
  "ws_client_apply_option (WcWithEndpoint e) o' = o'\<lparr>wco_endpoint := e\<rparr>"
| "ws_client_apply_option (WcWithTimeout d) o' = o'\<lparr>wco_timeout := d\<rparr>"
| "ws_client_apply_option (WcWithToken t) o' = o'\<lparr>wco_token := t\<rparr>"
| "ws_client_apply_option (WcWithServiceName n) o' = o'\<lparr>wco_serviceName := n\<rparr>"
| "ws_client_apply_option (WcWithTLSConfig c) o' = o'\<lparr>wco_tlsConf := c\<rparr>"
| "ws_client_apply_option (WcWithCodec c) o' = o'\<lparr>wco_codec := c\<rparr>"
| "ws_client_apply_option (WcWithChannelConfig c) o' = o'\<lparr>wco_channel := c\<rparr>"
| "ws_client_apply_option (WcWithPingInterval d) o' = o'\<lparr>wco_pingInterval := d\<rparr>"
| "ws_client_apply_option (WcWithRequestTimeout d) o' = o'\<lparr>wco_requestTimeout := d\<rparr>"
| "ws_client_apply_option (WcWithCallbackQueueSize n) o' = o'\<lparr>wco_callbackQueueSize := n\<rparr>"
| "ws_client_apply_option (WcWithConnectFunc f) o' = o'\<lparr>wco_connectFunc := f\<rparr>"
| "ws_client_apply_option (WcWithDisconnectFunc f) o' = o'\<lparr>wco_disconnectFunc := f\<rparr>"
| "ws_client_apply_option (WcWithPushHandler hs) o' = o'\<lparr>wco_pushHandler := hs\<rparr>"
| "ws_client_apply_option (WcWithKickHandler h) o' = o'\<lparr>wco_kickHandler := h\<rparr>"

text \<open>\<open>parse\<close> and \<open>print\<close> are \<open>url.Parse\<close> and \<open>URL.String\<close>.\<close>

definition ws_parseURL :: "(string \<Rightarrow> goerr + URL) \<Rightarrow> string \<Rightarrow> bool \<Rightarrow> goerr + URL" where
  "ws_parseURL parse endpoint insecure =
     (let endpoint = (if contains_str endpoint ''://'' then endpoint else if insecure then ''ws://'' @ endpoint else ''wss://'' @ endpoint);
          invalid = Fresh ''WebSocket endpoint must use ws or wss with a host'' in
      case parse endpoint of
        Inl err \<Rightarrow> Inl invalid
      | Inr u \<Rightarrow> if url_Host u = [] \<or> url_Scheme u \<noteq> ''ws'' \<and> url_Scheme u \<noteq> ''wss'' then Inl invalid else Inr u)"

definition ws_resolveClientOptions ::
  "(string \<Rightarrow> goerr + URL) \<Rightarrow> (URL \<Rightarrow> string) \<Rightarrow> ws_codec \<Rightarrow> ws_client_option list \<Rightarrow> goerr + (ws_client_options \<times> ChannelConfig)" where
  "ws_resolveClientOptions parse print defaultCodec opts =
     (let c = fold ws_client_apply_option opts
        \<lparr>wco_tlsConf = None, wco_timeout = 3 * second, wco_endpoint = ''ws://127.0.0.1:3102'', wco_serviceName = [], wco_token = [],
         wco_codec = Some defaultCodec, wco_connectFunc = None, wco_disconnectFunc = None, wco_pushHandler = Map.empty,
         wco_kickHandler = None, wco_channel = Some defaultChannelConfig, wco_pingInterval = 15 * second,
         wco_requestTimeout = 30 * second, wco_callbackQueueSize = 64\<rparr> in
      if wco_codec c = None then Inl (Fresh ''websocket: codec is required'')
      else case channel_validate (wco_channel c) of
        Some err \<Rightarrow> Inl err
      | None \<Rightarrow>
          (case wco_channel c of
             None \<Rightarrow> Inl (Fresh ''websocket: channel config is required'')
           | Some config \<Rightarrow>
               if wco_timeout c \<le> 0 then Inl (Fresh ''websocket: authentication timeout must be positive'')
               else if wco_pingInterval c \<le> 0 then Inl (Fresh ''websocket: ping interval must be positive'')
               else if wco_pingInterval c \<ge> cc_ReadDeadline config
               then Inl (Fresh ''websocket: ping interval must be shorter than channel read deadline'')
               else if wco_requestTimeout c \<le> 0 then Inl (Fresh ''websocket: request timeout must be positive'')
               else if wco_serviceName c = [] then Inl (Fresh ''websocket: service name is required'')
               else if wco_token c = [] then Inl (Fresh ''websocket: token is required'')
               else if wco_callbackQueueSize c \<le> 0 then Inl (Fresh ''websocket: callback queue size must be positive'')
               else case ValidateClient (wco_tlsConf c) of
                 Some err \<Rightarrow> Inl (Wrap ''websocket'' [err])
               | None \<Rightarrow>
                   (case ws_parseURL parse (wco_endpoint c) (wco_tlsConf c = None) of
                      Inl err \<Rightarrow> Inl (Wrap [] [OtherErr ErrInvalidURL, err])
                    | Inr u \<Rightarrow>
                        if wco_tlsConf c \<noteq> None \<and> url_Scheme u \<noteq> ''wss''
                        then Inl (Fresh ''websocket: TLS config requires a wss endpoint'')
                        else Inr (c\<lparr>wco_tlsConf := tls_Clone (wco_tlsConf c), wco_endpoint := print u\<rparr>, config))))"

section \<open>The client\<close>

record ws_client = ws_channel +
  wl_requests :: Tracker
  wl_pushHandlers :: "int \<rightharpoonup> nat"
  wl_kickHandler :: "nat option"
  wl_disconnectFunc :: "nat option"
  wl_callbacks :: "callback queue"
  wl_closing :: bool
  wl_pingInterval :: duration
  wl_requestTimeout :: duration
  wl_gates :: "nat set"
  wl_ran :: "callback list"

type_synonym 'a wcl = "'a ws_client_scheme"

text \<open>\<open>wle_writerDone\<close> is the wait for the end of the channel's writer; the others are as for the TCP client.\<close>

record 'w wl_env =
  wle_conn :: "'w wc_env"
  wle_ctxErr :: "ctx \<Rightarrow> 'w \<Rightarrow> 'w \<times> goerr option"
  wle_wait :: "ctx \<Rightarrow> nat \<Rightarrow> 'w \<Rightarrow> 'w \<times> goerr option"
  wle_pending :: "'w \<Rightarrow> (int \<times> nat) list"
  wle_new :: "'w \<Rightarrow> nat"
  wle_writerDone :: "'w \<Rightarrow> 'w"

definition ws_IsAlive :: "'a wcl option \<Rightarrow> bool" where
  "ws_IsAlive c = (case c of None \<Rightarrow> False | Some c \<Rightarrow> \<not> wch_closed c)"

text \<open>\<open>None\<close> is a call that would not return.\<close>

definition ws_shutdownWith :: "'a wcl wl_env \<Rightarrow> callback option \<Rightarrow> 'a wcl \<Rightarrow> 'a wcl option" where
  "ws_shutdownWith env kick c =
     (if wl_closing c then Some c
      else let terminals = (case kick of None \<Rightarrow> [] | Some f \<Rightarrow> [Some f]) @
                 (case wl_disconnectFunc c of None \<Rightarrow> [] | Some f \<Rightarrow> [Some (CbDisconnect f)]);
               (q, release) = BeginTermination (wle_new env c) terminals (wl_callbacks c);
               c = fst (ws_closeWithReason (wle_conn env) ''client closed'' (c\<lparr>wl_closing := True, wl_callbacks := q\<rparr>)) in
        case Fail (NetErr ErrNotConnected) (wle_pending env c) (wl_requests c) of
          None \<Rightarrow> None
        | Some t \<Rightarrow>
            let c = c\<lparr>wl_requests := t\<rparr> in
            Some (case release of
                    NoRelease \<Rightarrow> c
                  | RunTerminals fs \<Rightarrow> c\<lparr>wl_ran := wl_ran c @ fs\<rparr>
                  | OpenGate r \<Rightarrow> c\<lparr>wl_gates := insert r (wl_gates c)\<rparr>))"

definition ws_client_Close :: "'a wcl wl_env \<Rightarrow> 'a wcl option \<Rightarrow> 'a wcl option option" where
  "ws_client_Close env c = (case c of None \<Rightarrow> Some None | Some c \<Rightarrow> map_option Some (ws_shutdownWith env None c))"

definition ws_client_Request ::
  "'a wcl wl_env \<Rightarrow> ctx option \<Rightarrow> int \<Rightarrow> goerr + bytes \<Rightarrow> 'a wcl \<Rightarrow> ('a wcl \<times> bytes \<times> int \<times> goerr option) option" where
  "ws_client_Request env ctx command msg c =
     (case ctx of
        None \<Rightarrow> Some (c, [], 0, Some (Fresh ''websocket: request context is nil''))
      | Some ctx \<Rightarrow>
          (case wle_ctxErr env ctx c of
             (c, Some err) \<Rightarrow> Some (c, [], 0, Some err)
           | (c, None) \<Rightarrow>
               (case msg of
                  Inl err \<Rightarrow> Some (c, [], 0, Some err)
                | Inr body \<Rightarrow>
                    let ctx = WithTimeout ctx (wl_requestTimeout c) in
                    (case wle_ctxErr env ctx c of
                       (c, Some err) \<Rightarrow> Some (c, [], 0, Some err)
                     | (c, None) \<Rightarrow>
                         if wch_closed c then Some (c, [], 0, Some (NetErr ErrNotConnected))
                         else case Begin (wle_new env c) command body (wl_requests c) of
                           None \<Rightarrow> None
                         | Some (t, message, a) \<Rightarrow>
                             (case ws_SendProto (Some message) (c\<lparr>wl_requests := t\<rparr>) of
                                (c, Some err) \<Rightarrow> Some (c\<lparr>wl_requests := pending_Cancel a (wl_requests c)\<rparr>, [], 0, Some err)
                              | (c, None) \<Rightarrow>
                                  (case wle_wait env ctx a c of
                                     (c, ctxDone) \<Rightarrow>
                                       (case pending_Wait a ctxDone (wl_requests c) of
                                          None \<Rightarrow> None
                                        | Some (t, oc) \<Rightarrow> Some (c\<lparr>wl_requests := t\<rparr>, oc_body oc, oc_code oc, oc_err oc))))))))"

definition ws_dispatchMessage :: "'a wcl wl_env \<Rightarrow> Proto \<Rightarrow> 'a wcl \<Rightarrow> ('a wcl \<times> goerr option) option" where
  "ws_dispatchMessage env p c =
     (if Op p = OpResponse then
        (case Resolve p (wl_requests c) of None \<Rightarrow> None | Some (t, found) \<Rightarrow> Some (c\<lparr>wl_requests := t\<rparr>, None))
      else if Op p = OpPush then
        (case wl_pushHandlers c (Cmd p) of
           None \<Rightarrow> Some (c, None)
         | Some h \<Rightarrow>
             (case queue_Submit (Some (CbPush h (Body p))) (wl_callbacks c) of (q, err) \<Rightarrow> Some (c\<lparr>wl_callbacks := q\<rparr>, err)))
      else if Op p = OpHeartbeatReply then
        (case reply_atomic (wch_heartbeat c) of
           (hb, True) \<Rightarrow> Some (c\<lparr>wch_heartbeat := hb\<rparr>, None)
         | (hb, False) \<Rightarrow>
             Some (fst (ws_closeWithReason (wle_conn env) ''unexpected heartbeat reply'' c),
                   Some (Fresh ''websocket: unexpected heartbeat reply'')))
      else if Op p = OpKick then
        map_option (\<lambda>c. (c, Some (NetErr ErrConnectionClosed)))
          (ws_shutdownWith env (map_option (\<lambda>h. CbKick h (Code p)) (wl_kickHandler c)) c)
      else Some (c, None))"

text \<open>One turn of \<open>readLoop\<close>, whose result tells whether it goes on, and what it defers.\<close>

definition ws_read_turn :: "'a wcl wl_env \<Rightarrow> 'a wcl \<Rightarrow> ('a wcl \<times> bool) option" where
  "ws_read_turn env c =
     (case ws_readFrame (wle_conn env) c of
        None \<Rightarrow> None
      | Some (c, Inl err) \<Rightarrow> Some (c, False)
      | Some (c, Inr p) \<Rightarrow> map_option (\<lambda>(c, err). (c, err = None)) (ws_dispatchMessage env p c))"

definition ws_read_end :: "'a wcl wl_env \<Rightarrow> 'a wcl \<Rightarrow> 'a wcl option" where
  "ws_read_end env c =
     ws_shutdownWith env None (wle_writerDone env (fst (ws_closeWithReason (wle_conn env) ''read loop stopped'' c)))"

text \<open>What the heartbeat goroutine does on a tick; the result tells whether it goes on.\<close>

definition ws_heartbeat_turn :: "'a wcl wl_env \<Rightarrow> 'a wcl \<Rightarrow> 'a wcl \<times> bool" where
  "ws_heartbeat_turn env c =
     (case tick_atomic (wch_heartbeat c) of
        (hb, TickPending) \<Rightarrow> (c\<lparr>wch_heartbeat := hb\<rparr>, True)
      | (hb, TickTimeout) \<Rightarrow> (fst (ws_closeWithReason (wle_conn env) ''heartbeat timeout'' (c\<lparr>wch_heartbeat := hb\<rparr>)), False)
      | (hb, TickQueue) \<Rightarrow>
          (case ws_sendHeartbeat (c\<lparr>wch_heartbeat := hb\<rparr>) of
             (c, None) \<Rightarrow> (c, True)
           | (c, Some err) \<Rightarrow>
               (fst (ws_closeWithReason (wle_conn env) ''heartbeat failed'' (c\<lparr>wch_heartbeat := fst (CancelQueue (wch_heartbeat c))\<rparr>)), False)))"

section \<open>Connecting\<close>

text \<open>
  The environment of a client that is being made: dialling with the TLS configuration and the handshake timeout, the
  connection, and the contexts. A message read is whether it is binary, and its bytes. \<open>wa_dial\<close> includes closing the
  body of the handshake's response; \<open>wa_stopInterrupt\<close> tells whether closing the connection at the end of the context
  was prevented.
\<close>

record 'w wa_env =
  wa_dial :: "ctx \<Rightarrow> string \<Rightarrow> tls_config option \<Rightarrow> duration \<Rightarrow> 'w \<Rightarrow> 'w \<times> goerr option"
  wa_SetReadLimit :: "nat \<Rightarrow> 'w \<Rightarrow> 'w"
  wa_SetWriteDeadline :: "ctx \<Rightarrow> 'w \<Rightarrow> 'w \<times> goerr option"
  wa_SetReadDeadline :: "ctx \<Rightarrow> 'w \<Rightarrow> 'w \<times> goerr option"
  wa_ClearDeadlines :: "'w \<Rightarrow> 'w"
  wa_WriteMessage :: "bytes \<Rightarrow> 'w \<Rightarrow> 'w \<times> goerr option"
  wa_ReadMessage :: "'w \<Rightarrow> 'w \<times> (goerr + (bool \<times> bytes))"
  wa_CloseConn :: "'w \<Rightarrow> 'w"
  wa_stopInterrupt :: "'w \<Rightarrow> 'w \<times> bool"
  wa_ctxErr :: "ctx \<Rightarrow> 'w \<Rightarrow> 'w \<times> goerr option"
  wa_netTimeout :: "goerr \<Rightarrow> bool"
  wa_marshalAuth :: "string \<Rightarrow> bytes \<Rightarrow> goerr + bytes"

definition ws_auth_io_error :: "'w wa_env \<Rightarrow> ctx \<Rightarrow> goerr \<Rightarrow> 'w \<Rightarrow> 'w \<times> goerr" where
  "ws_auth_io_error env ctx err w = (case wa_ctxErr env ctx w of (w, ctxErr) \<Rightarrow> (w, AuthenticationIOError ctxErr (wa_netTimeout env) err))"

definition ws_readAuthenticationReply :: "'w wa_env \<Rightarrow> ws_codec \<Rightarrow> int \<Rightarrow> ctx \<Rightarrow> 'w \<Rightarrow> 'w \<times> (goerr + Proto list)" where
  "ws_readAuthenticationReply env codec limit authCtx =
     ReadReply ''websocket'' (NetErr ErrAuthenticationRejected) limit
       (\<lambda>w. case wa_ReadMessage env w of
          (w, Inl err) \<Rightarrow> (case ws_auth_io_error env authCtx err w of (w, err) \<Rightarrow> (w, Inl err))
        | (w, Inr (binary, frame)) \<Rightarrow>
            (w, if \<not> binary then Inl (Fresh ''websocket: invalid authentication response'') else unmarshalFrame codec frame))"

definition ws_authenticate :: "'w wa_env \<Rightarrow> ws_client_options \<Rightarrow> ws_codec \<Rightarrow> ctx \<Rightarrow> 'w \<Rightarrow> 'w \<times> (goerr + Proto list)" where
  "ws_authenticate env o' codec ctx w =
     (let authCtx = WithTimeout ctx (wco_timeout o') in
      case wa_SetWriteDeadline env authCtx (wa_SetReadLimit env MaxProtoSize w) of
        (w, Some err) \<Rightarrow> (w, Inl err)
      | (w, None) \<Rightarrow>
          (case wa_SetReadDeadline env authCtx w of
             (w, Some err) \<Rightarrow> (w, Inl err)
           | (w, None) \<Rightarrow>
               (case (case wa_marshalAuth env (wco_serviceName o') (wco_token o') of
                        Inl err \<Rightarrow> (w, Inl err)
                      | Inr body \<Rightarrow>
                          (case marshalFrame codec (Some (zeroProto\<lparr>Op := OpAuth, Body := body\<rparr>)) of
                             Inl err \<Rightarrow> (w, Inl err)
                           | Inr frame \<Rightarrow>
                               (case wa_WriteMessage env frame w of
                                  (w, Some err) \<Rightarrow> (case ws_auth_io_error env authCtx err w of (w, err) \<Rightarrow> (w, Inl err))
                                | (w, None) \<Rightarrow> ws_readAuthenticationReply env codec (wco_callbackQueueSize o') authCtx w))) of
                  (w, r) \<Rightarrow>
                    (case wa_stopInterrupt env w of (w, stopped) \<Rightarrow> (if stopped then wa_ClearDeadlines env w else w, r)))))"

text \<open>
  \<open>None\<close> would be the panic of a queue without capacity. With an error comes the client that had been made and was
  given up, if there was one.
\<close>

definition ws_NewClient ::
  "'w wa_env \<Rightarrow> ws_client wc_env \<Rightarrow> (string \<Rightarrow> goerr + URL) \<Rightarrow> (URL \<Rightarrow> string) \<Rightarrow> ws_codec \<Rightarrow> ctx option \<Rightarrow>
   ws_client_option list \<Rightarrow> 'w \<Rightarrow> ('w \<times> (goerr \<times> ws_client option + ws_client)) option" where
  "ws_NewClient env conn parse print defaultCodec ctx opts w =
     (case ctx of
        None \<Rightarrow> Some (w, Inl (Fresh ''websocket: context is nil'', None))
      | Some ctx \<Rightarrow>
          (case ws_resolveClientOptions parse print defaultCodec opts of
             Inl err \<Rightarrow> Some (w, Inl (err, None))
           | Inr (o', config) \<Rightarrow>
               let codec = (case wco_codec o' of None \<Rightarrow> defaultCodec | Some c \<Rightarrow> c) in
               (case wa_dial env ctx (wco_endpoint o') (wco_tlsConf o') (wco_timeout o') w of
                  (w, Some err) \<Rightarrow> Some (w, Inl (err, None))
                | (w, None) \<Rightarrow>
                    (case ws_authenticate env o' codec ctx w of
                       (w, Inl err) \<Rightarrow> Some (wa_CloseConn env w, Inl (err, None))
                     | (w, Inr pending) \<Rightarrow>
                         (case wa_ctxErr env ctx w of
                            (w, Some err) \<Rightarrow> Some (wa_CloseConn env w, Inl (err, None))
                          | (w, None) \<Rightarrow>
                              if int (length pending) + callbackSlot (wco_connectFunc o' \<noteq> None) > wco_callbackQueueSize o'
                              then Some (wa_CloseConn env w,
                                         Inl (Fresh ''websocket: initial callbacks exceed callback queue capacity'', None))
                              else (case wa_ctxErr env ctx (wa_SetReadLimit env MaxProtoSize w) of
                                      (w, ctxErr) \<Rightarrow>
                                        (case queue_New (wco_callbackQueueSize o') of
                                           None \<Rightarrow> None
                                         | Some q \<Rightarrow>
                                             let client = (\<lambda>q. ws_channel.extend (ws_newChannel ctxErr codec config)
                                                   (ws_client.fields \<lparr>tk_seq = 0, tk_pending = Map.empty, tk_heap = Map.empty\<rparr>
                                                     (wco_pushHandler o') (wco_kickHandler o') (wco_disconnectFunc o') q False
                                                     (wco_pingInterval o') (wco_requestTimeout o') {} [])) in
                                             (case SubmitBatch (map Some (tcp_initialCallbacks (wco_pushHandler o') (wco_connectFunc o') pending)) q of
                                                (q, Some err) \<Rightarrow>
                                                  Some (w, Inl (err, Some (fst (ws_closeWithReason conn ''client initialization failed''
                                                    (client (queue_Stop q))))))
                                              | (q, None) \<Rightarrow> Some (w, Inr (client q))))))))))"

section \<open>Facts\<close>

text \<open>Resolved options are usable; a client with a TLS configuration only ever dials a secure endpoint.\<close>

lemma ws_client_resolved_ok:
  assumes "ws_resolveClientOptions parse print defaultCodec opts = Inr (o', config)"
  shows "wco_serviceName o' \<noteq> [] \<and> wco_token o' \<noteq> [] \<and> 0 < wco_timeout o' \<and> 0 < wco_pingInterval o' \<and>
    wco_pingInterval o' < cc_ReadDeadline config \<and> 0 < wco_requestTimeout o' \<and> 0 < wco_callbackQueueSize o' \<and>
    (\<exists>u. wco_endpoint o' = print u \<and> url_Host u \<noteq> [] \<and> url_Scheme u \<in> {''ws'', ''wss''} \<and>
      (wco_tlsConf o' \<noteq> None \<longrightarrow> url_Scheme u = ''wss''))"
proof -
  have url: "url_Host u \<noteq> [] \<and> url_Scheme u \<in> {''ws'', ''wss''}" if "ws_parseURL parse e i = Inr u" for e i u
    using that by (auto simp: ws_parseURL_def Let_def split: sum.splits if_splits)
  show ?thesis using assms
    by (auto simp: ws_resolveClientOptions_def Let_def tls_Clone_def split: if_splits option.splits sum.splits dest: url)
qed

lemma ws_NewClient_returns: "ws_NewClient env conn parse print defaultCodec ctx opts w \<noteq> None"
proof -
  have "(queue_New (wco_callbackQueueSize o') :: callback queue option) \<noteq> None"
    if "ws_resolveClientOptions parse print defaultCodec opts = Inr (o', config)" for o' config
    using ws_client_resolved_ok [OF that] by (simp add: queue_New_def)
  then show ?thesis
    by (cases ctx; cases "ws_resolveClientOptions parse print defaultCodec opts")
      (auto simp: ws_NewClient_def Let_def split: prod.splits sum.splits option.splits)
qed

text \<open>No client is ever given up: the check of the number of callbacks leaves room for all of them.\<close>

lemma ws_NewClient_keeps:
  assumes "ws_NewClient env conn parse print defaultCodec ctx opts w = Some (w', Inl (err, c))"
  shows "c = None"
proof -
  have fit: False
    if "SubmitBatch (map Some (tcp_initialCallbacks h f pending)) q = (q', Some e)" "queue_New n = Some q"
      "\<not> n < int (length pending) + callbackSlot (\<exists>y. f = Some y)" for n q q' e h f pending
    using that(1,3) tcp_initialCallbacks_length [of h f pending] initial_callbacks_fit [OF that(2), of "tcp_initialCallbacks h f pending"]
    by simp
  show ?thesis using assms
    by (auto simp: ws_NewClient_def Let_def split: option.splits sum.splits prod.splits if_splits dest: fit)
qed

text \<open>A second shutdown changes nothing; a closed client takes no request.\<close>

lemma ws_shutdown_once: "wl_closing c \<Longrightarrow> ws_shutdownWith env kick c = Some c"
  by (simp add: ws_shutdownWith_def)

lemma ws_closed_refuses:
  assumes "wch_closed c" "\<And>ctx. wle_ctxErr env ctx c = (c, None)"
  shows "ws_client_Request env (Some ctx) command (Inr body) c = Some (c, [], 0, Some (NetErr ErrNotConnected))"
  using assms by (simp add: ws_client_Request_def Let_def)

end
