(* ===== verification/Gate_Client.thy ===== *)
theory Gate_Client
  imports Endpoint Locate Protocol "HOL-Library.AList" "HOL-Library.Multiset"
begin

text \<open>
  The pool of gRPC connections to other gateways (\<open>internal/gateclient/client.go\<close>): one entry per host,
  counted while in use, evicted by a timer once idle. The runtime's timers are part of the state, each
  with the entry of its callback and the time it is due. The gRPC client is a parameter.
\<close>

section \<open>State\<close>

definition gc_idleTimeout :: duration where "gc_idleTimeout = 5 * 60 * 1000000000"

record rpc =
  rp_host :: string
  rp_conn :: nat
  rp_lastUsed :: time
  rp_idleTimer :: "nat option"
  rp_inflight :: int

text \<open>\<open>gc_byHost\<close> is \<open>None\<close> for the nil map left by \<open>Close\<close>; entries live in a heap.\<close>

record gate_client =
  gc_idle :: duration
  gc_tlsConfig :: "tls_config option"
  gc_cancelled :: bool
  gc_byHost :: "(string \<times> nat) list option"
  gc_evictions :: nat
  gc_heap :: "nat \<rightharpoonup> rpc"
  gc_timers :: "nat \<rightharpoonup> nat \<times> time"

record gc_state =
  st_gateways :: gate_client

definition gc_New :: "tls_config option \<Rightarrow> gate_client" where
  "gc_New tlsConfig =
     \<lparr>gc_idle = gc_idleTimeout, gc_tlsConfig = tls_Clone tlsConfig, gc_cancelled = False, gc_byHost = Some [], gc_evictions = 0,
      gc_heap = Map.empty, gc_timers = Map.empty\<rparr>"

text \<open>The entry of a host; reading the nil map finds nothing.\<close>

definition gc_lookup :: "string \<Rightarrow> gate_client \<Rightarrow> nat option" where
  "gc_lookup host c = (case gc_byHost c of None \<Rightarrow> None | Some m \<Rightarrow> map_of m host)"

definition timer_Stop :: "nat option \<Rightarrow> (nat \<rightharpoonup> nat \<times> time) \<Rightarrow> (nat \<rightharpoonup> nat \<times> time)" where
  "timer_Stop t timers = (case t of None \<Rightarrow> timers | Some i \<Rightarrow> timers(i := None))"

section \<open>The sections under the mutex\<close>

definition gc_cached :: "string \<Rightarrow> gate_client \<Rightarrow> gate_client \<times> (goerr + nat option)" where
  "gc_cached host c =
     (if gc_cancelled c \<or> gc_byHost c = None then (c, Inl (EndpointErr ErrGateUnavailable))
      else case gc_lookup host c of
        None \<Rightarrow> (c, Inr None)
      | Some a \<Rightarrow>
          (case gc_heap c a of
             None \<Rightarrow> (c, Inr None)
           | Some e \<Rightarrow>
               (c\<lparr>gc_heap := (gc_heap c)(a \<mapsto> e\<lparr>rp_inflight := rp_inflight e + 1, rp_idleTimer := None\<rparr>),
                  gc_timers := timer_Stop (rp_idleTimer e) (gc_timers c)\<rparr>, Inr (Some a))))"

text \<open>
  The section of \<open>connect\<close>, with the new connection, the clock, the address of the new entry and the
  name of its timer; the last result says whether the connection is closed again.
\<close>

definition connect_locked :: "string \<Rightarrow> nat \<Rightarrow> time \<Rightarrow> nat \<Rightarrow> nat \<Rightarrow> gate_client \<Rightarrow> gate_client \<times> goerr option \<times> bool" where
  "connect_locked host conn now a t c =
     (case gc_byHost c of
        None \<Rightarrow> (c, Some (EndpointErr ErrGateUnavailable), True)
      | Some m \<Rightarrow>
          if map_of m host \<noteq> None then (c, None, True)
          else (c\<lparr>gc_byHost := Some (AList.update host a m),
                  gc_heap := (gc_heap c)(a \<mapsto> \<lparr>rp_host = host, rp_conn = conn, rp_lastUsed = now, rp_idleTimer = Some t, rp_inflight = 0\<rparr>),
                  gc_timers := (gc_timers c)(t \<mapsto> (a, now + gc_idle c))\<rparr>, None, False))"

definition gc_release :: "nat \<Rightarrow> time \<Rightarrow> nat \<Rightarrow> gate_client \<Rightarrow> gate_client" where
  "gc_release a now t c =
     (case gc_heap c a of
        None \<Rightarrow> c
      | Some e \<Rightarrow>
          if gc_lookup (rp_host e) c \<noteq> Some a then c
          else let e = e\<lparr>rp_inflight := rp_inflight e - 1, rp_lastUsed := now\<rparr> in
            if rp_inflight e = 0
            then c\<lparr>gc_heap := (gc_heap c)(a \<mapsto> e\<lparr>rp_idleTimer := Some t\<rparr>), gc_timers := (gc_timers c)(t \<mapsto> (a, now + gc_idle c))\<rparr>
            else c\<lparr>gc_heap := (gc_heap c)(a \<mapsto> e)\<rparr>)"

text \<open>The connection to close, if the entry is evicted.\<close>

definition evict_locked :: "nat \<Rightarrow> time \<Rightarrow> gate_client \<Rightarrow> gate_client \<times> nat option" where
  "evict_locked a now c =
     (case (gc_byHost c, gc_heap c a) of
        (Some m, Some e) \<Rightarrow>
          if map_of m (rp_host e) \<noteq> Some a \<or> rp_inflight e > 0 \<or> now - rp_lastUsed e < gc_idle c then (c, None)
          else (c\<lparr>gc_byHost := Some (AList.delete (rp_host e) m), gc_heap := (gc_heap c)(a \<mapsto> e\<lparr>rp_idleTimer := None\<rparr>),
                  gc_evictions := gc_evictions c + 1\<rparr>, Some (rp_conn e))
      | _ \<Rightarrow> (c, None))"

definition evict_end :: "gate_client \<Rightarrow> gate_client" where
  "evict_end c = c\<lparr>gc_evictions := gc_evictions c - 1\<rparr>"

text \<open>\<open>Close\<close> up to the end of its section: \<open>None\<close> when the pool was closed before.\<close>

definition close_locked :: "gate_client \<Rightarrow> gate_client \<times> nat list option" where
  "close_locked c =
     (let c = c\<lparr>gc_cancelled := True\<rparr> in
      case gc_byHost c of
        None \<Rightarrow> (c, None)
      | Some m \<Rightarrow>
          let entries = List.map_filter (gc_heap c) (map snd m) in
          (c\<lparr>gc_byHost := None, gc_timers := fold (\<lambda>e. timer_Stop (rp_idleTimer e)) entries (gc_timers c)\<rparr>, Some (map rp_conn entries)))"

section \<open>The operations\<close>

text \<open>The outside of a call. The clock and the fresh addresses are readings of the state.\<close>

record 'w gc_env =
  ge_now :: "'w \<Rightarrow> time"
  ge_fresh :: "'w \<Rightarrow> nat"
  ge_timer :: "'w \<Rightarrow> nat"
  ge_url_parse :: "string \<Rightarrow> goerr + URL"
  ge_NewClient :: "string \<Rightarrow> tls_config option \<Rightarrow> 'w \<Rightarrow> 'w \<times> (goerr + nat)"
  ge_ConnClose :: "nat \<Rightarrow> 'w \<Rightarrow> 'w \<times> goerr option"
  ge_Push :: "nat \<Rightarrow> ctx \<Rightarrow> GateRoute \<Rightarrow> int \<Rightarrow> bytes \<Rightarrow> 'w \<Rightarrow> 'w \<times> goerr option"
  ge_Kick :: "nat \<Rightarrow> ctx \<Rightarrow> GateRoute \<Rightarrow> int \<Rightarrow> 'w \<Rightarrow> 'w \<times> goerr option"
  ge_evictionsWait :: "'w \<Rightarrow> 'w"

definition gc_connect ::
  "'a gc_state_scheme gc_env \<Rightarrow> string \<Rightarrow> 'a gc_state_scheme \<Rightarrow> 'a gc_state_scheme \<times> goerr option" where
  "gc_connect env host w =
     (case ge_NewClient env (''direct:///'' @ host) (tls_Clone (gc_tlsConfig (st_gateways w))) w of
        (w, Inl err) \<Rightarrow> (w, Some err)
      | (w, Inr conn) \<Rightarrow>
          (case connect_locked host conn (ge_now env w) (ge_fresh env w) (ge_timer env w) (st_gateways w) of
             (c, err, closes) \<Rightarrow>
               let w = w\<lparr>st_gateways := c\<rparr> in (if closes then fst (ge_ConnClose env conn w) else w, err)))"

text \<open>
  The select of a round of \<open>acquire\<close>: the caller's context ends, the pool's context ends, or the dial is
  done, which this caller ran or another one whose result it shares.
\<close>

datatype dial_first = CallerEnded goerr | PoolEnded | OwnDial | SharedDial "goerr option"

text \<open>
  The loop makes the given rounds; when it still has no entry after them, the caller's context has ended
  with the error \<open>ended\<close>.
\<close>

fun acquire_loop ::
  "'a gc_state_scheme gc_env \<Rightarrow> string \<Rightarrow> dial_first list \<Rightarrow> goerr \<Rightarrow> 'a gc_state_scheme \<Rightarrow> 'a gc_state_scheme \<times> (goerr + nat)" where
  "acquire_loop env host rounds ended w =
     (case gc_cached host (st_gateways w) of
        (c, Inl err) \<Rightarrow> (w\<lparr>st_gateways := c\<rparr>, Inl err)
      | (c, Inr (Some a)) \<Rightarrow> (w\<lparr>st_gateways := c\<rparr>, Inr a)
      | (c, Inr None) \<Rightarrow>
          (case rounds of
             [] \<Rightarrow> (w, Inl ended)
           | first # rounds \<Rightarrow>
               (case first of
                  CallerEnded err \<Rightarrow> (w, Inl err)
                | PoolEnded \<Rightarrow> (w, Inl (EndpointErr ErrGateUnavailable))
                | OwnDial \<Rightarrow>
                    (case gc_connect env host w of
                       (w, Some err) \<Rightarrow> (w, Inl err)
                     | (w, None) \<Rightarrow> acquire_loop env host rounds ended w)
                | SharedDial (Some err) \<Rightarrow> (w, Inl err)
                | SharedDial None \<Rightarrow> acquire_loop env host rounds ended w)))"

declare acquire_loop.simps [simp del]

definition gc_acquire ::
  "'a gc_state_scheme gc_env \<Rightarrow> string \<Rightarrow> dial_first list \<Rightarrow> goerr \<Rightarrow> 'a gc_state_scheme \<Rightarrow> 'a gc_state_scheme \<times> (goerr + nat)" where
  "gc_acquire env endpoint rounds ended w =
     (case endpoint_Host (ge_url_parse env) endpoint (gc_tlsConfig (st_gateways w) \<noteq> None) of
        Inl err \<Rightarrow> (w, Inl err)
      | Inr host \<Rightarrow> acquire_loop env host rounds ended w)"

text \<open>An acquired entry used by one call and released after it.\<close>

definition gc_with ::
  "'a gc_state_scheme gc_env \<Rightarrow> string \<Rightarrow> dial_first list \<Rightarrow> goerr \<Rightarrow>
   (nat \<Rightarrow> 'a gc_state_scheme \<Rightarrow> 'a gc_state_scheme \<times> goerr option) \<Rightarrow> 'a gc_state_scheme \<Rightarrow> 'a gc_state_scheme \<times> goerr option" where
  "gc_with env endpoint rounds ended call w =
     (case gc_acquire env endpoint rounds ended w of
        (w, Inl err) \<Rightarrow> (w, Some err)
      | (w, Inr a) \<Rightarrow>
          (case call (case gc_heap (st_gateways w) a of None \<Rightarrow> 0 | Some e \<Rightarrow> rp_conn e) w of
             (w, err) \<Rightarrow> (w\<lparr>st_gateways := gc_release a (ge_now env w) (ge_timer env w) (st_gateways w)\<rparr>, err)))"

text \<open>\<open>body\<close> is the result of marshalling the message.\<close>

definition gc_Push ::
  "'a gc_state_scheme gc_env \<Rightarrow> ctx \<Rightarrow> GateBinding \<Rightarrow> int \<Rightarrow> goerr + bytes \<Rightarrow> dial_first list \<Rightarrow> goerr \<Rightarrow> 'a gc_state_scheme \<Rightarrow>
   'a gc_state_scheme \<times> goerr option" where
  "gc_Push env ctx binding command body rounds ended w =
     (case body of
        Inl err \<Rightarrow> (w, Some err)
      | Inr b \<Rightarrow> gc_with env (GateEndpoint binding) rounds ended (\<lambda>conn. ge_Push env conn ctx (FromBinding binding) command b) w)"

definition gc_Kick ::
  "'a gc_state_scheme gc_env \<Rightarrow> ctx \<Rightarrow> GateBinding \<Rightarrow> int \<Rightarrow> dial_first list \<Rightarrow> goerr \<Rightarrow> 'a gc_state_scheme \<Rightarrow>
   'a gc_state_scheme \<times> goerr option" where
  "gc_Kick env ctx binding code rounds ended w =
     gc_with env (GateEndpoint binding) rounds ended (\<lambda>conn. ge_Kick env conn ctx (FromBinding binding) code) w"

fun close_all :: "'w gc_env \<Rightarrow> nat list \<Rightarrow> 'w \<Rightarrow> 'w \<times> goerr option list" where
  "close_all env [] w = (w, [])"
| "close_all env (conn # conns) w =
     (case ge_ConnClose env conn w of (w, err) \<Rightarrow> (case close_all env conns w of (w, errs) \<Rightarrow> (w, err # errs)))"

definition gc_Close :: "'a gc_state_scheme gc_env \<Rightarrow> 'a gc_state_scheme \<Rightarrow> 'a gc_state_scheme \<times> goerr option" where
  "gc_Close env w =
     (case close_locked (st_gateways w) of
        (c, None) \<Rightarrow> (w\<lparr>st_gateways := c\<rparr>, None)
      | (c, Some conns) \<Rightarrow>
          (case close_all env conns (w\<lparr>st_gateways := c\<rparr>) of (w, errs) \<Rightarrow> (ge_evictionsWait env w, errors_join errs)))"

definition gc_evict :: "'a gc_state_scheme gc_env \<Rightarrow> nat \<Rightarrow> 'a gc_state_scheme \<Rightarrow> 'a gc_state_scheme" where
  "gc_evict env a w =
     (case evict_locked a (ge_now env w) (st_gateways w) of
        (c, None) \<Rightarrow> w\<lparr>st_gateways := c\<rparr>
      | (c, Some conn) \<Rightarrow>
          let w = fst (ge_ConnClose env conn (w\<lparr>st_gateways := c\<rparr>)) in w\<lparr>st_gateways := evict_end (st_gateways w)\<rparr>)"

section \<open>Concurrent use of the pool\<close>

text \<open>
  The pool with its callers: the clock, the entries callers hold, the eviction callbacks that have started
  and the connections that were closed. Every step is one section under the mutex, a timer that fires, time
  that passes, or the cancellation that \<open>Close\<close> makes before it takes the mutex.
\<close>

record pool_world =
  pw_c :: gate_client
  pw_now :: time
  pw_users :: "nat multiset"
  pw_firing :: "nat multiset"
  pw_closed :: "nat set"

definition fresh_timer :: "nat \<Rightarrow> gate_client \<Rightarrow> bool" where
  "fresh_timer t c \<longleftrightarrow> gc_timers c t = None \<and> (\<forall>a e. gc_heap c a = Some e \<longrightarrow> rp_idleTimer e \<noteq> Some t)"

inductive pstep :: "pool_world \<Rightarrow> pool_world \<Rightarrow> bool" where
  pool_pass: "0 \<le> d \<Longrightarrow> pstep w (w\<lparr>pw_now := pw_now w + d\<rparr>)"
| pool_acquire: "gc_cached host (pw_c w) = (c, Inr (Some a)) \<Longrightarrow> pstep w (w\<lparr>pw_c := c, pw_users := add_mset a (pw_users w)\<rparr>)"
| pool_connect: "gc_heap (pw_c w) a = None \<Longrightarrow> fresh_timer t (pw_c w) \<Longrightarrow> conn \<notin> pw_closed w \<Longrightarrow>
    (\<forall>b e. gc_heap (pw_c w) b = Some e \<longrightarrow> rp_conn e \<noteq> conn) \<Longrightarrow>
    connect_locked host conn (pw_now w) a t (pw_c w) = (c, err, closes) \<Longrightarrow>
    pstep w (w\<lparr>pw_c := c, pw_closed := (if closes then insert conn (pw_closed w) else pw_closed w)\<rparr>)"
| pool_release: "a \<in># pw_users w \<Longrightarrow> fresh_timer t (pw_c w) \<Longrightarrow>
    pstep w (w\<lparr>pw_c := gc_release a (pw_now w) t (pw_c w), pw_users := pw_users w - {#a#}\<rparr>)"
| pool_fire: "gc_timers (pw_c w) t = Some (a, due) \<Longrightarrow> due \<le> pw_now w \<Longrightarrow>
    pstep w (w\<lparr>pw_c := (pw_c w)\<lparr>gc_timers := (gc_timers (pw_c w))(t := None)\<rparr>, pw_firing := add_mset a (pw_firing w)\<rparr>)"
| pool_evict: "a \<in># pw_firing w \<Longrightarrow> evict_locked a (pw_now w) (pw_c w) = (c, closed) \<Longrightarrow>
    pstep w (w\<lparr>pw_c := c, pw_firing := pw_firing w - {#a#}, pw_closed := set_option closed \<union> pw_closed w\<rparr>)"
| pool_cancel: "pstep w (w\<lparr>pw_c := (pw_c w)\<lparr>gc_cancelled := True\<rparr>\<rparr>)"
| pool_close: "close_locked (pw_c w) = (c, conns) \<Longrightarrow>
    pstep w (w\<lparr>pw_c := c, pw_closed := (case conns of None \<Rightarrow> {} | Some cs \<Rightarrow> set cs) \<union> pw_closed w\<rparr>)"

definition pool_start :: "tls_config option \<Rightarrow> time \<Rightarrow> pool_world" where
  "pool_start tls now = \<lparr>pw_c = gc_New tls, pw_now = now, pw_users = {#}, pw_firing = {#}, pw_closed = {}\<rparr>"

text \<open>An idle entry is watched: its timer is armed for the end of the idle time, or its eviction is due.\<close>

definition watched :: "pool_world \<Rightarrow> nat \<Rightarrow> rpc \<Rightarrow> bool" where
  "watched w a e \<longleftrightarrow>
     (\<exists>t. rp_idleTimer e = Some t \<and> gc_timers (pw_c w) t = Some (a, rp_lastUsed e + gc_idle (pw_c w))) \<or>
     (a \<in># pw_firing w \<and> rp_lastUsed e + gc_idle (pw_c w) \<le> pw_now w)"

definition entry_ok :: "pool_world \<Rightarrow> string \<Rightarrow> nat \<Rightarrow> bool" where
  "entry_ok w host a \<longleftrightarrow> (\<exists>e. gc_heap (pw_c w) a = Some e \<and> rp_host e = host \<and> rp_conn e \<notin> pw_closed w \<and>
     rp_inflight e = int (count (pw_users w) a) \<and> (count (pw_users w) a = 0 \<longrightarrow> watched w a e))"

definition pool_ok :: "pool_world \<Rightarrow> bool" where
  "pool_ok w \<longleftrightarrow> (case gc_byHost (pw_c w) of None \<Rightarrow> True | Some m \<Rightarrow>
     distinct (map fst m) \<and>
     (\<forall>host a. map_of m host = Some a \<longrightarrow> entry_ok w host a) \<and>
     (\<forall>a\<in>#pw_users w. \<exists>host. map_of m host = Some a) \<and>
     (\<forall>a b e f. gc_heap (pw_c w) a = Some e \<longrightarrow> gc_heap (pw_c w) b = Some f \<longrightarrow> rp_conn e = rp_conn f \<longrightarrow> a = b) \<and>
     (\<forall>a e t b due. gc_heap (pw_c w) a = Some e \<longrightarrow> rp_idleTimer e = Some t \<longrightarrow> gc_timers (pw_c w) t = Some (b, due) \<longrightarrow> b = a))"

lemma pool_okD:
  assumes "pool_ok w" "gc_byHost (pw_c w) = Some m"
  shows "distinct (map fst m)" "map_of m host = Some a \<Longrightarrow> entry_ok w host a" "a \<in># pw_users w \<Longrightarrow> \<exists>host. map_of m host = Some a"
    "gc_heap (pw_c w) a = Some e \<Longrightarrow> gc_heap (pw_c w) b = Some f \<Longrightarrow> rp_conn e = rp_conn f \<Longrightarrow> a = b"
    "gc_heap (pw_c w) a = Some e \<Longrightarrow> rp_idleTimer e = Some t \<Longrightarrow> gc_timers (pw_c w) t = Some (b, due) \<Longrightarrow> b = a"
  using assms unfolding pool_ok_def by auto

lemma pool_okI:
  assumes "\<And>m. gc_byHost (pw_c w) = Some m \<Longrightarrow> distinct (map fst m)"
    "\<And>m host a. gc_byHost (pw_c w) = Some m \<Longrightarrow> map_of m host = Some a \<Longrightarrow> entry_ok w host a"
    "\<And>m a. gc_byHost (pw_c w) = Some m \<Longrightarrow> a \<in># pw_users w \<Longrightarrow> \<exists>host. map_of m host = Some a"
    "\<And>a b e f. gc_byHost (pw_c w) \<noteq> None \<Longrightarrow> gc_heap (pw_c w) a = Some e \<Longrightarrow> gc_heap (pw_c w) b = Some f \<Longrightarrow> rp_conn e = rp_conn f \<Longrightarrow> a = b"
    "\<And>a e t b due. gc_byHost (pw_c w) \<noteq> None \<Longrightarrow> gc_heap (pw_c w) a = Some e \<Longrightarrow> rp_idleTimer e = Some t \<Longrightarrow>
       gc_timers (pw_c w) t = Some (b, due) \<Longrightarrow> b = a"
  shows "pool_ok w"
  using assms unfolding pool_ok_def by (auto split: option.split)

lemma entry_ok_unique:
  "entry_ok w h a \<Longrightarrow> entry_ok w k a \<Longrightarrow> h = k"
  by (auto simp: entry_ok_def)

lemma pool_start_ok: "pool_ok (pool_start tls now)"
  by (simp add: pool_ok_def pool_start_def gc_New_def)

lemma pool_pass_ok: "pool_ok w \<Longrightarrow> 0 \<le> d \<Longrightarrow> pool_ok (w\<lparr>pw_now := pw_now w + d\<rparr>)"
proof (rule pool_okI, goal_cases)
  case (2 m host a)
  then have "entry_ok w host a" using pool_okD(2) [of w m] by simp
  then show ?case using 2(2) by (force simp: entry_ok_def watched_def)
qed (auto dest: pool_okD)

lemma gc_cached_Some:
  assumes "gc_cached host c = (c', Inr (Some a))"
  obtains m e where "gc_byHost c = Some m" "map_of m host = Some a" "gc_heap c a = Some e"
    "c' = c\<lparr>gc_heap := (gc_heap c)(a \<mapsto> e\<lparr>rp_inflight := rp_inflight e + 1, rp_idleTimer := None\<rparr>),
            gc_timers := timer_Stop (rp_idleTimer e) (gc_timers c)\<rparr>"
  using assms that by (auto simp: gc_cached_def gc_lookup_def split: if_splits option.splits)

lemma timer_Stop_other: "timer_Stop x timers t = Some v \<Longrightarrow> timers t = Some v"
  by (auto simp: timer_Stop_def split: option.splits if_splits)

lemma timer_Stop_kept: "timers t = Some v \<Longrightarrow> x \<noteq> Some t \<Longrightarrow> timer_Stop x timers t = Some v"
  by (auto simp: timer_Stop_def split: option.splits)

lemma pool_acquire_ok:
  assumes ok: "pool_ok w" and "gc_cached host (pw_c w) = (c, Inr (Some a))"
  shows "pool_ok (w\<lparr>pw_c := c, pw_users := add_mset a (pw_users w)\<rparr>)"
proof -
  from gc_cached_Some [OF assms(2)] obtain m e where m: "gc_byHost (pw_c w) = Some m" "map_of m host = Some a"
    and e: "gc_heap (pw_c w) a = Some e"
    and c: "c = (pw_c w)\<lparr>gc_heap := (gc_heap (pw_c w))(a \<mapsto> e\<lparr>rp_inflight := rp_inflight e + 1, rp_idleTimer := None\<rparr>),
            gc_timers := timer_Stop (rp_idleTimer e) (gc_timers (pw_c w))\<rparr>" by metis
  note D = pool_okD [OF ok m(1)]
  show ?thesis
  proof (rule pool_okI, goal_cases)
    case (1 m') then show ?case using D(1) m(1) by (simp add: c)
  next
    case (2 m' h b)
    then have b: "map_of m h = Some b" using m(1) by (simp add: c)
    from D(2) [OF b] obtain f where f: "gc_heap (pw_c w) b = Some f" "rp_host f = h" "rp_conn f \<notin> pw_closed w"
      "rp_inflight f = int (count (pw_users w) b)" "count (pw_users w) b = 0 \<longrightarrow> watched w b f" by (auto simp: entry_ok_def)
    show ?case
    proof (cases "b = a")
      case True then show ?thesis using f e by (simp add: c entry_ok_def)
    next
      case False
      have "watched (w\<lparr>pw_c := c, pw_users := add_mset a (pw_users w)\<rparr>) b f" if "watched w b f"
        using that D(5) [OF e] False by (auto simp: watched_def c intro!: timer_Stop_kept)
      then show ?thesis using f False by (simp add: entry_ok_def c)
    qed
  next
    case (3 m' b) then show ?case using D(3) m by (auto simp: c)
  next
    case (4 b1 b2 f1 f2) then show ?case using D(4) e by (auto simp: c split: if_splits)
  next
    case (5 b f t x due) then show ?case using D(5) e by (auto simp: c split: if_splits dest!: timer_Stop_other)
  qed
qed

lemma watched_mono:
  assumes "watched w b f" "gc_idle (pw_c w') = gc_idle (pw_c w)" "pw_firing w \<subseteq># pw_firing w'" "pw_now w \<le> pw_now w'"
    "\<And>t v. rp_idleTimer f = Some t \<Longrightarrow> gc_timers (pw_c w) t = Some v \<Longrightarrow> gc_timers (pw_c w') t = Some v"
  shows "watched w' b f"
proof -
  have "b \<in># pw_firing w \<Longrightarrow> b \<in># pw_firing w'" using assms(3) by (rule mset_subset_eqD)
  then show ?thesis using assms(1,2,4,5) unfolding watched_def by (metis order.trans)
qed

lemma pool_closed_ok: "gc_byHost (pw_c w) = None \<Longrightarrow> pool_ok w"
  by (simp add: pool_ok_def)

lemma connect_locked_new:
  assumes "connect_locked host conn now a t c = (c', err, closes)" "gc_byHost c = Some m"
  shows "(closes \<and> c' = c) \<or> (\<not> closes \<and> map_of m host = None \<and>
    c' = c\<lparr>gc_byHost := Some (AList.update host a m),
           gc_heap := (gc_heap c)(a \<mapsto> \<lparr>rp_host = host, rp_conn = conn, rp_lastUsed = now, rp_idleTimer = Some t, rp_inflight = 0\<rparr>),
           gc_timers := (gc_timers c)(t \<mapsto> (a, now + gc_idle c))\<rparr>)"
  using assms by (auto simp: connect_locked_def split: if_splits)

lemma entry_ok_closes:
  "entry_ok w h b \<Longrightarrow> (\<And>e. gc_heap (pw_c w) b = Some e \<Longrightarrow> rp_conn e \<notin> S) \<Longrightarrow> entry_ok (w\<lparr>pw_closed := S \<union> pw_closed w\<rparr>) h b"
  by (auto simp: entry_ok_def watched_def)

lemma pool_connect_ok:
  assumes ok: "pool_ok w" and a: "gc_heap (pw_c w) a = None" and t: "fresh_timer t (pw_c w)"
    and conn: "conn \<notin> pw_closed w" "\<forall>b e. gc_heap (pw_c w) b = Some e \<longrightarrow> rp_conn e \<noteq> conn"
    and r: "connect_locked host conn (pw_now w) a t (pw_c w) = (c, err, closes)"
  shows "pool_ok (w\<lparr>pw_c := c, pw_closed := (if closes then insert conn (pw_closed w) else pw_closed w)\<rparr>)" (is "pool_ok ?w")
proof (cases "gc_byHost (pw_c w)")
  case None then show ?thesis using r by (intro pool_closed_ok) (auto simp: connect_locked_def)
next
  case (Some m)
  note D = pool_okD [OF ok Some]
  from connect_locked_new [OF r Some] show ?thesis
  proof (elim disjE conjE)
    assume same: closes "c = pw_c w"
    have "entry_ok (w\<lparr>pw_closed := {conn} \<union> pw_closed w\<rparr>) h b" if "map_of m h = Some b" for h b
      using entry_ok_closes [OF D(2) [OF that], of "{conn}"] conn(2) by auto
    then show ?thesis using same D Some by (intro pool_okI) auto
  next
    assume new: "\<not> closes" "map_of m host = None" and c: "c = (pw_c w)\<lparr>gc_byHost := Some (AList.update host a m),
           gc_heap := (gc_heap (pw_c w))(a \<mapsto> \<lparr>rp_host = host, rp_conn = conn, rp_lastUsed = pw_now w, rp_idleTimer = Some t, rp_inflight = 0\<rparr>),
           gc_timers := (gc_timers (pw_c w))(t \<mapsto> (a, pw_now w + gc_idle (pw_c w)))\<rparr>"
    have unused: "map_of m h \<noteq> Some a" for h using D(2) [of h a] a by (auto simp: entry_ok_def)
    then have none: "count (pw_users w) a = 0" using D(3) [of a] by (meson count_eq_zero_iff)
    have tm: "gc_timers (pw_c w) t = None" "\<And>b e. gc_heap (pw_c w) b = Some e \<Longrightarrow> rp_idleTimer e \<noteq> Some t"
      using t by (auto simp: fresh_timer_def)
    have kept: "entry_ok ?w h b" if b: "map_of m h = Some b" for h b
    proof -
      from D(2) [OF b] obtain f where f: "gc_heap (pw_c w) b = Some f" "rp_host f = h" "rp_conn f \<notin> pw_closed w"
        "rp_inflight f = int (count (pw_users w) b)" "count (pw_users w) b = 0 \<longrightarrow> watched w b f" by (auto simp: entry_ok_def)
      have "watched ?w b f" if "watched w b f" using that tm f(1) by (elim watched_mono) (auto simp: c)
      moreover have "b \<noteq> a" using unused b by auto
      ultimately show ?thesis using f new(1) by (simp add: entry_ok_def c)
    qed
    show ?thesis
    proof (rule pool_okI, goal_cases)
      case (1 m') then show ?case using D(1) by (auto simp: c distinct_update)
    next
      case (2 m' h b)
      then have "map_of (AList.update host a m) h = Some b" by (simp add: c)
      then show ?case using kept [of h b] none conn(1) new(1)
        by (cases "h = host") (auto simp: update_conv entry_ok_def watched_def c)
    next
      case (3 m' b)
      then obtain h where "map_of m h = Some b" using D(3) by auto
      then show ?case using 3 new(2) by (intro exI [of _ h]) (auto simp: c update_conv)
    next
      case (4 b1 b2 f1 f2)
      have "(b1 = a \<and> rp_conn f1 = conn) \<or> (b1 \<noteq> a \<and> gc_heap (pw_c w) b1 = Some f1)" using 4(2) by (auto simp: c split: if_splits)
      moreover have "(b2 = a \<and> rp_conn f2 = conn) \<or> (b2 \<noteq> a \<and> gc_heap (pw_c w) b2 = Some f2)" using 4(3) by (auto simp: c split: if_splits)
      ultimately show ?case using D(4) conn(2) 4(4) by metis
    next
      case (5 b f x y due) then show ?case using D(5) tm by (auto simp: c split: if_splits)
    qed
  qed
qed

lemma pool_release_ok:
  assumes ok: "pool_ok w" and a: "a \<in># pw_users w" and t: "fresh_timer t (pw_c w)"
  shows "pool_ok (w\<lparr>pw_c := gc_release a (pw_now w) t (pw_c w), pw_users := pw_users w - {#a#}\<rparr>)" (is "pool_ok ?w")
proof (cases "gc_byHost (pw_c w)")
  case None
  then have "gc_byHost (gc_release a (pw_now w) t (pw_c w)) = None"
    by (simp add: gc_release_def gc_lookup_def Let_def split: option.split)
  then show ?thesis by (simp add: pool_closed_ok)
next
  case (Some m)
  note D = pool_okD [OF ok Some]
  obtain host where host: "map_of m host = Some a" using D(3) [OF a] by blast
  from D(2) [OF this] obtain e where e: "gc_heap (pw_c w) a = Some e" "rp_host e = host" "rp_conn e \<notin> pw_closed w"
    "rp_inflight e = int (count (pw_users w) a)" by (auto simp: entry_ok_def)
  have tm: "gc_timers (pw_c w) t = None" "\<And>b e. gc_heap (pw_c w) b = Some e \<Longrightarrow> rp_idleTimer e \<noteq> Some t"
    using t by (auto simp: fresh_timer_def)
  have pos: "count (pw_users w) a > 0" using a by simp
  define c where "c = gc_release a (pw_now w) t (pw_c w)"
  have c: "gc_byHost c = Some m" "gc_idle c = gc_idle (pw_c w)"
    "gc_heap c = (gc_heap (pw_c w))(a \<mapsto> e\<lparr>rp_inflight := rp_inflight e - 1, rp_lastUsed := pw_now w,
        rp_idleTimer := (if rp_inflight e = 1 then Some t else rp_idleTimer e)\<rparr>)"
    "gc_timers c = (if rp_inflight e = 1 then (gc_timers (pw_c w))(t \<mapsto> (a, pw_now w + gc_idle (pw_c w))) else gc_timers (pw_c w))"
    using e(1,2) host Some by (simp_all add: c_def gc_release_def gc_lookup_def Let_def)
  have other: "entry_ok ?w h b" if b: "map_of m h = Some b" "b \<noteq> a" for h b
  proof -
    from D(2) [OF b(1)] obtain f where f: "gc_heap (pw_c w) b = Some f" "rp_host f = h" "rp_conn f \<notin> pw_closed w"
      "rp_inflight f = int (count (pw_users w) b)" "count (pw_users w) b = 0 \<longrightarrow> watched w b f" by (auto simp: entry_ok_def)
    have "watched ?w b f" if "watched w b f" using that tm f(1) by (elim watched_mono) (auto simp: c c_def [symmetric])
    then show ?thesis using f b(2) by (simp add: entry_ok_def c c_def [symmetric])
  qed
  have own: "entry_ok ?w host a"
  proof (cases "count (pw_users w) a = 1")
    case True then show ?thesis using e by (simp add: entry_ok_def watched_def c c_def [symmetric])
  next
    case False
    then have "rp_inflight e \<noteq> 1" "count (pw_users w - {#a#}) a \<noteq> 0" "int (count (pw_users w) a) - 1 = int (count (pw_users w) a - 1)"
      using e(4) pos by (simp_all, linarith+)
    then show ?thesis using e by (simp add: entry_ok_def c c_def [symmetric])
  qed
  have "entry_ok ?w h b" if "map_of m h = Some b" for h b
    using other [OF that] own that D(2) [OF that] D(2) [OF host] entry_ok_unique by (cases "b = a") blast+
  then show ?thesis
  proof (intro pool_okI, goal_cases)
    case (3 m' b) then show ?case using D(3) [of b] c(1) by (auto simp: c_def dest: in_diffD)
  next
    case (4 b1 b2 f1 f2) then show ?case using D(4) e by (auto simp: c c_def [symmetric] split: if_splits)
  next
    case (5 b f x y due) then show ?case using D(5) tm e by (auto simp: c c_def [symmetric] split: if_splits)
  qed (use D(1) c(1) in \<open>auto simp: c_def\<close>)
qed

lemma pool_fire_ok:
  assumes ok: "pool_ok w" and t: "gc_timers (pw_c w) t = Some (a, due)" "due \<le> pw_now w"
  shows "pool_ok (w\<lparr>pw_c := (pw_c w)\<lparr>gc_timers := (gc_timers (pw_c w))(t := None)\<rparr>, pw_firing := add_mset a (pw_firing w)\<rparr>)" (is "pool_ok ?w")
proof (cases "gc_byHost (pw_c w)")
  case None then show ?thesis by (simp add: pool_closed_ok)
next
  case (Some m)
  note D = pool_okD [OF ok Some]
  have "entry_ok ?w h b" if "map_of m h = Some b" for h b
    using D(2) [OF that] t by (force simp: entry_ok_def watched_def)
  then show ?thesis using D Some by (intro pool_okI) (auto split: if_splits)
qed

lemma evict_locked_cases:
  assumes "evict_locked a now c = (c', r)" "gc_byHost c = Some m"
  shows "(c' = c \<and> r = None \<and> (\<forall>e. gc_heap c a = Some e \<longrightarrow>
            map_of m (rp_host e) \<noteq> Some a \<or> rp_inflight e > 0 \<or> now < rp_lastUsed e + gc_idle c)) \<or>
    (\<exists>e. gc_heap c a = Some e \<and> map_of m (rp_host e) = Some a \<and> rp_inflight e \<le> 0 \<and> r = Some (rp_conn e) \<and>
       c' = c\<lparr>gc_byHost := Some (AList.delete (rp_host e) m), gc_heap := (gc_heap c)(a \<mapsto> e\<lparr>rp_idleTimer := None\<rparr>),
              gc_evictions := gc_evictions c + 1\<rparr>)"
  using assms by (auto simp: evict_locked_def split: if_splits option.splits)

lemma pool_evict_none:
  assumes ok: "pool_ok w" "gc_byHost (pw_c w) = Some m"
    and keep: "\<And>e. gc_heap (pw_c w) a = Some e \<Longrightarrow> map_of m (rp_host e) \<noteq> Some a \<or> rp_inflight e > 0 \<or> pw_now w < rp_lastUsed e + gc_idle (pw_c w)"
  shows "pool_ok (w\<lparr>pw_firing := pw_firing w - {#a#}\<rparr>)" (is "pool_ok ?w")
proof -
  note D = pool_okD [OF ok]
  have "entry_ok ?w h b" if b: "map_of m h = Some b" for h b
  proof -
    from D(2) [OF b] obtain f where f: "gc_heap (pw_c w) b = Some f" "rp_host f = h" "rp_conn f \<notin> pw_closed w"
      "rp_inflight f = int (count (pw_users w) b)" "count (pw_users w) b = 0 \<longrightarrow> watched w b f" by (auto simp: entry_ok_def)
    have "watched ?w b f" if "count (pw_users w) b = 0"
    proof (cases "b = a")
      case True
      then have "pw_now w < rp_lastUsed f + gc_idle (pw_c w)" using keep f(1,2,4) b that by auto
      then show ?thesis using f(5) that by (simp add: watched_def)
    next
      case False then show ?thesis using f(5) that by (simp add: watched_def in_diff_count count_greater_zero_iff [symmetric] del: count_greater_zero_iff)
    qed
    then show ?thesis using f by (simp add: entry_ok_def)
  qed
  then show ?thesis using D ok(2) by (intro pool_okI) auto
qed

lemma pool_evict_some:
  assumes ok: "pool_ok w" "gc_byHost (pw_c w) = Some m" and e: "gc_heap (pw_c w) a = Some e" "map_of m (rp_host e) = Some a" "rp_inflight e \<le> 0"
    and c: "c = (pw_c w)\<lparr>gc_byHost := Some (AList.delete (rp_host e) m), gc_heap := (gc_heap (pw_c w))(a \<mapsto> e\<lparr>rp_idleTimer := None\<rparr>),
              gc_evictions := gc_evictions (pw_c w) + 1\<rparr>"
  shows "pool_ok (w\<lparr>pw_c := c, pw_firing := pw_firing w - {#a#}, pw_closed := {rp_conn e} \<union> pw_closed w\<rparr>)" (is "pool_ok ?w")
proof -
  note D = pool_okD [OF ok]
  have idle: "count (pw_users w) a = 0" using D(2) [OF e(2)] e(1,3) by (auto simp: entry_ok_def)
  have keys: "map_of (AList.delete (rp_host e) m) h = (if h = rp_host e then None else map_of m h)" for h
    by (simp add: delete_conv')
  have other: "b \<noteq> a" if "map_of m h = Some b" "h \<noteq> rp_host e" for h b
    using D(2) [OF that(1)] that(2) e(1) by (auto simp: entry_ok_def)
  have kept: "entry_ok ?w h b" if b: "map_of m h = Some b" "h \<noteq> rp_host e" for h b
  proof -
    from D(2) [OF b(1)] obtain f where f: "gc_heap (pw_c w) b = Some f" "rp_host f = h" "rp_conn f \<notin> pw_closed w"
      "rp_inflight f = int (count (pw_users w) b)" "count (pw_users w) b = 0 \<longrightarrow> watched w b f" by (auto simp: entry_ok_def)
    have "rp_conn f \<noteq> rp_conn e" using D(4) [OF f(1) e(1)] other [OF b] by blast
    moreover have "watched ?w b f" if "watched w b f" using that other [OF b]
      by (auto simp: watched_def c in_diff_count count_greater_zero_iff [symmetric] simp del: count_greater_zero_iff)
    ultimately show ?thesis using f other [OF b] by (simp add: entry_ok_def c)
  qed
  show ?thesis
  proof (rule pool_okI, goal_cases)
    case (1 m') then show ?case using D(1) by (auto simp: c distinct_delete)
  next
    case (2 m' h b) then show ?case using kept keys by (auto simp: c split: if_splits)
  next
    case (3 m' b)
    then have "b \<in># pw_users w" "b \<noteq> a" using idle by (auto simp: count_eq_zero_iff)
    then obtain h where "map_of m h = Some b" "h \<noteq> rp_host e" using D(3) e(2) by fastforce
    then show ?case using 3 keys by (intro exI [of _ h]) (auto simp: c)
  next
    case (4 b1 b2 f1 f2)
    have "\<exists>g. gc_heap (pw_c w) b = Some g \<and> rp_conn g = rp_conn f" if "gc_heap c b = Some f" for b f
      using that e(1) by (auto simp: c split: if_splits)
    then show ?case using D(4) 4 by (simp, metis)
  next
    case (5 b f t x due) then show ?case using D(5) by (auto simp: c split: if_splits)
  qed
qed

lemma pool_evict_ok:
  assumes ok: "pool_ok w" and r: "evict_locked a (pw_now w) (pw_c w) = (c, closed)"
  shows "pool_ok (w\<lparr>pw_c := c, pw_firing := pw_firing w - {#a#}, pw_closed := set_option closed \<union> pw_closed w\<rparr>)"
proof (cases "gc_byHost (pw_c w)")
  case None then show ?thesis using r by (intro pool_closed_ok) (auto simp: evict_locked_def)
next
  case (Some m)
  from evict_locked_cases [OF r Some] show ?thesis
  proof
    assume none: "c = pw_c w \<and> closed = None \<and> (\<forall>e. gc_heap (pw_c w) a = Some e \<longrightarrow>
      map_of m (rp_host e) \<noteq> Some a \<or> rp_inflight e > 0 \<or> pw_now w < rp_lastUsed e + gc_idle (pw_c w))"
    then show ?thesis using pool_evict_none [OF ok Some, of a] by simp
  next
    assume "\<exists>e. gc_heap (pw_c w) a = Some e \<and> map_of m (rp_host e) = Some a \<and> rp_inflight e \<le> 0 \<and> closed = Some (rp_conn e) \<and>
       c = (pw_c w)\<lparr>gc_byHost := Some (AList.delete (rp_host e) m), gc_heap := (gc_heap (pw_c w))(a \<mapsto> e\<lparr>rp_idleTimer := None\<rparr>),
              gc_evictions := gc_evictions (pw_c w) + 1\<rparr>"
    then show ?thesis using pool_evict_some [OF ok Some] by auto
  qed
qed

lemma pool_cancel_ok:
  assumes "pool_ok w"
  shows "pool_ok (w\<lparr>pw_c := (pw_c w)\<lparr>gc_cancelled := True\<rparr>\<rparr>)"
proof -
  have "entry_ok (w\<lparr>pw_c := (pw_c w)\<lparr>gc_cancelled := True\<rparr>\<rparr>) = entry_ok w"
    by (simp add: entry_ok_def watched_def fun_eq_iff)
  then show ?thesis using assms by (simp add: pool_ok_def cong: option.case_cong)
qed

lemma pstep_ok: "pstep w w' \<Longrightarrow> pool_ok w \<Longrightarrow> pool_ok w'"
proof (induction rule: pstep.induct)
  case (pool_close w c conns)
  then have "gc_byHost c = None" by (auto simp: close_locked_def Let_def split: option.splits)
  then show ?case by (simp add: pool_closed_ok)
qed (simp_all add: pool_pass_ok pool_acquire_ok pool_connect_ok pool_release_ok pool_fire_ok pool_evict_ok pool_cancel_ok del: fun_upd_apply)

lemma pstep_reach_ok: "pstep\<^sup>*\<^sup>* w w' \<Longrightarrow> pool_ok w \<Longrightarrow> pool_ok w'"
  by (induction rule: rtranclp_induct) (auto intro: pstep_ok)

text \<open>
  C31. The connection pool is safe and does not leak, whatever the order of dials, calls, releases, timers
  and evictions. As long as the pool is open, every entry a caller holds is in the table and its
  connection has not been closed; the counter of an entry is the number of its callers; an entry nobody
  uses has a timer armed for the end of its idle time or an eviction that is due; and an eviction that
  finds the idle time over removes the entry and closes its connection.
\<close>

theorem pool_in_use_stays_open:
  assumes "pstep\<^sup>*\<^sup>* (pool_start tls start) w" "gc_byHost (pw_c w) = Some m"
  shows "(\<forall>a\<in>#pw_users w. \<exists>e. gc_heap (pw_c w) a = Some e \<and> map_of m (rp_host e) = Some a \<and> rp_conn e \<notin> pw_closed w) \<and>
    (\<forall>host a. map_of m host = Some a \<longrightarrow>
       (\<exists>e. gc_heap (pw_c w) a = Some e \<and> rp_inflight e = int (count (pw_users w) a) \<and>
          (count (pw_users w) a = 0 \<longrightarrow> watched w a e \<and>
             (rp_lastUsed e + gc_idle (pw_c w) \<le> pw_now w \<longrightarrow> snd (evict_locked a (pw_now w) (pw_c w)) = Some (rp_conn e)))))"
proof -
  note D = pool_okD [OF pstep_reach_ok [OF assms(1) pool_start_ok] assms(2)]
  have held: "\<exists>e. gc_heap (pw_c w) a = Some e \<and> map_of m (rp_host e) = Some a \<and> rp_conn e \<notin> pw_closed w" if a: "a \<in># pw_users w" for a
  proof -
    obtain host where host: "map_of m host = Some a" using D(3) [OF a] by blast
    from D(2) [OF this] host show ?thesis by (auto simp: entry_ok_def)
  qed
  have idle: "\<exists>e. gc_heap (pw_c w) a = Some e \<and> rp_inflight e = int (count (pw_users w) a) \<and>
      (count (pw_users w) a = 0 \<longrightarrow> watched w a e \<and>
         (rp_lastUsed e + gc_idle (pw_c w) \<le> pw_now w \<longrightarrow> snd (evict_locked a (pw_now w) (pw_c w)) = Some (rp_conn e)))"
    if a: "map_of m host = Some a" for host a
    using D(2) [OF a] a assms(2) by (auto simp: entry_ok_def evict_locked_def)
  show ?thesis using held idle by blast
qed

text \<open>A dial of one host and a caller that acquires its entry.\<close>

definition pool_demo :: pool_world where
  "pool_demo = (pool_start None 0)\<lparr>pw_users := {#1#}, pw_c := (gc_New None)\<lparr>gc_byHost := Some [(''h:1'', 1)],
     gc_heap := [1 \<mapsto> \<lparr>rp_host = ''h:1'', rp_conn = 7, rp_lastUsed = 0, rp_idleTimer = None, rp_inflight = 1\<rparr>]\<rparr>\<rparr>"

lemma pool_demo_reach: "pstep\<^sup>*\<^sup>* (pool_start None 0) pool_demo"
proof -
  let ?w = "(pool_start None 0)\<lparr>pw_c := (gc_New None)\<lparr>gc_byHost := Some [(''h:1'', 1)],
     gc_heap := [1 \<mapsto> \<lparr>rp_host = ''h:1'', rp_conn = 7, rp_lastUsed = 0, rp_idleTimer = Some 3, rp_inflight = 0\<rparr>],
     gc_timers := [3 \<mapsto> (1, gc_idleTimeout)]\<rparr>\<rparr>"
  have "pstep (pool_start None 0) ?w"
    using pool_connect [of "pool_start None 0" 1 3 7 "''h:1''" "pw_c ?w" None False]
    by (simp add: pool_start_def gc_New_def fresh_timer_def connect_locked_def)
  moreover have "pstep ?w pool_demo"
    using pool_acquire [of "''h:1''" ?w "pw_c pool_demo" 1]
    by (simp add: pool_start_def gc_New_def gc_cached_def gc_lookup_def timer_Stop_def pool_demo_def)
  ultimately show ?thesis by auto
qed

theorem pool_in_use_stays_open_witness:
  "pstep\<^sup>*\<^sup>* (pool_start None 0) pool_demo \<and>
   (\<exists>e. gc_heap (pw_c pool_demo) 1 = Some e \<and> rp_inflight e = 1 \<and> rp_conn e \<notin> pw_closed pool_demo)"
  using pool_in_use_stays_open [OF pool_demo_reach, of "[(''h:1'', 1)]"] pool_demo_reach
  by (simp add: pool_demo_def)

text \<open>An environment in which every call succeeds and changes nothing.\<close>

definition gc_demo_env :: "'w gc_env" where
  "gc_demo_env = \<lparr>ge_now = (\<lambda>w. 0), ge_fresh = (\<lambda>w. 0), ge_timer = (\<lambda>w. 0), ge_url_parse = (\<lambda>raw. Inr zeroURL),
     ge_NewClient = (\<lambda>target tls w. (w, Inr 7)), ge_ConnClose = (\<lambda>conn w. (w, None)),
     ge_Push = (\<lambda>conn ctx route command body w. (w, None)), ge_Kick = (\<lambda>conn ctx route code w. (w, None)), ge_evictionsWait = id\<rparr>"

end
