(* ===== verification/Backend.thy ===== *)
theory Backend
  imports Gate_Client Json
begin

text \<open>
  The gateway's view of the node services: the snapshot of a discovery record
  (\<open>gateway/resolver.go\<close>), the selection of a node (\<open>gateway/balancer.go\<close>) and the routes of forwarded
  requests (\<open>gateway/backend.go\<close>). Discovery, the gRPC client and the locator are operations on the
  state of everything outside the running call: each of them may also change what other goroutines
  change meanwhile, the table of backends included.
\<close>

section \<open>Discovery snapshots (\<open>resolver.go\<close>)\<close>

record ServiceInstance =
  si_ID :: string
  si_Name :: string
  si_Metadata :: "string \<rightharpoonup> string"
  si_Endpoints :: "string list"

record backendSnapshot =
  bs_available :: bool
  bs_sticky :: bool
  bs_hostByNodeID :: "string \<rightharpoonup> string"

definition zeroSnapshot :: backendSnapshot where
  "zeroSnapshot = \<lparr>bs_available = False, bs_sticky = False, bs_hostByNodeID = Map.empty\<rparr>"

record backendIdentities =
  bi_hostByNodeID :: "string \<rightharpoonup> string"
  bi_nodeIDByHost :: "string \<rightharpoonup> string"

definition identities_add :: "string \<Rightarrow> string \<Rightarrow> string \<Rightarrow> backendIdentities \<Rightarrow> goerr + backendIdentities" where
  "identities_add serviceName nodeID host i =
     (if nodeID = [] then Inr i
      else if (case bi_hostByNodeID i nodeID of None \<Rightarrow> False | Some h \<Rightarrow> h \<noteq> host)
      then Inl (Fresh (''gateway: node service '' @ serviceName @ '' has duplicate NodeID '' @ nodeID @ '' with different endpoints''))
      else if (case bi_nodeIDByHost i host of None \<Rightarrow> False | Some n \<Rightarrow> n \<noteq> nodeID)
      then Inl (Fresh (''gateway: node service '' @ serviceName @ '' endpoint '' @ host @ '' belongs to multiple NodeIDs''))
      else Inr (i\<lparr>bi_hostByNodeID := (bi_hostByNodeID i)(nodeID \<mapsto> host), bi_nodeIDByHost := (bi_nodeIDByHost i)(host \<mapsto> nodeID)\<rparr>))"

definition resolveBackendInstance ::
  "(string \<Rightarrow> goerr + URL) \<Rightarrow> string \<Rightarrow> ServiceInstance \<Rightarrow> bool \<Rightarrow> goerr + (bool \<times> string)" where
  "resolveBackendInstance url_parse serviceName service secure =
     (case IsSticky (si_Metadata service) of
        Inl err \<Rightarrow> Inl (Wrap (''gateway: node service '' @ serviceName) [err])
      | Inr sticky \<Rightarrow>
          (case si_Endpoints service of
             [endpoint] \<Rightarrow>
               (case endpoint_Host url_parse endpoint secure of
                  Inl err \<Rightarrow>
                    if \<not> errors_is err (EndpointErr ErrTransportSecurity)
                    then Inl (Fresh (''gateway: node service '' @ serviceName @ '' has no gRPC endpoint''))
                    else Inl (Fresh (''gateway: node service '' @ serviceName @ '' has no '' @
                           (if secure then ''grpcs://'' else ''grpc://'') @ '' endpoint for configured transport''))
                | Inr host \<Rightarrow>
                    if sticky \<and> si_ID service = []
                    then Inl (Fresh (''gateway: sticky node service '' @ serviceName @ '' has an empty NodeID''))
                    else Inr (sticky, host))
           | _ \<Rightarrow> Inl (Fresh (''gateway: node service '' @ serviceName @ '' must have exactly one gRPC endpoint''))))"

text \<open>
  The loop over the discovered instances, a nil instance as \<open>None\<close>: the addresses so far, the identities
  and the sticky mode of the first instance, if there was one. The set \<open>seen\<close> of the code holds the hosts
  of the addresses.
\<close>

record resolve_acc =
  ra_addresses :: "(string \<times> ServiceInstance) list"
  ra_identities :: backendIdentities
  ra_sticky :: "bool option"

fun resolve_loop ::
  "(string \<Rightarrow> goerr + URL) \<Rightarrow> string \<Rightarrow> bool \<Rightarrow> ServiceInstance option list \<Rightarrow> resolve_acc \<Rightarrow> goerr + resolve_acc" where
  "resolve_loop url_parse serviceName secure [] acc = Inr acc"
| "resolve_loop url_parse serviceName secure (i # rest) acc =
     (case i of
        None \<Rightarrow> resolve_loop url_parse serviceName secure rest acc
      | Some service \<Rightarrow>
          if si_Name service \<noteq> serviceName then resolve_loop url_parse serviceName secure rest acc
          else case resolveBackendInstance url_parse serviceName service secure of
            Inl err \<Rightarrow> Inl err
          | Inr (currentSticky, host) \<Rightarrow>
              if (case ra_sticky acc of None \<Rightarrow> False | Some sticky \<Rightarrow> sticky \<noteq> currentSticky)
              then Inl (Fresh (''gateway: node service '' @ serviceName @ '' has conflicting sticky metadata''))
              else case identities_add serviceName (si_ID service) host (ra_identities acc) of
                Inl err \<Rightarrow> Inl err
              | Inr identities \<Rightarrow>
                  resolve_loop url_parse serviceName secure rest
                    (acc\<lparr>ra_sticky := Some currentSticky, ra_identities := identities,
                         ra_addresses := (if host \<in> fst ` set (ra_addresses acc) then ra_addresses acc
                                          else ra_addresses acc @ [(host, service)])\<rparr>))"

definition resolve_start :: resolve_acc where
  "resolve_start = \<lparr>ra_addresses = [], ra_identities = \<lparr>bi_hostByNodeID = Map.empty, bi_nodeIDByHost = Map.empty\<rparr>, ra_sticky = None\<rparr>"

definition resolveBackendInstances ::
  "(string \<Rightarrow> goerr + URL) \<Rightarrow> string \<Rightarrow> ServiceInstance option list \<Rightarrow> bool \<Rightarrow>
   goerr + (backendSnapshot \<times> (string \<times> ServiceInstance) list)" where
  "resolveBackendInstances url_parse serviceName instances secure =
     (case resolve_loop url_parse serviceName secure instances resolve_start of
        Inl err \<Rightarrow> Inl err
      | Inr acc \<Rightarrow>
          Inr (\<lparr>bs_available = (ra_addresses acc \<noteq> []), bs_sticky = (case ra_sticky acc of None \<Rightarrow> False | Some s \<Rightarrow> s),
                bs_hostByNodeID = bi_hostByNodeID (ra_identities acc)\<rparr>, ra_addresses acc))"

section \<open>The state of a backend\<close>

text \<open>The atomic snapshot pointer, nil until the first snapshot.\<close>

type_synonym backendState = "backendSnapshot option"

definition state_load :: "backendState \<Rightarrow> backendSnapshot" where
  "state_load s = (case s of None \<Rightarrow> zeroSnapshot | Some snap \<Rightarrow> snap)"

definition state_mode :: "backendState \<Rightarrow> bool \<times> bool" where
  "state_mode s = (case s of None \<Rightarrow> (False, False) | Some snap \<Rightarrow> (bs_sticky snap, True))"

definition markUnavailable :: "backendState \<Rightarrow> backendState" where
  "markUnavailable s =
     (case s of None \<Rightarrow> None
      | Some snap \<Rightarrow> Some \<lparr>bs_available = False, bs_sticky = bs_sticky snap, bs_hostByNodeID = Map.empty\<rparr>)"

text \<open>What the resolver tells grpc-go: a new list of addresses or an error.\<close>

datatype resolver_report = UpdateState "(string \<times> ServiceInstance) list" | ReportError goerr

definition resolver_reject :: "goerr \<Rightarrow> backendState \<Rightarrow> backendState \<times> resolver_report list" where
  "resolver_reject err s = (markUnavailable s, [UpdateState [], ReportError err])"

definition show_bool :: "bool \<Rightarrow> string" where
  "show_bool b = (if b then ''true'' else ''false'')"

text \<open>\<open>accepted\<close> is what grpc-go answers to the new addresses.\<close>

definition resolver_update ::
  "(string \<Rightarrow> goerr + URL) \<Rightarrow> string \<Rightarrow> bool \<Rightarrow> goerr option \<Rightarrow> ServiceInstance option list \<Rightarrow> backendState \<Rightarrow>
   backendState \<times> resolver_report list" where
  "resolver_update url_parse serviceName secure accepted instances s =
     (case resolveBackendInstances url_parse serviceName instances secure of
        Inl err \<Rightarrow> resolver_reject err s
      | Inr (snap, addresses) \<Rightarrow>
          let (sticky, initialized) = state_mode s in
          if initialized \<and> bs_available snap \<and> bs_sticky snap \<noteq> sticky
          then resolver_reject (Fresh (''gateway: node service '' @ serviceName @ '' changed sticky mode from '' @ show_bool sticky @
                 '' to '' @ show_bool (bs_sticky snap) @ ''; restart Gateway to apply'')) s
          else if addresses = [] then (markUnavailable s, [UpdateState []])
          else case accepted of
            Some err \<Rightarrow> (let (s', reports) = resolver_reject err s in (s', UpdateState addresses # reports))
          | None \<Rightarrow> (Some snap, [UpdateState addresses]))"

text \<open>One round of the watch: the results of the watcher until it fails, and whether to go on.\<close>

fun resolver_consume ::
  "(string \<Rightarrow> goerr + URL) \<Rightarrow> string \<Rightarrow> bool \<Rightarrow> (ServiceInstance option list \<times> goerr option) list \<Rightarrow> goerr \<Rightarrow> backendState \<Rightarrow>
   backendState \<times> resolver_report list \<times> goerr" where
  "resolver_consume url_parse serviceName secure [] failure s = (s, [], failure)"
| "resolver_consume url_parse serviceName secure ((instances, accepted) # rest) failure s =
     (case resolver_update url_parse serviceName secure accepted instances s of
        (s', reports) \<Rightarrow>
          (case resolver_consume url_parse serviceName secure rest failure s' of
             (s'', reports', err) \<Rightarrow> (s'', reports @ reports', err)))"

text \<open>
  What \<open>Watch\<close> answers: an error, a nil watcher, or a watcher with the updates it yields and the error it
  ends with. The last component of the result is the error the round returns.
\<close>

datatype watch_answer =
    WatchFailed goerr
  | NilWatcher
  | Watcher "(ServiceInstance option list \<times> goerr option) list" goerr

definition resolver_watchOnce ::
  "(string \<Rightarrow> goerr + URL) \<Rightarrow> string \<Rightarrow> bool \<Rightarrow> watch_answer \<Rightarrow> goerr option \<Rightarrow> backendState \<Rightarrow>
   backendState \<times> resolver_report list \<times> goerr" where
  "resolver_watchOnce url_parse serviceName secure answer ctxErr s =
     (case answer of
        WatchFailed err \<Rightarrow> (s, [ReportError err], err)
      | NilWatcher \<Rightarrow> (let err = Fresh ''nil discovery watcher'' in (s, [ReportError err], err))
      | Watcher updates failure \<Rightarrow>
          (case resolver_consume url_parse serviceName secure updates failure s of
             (s', reports, err) \<Rightarrow>
               (s', reports @ (if \<not> errors_is err ctx_canceled \<and> ctxErr = None then [ReportError err] else []), err)))"

definition resolver_retry :: "goerr \<Rightarrow> goerr option \<Rightarrow> bool \<Rightarrow> bool" where
  "resolver_retry err ctxErr timerFirst = (if errors_is err ctx_canceled \<or> ctxErr \<noteq> None then False else timerFirst)"

text \<open>
  The watch loop over the rounds it makes. A round carries the readings of the context (at the head of the
  loop, after the watcher ended, in \<open>retry\<close>) and whether the timer of \<open>retry\<close> fires before the context ends.
\<close>

record watch_round =
  wr_headErr :: "goerr option"
  wr_answer :: watch_answer
  wr_endErr :: "goerr option"
  wr_retryErr :: "goerr option"
  wr_timerFirst :: bool

fun resolver_watch ::
  "(string \<Rightarrow> goerr + URL) \<Rightarrow> string \<Rightarrow> bool \<Rightarrow> watch_round list \<Rightarrow> backendState \<Rightarrow> backendState \<times> resolver_report list" where
  "resolver_watch url_parse serviceName secure [] s = (s, [])"
| "resolver_watch url_parse serviceName secure (r # rs) s =
     (if wr_headErr r \<noteq> None then (s, [])
      else case resolver_watchOnce url_parse serviceName secure (wr_answer r) (wr_endErr r) s of
        (s', reports, err) \<Rightarrow>
          if \<not> resolver_retry err (wr_retryErr r) (wr_timerFirst r) then (s', reports)
          else (case resolver_watch url_parse serviceName secure rs s' of (s'', reports') \<Rightarrow> (s'', reports @ reports')))"

text \<open>
  \<open>DialCreds\<close> and the transport credentials of \<open>CredsBundle\<close>, by their security protocol. The outer option
  of the bundle is the bundle, the inner one its credentials.
\<close>

definition secureTransport :: "string option \<Rightarrow> string option option \<Rightarrow> bool" where
  "secureTransport dialCreds credsBundle =
     (let creds = (case dialCreds of
                     Some c \<Rightarrow> Some c
                   | None \<Rightarrow> (case credsBundle of None \<Rightarrow> None | Some c \<Rightarrow> c)) in
      case creds of None \<Rightarrow> False | Some protocol \<Rightarrow> \<not> fold_eq protocol ''insecure'')"

text \<open>\<open>Build\<close> checks the service named by the path of the target; the result is the name and the security.\<close>

definition resolver_Build :: "string \<Rightarrow> string option \<Rightarrow> string option option \<Rightarrow> goerr + (string \<times> bool)" where
  "resolver_Build path dialCreds credsBundle =
     (let serviceName = (case path of c # rest \<Rightarrow> if c = CHR ''/'' then rest else path | [] \<Rightarrow> path) in
      if \<not> ValidServiceName serviceName then Inl (Fresh (''gateway: invalid node service '' @ serviceName))
      else Inr (serviceName, secureTransport dialCreds credsBundle))"

section \<open>The picker (\<open>balancer.go\<close>)\<close>

text \<open>The value under the private key type \<open>nodeIDContextKey\<close> of the package.\<close>

definition nodeIDContextKey :: string where "nodeIDContextKey = ''gateway.nodeIDContextKey''"

definition withNodeID :: "ctx \<Rightarrow> string \<Rightarrow> ctx" where
  "withNodeID ctx nodeID = (if nodeID = [] then ctx else WithValue ctx nodeIDContextKey nodeID)"

text \<open>The ready sub-connections in the order the map yields them, with the instance of their address.\<close>

definition picker_exact :: "(nat \<times> ServiceInstance option) list \<Rightarrow> (string \<rightharpoonup> nat)" where
  "picker_exact ready =
     fold (\<lambda>(conn, service) m. case service of
         Some s \<Rightarrow> if si_ID s \<noteq> [] then m(si_ID s \<mapsto> conn) else m
       | None \<Rightarrow> m) ready Map.empty"

datatype picker = ErrPicker | BackendPicker "nat list" "string \<rightharpoonup> nat"

definition picker_Build :: "(nat \<times> ServiceInstance option) list \<Rightarrow> picker" where
  "picker_Build ready = (if ready = [] then ErrPicker else BackendPicker (map fst ready) (picker_exact ready))"

text \<open>\<open>select\<close> is the weighted selection among the nodes.\<close>

definition picker_Pick :: "(nat list \<Rightarrow> goerr + nat) \<Rightarrow> picker \<Rightarrow> ctx \<Rightarrow> goerr + nat" where
  "picker_Pick select p ctx =
     (case p of
        ErrPicker \<Rightarrow> Inl (OtherErr ErrNoSubConnAvailable)
      | BackendPicker nodes exact \<Rightarrow>
          (case ctx_Value ctx nodeIDContextKey of
             Some nodeID \<Rightarrow>
               if nodeID \<noteq> [] then (case exact nodeID of None \<Rightarrow> Inl (OtherErr ErrNoSubConnAvailable) | Some conn \<Rightarrow> Inr conn)
               else select nodes
           | None \<Rightarrow> select nodes))"

section \<open>Backends (\<open>backend.go\<close>)\<close>

record backend =
  bk_conn :: nat
  bk_state :: backendState

text \<open>\<open>be_byService\<close> is \<open>None\<close> for the nil map left by \<open>close\<close>; backends live in a heap.\<close>

record backends =
  be_tlsConfig :: "tls_config option"
  be_connectTimeout :: duration
  be_cancelled :: bool
  be_byService :: "(string \<times> nat) list option"
  be_heap :: "nat \<rightharpoonup> backend"

text \<open>The state the gateway's calls share starts with the pool of connections to other gateways.\<close>

record be_state = gc_state +
  st_backends :: backends

definition newBackends :: "tls_config option \<Rightarrow> duration \<Rightarrow> backends" where
  "newBackends tlsConfig connectTimeout =
     \<lparr>be_tlsConfig = tls_Clone tlsConfig, be_connectTimeout = connectTimeout, be_cancelled = False,
      be_byService = Some [], be_heap = Map.empty\<rparr>"

record ForwardRequest =
  fr_Route :: "GateRoute option"
  fr_Command :: int
  fr_Body :: bytes
  fr_NodeId :: string
  fr_NodeEpoch :: string

text \<open>
  The outside of a call: discovery, the gRPC client with its two methods of a node, the locator, the
  context and the allocation of a backend.
\<close>

record 'w be_env =
  de_ctxErr :: "ctx \<Rightarrow> 'w \<Rightarrow> 'w \<times> goerr option"
  de_GetService :: "ctx \<Rightarrow> string \<Rightarrow> 'w \<Rightarrow> 'w \<times> (goerr + ServiceInstance option list)"
  de_NewClient :: "ctx \<Rightarrow> string \<Rightarrow> tls_config option \<Rightarrow> 'w \<Rightarrow> 'w \<times> (goerr + nat)"
  de_ConnClose :: "nat \<Rightarrow> 'w \<Rightarrow> 'w"
  de_url_parse :: "string \<Rightarrow> goerr + URL"
  de_fresh :: "'w \<Rightarrow> nat"
  de_LocateNode :: "ctx \<Rightarrow> string \<Rightarrow> string \<Rightarrow> 'w \<Rightarrow> 'w \<times> (goerr + string)"
  de_LocateNodeEpoch :: "ctx \<Rightarrow> string \<Rightarrow> string \<Rightarrow> 'w \<Rightarrow> 'w \<times> (goerr + string)"
  de_Forward :: "nat \<Rightarrow> ctx \<Rightarrow> ForwardRequest \<Rightarrow> bool \<Rightarrow> 'w \<Rightarrow> 'w \<times> (goerr + bytes)"
  de_Disconnect :: "nat \<Rightarrow> ctx \<Rightarrow> GateRoute option \<Rightarrow> bool \<Rightarrow> 'w \<Rightarrow> 'w \<times> goerr option"

record nodeRoute =
  nr_client :: nat
  nr_binding :: GateBinding
  nr_nodeID :: string
  nr_epoch :: string

text \<open>A missing entry of an open table is \<open>Inr None\<close>.\<close>

definition be_cached :: "string \<Rightarrow> backends \<Rightarrow> goerr + nat option" where
  "be_cached serviceName b =
     (case be_byService b of None \<Rightarrow> Inl (GatewayErr ErrBackendsClosed) | Some m \<Rightarrow> Inr (map_of m serviceName))"

definition connectBackend ::
  "'a be_state_scheme be_env \<Rightarrow> ctx \<Rightarrow> string \<Rightarrow> 'a be_state_scheme \<Rightarrow> 'a be_state_scheme \<times> (goerr + backend)" where
  "connectBackend env ctx serviceName w =
     (let tlsConfig = be_tlsConfig (st_backends w) in
      case de_GetService env ctx serviceName w of
        (w, Inl err) \<Rightarrow> (w, Inl (Wrap (''gateway: discover node service '' @ serviceName) [err]))
      | (w, Inr instances) \<Rightarrow>
          (case resolveBackendInstances (de_url_parse env) serviceName instances (tlsConfig \<noteq> None) of
             Inl err \<Rightarrow> (w, Inl err)
           | Inr (snap, _) \<Rightarrow>
               if \<not> bs_available snap then (w, Inl (Fresh (''gateway: node service '' @ serviceName @ '' is unavailable'')))
               else case de_NewClient env ctx (''discovery:///'' @ serviceName) (tls_Clone tlsConfig) w of
                 (w, Inl err) \<Rightarrow> (w, Inl (Wrap (''gateway: connect node service '' @ serviceName) [err]))
               | (w, Inr conn) \<Rightarrow> (w, Inr \<lparr>bk_conn = conn, bk_state = Some snap\<rparr>)))"

definition connectAndCache ::
  "'a be_state_scheme be_env \<Rightarrow> string \<Rightarrow> 'a be_state_scheme \<Rightarrow> 'a be_state_scheme \<times> (goerr + nat)" where
  "connectAndCache env serviceName w =
     (case be_cached serviceName (st_backends w) of
        Inl err \<Rightarrow> (w, Inl err)
      | Inr (Some a) \<Rightarrow> (w, Inr a)
      | Inr None \<Rightarrow>
          (case connectBackend env (WithTimeout (WithCancel Background) (be_connectTimeout (st_backends w))) serviceName w of
             (w, Inl err) \<Rightarrow> (w, Inl err)
           | (w, Inr bk) \<Rightarrow>
               let b = st_backends w; a = de_fresh env w in
               (case be_byService b of
                  None \<Rightarrow> (de_ConnClose env (bk_conn bk) w, Inl (GatewayErr ErrBackendsClosed))
                | Some m \<Rightarrow>
                    (w\<lparr>st_backends := b\<lparr>be_byService := Some (AList.update serviceName a m), be_heap := (be_heap b)(a \<mapsto> bk)\<rparr>\<rparr>, Inr a))))"

text \<open>
  The select of \<open>get\<close>: the context of the caller ends first, with its error; or that of the backends; or
  the load is done, which this caller started or, under the same key, an earlier one whose result it
  shares. A load that is still running when \<open>get\<close> returns goes on in its own goroutine.
\<close>

datatype load_first = CallerDone goerr | BackendsDone | OwnLoad | SharedLoad "goerr + nat"

definition be_get ::
  "'a be_state_scheme be_env \<Rightarrow> string \<Rightarrow> load_first \<Rightarrow> 'a be_state_scheme \<Rightarrow> 'a be_state_scheme \<times> (goerr + nat)" where
  "be_get env serviceName first w =
     (if \<not> ValidServiceName serviceName then (w, Inl (Fresh (''gateway: invalid node service '' @ serviceName)))
      else case be_cached serviceName (st_backends w) of
        Inl err \<Rightarrow> (w, Inl err)
      | Inr (Some a) \<Rightarrow> (w, Inr a)
      | Inr None \<Rightarrow>
          (case first of
             CallerDone err \<Rightarrow> (w, Inl err)
           | BackendsDone \<Rightarrow> (w, Inl (GatewayErr ErrBackendsClosed))
           | OwnLoad \<Rightarrow>
               (case connectAndCache env serviceName w of
                  (w, result) \<Rightarrow> (w, if be_cancelled (st_backends w) then Inl (GatewayErr ErrBackendsClosed) else result))
           | SharedLoad result \<Rightarrow> (w, if be_cancelled (st_backends w) then Inl (GatewayErr ErrBackendsClosed) else result)))"

text \<open>The connections are closed in some order of the map; here in the order of the table.\<close>

definition be_close :: "'a be_state_scheme be_env \<Rightarrow> 'a be_state_scheme \<Rightarrow> 'a be_state_scheme" where
  "be_close env w =
     (let b = st_backends w in
      fold (\<lambda>(serviceName, a) w. case be_heap b a of None \<Rightarrow> w | Some bk \<Rightarrow> de_ConnClose env (bk_conn bk) w)
        (case be_byService b of None \<Rightarrow> [] | Some m \<Rightarrow> m)
        (w\<lparr>st_backends := b\<lparr>be_cancelled := True, be_byService := None\<rparr>\<rparr>))"

definition resolveNode ::
  "'a be_state_scheme be_env \<Rightarrow> ctx \<Rightarrow> GateBinding \<Rightarrow> load_first \<Rightarrow> 'a be_state_scheme \<Rightarrow> 'a be_state_scheme \<times> (goerr + nodeRoute)" where
  "resolveNode env ctx binding first w =
     (case de_ctxErr env ctx w of
        (w, Some err) \<Rightarrow> (w, Inl err)
      | (w, None) \<Rightarrow>
          (case be_get env (ServiceName binding) first w of
             (w, Inl err) \<Rightarrow> (w, Inl err)
           | (w, Inr a) \<Rightarrow>
               (case be_heap (st_backends w) a of
                  None \<Rightarrow> (w, Inl (Fresh ''nil backend''))
                | Some bk \<Rightarrow>
                    let snap = state_load (bk_state bk);
                        route = \<lparr>nr_client = bk_conn bk, nr_binding = binding, nr_nodeID = [], nr_epoch = []\<rparr> in
                    if \<not> bs_available snap
                    then (w, Inl (Fresh (''gateway: node service '' @ ServiceName binding @ '' is unavailable'')))
                    else if \<not> bs_sticky snap then (w, Inr route)
                    else case de_LocateNode env ctx (ServiceName binding) (UID binding) w of
                      (w, Inl err) \<Rightarrow> if errors_is err (LocateErr ErrNodeNotFound) then (w, Inr route) else (w, Inl err)
                    | (w, Inr nodeID) \<Rightarrow>
                        if \<not> ValidNodeLocation (ServiceName binding) (UID binding) nodeID then (w, Inl (LocateErr ErrInvalidNodeBinding))
                        else if bs_hostByNodeID snap nodeID = None then (w, Inl (Fresh (''gateway: node '' @ nodeID @ '' is unavailable'')))
                        else (w, Inr (route\<lparr>nr_nodeID := nodeID\<rparr>)))))"

definition resolveForward ::
  "'a be_state_scheme be_env \<Rightarrow> ctx \<Rightarrow> GateBinding \<Rightarrow> load_first \<Rightarrow> 'a be_state_scheme \<Rightarrow> 'a be_state_scheme \<times> (goerr + nodeRoute)" where
  "resolveForward env ctx binding first w =
     (case resolveNode env ctx binding first w of
        (w, Inl err) \<Rightarrow> (w, Inl err)
      | (w, Inr route) \<Rightarrow>
          if nr_nodeID route = [] then (w, Inr route)
          else case de_LocateNodeEpoch env ctx (ServiceName binding) (nr_nodeID route) w of
            (w, Inl err) \<Rightarrow> (w, Inl err)
          | (w, Inr epoch) \<Rightarrow> (w, Inr (route\<lparr>nr_epoch := epoch\<rparr>)))"

definition route_forward ::
  "'w be_env \<Rightarrow> ctx \<Rightarrow> nodeRoute \<Rightarrow> int \<Rightarrow> bytes \<Rightarrow> 'w \<Rightarrow> 'w \<times> (goerr + bytes)" where
  "route_forward env ctx r command body w =
     de_Forward env (nr_client r) (withNodeID ctx (nr_nodeID r))
       \<lparr>fr_Route = Some (FromBinding (nr_binding r)), fr_Command = command, fr_Body = body, fr_NodeId = nr_nodeID r,
        fr_NodeEpoch = nr_epoch r\<rparr> (nr_nodeID r \<noteq> []) w"

definition route_disconnect :: "'w be_env \<Rightarrow> ctx \<Rightarrow> nodeRoute \<Rightarrow> 'w \<Rightarrow> 'w \<times> goerr option" where
  "route_disconnect env ctx r w =
     de_Disconnect env (nr_client r) (withNodeID ctx (nr_nodeID r)) (Some (FromBinding (nr_binding r))) (nr_nodeID r \<noteq> []) w"

section \<open>Properties\<close>

subsection \<open>Snapshots\<close>

text \<open>What the accumulated state says of the instances \<open>pre\<close> seen so far.\<close>

definition serves :: "string \<Rightarrow> ServiceInstance option list \<Rightarrow> ServiceInstance \<Rightarrow> bool" where
  "serves serviceName instances s = (Some s \<in> set instances \<and> si_Name s = serviceName)"

definition resolved_ok ::
  "(string \<Rightarrow> goerr + URL) \<Rightarrow> string \<Rightarrow> bool \<Rightarrow> ServiceInstance option list \<Rightarrow> resolve_acc \<Rightarrow> bool" where
  "resolved_ok url_parse serviceName secure pre acc \<longleftrightarrow>
     distinct (map fst (ra_addresses acc)) \<and>
     (ra_addresses acc = [] \<longleftrightarrow> ra_sticky acc = None) \<and>
     (ra_sticky acc = None \<longleftrightarrow> (\<forall>s. \<not> serves serviceName pre s)) \<and>
     (\<forall>s. serves serviceName pre s \<longrightarrow>
        (\<exists>sticky host. ra_sticky acc = Some sticky \<and> resolveBackendInstance url_parse serviceName s secure = Inr (sticky, host) \<and>
           host \<in> fst ` set (ra_addresses acc) \<and> (si_ID s \<noteq> [] \<longrightarrow> bi_hostByNodeID (ra_identities acc) (si_ID s) = Some host))) \<and>
     (\<forall>n h. bi_hostByNodeID (ra_identities acc) n = Some h \<longleftrightarrow> bi_nodeIDByHost (ra_identities acc) h = Some n) \<and>
     (\<forall>n h. bi_hostByNodeID (ra_identities acc) n = Some h \<longrightarrow> (\<exists>s. serves serviceName pre s \<and> si_ID s = n))"

lemma serves_snoc:
  "serves serviceName (pre @ [i]) s \<longleftrightarrow> serves serviceName pre s \<or> (i = Some s \<and> si_Name s = serviceName)"
  by (auto simp: serves_def)

lemma resolved_ok_start: "resolved_ok url_parse serviceName secure [] resolve_start"
  by (simp add: resolved_ok_def resolve_start_def serves_def)

lemma resolved_ok_skip:
  assumes "resolved_ok url_parse serviceName secure pre acc" "\<And>s. i = Some s \<Longrightarrow> si_Name s \<noteq> serviceName"
  shows "resolved_ok url_parse serviceName secure (pre @ [i]) acc"
proof -
  have same: "serves serviceName (pre @ [i]) = serves serviceName pre"
    using assms(2) by (auto simp: serves_snoc fun_eq_iff)
  show ?thesis using assms(1) unfolding resolved_ok_def same .
qed

lemma identities_add_cases:
  assumes "identities_add serviceName n h i = Inr i'"
    "\<forall>m k. bi_hostByNodeID i m = Some k \<longleftrightarrow> bi_nodeIDByHost i k = Some m"
  shows "\<forall>m k. bi_hostByNodeID i' m = Some k \<longleftrightarrow> bi_nodeIDByHost i' k = Some m"
    "bi_hostByNodeID i' = (if n = [] then bi_hostByNodeID i else (bi_hostByNodeID i)(n \<mapsto> h))"
    "n \<noteq> [] \<Longrightarrow> bi_hostByNodeID i n \<in> {None, Some h}"
proof -
  show guard: "n \<noteq> [] \<Longrightarrow> bi_hostByNodeID i n \<in> {None, Some h}"
    and map: "bi_hostByNodeID i' = (if n = [] then bi_hostByNodeID i else (bi_hostByNodeID i)(n \<mapsto> h))"
    using assms(1) by (auto simp: identities_add_def split: if_splits option.splits)
  have "n \<noteq> [] \<Longrightarrow> bi_nodeIDByHost i h \<in> {None, Some n}"
    and rev: "bi_nodeIDByHost i' = (if n = [] then bi_nodeIDByHost i else (bi_nodeIDByHost i)(h \<mapsto> n))"
    using assms(1) by (auto simp: identities_add_def split: if_splits option.splits)
  then have "n \<noteq> [] \<Longrightarrow> bi_hostByNodeID i m = Some h \<Longrightarrow> m = n" for m
    using assms(2) by fastforce
  moreover have "k = h" if "n \<noteq> []" "bi_nodeIDByHost i k = Some n" for k
  proof -
    have "bi_hostByNodeID i n = Some k" using assms(2) that(2) by simp
    then show ?thesis using guard [OF that(1)] by simp
  qed
  ultimately show "\<forall>m k. bi_hostByNodeID i' m = Some k \<longleftrightarrow> bi_nodeIDByHost i' k = Some m"
    unfolding map rev using assms(2) by auto
qed

lemma resolved_ok_add:
  assumes ok: "resolved_ok url_parse serviceName secure pre acc"
    and s: "si_Name s = serviceName" "resolveBackendInstance url_parse serviceName s secure = Inr (sticky, host)"
    and mode: "ra_sticky acc \<in> {None, Some sticky}"
    and add: "identities_add serviceName (si_ID s) host (ra_identities acc) = Inr ids"
  shows "resolved_ok url_parse serviceName secure (pre @ [Some s])
    (acc\<lparr>ra_sticky := Some sticky, ra_identities := ids,
         ra_addresses := (if host \<in> fst ` set (ra_addresses acc) then ra_addresses acc else ra_addresses acc @ [(host, s)])\<rparr>)"
proof -
  note parts = ok [unfolded resolved_ok_def]
  have inv: "\<forall>m k. bi_hostByNodeID (ra_identities acc) m = Some k \<longleftrightarrow> bi_nodeIDByHost (ra_identities acc) k = Some m"
    using ok by (simp add: resolved_ok_def)
  note ids = identities_add_cases [OF add inv]
  have kept: "bi_hostByNodeID ids m = Some k" if "bi_hostByNodeID (ra_identities acc) m = Some k" for m k
    using ids(2,3) that by (auto split: if_splits)
  have new: "si_ID s \<noteq> [] \<Longrightarrow> bi_hostByNodeID ids (si_ID s) = Some host"
    using ids(2) by simp
  have old: "\<exists>h. resolveBackendInstance url_parse serviceName t secure = Inr (sticky, h) \<and> h \<in> fst ` set (ra_addresses acc) \<and>
      (si_ID t \<noteq> [] \<longrightarrow> bi_hostByNodeID ids (si_ID t) = Some h)" if pre_t: "serves serviceName pre t" for t
  proof -
    obtain x h where "ra_sticky acc = Some x" "resolveBackendInstance url_parse serviceName t secure = Inr (x, h)"
      "h \<in> fst ` set (ra_addresses acc)" "si_ID t \<noteq> [] \<longrightarrow> bi_hostByNodeID (ra_identities acc) (si_ID t) = Some h"
      using parts pre_t by blast
    then show ?thesis using mode kept by auto
  qed
  have source: "\<exists>t. serves serviceName (pre @ [Some s]) t \<and> si_ID t = m" if "bi_hostByNodeID ids m = Some k" for m k
  proof (cases "m = si_ID s")
    case True then show ?thesis using s(1) by (auto simp: serves_snoc)
  next
    case False
    then have "bi_hostByNodeID (ra_identities acc) m = Some k" using that ids(2) by (auto split: if_splits)
    then show ?thesis using parts unfolding serves_snoc by blast
  qed
  let ?addrs = "if host \<in> fst ` set (ra_addresses acc) then ra_addresses acc else ra_addresses acc @ [(host, s)]"
  have addrs: "distinct (map fst ?addrs)" "?addrs \<noteq> []" "host \<in> fst ` set ?addrs" "fst ` set (ra_addresses acc) \<subseteq> fst ` set ?addrs"
    using parts by auto
  have served: "\<exists>h. resolveBackendInstance url_parse serviceName t secure = Inr (sticky, h) \<and> h \<in> fst ` set ?addrs \<and>
      (si_ID t \<noteq> [] \<longrightarrow> bi_hostByNodeID ids (si_ID t) = Some h)" if "serves serviceName (pre @ [Some s]) t" for t
    using that unfolding serves_snoc
  proof
    assume "serves serviceName pre t"
    from old [OF this] show ?thesis using addrs(4) by blast
  next
    assume "Some s = Some t \<and> si_Name t = serviceName"
    then show ?thesis using s(2) new addrs(3) by blast
  qed
  have "serves serviceName (pre @ [Some s]) s" using s(1) by (simp add: serves_snoc)
  then show ?thesis
    unfolding resolved_ok_def using addrs(1,2) ids(1) served source by simp blast
qed

lemma resolve_loop_match:
  assumes "si_Name s = serviceName" "resolve_loop url_parse serviceName secure (Some s # rest) acc = Inr acc'"
  shows "\<exists>sticky host ids. resolveBackendInstance url_parse serviceName s secure = Inr (sticky, host) \<and>
    ra_sticky acc \<in> {None, Some sticky} \<and> identities_add serviceName (si_ID s) host (ra_identities acc) = Inr ids \<and>
    resolve_loop url_parse serviceName secure rest
      (acc\<lparr>ra_sticky := Some sticky, ra_identities := ids,
        ra_addresses := (if host \<in> fst ` set (ra_addresses acc) then ra_addresses acc else ra_addresses acc @ [(host, s)])\<rparr>) = Inr acc'"
proof -
  obtain sticky host where r: "resolveBackendInstance url_parse serviceName s secure = Inr (sticky, host)"
    using assms by (cases "resolveBackendInstance url_parse serviceName s secure") auto
  moreover have "ra_sticky acc \<in> {None, Some sticky}"
    using assms r by (auto split: option.splits if_splits)
  moreover obtain ids where "identities_add serviceName (si_ID s) host (ra_identities acc) = Inr ids"
    using assms r by (cases "identities_add serviceName (si_ID s) host (ra_identities acc)") (auto split: if_splits)
  ultimately show ?thesis using assms by (auto split: if_splits option.splits)
qed

lemma resolve_loop_ok:
  "resolve_loop url_parse serviceName secure rest acc = Inr acc' \<Longrightarrow> resolved_ok url_parse serviceName secure pre acc \<Longrightarrow>
   resolved_ok url_parse serviceName secure (pre @ rest) acc'"
proof (induction rest arbitrary: pre acc)
  case Nil then show ?case by simp
next
  case (Cons i rest)
  have step: "resolved_ok url_parse serviceName secure (pre @ [i]) acc1 \<Longrightarrow>
      resolve_loop url_parse serviceName secure rest acc1 = Inr acc' \<Longrightarrow> ?case" for acc1
    using Cons.IH [of acc1 "pre @ [i]"] by simp
  show ?case
  proof (cases "\<exists>s. i = Some s \<and> si_Name s = serviceName")
    case False
    then have "resolve_loop url_parse serviceName secure rest acc = Inr acc'"
      using Cons.prems(1) by (auto split: option.splits)
    then show ?thesis using step resolved_ok_skip [OF Cons.prems(2)] False by blast
  next
    case True
    then obtain s where s: "i = Some s" "si_Name s = serviceName" by blast
    from resolve_loop_match [OF s(2) Cons.prems(1) [unfolded s(1)]]
    obtain sticky host ids where r: "resolveBackendInstance url_parse serviceName s secure = Inr (sticky, host)"
      "ra_sticky acc \<in> {None, Some sticky}" "identities_add serviceName (si_ID s) host (ra_identities acc) = Inr ids"
      and loop: "resolve_loop url_parse serviceName secure rest
        (acc\<lparr>ra_sticky := Some sticky, ra_identities := ids,
          ra_addresses := (if host \<in> fst ` set (ra_addresses acc) then ra_addresses acc else ra_addresses acc @ [(host, s)])\<rparr>) = Inr acc'"
      by blast
    show ?thesis using step [OF _ loop] resolved_ok_add [OF Cons.prems(2) s(2) r] s(1) by simp
  qed
qed

text \<open>
  C30. A snapshot taken from discovery is exact. The addresses name each host once; the service is
  available exactly when some instance of it is listed; every listed instance has the sticky mode of the
  snapshot, an address, and under its node ID the host of its endpoint; the snapshot names no other node;
  and no two nodes share a host, so that routing to a node ID cannot reach another node.
\<close>

theorem resolved_snapshot_exact:
  assumes "resolveBackendInstances url_parse serviceName instances secure = Inr (snap, addresses)"
  shows "distinct (map fst addresses) \<and>
    (bs_available snap \<longleftrightarrow> (\<exists>s. serves serviceName instances s)) \<and>
    (\<forall>s. serves serviceName instances s \<longrightarrow>
       (\<exists>host. resolveBackendInstance url_parse serviceName s secure = Inr (bs_sticky snap, host) \<and>
          host \<in> fst ` set addresses \<and> (si_ID s \<noteq> [] \<longrightarrow> bs_hostByNodeID snap (si_ID s) = Some host))) \<and>
    (\<forall>n\<in>dom (bs_hostByNodeID snap). \<exists>s. serves serviceName instances s \<and> si_ID s = n) \<and>
    inj_on (bs_hostByNodeID snap) (dom (bs_hostByNodeID snap))"
proof -
  obtain acc where loop: "resolve_loop url_parse serviceName secure instances resolve_start = Inr acc"
    using assms by (cases "resolve_loop url_parse serviceName secure instances resolve_start") (simp_all add: resolveBackendInstances_def)
  then have snap: "bs_available snap = (ra_addresses acc \<noteq> [])" "bs_sticky snap = (case ra_sticky acc of None \<Rightarrow> False | Some s \<Rightarrow> s)"
      "bs_hostByNodeID snap = bi_hostByNodeID (ra_identities acc)" "addresses = ra_addresses acc"
    using assms by (auto simp: resolveBackendInstances_def)
  have ok: "resolved_ok url_parse serviceName secure instances acc"
    using resolve_loop_ok [OF loop resolved_ok_start] by simp
  note parts = ok [unfolded resolved_ok_def]
  have "inj_on (bs_hostByNodeID snap) (dom (bs_hostByNodeID snap))"
  proof (rule inj_onI)
    fix m n assume m: "m \<in> dom (bs_hostByNodeID snap)" and eq: "bs_hostByNodeID snap m = bs_hostByNodeID snap n"
    from m obtain h where h: "bs_hostByNodeID snap m = Some h" by blast
    then have "bi_hostByNodeID (ra_identities acc) m = Some h" "bi_hostByNodeID (ra_identities acc) n = Some h"
      using eq unfolding snap(3) by simp_all
    then have "bi_nodeIDByHost (ra_identities acc) h = Some m" "bi_nodeIDByHost (ra_identities acc) h = Some n"
      using ok by (simp_all add: resolved_ok_def)
    then show "m = n" by simp
  qed
  moreover have "\<exists>host. resolveBackendInstance url_parse serviceName s secure = Inr (bs_sticky snap, host) \<and>
      host \<in> fst ` set addresses \<and> (si_ID s \<noteq> [] \<longrightarrow> bs_hostByNodeID snap (si_ID s) = Some host)"
    if served: "serves serviceName instances s" for s
  proof -
    obtain sticky host where "ra_sticky acc = Some sticky" "resolveBackendInstance url_parse serviceName s secure = Inr (sticky, host)"
      "host \<in> fst ` set (ra_addresses acc)" "si_ID s \<noteq> [] \<longrightarrow> bi_hostByNodeID (ra_identities acc) (si_ID s) = Some host"
      using parts served by blast
    then show ?thesis by (simp add: snap)
  qed
  moreover have "bs_available snap \<longleftrightarrow> (\<exists>s. serves serviceName instances s)"
    unfolding snap(1) using parts by (elim conjE) simp
  moreover have "distinct (map fst addresses)" unfolding snap(4) using parts by (elim conjE)
  moreover have "\<forall>n\<in>dom (bs_hostByNodeID snap). \<exists>s. serves serviceName instances s \<and> si_ID s = n"
    unfolding snap(3) using parts by (elim conjE) blast
  ultimately show ?thesis by blast
qed

lemma resolved_available:
  "resolveBackendInstances url_parse serviceName instances secure = Inr (snap, addresses) \<Longrightarrow> bs_available snap = (addresses \<noteq> [])"
  by (cases "resolve_loop url_parse serviceName secure instances resolve_start") (auto simp: resolveBackendInstances_def)

text \<open>Two nodes of a sticky service, an instance of another service and a nil instance.\<close>

definition demo_parse :: "string \<Rightarrow> goerr + URL" where
  "demo_parse raw = Inr (zeroURL\<lparr>url_Scheme := ''grpc'', url_Host := drop 7 raw\<rparr>)"

definition demo_instance :: "string \<Rightarrow> string \<Rightarrow> ServiceInstance" where
  "demo_instance nodeID endpoint =
     \<lparr>si_ID = nodeID, si_Name = ''game'', si_Metadata = StickyMetadata, si_Endpoints = [endpoint]\<rparr>"

definition demo_instances :: "ServiceInstance option list" where
  "demo_instances =
     [Some (demo_instance ''n1'' ''grpc://10.0.0.1:1''), None, Some ((demo_instance ''n3'' ''grpc://10.0.0.3:3'')\<lparr>si_Name := ''chat''\<rparr>),
      Some (demo_instance ''n2'' ''grpc://10.0.0.2:2'')]"

lemma demo_ports: "parse_port ''1'' = Some 1" "parse_port ''2'' = Some 2"
  by (simp_all add: parse_port_def is_digits_def decimal_def digit_def byte_of_def)

lemma demo_hosts:
  "SplitHostPort ''10.0.0.1:1'' = Inr (''10.0.0.1'', ''1'')" "SplitHostPort ''10.0.0.2:2'' = Inr (''10.0.0.2'', ''2'')" "validHost ''10.0.0.1''" "validHost ''10.0.0.2''"
  by code_simp+

lemma demo_endpoints:
  "endpoint_Host demo_parse ''grpc://10.0.0.1:1'' False = Inr ''10.0.0.1:1''" "endpoint_Host demo_parse ''grpc://10.0.0.2:2'' False = Inr ''10.0.0.2:2''"
  by (simp_all add: endpoint_Host_def demo_parse_def Validate_def validate_endpoint_def scheme_def zeroURL_def demo_ports demo_hosts)

lemma demo_resolves: "\<not> isl (resolveBackendInstances demo_parse ''game'' demo_instances False)"
  by (simp add: resolveBackendInstances_def demo_instances_def demo_instance_def resolveBackendInstance_def demo_endpoints
      identities_add_def resolve_start_def)

theorem resolved_snapshot_exact_witness:
  "\<exists>snap addresses. resolveBackendInstances demo_parse ''game'' demo_instances False = Inr (snap, addresses) \<and>
     bs_available snap \<and> bs_hostByNodeID snap ''n1'' \<noteq> bs_hostByNodeID snap ''n2''"
proof -
  obtain snap addresses where r: "resolveBackendInstances demo_parse ''game'' demo_instances False = Inr (snap, addresses)"
    using demo_resolves by (cases "resolveBackendInstances demo_parse ''game'' demo_instances False") auto
  have n: "serves ''game'' demo_instances (demo_instance ''n1'' ''grpc://10.0.0.1:1'')" "serves ''game'' demo_instances (demo_instance ''n2'' ''grpc://10.0.0.2:2'')"
    by (simp_all add: serves_def demo_instances_def demo_instance_def)
  note exact = resolved_snapshot_exact [OF r]
  have served: "si_ID s \<in> dom (bs_hostByNodeID snap)" if "serves ''game'' demo_instances s" "si_ID s \<noteq> []" for s
    using exact that by blast
  have "''n1'' \<in> dom (bs_hostByNodeID snap)" "''n2'' \<in> dom (bs_hostByNodeID snap)"
    using served [OF n(1)] served [OF n(2)] by (simp_all add: demo_instance_def)
  moreover have "inj_on (bs_hostByNodeID snap) (dom (bs_hostByNodeID snap))" using exact by (elim conjE)
  ultimately have "bs_hostByNodeID snap ''n1'' \<noteq> bs_hostByNodeID snap ''n2''"
    using inj_onD [of "bs_hostByNodeID snap" "dom (bs_hostByNodeID snap)" "''n1''" "''n2''"] by auto
  moreover have "bs_available snap" using exact n(1) by (elim conjE) blast
  ultimately show ?thesis using r by blast
qed

subsection \<open>The sticky mode of a backend\<close>

definition mode_kept :: "backendSnapshot \<Rightarrow> backendState \<Rightarrow> bool" where
  "mode_kept snap s = (case s of None \<Rightarrow> False | Some snap' \<Rightarrow> bs_sticky snap' = bs_sticky snap)"

lemma resolver_update_mode:
  "mode_kept snap (fst (resolver_update url_parse serviceName secure accepted instances (Some snap)))"
proof (cases "resolveBackendInstances url_parse serviceName instances secure")
  case (Inl err)
  then show ?thesis by (simp add: mode_kept_def resolver_update_def resolver_reject_def markUnavailable_def)
next
  case (Inr r)
  obtain new addresses where r: "r = (new, addresses)" by (cases r)
  show ?thesis using resolved_available [of url_parse serviceName instances secure new addresses] Inr unfolding r
    by (simp add: mode_kept_def resolver_update_def resolver_reject_def markUnavailable_def state_mode_def Let_def split: option.split)
qed

lemma resolver_consume_mode:
  "mode_kept snap s \<Longrightarrow> mode_kept snap (fst (resolver_consume url_parse serviceName secure updates failure s))"
proof (induction updates arbitrary: s)
  case Nil then show ?case by simp
next
  case (Cons u updates)
  obtain instances accepted where u: "u = (instances, accepted)" by (cases u)
  obtain now where now: "s = Some now" "bs_sticky now = bs_sticky snap"
    using Cons.prems by (auto simp: mode_kept_def split: option.splits)
  have "mode_kept snap (fst (resolver_update url_parse serviceName secure accepted instances s))"
    using resolver_update_mode [of now url_parse serviceName secure accepted instances] now
    by (auto simp: mode_kept_def split: option.splits)
  then show ?case using Cons.IH by (simp add: u case_prod_beta)
qed

lemma resolver_watchOnce_mode:
  "mode_kept snap s \<Longrightarrow> mode_kept snap (fst (resolver_watchOnce url_parse serviceName secure answer ctxErr s))"
  by (cases answer) (simp_all add: resolver_watchOnce_def Let_def case_prod_beta resolver_consume_mode)

lemma resolver_watch_mode:
  "mode_kept snap s \<Longrightarrow> mode_kept snap (fst (resolver_watch url_parse serviceName secure rounds s))"
  by (induction rounds arbitrary: s) (simp_all add: case_prod_beta resolver_watchOnce_mode)

text \<open>
  A backend keeps the sticky mode it was connected with: whatever discovery yields over any number of
  watch rounds, errors and rejected updates included, the snapshot stays present and its mode is the one
  of the first snapshot. So a service cannot turn from sticky to balanced routing under running sessions.
\<close>

lemma sticky_mode_stable:
  "\<exists>snap'. fst (resolver_watch url_parse serviceName secure rounds (Some snap)) = Some snap' \<and> bs_sticky snap' = bs_sticky snap"
proof -
  have "mode_kept snap (fst (resolver_watch url_parse serviceName secure rounds (Some snap)))"
    by (rule resolver_watch_mode) (simp add: mode_kept_def)
  then show ?thesis by (simp add: mode_kept_def split: option.splits)
qed

subsection \<open>Forwarding to the owner\<close>

lemma picker_exact_snoc:
  "picker_exact (ready @ [(conn, service)]) =
     (case service of Some s \<Rightarrow> if si_ID s \<noteq> [] then (picker_exact ready)(si_ID s \<mapsto> conn) else picker_exact ready
      | None \<Rightarrow> picker_exact ready)"
  by (simp add: picker_exact_def split: option.split)

lemma picker_exact_source:
  "picker_exact ready n = Some conn \<Longrightarrow> \<exists>s. (conn, Some s) \<in> set ready \<and> si_ID s = n"
proof (induction ready rule: rev_induct)
  case Nil then show ?case by (simp add: picker_exact_def)
next
  case (snoc x ready)
  then show ?case by (cases x) (auto simp: picker_exact_snoc split: option.splits if_splits)
qed

lemma picker_Pick_exact:
  "n \<noteq> [] \<Longrightarrow> picker_Pick select (picker_Build ready) (withNodeID ctx n) = Inr conn \<Longrightarrow>
   \<exists>s. (conn, Some s) \<in> set ready \<and> si_ID s = n"
  by (auto simp: picker_Pick_def picker_Build_def withNodeID_def intro: picker_exact_source split: if_splits option.splits)

lemma picker_Pick_error:
  "n \<noteq> [] \<Longrightarrow> picker_Pick select (picker_Build ready) (withNodeID ctx n) = Inl err \<Longrightarrow> err = OtherErr ErrNoSubConnAvailable"
  by (auto simp: picker_Pick_def picker_Build_def withNodeID_def split: if_splits option.splits)

lemma resolveNode_owner:
  assumes "resolveNode env ctx binding first w = (w', Inr route)" "nr_nodeID route \<noteq> []"
  shows "nr_binding route = binding \<and> (\<exists>w1 w2 a bk snap.
    be_get env (ServiceName binding) first w1 = (w2, Inr a) \<and> be_heap (st_backends w2) a = Some bk \<and>
    snap = state_load (bk_state bk) \<and> nr_client route = bk_conn bk \<and> bs_available snap \<and> bs_sticky snap \<and>
    nr_nodeID route \<in> dom (bs_hostByNodeID snap) \<and>
    de_LocateNode env ctx (ServiceName binding) (UID binding) w2 = (w', Inr (nr_nodeID route)))"
proof -
  obtain w1 where w1: "de_ctxErr env ctx w = (w1, None)"
    using assms(1) by (cases "de_ctxErr env ctx w"; cases "snd (de_ctxErr env ctx w)") (auto simp: resolveNode_def)
  obtain w2 a where w2: "be_get env (ServiceName binding) first w1 = (w2, Inr a)"
    using assms(1) w1 by (cases "be_get env (ServiceName binding) first w1"; cases "snd (be_get env (ServiceName binding) first w1)")
      (auto simp: resolveNode_def)
  obtain bk where bk: "be_heap (st_backends w2) a = Some bk"
    using assms(1) w1 w2 by (cases "be_heap (st_backends w2) a") (auto simp: resolveNode_def)
  define snap where "snap = state_load (bk_state bk)"
  have snap: "bs_available snap" "bs_sticky snap"
    using assms w1 w2 bk by (auto simp: resolveNode_def Let_def snap_def split: if_splits)
  obtain w3 n where w3: "de_LocateNode env ctx (ServiceName binding) (UID binding) w2 = (w3, Inr n)"
    using assms w1 w2 bk snap by (cases "de_LocateNode env ctx (ServiceName binding) (UID binding) w2";
      cases "snd (de_LocateNode env ctx (ServiceName binding) (UID binding) w2)") (auto simp: resolveNode_def Let_def snap_def split: if_splits)
  have r: "w3 = w'" "route = \<lparr>nr_client = bk_conn bk, nr_binding = binding, nr_nodeID = n, nr_epoch = []\<rparr>"
    "n \<in> dom (bs_hostByNodeID snap)"
    using assms w1 w2 bk snap w3 by (auto simp: resolveNode_def Let_def snap_def split: if_splits)
  then have "nr_binding route = binding" "nr_client route = bk_conn bk" "nr_nodeID route = n" by simp_all
  then show ?thesis using w2 bk snap w3 snap_def r(1,3) by blast
qed

lemma resolveForward_owner:
  assumes "resolveForward env ctx binding first w = (w', Inr route)" "nr_nodeID route \<noteq> []"
  shows "\<exists>w1 route1. resolveNode env ctx binding first w = (w1, Inr route1) \<and> nr_nodeID route1 = nr_nodeID route \<and>
    nr_binding route1 = nr_binding route \<and> nr_client route1 = nr_client route \<and>
    de_LocateNodeEpoch env ctx (ServiceName binding) (nr_nodeID route) w1 = (w', Inr (nr_epoch route))"
proof -
  obtain w1 route1 where n: "resolveNode env ctx binding first w = (w1, Inr route1)"
    using assms(1) by (cases "resolveNode env ctx binding first w"; cases "snd (resolveNode env ctx binding first w)")
      (auto simp: resolveForward_def)
  then have "nr_nodeID route1 \<noteq> []" using assms by (auto simp: resolveForward_def)
  then show ?thesis using assms(1) n
    by (cases "de_LocateNodeEpoch env ctx (ServiceName binding) (nr_nodeID route1) w1";
        cases "snd (de_LocateNodeEpoch env ctx (ServiceName binding) (nr_nodeID route1) w1)") (auto simp: resolveForward_def)
qed


text \<open>A cached sticky service with the node \<open>n1\<close>, which owns the user \<open>u1\<close> under the epoch \<open>e1\<close>.\<close>

definition demo_binding :: GateBinding where
  "demo_binding = zeroBinding\<lparr>ServiceName := ''game'', UID := ''u1''\<rparr>"

definition demo_env :: "'w be_env" where
  "demo_env =
     \<lparr>de_ctxErr = (\<lambda>ctx w. (w, None)), de_GetService = (\<lambda>ctx serviceName w. (w, Inr demo_instances)),
      de_NewClient = (\<lambda>ctx target tls w. (w, Inr 7)), de_ConnClose = (\<lambda>conn w. w), de_url_parse = demo_parse, de_fresh = (\<lambda>w. 1),
      de_LocateNode = (\<lambda>ctx serviceName uid w. (w, Inr ''n1'')), de_LocateNodeEpoch = (\<lambda>ctx serviceName nodeID w. (w, Inr ''e1'')),
      de_Forward = (\<lambda>conn ctx request wait w. (w, Inr (fr_Body request))), de_Disconnect = (\<lambda>conn ctx route wait w. (w, None))\<rparr>"

definition demo_be :: be_state where
  "demo_be = \<lparr>st_gateways = gc_New None, st_backends = (newBackends None 5)\<lparr>be_byService := Some [(''game'', 0)],
     be_heap := [0 \<mapsto> \<lparr>bk_conn = 7, bk_state = Some \<lparr>bs_available = True, bs_sticky = True, bs_hostByNodeID = [''n1'' \<mapsto> ''10.0.0.1:1'']\<rparr>\<rparr>]\<rparr>\<rparr>"

lemma demo_route:
  "resolveForward demo_env Background demo_binding OwnLoad demo_be =
     (demo_be, Inr \<lparr>nr_client = 7, nr_binding = demo_binding, nr_nodeID = ''n1'', nr_epoch = ''e1''\<rparr>)"
proof -
  have valid: "ValidServiceName ''game''" "ValidNodeLocation ''game'' ''u1'' ''n1''" by code_simp+
  show ?thesis
    by (simp add: resolveForward_def resolveNode_def be_get_def be_cached_def demo_env_def demo_be_def newBackends_def
        demo_binding_def state_load_def valid)
qed


end
