(* ===== verification/Gateway.thy ===== *)
theory Gateway
  imports Backend Session
begin

text \<open>
  The handlers of the gateway: \<open>gateway/inbound.go\<close> (connections, authentication, heartbeats),
  \<open>gateway/delivery.go\<close> (pushes and kicks) and \<open>gateway/forward.go\<close> (requests to nodes). A handler runs on the
  state of the whole gateway; every call that leaves it (the clock, the context, the locator, the
  authenticator, connections, RPCs) is an operation of the environment on that state, so whatever other
  goroutines do between two steps of a handler is part of the operation. Sections under a mutex are single
  steps. Logging is left out.
\<close>

section \<open>State and environment\<close>

record gw_state = be_state +
  st_reg :: sessionRegistry

record gw_config =
  gw_id :: string
  gw_endpoint :: string
  gw_rpcTimeout :: duration
  gw_leaseTimeout :: duration
  gw_cleanupTimeout :: duration
  gw_authTimeout :: duration
  gw_leaseTTL :: duration

record ClientAuthReq =
  ar_ServiceName :: string
  ar_Token :: bytes

text \<open>
  \<open>gw_clock\<close> reads the clock, after whatever ran meanwhile. \<open>gw_transport\<close> gives the request headers of the
  transport in the context. \<open>gw_first\<close>, \<open>gw_rounds\<close> and \<open>gw_ended\<close> are the outcomes of the selects of
  \<open>backends.get\<close> and of \<open>gateclient\<close>. \<open>gw_unmarshalAuth\<close> and \<open>gw_size\<close> are the generated protobuf code.
\<close>

record 'w gw_env =
  gw_be :: "'w be_env"
  gw_gc :: "'w gc_env"
  gw_conn :: "'w conn_ops"
  gw_loc :: "(ctx, 'w) gate_ops"
  gw_clock :: "'w \<Rightarrow> 'w \<times> time"
  gw_ctxErr :: "ctx \<Rightarrow> 'w \<Rightarrow> 'w \<times> goerr option"
  gw_auth :: "ctx \<Rightarrow> string \<Rightarrow> bytes \<Rightarrow> string \<Rightarrow> 'w \<Rightarrow> 'w \<times> (goerr + string)"
  gw_uuid :: "'w \<Rightarrow> 'w \<times> string"
  gw_addr :: "'w \<Rightarrow> nat"
  gw_transport :: "ctx \<Rightarrow> headerCarrier option"
  gw_unmarshalAuth :: "bytes \<Rightarrow> goerr + ClientAuthReq"
  gw_size :: "Proto \<Rightarrow> nat"
  gw_first :: "'w \<Rightarrow> load_first"
  gw_rounds :: "'w \<Rightarrow> dial_first list"
  gw_ended :: "'w \<Rightarrow> goerr"

type_synonym 'a gws = "'a gw_state_scheme"

abbreviation sess_at :: "'a gws \<Rightarrow> nat \<Rightarrow> session option" where
  "sess_at w a \<equiv> reg_heap (st_reg w) a"

definition set_sess :: "nat \<Rightarrow> session \<Rightarrow> 'a gws \<Rightarrow> 'a gws" where
  "set_sess a s w = w\<lparr>st_reg := reg_update (st_reg w) a s\<rparr>"

definition cleanupContext :: "gw_config \<Rightarrow> ctx option \<Rightarrow> ctx" where
  "cleanupContext cfg ctx =
     WithTimeout (WithoutCancel (case ctx of None \<Rightarrow> Background | Some c \<Rightarrow> c)) (gw_cleanupTimeout cfg)"

text \<open>Closing a connection, the error discarded.\<close>

definition close_conn :: "'w gw_env \<Rightarrow> Connection \<Rightarrow> 'w \<Rightarrow> 'w" where
  "close_conn env conn w = fst (c_Close (gw_conn env) conn w)"

section \<open>Status codes\<close>

definition locateStatusCode :: "goerr \<Rightarrow> code" where
  "locateStatusCode err =
     (if errors_is err (LocateErr ErrGateNotFound) \<or> errors_is err (LocateErr ErrGateConflict) then Aborted
      else if errors_is err ctx_canceled then Canceled
      else if errors_is err ctx_deadline then DeadlineExceeded
      else if errors_is err (LocateErr ErrInvalidGateBinding) \<or> errors_is err (LocateErr ErrInvalidGateLease) \<or>
              errors_is err (LocateErr ErrInvalidGateTTL) then Internal
      else Unavailable)"

definition forwardStatusCode :: "goerr \<Rightarrow> code" where
  "forwardStatusCode err =
     (if errors_is err ctx_canceled then Canceled
      else if errors_is err ctx_deadline then DeadlineExceeded
      else if errors_is err (LocateErr ErrInvalidNodeBinding) \<or> errors_is err (LocateErr ErrInvalidNodeEpoch) then Internal
      else if errors_is err (LocateErr ErrNodeEpochNotFound) \<or> errors_is err (LocateErr ErrNodeEpochConflict) then Aborted
      else Unavailable)"

definition authenticationFenceCode :: "'a gws gw_env \<Rightarrow> ctx \<Rightarrow> session \<Rightarrow> 'a gws \<Rightarrow> 'a gws \<times> code" where
  "authenticationFenceCode env ctx s w =
     (case gw_ctxErr env ctx w of
        (w, err) \<Rightarrow>
          if (case err of None \<Rightarrow> False | Some e \<Rightarrow> errors_is e ctx_deadline) then (w, DeadlineExceeded)
          else (case gw_clock env w of
            (w, now) \<Rightarrow>
              if \<not> now < s_authDeadline s then (w, DeadlineExceeded)
              else (case gw_ctxErr env ctx w of (w, err) \<Rightarrow> (w, if err \<noteq> None then Canceled else Aborted))))"

definition validExternalFrame :: "'w gw_env \<Rightarrow> Proto option \<Rightarrow> bool" where
  "validExternalFrame env msg = (case msg of None \<Rightarrow> False | Some m \<Rightarrow> gw_size env m \<le> MaxProtoSize)"

definition ownsBinding :: "gw_config \<Rightarrow> GateBinding \<Rightarrow> bool" where
  "ownsBinding cfg b = (GateID b = gw_id cfg \<and> GateEndpoint b = gw_endpoint cfg)"

text \<open>\<open>text\<close> is \<open>err.Error()\<close>, the message of the error.\<close>

definition rpcError :: "(goerr \<Rightarrow> string) \<Rightarrow> goerr \<Rightarrow> goerr" where
  "rpcError text err =
     (if errors_is err (GatewayErr ErrInvalidPush) \<or> errors_is err (GatewayErr ErrInvalidKick) then Status InvalidArgument (text err)
      else if errors_is err (GatewayErr ErrConnectionMissing) then Status NotFound (text err)
      else if errors_is err (GatewayErr ErrBindingChanged) then Status Aborted (text err)
      else if errors_is err (GatewayErr ErrConnectionBusy) \<or> errors_is err (NetErr ErrFrameTooLarge) then Status ResourceExhausted (text err)
      else if errors_is err (GatewayErr ErrConnectionGone) then Status Unavailable (text err)
      else Status Internal ''gateway RPC failed'')"

section \<open>Pushes and kicks\<close>

definition unbindGate :: "'w gw_env \<Rightarrow> ctx \<Rightarrow> GateBinding \<Rightarrow> 'w \<Rightarrow> 'w" where
  "unbindGate env ctx binding w = fst (glUnbind (gw_loc env) ctx binding w)"

definition gw_push :: "gw_config \<Rightarrow> 'a gws gw_env \<Rightarrow> GateBinding \<Rightarrow> Proto option \<Rightarrow> 'a gws \<Rightarrow> 'a gws \<times> goerr option" where
  "gw_push cfg env binding msg w =
     (case msg of
        None \<Rightarrow> (w, Some (GatewayErr ErrInvalidPush))
      | Some m \<Rightarrow>
          if \<not> ValidGateBinding binding \<or> Op m \<noteq> OpPush \<or> \<not> ownsBinding cfg binding then (w, Some (GatewayErr ErrInvalidPush))
          else if \<not> validExternalFrame env msg then (w, Some (NetErr ErrFrameTooLarge))
          else case reg_get (st_reg w) (ConnID binding) of
            None \<Rightarrow> (w, Some (GatewayErr ErrConnectionMissing))
          | Some a \<Rightarrow>
              (case gw_clock env w of
                 (w, now) \<Rightarrow>
                   (case sess_at w a of
                      None \<Rightarrow> (w, Some (GatewayErr ErrConnectionMissing))
                    | Some s \<Rightarrow>
                        (case sendIfCurrent (gw_conn env) s binding m now w of
                           (w, matched, err) \<Rightarrow>
                             if \<not> matched then (w, Some (GatewayErr ErrBindingChanged))
                             else (w, case err of
                                 None \<Rightarrow> None
                               | Some e \<Rightarrow>
                                   if errors_is e (NetErr ErrFrameTooLarge) then Some (NetErr ErrFrameTooLarge)
                                   else if errors_is e (NetErr ErrSendQueueFull) then Some (GatewayErr ErrConnectionBusy)
                                   else Some (GatewayErr ErrConnectionGone))))))"

definition gw_kick ::
  "gw_config \<Rightarrow> 'a gws gw_env \<Rightarrow> ctx \<Rightarrow> GateBinding \<Rightarrow> int \<Rightarrow> 'a gws \<Rightarrow> 'a gws \<times> goerr option" where
  "gw_kick cfg env ctx binding code w =
     (if \<not> ValidGateBinding binding \<or> \<not> ownsBinding cfg binding \<or> code = 0 then (w, Some (GatewayErr ErrInvalidKick))
      else case reg_get (st_reg w) (ConnID binding) of
        None \<Rightarrow> (w, None)
      | Some a \<Rightarrow>
          (case gw_clock env w of
             (w, now) \<Rightarrow>
               (case sess_at w a of
                  None \<Rightarrow> (w, None)
                | Some s \<Rightarrow>
                    (case detachForKick s binding now of
                       (s', detached) \<Rightarrow>
                         if \<not> detached then (w, None)
                         else
                           let w = set_sess a s' w;
                               cleanup = cleanupContext cfg (Some ctx);
                               w = w\<lparr>st_reg := fst (reg_remove (st_reg w) (s_conn s))\<rparr> in
                           (case c_CloseWithProto (gw_conn env) cleanup (s_conn s) (zeroProto\<lparr>Op := OpKick, Code := code\<rparr>) w of
                              (w, err) \<Rightarrow>
                                let w = (if err \<noteq> None then close_conn env (s_conn s) w else w) in
                                (unbindGate env cleanup binding w, None))))))"

definition pushService_Push ::
  "(goerr \<Rightarrow> string) \<Rightarrow> gw_config \<Rightarrow> 'a gws gw_env \<Rightarrow> (GateRoute option \<times> int \<times> bytes) option \<Rightarrow> 'a gws \<Rightarrow> 'a gws \<times> goerr option" where
  "pushService_Push text cfg env request w =
     (case request of
        None \<Rightarrow> (w, Some (Status InvalidArgument ''invalid push request''))
      | Some (route, command, body) \<Rightarrow>
          (case gw_push cfg env (ToBinding route) (Some (zeroProto\<lparr>Op := OpPush, Cmd := command, Body := body\<rparr>)) w of
             (w, err) \<Rightarrow> (w, map_option (rpcError text) err)))"

definition pushService_Kick ::
  "(goerr \<Rightarrow> string) \<Rightarrow> gw_config \<Rightarrow> 'a gws gw_env \<Rightarrow> ctx \<Rightarrow> (GateRoute option \<times> int) option \<Rightarrow> 'a gws \<Rightarrow> 'a gws \<times> goerr option" where
  "pushService_Kick text cfg env ctx request w =
     (case request of
        None \<Rightarrow> (w, Some (Status InvalidArgument ''invalid kick request''))
      | Some (route, code) \<Rightarrow>
          (case gw_kick cfg env ctx (ToBinding route) code w of (w, err) \<Rightarrow> (w, map_option (rpcError text) err)))"

section \<open>Requests to nodes\<close>

definition respond :: "code \<Rightarrow> bytes \<Rightarrow> Proto \<Rightarrow> Proto" where
  "respond code body msg = msg\<lparr>Op := OpResponse, Code := code_num code, Body := body\<rparr>"

definition gw_forward ::
  "gw_config \<Rightarrow> 'a gws gw_env \<Rightarrow> ctx \<Rightarrow> nat \<Rightarrow> Proto \<Rightarrow> 'a gws \<Rightarrow> 'a gws \<times> Proto" where
  "gw_forward cfg env ctx a msg w =
     (case gw_clock env w of
        (w, now) \<Rightarrow>
          (case sess_at w a of
             None \<Rightarrow> (w, respond Unauthenticated [] msg)
           | Some s \<Rightarrow>
               (case sess_route s now of
                  (binding, valid) \<Rightarrow>
                    if \<not> valid then (close_conn env (s_conn s) w, respond Unauthenticated [] msg)
                    else
                      let rpcCtx = WithTimeout ctx (gw_rpcTimeout cfg) in
                      (case resolveForward (gw_be env) rpcCtx binding (gw_first env w) w of
                         (w, Inl err) \<Rightarrow> (w, respond (forwardStatusCode err) [] msg)
                       | (w, Inr route) \<Rightarrow>
                           (case route_forward (gw_be env) rpcCtx route (Cmd msg) (Body msg) w of
                              (w, Inl err) \<Rightarrow> (w, respond (status_code err) [] msg)
                            | (w, Inr reply) \<Rightarrow>
                                let msg = respond OK reply msg in
                                (w, if \<not> validExternalFrame env (Some msg)
                                    then msg\<lparr>Code := code_num ResourceExhausted, Body := []\<rparr> else msg))))))"

definition notifyDisconnect :: "'a gws gw_env \<Rightarrow> ctx \<Rightarrow> GateBinding \<Rightarrow> 'a gws \<Rightarrow> 'a gws" where
  "notifyDisconnect env ctx binding w =
     (case resolveNode (gw_be env) ctx binding (gw_first env w) w of
        (w, Inl err) \<Rightarrow> w
      | (w, Inr route) \<Rightarrow> fst (route_disconnect (gw_be env) ctx route w))"

section \<open>Connections\<close>

definition gw_Open :: "gw_config \<Rightarrow> 'a gws gw_env \<Rightarrow> Connection \<Rightarrow> 'a gws \<Rightarrow> 'a gws \<times> goerr option" where
  "gw_Open cfg env conn w =
     (case gw_clock env w of
        (w, now) \<Rightarrow>
          (case reg_add (st_reg w) conn (gw_authTimeout cfg) now (gw_addr env w) of (r, err) \<Rightarrow> (w\<lparr>st_reg := r\<rparr>, err)))"

text \<open>
  \<open>detachForClose\<close> first waits for the handler and the heartbeat of the session: \<open>gw_clock\<close> stands for that wait.
\<close>

definition gw_Close :: "gw_config \<Rightarrow> 'a gws gw_env \<Rightarrow> ctx \<Rightarrow> Connection \<Rightarrow> 'a gws \<Rightarrow> 'a gws" where
  "gw_Close cfg env ctx conn w =
     (case reg_remove (st_reg w) conn of
        (r, None) \<Rightarrow> w\<lparr>st_reg := r\<rparr>
      | (r, Some a) \<Rightarrow>
          let w = fst (gw_clock env (w\<lparr>st_reg := r\<rparr>)) in
          (case sess_at w a of
             None \<Rightarrow> w
           | Some s \<Rightarrow>
               (case detachForClose s of
                  (s', binding) \<Rightarrow>
                    let w = set_sess a s' w in
                    if \<not> ValidGateBinding binding then w
                    else let cleanup = cleanupContext cfg (Some ctx) in
                      notifyDisconnect env cleanup binding (unbindGate env cleanup binding w))))"

section \<open>Heartbeats\<close>

definition gw_heartbeat :: "gw_config \<Rightarrow> 'a gws gw_env \<Rightarrow> ctx \<Rightarrow> nat \<Rightarrow> 'a gws \<Rightarrow> 'a gws \<times> goerr option" where
  "gw_heartbeat cfg env ctx a w =
     (case gw_clock env w of
        (w, now) \<Rightarrow>
          (case sess_at w a of
             None \<Rightarrow> (w, Some (Fresh ''connection is not registered''))
           | Some s \<Rightarrow>
               (case heartbeatRoute s now (go_div (gw_leaseTTL cfg) 2) of
                  (binding, valid, due) \<Rightarrow>
                    if \<not> valid then (close_conn env (s_conn s) w, Some (Status Aborted ''session lease expired''))
                    else if \<not> due then (w, None)
                    else (case glRenew (gw_loc env) (WithTimeout ctx (gw_leaseTimeout cfg)) binding (gw_leaseTTL cfg) w of
                      (w, Inr lease) \<Rightarrow>
                        (case sess_at w a of
                           None \<Rightarrow> (w, None)
                         | Some s \<Rightarrow> (set_sess a (finishHeartbeat s binding now (TTL lease)) w, None))
                    | (w, Inl err) \<Rightarrow>
                        let code = locateStatusCode err in
                        if code = Aborted \<or> code = Internal
                        then (close_conn env (s_conn s) w,
                              Some (Status code (if code = Internal then ''invalid Gate location state'' else ''session binding changed'')))
                        else if code = Canceled then (w, Some (Status Canceled ''context canceled''))
                        else (w, None)))))"

definition gw_Heartbeat :: "gw_config \<Rightarrow> 'a gws gw_env \<Rightarrow> ctx \<Rightarrow> Connection \<Rightarrow> 'a gws \<Rightarrow> 'a gws \<times> goerr option" where
  "gw_Heartbeat cfg env ctx conn w =
     (case reg_get (st_reg w) (ConnID_of conn) of
        None \<Rightarrow> (w, Some (Fresh ''connection is not registered''))
      | Some a \<Rightarrow> gw_heartbeat cfg env ctx a w)"

section \<open>Authentication\<close>

definition authenticateUID ::
  "'a gws gw_env \<Rightarrow> ctx \<Rightarrow> string \<Rightarrow> bytes \<Rightarrow> 'a gws \<Rightarrow> 'a gws \<times> (goerr + string)" where
  "authenticateUID env ctx serviceName token w =
     (let remoteIP = (case gw_transport env ctx of None \<Rightarrow> [] | Some h \<Rightarrow> header_Get h ''remote_ip'') in
      case gw_auth env ctx serviceName token remoteIP w of
        (w, Inl err) \<Rightarrow>
          (w, Inl (if errors_is err (GatewayErr ErrInvalidCredentials) then Status Unauthenticated ''authentication failed''
                   else if errors_is err ctx_canceled then Status Canceled ''context canceled''
                   else if errors_is err ctx_deadline then Status DeadlineExceeded ''context deadline exceeded''
                   else Status Unavailable ''authentication unavailable''))
      | (w, Inr uid) \<Rightarrow>
          (w, if \<not> ValidUID uid then Inl (Status Unauthenticated ''authentication failed'') else Inr uid))"

definition kickPrevious :: "gw_config \<Rightarrow> 'a gws gw_env \<Rightarrow> ctx \<Rightarrow> GateBinding \<Rightarrow> 'a gws \<Rightarrow> 'a gws" where
  "kickPrevious cfg env ctx previous w =
     (if GateID previous = gw_id cfg then fst (gw_kick cfg env ctx previous KickCodeSessionReplaced w)
      else fst (gc_Kick (gw_gc env) (cleanupContext cfg (Some ctx)) previous KickCodeSessionReplaced (gw_rounds env w) (gw_ended env w) w))"

text \<open>The admitted part of an authentication: bind, commit, and kick the connection that was replaced.\<close>

definition authenticate_admitted ::
  "gw_config \<Rightarrow> 'a gws gw_env \<Rightarrow> ctx \<Rightarrow> nat \<Rightarrow> session \<Rightarrow> GateBinding \<Rightarrow> 'a gws \<Rightarrow> 'a gws \<times> code" where
  "authenticate_admitted cfg env ctx a s binding w =
     (case gw_clock env w of
        (w, boundAt) \<Rightarrow>
          (case glBind (gw_loc env) ctx binding (gw_leaseTTL cfg) w of
             (w, Inl err) \<Rightarrow> (w, locateStatusCode err)
           | (w, Inr (lease, previous)) \<Rightarrow>
               (case gw_ctxErr env ctx w of
                  (w, ctxErr) \<Rightarrow>
                    (case gw_clock env w of
                       (w, now) \<Rightarrow>
                         (case gw_clock env w of (w, now') \<Rightarrow>
                         (case commitAuthentication (st_reg w) a ctxErr lease boundAt now now' of
                            (r, committed) \<Rightarrow>
                              let w = w\<lparr>st_reg := r\<rparr> in
                              if \<not> committed
                              then (case authenticationFenceCode env ctx s w of
                                (w, code) \<Rightarrow> (unbindGate env (cleanupContext cfg (Some ctx)) (Binding lease) w, code))
                              else (case previous of
                                  None \<Rightarrow> (w, OK)
                                | Some p \<Rightarrow> if p = Binding lease then (w, OK) else (kickPrevious cfg env ctx p w, OK))))))))"

definition gw_authenticate ::
  "gw_config \<Rightarrow> 'a gws gw_env \<Rightarrow> ctx \<Rightarrow> nat \<Rightarrow> session \<Rightarrow> Proto \<Rightarrow> 'a gws \<Rightarrow> 'a gws \<times> Proto" where
  "gw_authenticate cfg env ctx a s msg w =
     (let reply = (\<lambda>code. msg\<lparr>Op := OpAuthReply, Code := code_num code, Body := []\<rparr>);
          connID = ConnID_of (s_conn s) in
      if \<not> isAccepting (st_reg w) then (w, reply Unauthenticated)
      else case gw_unmarshalAuth env (Body msg) of
        Inl err \<Rightarrow> (w, reply Unauthenticated)
      | Inr request \<Rightarrow>
          if \<not> ValidServiceName (ar_ServiceName request) then (w, reply Unauthenticated)
          else (case authenticateUID env ctx (ar_ServiceName request) (ar_Token request) w of
            (w, Inl err) \<Rightarrow> (w, reply (status_code err))
          | (w, Inr uid) \<Rightarrow>
              (case gw_uuid env w of
                 (w, token) \<Rightarrow>
                   let binding = \<lparr>ServiceName = ar_ServiceName request, UID = uid, GateID = gw_id cfg,
                         GateEndpoint = gw_endpoint cfg, ConnID = connID, BindingToken = token\<rparr> in
                   (case gw_ctxErr env ctx w of
                      (w, ctxErr) \<Rightarrow>
                        (case gw_clock env w of
                           (w, now) \<Rightarrow>
                             (case admitAuthentication (st_reg w) a ctxErr now of
                                (r, admitted) \<Rightarrow>
                                  let w = w\<lparr>st_reg := r\<rparr> in
                                  if \<not> admitted
                                  then (case authenticationFenceCode env ctx s w of (w, code) \<Rightarrow> (w, reply code))
                                  else (case authenticate_admitted cfg env ctx a s binding w of
                                    (w, code) \<Rightarrow> (w\<lparr>st_reg := auth_done (st_reg w)\<rparr>, reply code))))))))"

section \<open>Messages of a client\<close>

text \<open>The handler lock serialises the calls of a session; the wait for it is \<open>gw_clock\<close>.\<close>

definition gw_Handle :: "gw_config \<Rightarrow> 'a gws gw_env \<Rightarrow> ctx \<Rightarrow> Connection \<Rightarrow> Proto \<Rightarrow> 'a gws \<Rightarrow> 'a gws \<times> (goerr + Proto)" where
  "gw_Handle cfg env ctx conn msg w =
     (if Op msg = OpHeartbeat
      then (case gw_Heartbeat cfg env ctx conn w of
              (w, Some err) \<Rightarrow> (w, Inl err)
            | (w, None) \<Rightarrow> (w, Inr (msg\<lparr>Op := OpHeartbeatReply, Body := []\<rparr>)))
      else case reg_get (st_reg w) (ConnID_of conn) of
        None \<Rightarrow> (w, Inl (Fresh ''connection is not registered''))
      | Some a \<Rightarrow>
          let w = fst (gw_clock env w) in
          (case sess_at w a of
             None \<Rightarrow> (w, Inl (Fresh ''connection is not registered''))
           | Some s \<Rightarrow>
               if Op msg = OpAuth
               then (case beginAuthentication s of
                       (s', False) \<Rightarrow> (close_conn env conn w, Inl (Fresh ''authentication already attempted''))
                     | (s', True) \<Rightarrow>
                         (case gw_authenticate cfg env (WithDeadline ctx (s_authDeadline s)) a s' msg (set_sess a s' w) of
                            (w, reply) \<Rightarrow> (w, Inr reply)))
               else if Op msg = OpRequest
               then (case gw_forward cfg env ctx a msg w of (w, reply) \<Rightarrow> (w, Inr reply))
               else (close_conn env conn w, Inl (Fresh ''unsupported client operation''))))"

section \<open>Properties\<close>

lemma authenticationFenceCode_codes:
  "snd (authenticationFenceCode env ctx s w) \<in> {DeadlineExceeded, Canceled, Aborted}"
  by (auto simp: authenticationFenceCode_def split: prod.splits option.splits)

subsection \<open>A gateway with one session\<close>

definition gw_demo_conn :: Connection where "gw_demo_conn = \<lparr>conn_addr = 1, ConnID_of = ''c1''\<rparr>"

definition gw_demo_cfg :: gw_config where
  "gw_demo_cfg = \<lparr>gw_id = ''g1'', gw_endpoint = ''grpc://10.0.0.9:9'', gw_rpcTimeout = 5, gw_leaseTimeout = 5,
     gw_cleanupTimeout = 5, gw_authTimeout = 10, gw_leaseTTL = 30\<rparr>"

definition gw_demo_binding :: GateBinding where
  "gw_demo_binding = \<lparr>ServiceName = ''game'', UID = ''u1'', GateID = ''g1'', GateEndpoint = ''grpc://10.0.0.9:9'',
     ConnID = ''c1'', BindingToken = ''t1''\<rparr>"

definition gw_demo_session :: session where
  "gw_demo_session = (newSession gw_demo_conn 10 0)\<lparr>s_authAttempted := True, s_binding := gw_demo_binding, s_leaseDeadline := 100\<rparr>"

definition gw_demo :: gw_state where
  "gw_demo = \<lparr>st_gateways = gc_New None, st_backends = newBackends None 5,
     st_reg = \<lparr>reg_byConnID = Some [''c1'' \<mapsto> 0], reg_accepting = True, reg_auths = 0,
               reg_heap = [0 \<mapsto> gw_demo_session]\<rparr>\<rparr>"

definition gw_demo_env :: "gw_state gw_env" where
  "gw_demo_env = \<lparr>gw_be = demo_env, gw_gc = gc_demo_env,
     gw_conn = \<lparr>c_SendProto = (\<lambda>conn msg w. (w, None)), c_SendPrepared = (\<lambda>conn. None),
                c_CloseWithProto = (\<lambda>ctx conn msg w. (w, None)), c_Close = (\<lambda>conn w. (w, None))\<rparr>,
     gw_loc = \<lparr>glBind = (\<lambda>ctx b ttl w. (w, Inr (\<lparr>Binding = b, TTL = ttl\<rparr>, None))), glLocate = (\<lambda>ctx s u w. (w, Inl (LocateErr ErrGateNotFound))),
               glRenew = (\<lambda>ctx b ttl w. (w, Inr \<lparr>Binding = b, TTL = ttl\<rparr>)), glUnbind = (\<lambda>ctx b w. (w, None))\<rparr>,
     gw_clock = (\<lambda>w. (w, 1)), gw_ctxErr = (\<lambda>ctx w. (w, None)), gw_auth = (\<lambda>ctx s t ip w. (w, Inr ''u1'')), gw_uuid = (\<lambda>w. (w, ''t1'')),
     gw_addr = (\<lambda>w. 1), gw_transport = (\<lambda>ctx. None), gw_unmarshalAuth = (\<lambda>b. Inr \<lparr>ar_ServiceName = ''game'', ar_Token = b\<rparr>),
     gw_size = (\<lambda>m. length (Body m)), gw_first = (\<lambda>w. OwnLoad), gw_rounds = (\<lambda>w. []), gw_ended = (\<lambda>w. ctx_deadline)\<rparr>"

lemma gw_demo_valid: "ValidGateBinding gw_demo_binding"
  by code_simp

lemmas gw_demo_defs = gw_demo_def gw_demo_env_def gw_demo_cfg_def gw_demo_session_def gw_demo_conn_def newSession_def

subsection \<open>Handlers\<close>

text \<open>
  C32. A binding is never left behind by an authentication. Once the locator has bound the user, either the
  session has committed the lease under the registry's checks and the client is told \<open>OK\<close>, or the client
  gets a fence code and the last thing done is to unbind exactly that binding under a context of its own,
  independent of the cancelled request.
\<close>

theorem bound_is_committed_or_unbound:
  assumes "gw_clock env w = (w1, boundAt)" "glBind (gw_loc env) ctx binding (gw_leaseTTL cfg) w1 = (w2, Inr (lease, previous))"
    "authenticate_admitted cfg env ctx a s binding w = (w', code)"
  shows "(code = OK \<and> (\<exists>w3 w4 w5 ctxErr now now' r. gw_ctxErr env ctx w2 = (w3, ctxErr) \<and> gw_clock env w3 = (w4, now) \<and>
       gw_clock env w4 = (w5, now') \<and> commitAuthentication (st_reg w5) a ctxErr lease boundAt now now' = (r, True))) \<or>
    (code \<in> {DeadlineExceeded, Canceled, Aborted} \<and>
     (\<exists>w3. w' = unbindGate env (WithTimeout (WithoutCancel ctx) (gw_cleanupTimeout cfg)) (Binding lease) w3))"
proof -
  obtain w3 ctxErr where w3: "gw_ctxErr env ctx w2 = (w3, ctxErr)" by fastforce
  obtain w4 now where w4: "gw_clock env w3 = (w4, now)" by fastforce
  obtain w5 now' where w5: "gw_clock env w4 = (w5, now')" by fastforce
  obtain r committed where r: "commitAuthentication (st_reg w5) a ctxErr lease boundAt now now' = (r, committed)" by fastforce
  show ?thesis
  proof (cases committed)
    case True
    then have "code = OK" using assms w3 w4 w5 r
      by (auto simp: authenticate_admitted_def Let_def split: option.splits if_splits)
    moreover have "commitAuthentication (st_reg w5) a ctxErr lease boundAt now now' = (r, True)" using r True by simp
    ultimately show ?thesis using w3 w4 w5 by blast
  next
    case False
    obtain w6 c where c: "authenticationFenceCode env ctx s (w5\<lparr>st_reg := r\<rparr>) = (w6, c)" by fastforce
    then have "w' = unbindGate env (WithTimeout (WithoutCancel ctx) (gw_cleanupTimeout cfg)) (Binding lease) w6" "code = c"
      using assms w3 w4 w5 r False by (auto simp: authenticate_admitted_def Let_def cleanupContext_def)
    then show ?thesis using authenticationFenceCode_codes [of env ctx s "w5\<lparr>st_reg := r\<rparr>"] c by auto
  qed
qed

theorem bound_is_committed_or_unbound_witness:
  "authenticate_admitted gw_demo_cfg gw_demo_env Background 0 gw_demo_session gw_demo_binding gw_demo = (gw_demo\<lparr>st_reg := (st_reg gw_demo)
       \<lparr>reg_heap := [0 \<mapsto> gw_demo_session\<lparr>s_leaseDeadline := 31, s_authTimer := False\<rparr>]\<rparr>\<rparr>, OK) \<and>
   (\<exists>r. commitAuthentication (st_reg gw_demo) 0 None \<lparr>Binding = gw_demo_binding, TTL = 30\<rparr> 1 1 1 = (r, True))"
proof -
  have run: "authenticate_admitted gw_demo_cfg gw_demo_env Background 0 gw_demo_session gw_demo_binding gw_demo = (gw_demo\<lparr>st_reg := (st_reg gw_demo)
       \<lparr>reg_heap := [0 \<mapsto> gw_demo_session\<lparr>s_leaseDeadline := 31, s_authTimer := False\<rparr>]\<rparr>\<rparr>, OK)"
    by (simp add: authenticate_admitted_def gw_demo_defs commitAuthentication_def reg_get_def canAuthenticate_def finishAuthentication_def)
  have "gw_clock gw_demo_env gw_demo = (gw_demo, 1)"
    "glBind (gw_loc gw_demo_env) Background gw_demo_binding (gw_leaseTTL gw_demo_cfg) gw_demo =
       (gw_demo, Inr (\<lparr>Binding = gw_demo_binding, TTL = 30\<rparr>, None))"
    by (simp_all add: gw_demo_env_def gw_demo_cfg_def)
  from bound_is_committed_or_unbound [OF this run] run show ?thesis by (auto simp: gw_demo_env_def)
qed

lemma gw_authenticate_reply:
  "gw_authenticate cfg env ctx a s msg w = (w', reply) \<Longrightarrow>
   Op reply = OpAuthReply \<and> Seq reply = Seq msg \<and> Cmd reply = Cmd msg \<and> Body reply = []"
  by (auto simp: gw_authenticate_def Let_def split: if_splits sum.splits prod.splits)

lemma gw_forward_reply:
  assumes "gw_forward cfg env ctx a msg w = (w', reply)"
  shows "Op reply = OpResponse \<and> Seq reply = Seq msg \<and> Cmd reply = Cmd msg \<and> (Body reply = [] \<or> gw_size env reply \<le> MaxProtoSize)"
  using assms
  by (auto simp: gw_forward_def respond_def Let_def validExternalFrame_def split: if_splits sum.splits prod.splits option.splits)

text \<open>
  C34. Every reply answers its request. When \<open>Handle\<close> returns a message, its operation is the reply of the
  request's operation, its sequence number and command are those of the request, and its body is empty or
  the whole frame is within the size a client accepts. A client operation other than authentication,
  heartbeat and request gets no reply.
\<close>

theorem handle_reply_matches:
  assumes "gw_Handle cfg env ctx conn msg w = (w', Inr reply)"
  shows "(Op msg, Op reply) \<in> {(OpAuth, OpAuthReply), (OpHeartbeat, OpHeartbeatReply), (OpRequest, OpResponse)} \<and>
    Seq reply = Seq msg \<and> Cmd reply = Cmd msg \<and> (Body reply = [] \<or> gw_size env reply \<le> MaxProtoSize)"
proof -
  consider "Op msg = OpHeartbeat" | "Op msg = OpAuth" | "Op msg = OpRequest"
    | "Op msg \<notin> {OpHeartbeat, OpAuth, OpRequest}" by blast
  then show ?thesis
  proof cases
    case 1 then show ?thesis using assms by (auto simp: gw_Handle_def split: prod.splits option.splits)
  next
    case 2
    then obtain c a1 s1 w1 where "gw_authenticate cfg env c a1 s1 msg w1 = (w', reply)"
      using assms by (auto simp: gw_Handle_def Let_def op_defs split: prod.splits option.splits bool.splits)
    from gw_authenticate_reply [OF this] show ?thesis using 2 by simp
  next
    case 3
    then obtain a1 w1 where "gw_forward cfg env ctx a1 msg w1 = (w', reply)"
      using assms by (auto simp: gw_Handle_def Let_def op_defs split: prod.splits option.splits)
    from gw_forward_reply [OF this] show ?thesis using 3 by simp
  next
    case 4 then show ?thesis using assms by (auto simp: gw_Handle_def Let_def split: option.splits)
  qed
qed

theorem handle_reply_matches_witness:
  "\<exists>w' reply. gw_Handle gw_demo_cfg gw_demo_env Background gw_demo_conn (zeroProto\<lparr>Op := OpHeartbeat, Seq := 4\<rparr>) gw_demo = (w', Inr reply) \<and>
     Op reply = OpHeartbeatReply \<and> Seq reply = 4"
proof -
  have "\<exists>w' reply. gw_Handle gw_demo_cfg gw_demo_env Background gw_demo_conn (zeroProto\<lparr>Op := OpHeartbeat, Seq := 4\<rparr>) gw_demo = (w', Inr reply)"
    using gw_demo_valid
    by (simp add: gw_Handle_def gw_Heartbeat_def gw_heartbeat_def gw_demo_defs reg_get_def heartbeatRoute_def leaseValidLocked_def go_div_def)
  then obtain w' reply where run:
    "gw_Handle gw_demo_cfg gw_demo_env Background gw_demo_conn (zeroProto\<lparr>Op := OpHeartbeat, Seq := 4\<rparr>) gw_demo = (w', Inr reply)" by blast
  from handle_reply_matches [OF this] have "Op reply = OpHeartbeatReply" "Seq reply = 4" by (auto simp: op_defs)
  then show ?thesis using run by blast
qed



end
