(* ===== verification/Broadcast.thy ===== *)
theory Broadcast
  imports Gateway Admission "HOL-Library.Word" "HOL-Library.Multiset"
begin

text \<open>
  \<open>gateway/broadcast.go\<close>: local broadcasts. Accepted messages wait in a bounded queue; a coordinator takes
  one at a time, splits the registered sessions into batches for a fixed set of workers and waits for all
  of them before it takes the next message. The operations are functions on the broadcaster; the
  coordinator and the workers are goroutines of the run and move by the relation \<open>brun\<close>, in any order.
\<close>

unbundle bit_operations_syntax

section \<open>Data\<close>

text \<open>Where the goroutines of a run are; a coordinator keeps the batches it has not handed out and the start of the message.\<close>

datatype coordinator =
    CoordIdle
  | CoordSending "nat list list" nat time
  | CoordWaiting nat time
  | CoordReturned

datatype fanout_worker = WorkerIdle | WorkerSending "nat list" | WorkerAt nat "nat list" | WorkerSignalling | WorkerExited

record broadcastRun =
  br_cancelled :: bool
  br_pushes :: "Proto list"
  br_batches :: "nat list list"
  br_batchDone :: nat
  br_sessions :: "nat list"
  br_prepared :: PreparedProto
  br_coord :: coordinator
  br_workers :: "fanout_worker list"

record broadcaster =
  b_workers :: nat
  b_queueCapacity :: nat
  b_active :: "broadcastRun option"
  b_accepted :: "64 word"
  b_completed :: "64 word"
  b_queueDropped :: "64 word"
  b_sendDropped :: "64 word"
  b_lastFanout :: "64 word"
  b_maxFanout :: "64 word"

record BroadcastStats =
  bs_QueueDepth :: nat
  bs_QueueCapacity :: nat
  bs_Accepted :: "64 word"
  bs_Completed :: "64 word"
  bs_QueueDropped :: "64 word"
  bs_SendDropped :: "64 word"
  bs_LastFanoutDuration :: "64 word"
  bs_MaxFanoutDuration :: "64 word"

definition newBroadcaster :: "nat \<Rightarrow> nat \<Rightarrow> broadcaster" where
  "newBroadcaster workers queueCapacity =
     \<lparr>b_workers = workers, b_queueCapacity = queueCapacity, b_active = None, b_accepted = 0, b_completed = 0, b_queueDropped = 0,
      b_sendDropped = 0, b_lastFanout = 0, b_maxFanout = 0\<rparr>"

section \<open>Operations\<close>

definition new_run :: "nat \<Rightarrow> broadcastRun" where
  "new_run workers =
     \<lparr>br_cancelled = False, br_pushes = [], br_batches = [], br_batchDone = 0, br_sessions = [],
      br_prepared = \<lparr>pp_message = None, pp_state = None\<rparr>, br_coord = CoordIdle, br_workers = replicate workers WorkerIdle\<rparr>"

definition bc_start :: "broadcaster \<Rightarrow> broadcaster \<times> goerr option" where
  "bc_start b =
     (case b_active b of
        Some _ \<Rightarrow> (b, Some (Fresh ''gateway: broadcaster is already started''))
      | None \<Rightarrow> (b\<lparr>b_active := Some (new_run (b_workers b))\<rparr>, None))"

text \<open>The first part of \<open>stop\<close> cancels the run; the rest waits for it.\<close>

definition stop_cancel :: "broadcaster \<Rightarrow> broadcaster" where
  "stop_cancel b = b\<lparr>b_active := map_option (\<lambda>r. r\<lparr>br_cancelled := True\<rparr>) (b_active b)\<rparr>"

definition bc_stop :: "wait_event \<Rightarrow> broadcaster \<Rightarrow> broadcaster \<times> goerr option" where
  "bc_stop ev b = (case b_active b of None \<Rightarrow> (b, None) | Some r \<Rightarrow> (stop_cancel b, contextwait_Done ev))"

text \<open>A dropped message is logged when the counter reaches a power of two.\<close>

definition recordDrop :: "64 word \<Rightarrow> 64 word \<times> bool" where
  "recordDrop counter = (let dropped = counter + 1 in (dropped, dropped AND (dropped - 1) = 0))"

definition enqueue :: "Proto \<Rightarrow> broadcaster \<Rightarrow> broadcaster \<times> goerr option" where
  "enqueue message b =
     (case b_active b of
        None \<Rightarrow> (b, Some (GatewayErr ErrBroadcastUnavailable))
      | Some r \<Rightarrow>
          if br_cancelled r then (b, Some (GatewayErr ErrBroadcastUnavailable))
          else if length (br_pushes r) < b_queueCapacity b
          then (b\<lparr>b_active := Some (r\<lparr>br_pushes := br_pushes r @ [message]\<rparr>), b_accepted := b_accepted b + 1\<rparr>, None)
          else (b\<lparr>b_queueDropped := fst (recordDrop (b_queueDropped b))\<rparr>, Some (GatewayErr ErrBroadcastQueueFull)))"

definition gw_Broadcast :: "'w gw_env \<Rightarrow> int \<Rightarrow> bytes \<Rightarrow> broadcaster \<Rightarrow> broadcaster \<times> goerr option" where
  "gw_Broadcast env command payload b =
     (let message = zeroProto\<lparr>Op := OpPush, Cmd := command, Body := payload\<rparr> in
      if \<not> validExternalFrame env (Some message) then (b, Some (NetErr ErrFrameTooLarge)) else enqueue message b)"

definition bc_stats :: "broadcaster \<Rightarrow> BroadcastStats" where
  "bc_stats b =
     \<lparr>bs_QueueDepth = (case b_active b of None \<Rightarrow> 0 | Some r \<Rightarrow> length (br_pushes r)), bs_QueueCapacity = b_queueCapacity b,
      bs_Accepted = b_accepted b, bs_Completed = b_completed b, bs_QueueDropped = b_queueDropped b, bs_SendDropped = b_sendDropped b,
      bs_LastFanoutDuration = b_lastFanout b, bs_MaxFanoutDuration = b_maxFanout b\<rparr>"

definition recordCompleted :: "duration \<Rightarrow> broadcaster \<Rightarrow> broadcaster" where
  "recordCompleted d b =
     (let nanoseconds = word_of_int d in
      b\<lparr>b_lastFanout := nanoseconds, b_maxFanout := (if b_maxFanout b < nanoseconds then nanoseconds else b_maxFanout b),
        b_completed := b_completed b + 1\<rparr>)"

section \<open>Fanout\<close>

text \<open>The batches of \<open>fanout\<close>: slices of equal size from \<open>offset\<close> on, the last one possibly shorter.\<close>

function batch_loop :: "nat \<Rightarrow> nat \<Rightarrow> nat list \<Rightarrow> nat list list" where
  "batch_loop batchSize offset sessions =
     (if offset < length sessions \<and> 0 < batchSize
      then let end' = min (offset + batchSize) (length sessions) in
           take (end' - offset) (drop offset sessions) # batch_loop batchSize (offset + batchSize) sessions
      else [])"
  by pat_completeness auto
termination
  by (relation "measure (\<lambda>(size, offset, sessions). length sessions - offset)") auto

declare batch_loop.simps [simp del]

definition fanout_batches :: "nat \<Rightarrow> nat list \<Rightarrow> nat list list" where
  "fanout_batches workers sessions =
     (let batchCount = min workers (length sessions) in
      if batchCount = 0 then [] else batch_loop ((length sessions + batchCount - 1) div batchCount) 0 sessions)"

definition drop_reason :: "goerr \<Rightarrow> string" where
  "drop_reason err =
     (if errors_is err (NetErr ErrSendQueueFull) then ''connection_queue_full''
      else if errors_is err (NetErr ErrConnectionClosed) then ''connection_closed'' else ''connection_error'')"

section \<open>The goroutines of a run\<close>

text \<open>
  The broadcaster with the session registry and the rest of the state. \<open>bw_taken\<close> and \<open>bw_snaps\<close> are the
  messages the coordinator took and the sessions it took them for, \<open>bw_accepted\<close> the messages accepted by
  this run, and \<open>bw_log\<close> the sends: the number of the message, the session and the message itself.
\<close>

record 'w bworld =
  bw_b :: broadcaster
  bw_reg :: sessionRegistry
  bw_w :: 'w
  bw_accepted :: "Proto list"
  bw_taken :: "Proto list"
  bw_snaps :: "nat list list"
  bw_log :: "(nat \<times> nat \<times> Proto option) list"

abbreviation run_of :: "'w bworld \<Rightarrow> broadcastRun option" where
  "run_of w \<equiv> b_active (bw_b w)"

definition set_run :: "broadcastRun \<Rightarrow> 'w bworld \<Rightarrow> 'w bworld" where
  "set_run r w = w\<lparr>bw_b := (bw_b w)\<lparr>b_active := Some r\<rparr>\<rparr>"

text \<open>The coordinator takes the first message, prepares it and takes a snapshot of the sessions.\<close>

definition fanout_take :: "Proto \<Rightarrow> Proto list \<Rightarrow> nat list \<Rightarrow> time \<Rightarrow> broadcastRun \<Rightarrow> 'w bworld \<Rightarrow> 'w bworld" where
  "fanout_take message rest sessions started r w =
     (set_run (r\<lparr>br_pushes := rest, br_prepared := prepared_Reset (Some message) (br_prepared r), br_sessions := sessions,
        br_coord := CoordSending (fanout_batches (b_workers (bw_b w)) sessions) 0 started\<rparr>) w)
     \<lparr>bw_taken := bw_taken w @ [message], bw_snaps := bw_snaps w @ [sessions]\<rparr>"

text \<open>One session of \<open>sendBatch\<close>, after the check of the context.\<close>

definition send_one :: "'w conn_ops \<Rightarrow> nat \<Rightarrow> session \<Rightarrow> time \<Rightarrow> broadcastRun \<Rightarrow> 'w bworld \<Rightarrow> 'w bworld" where
  "send_one C a s now r w =
     (case sendIfAuthenticated C s (Some (br_prepared r)) now (bw_w w) of
        (x, prepared, matched, err) \<Rightarrow>
          let b = (bw_b w)\<lparr>b_active := Some (r\<lparr>br_prepared := (case prepared of None \<Rightarrow> br_prepared r | Some p \<Rightarrow> p)\<rparr>)\<rparr>;
              b = (if \<not> matched \<or> err = None then b else b\<lparr>b_sendDropped := fst (recordDrop (b_sendDropped b))\<rparr>) in
          w\<lparr>bw_b := b, bw_w := x, bw_log := bw_log w @ [(length (bw_snaps w) - 1, a, pp_message (br_prepared r))]\<rparr>)"

text \<open>
  The steps of the coordinator and of the workers. Sends and receives on the two bounded channels need room
  or an element. A select whose context has ended may still choose another case that is ready.
\<close>

inductive brun :: "'w conn_ops \<Rightarrow> 'w bworld \<Rightarrow> 'w bworld \<Rightarrow> bool" for C where
  c_take: "\<lbrakk>run_of w = Some r; br_coord r = CoordIdle; br_pushes r = m # ms; map_order (bw_reg w) order\<rbrakk> \<Longrightarrow>
    brun C w (fanout_take m ms (reg_snapshot (bw_reg w) order) now r w)"
| c_give: "\<lbrakk>run_of w = Some r; br_coord r = CoordSending (x # xs) n t; length (br_batches r) < b_workers (bw_b w)\<rbrakk> \<Longrightarrow>
    brun C w (set_run (r\<lparr>br_batches := br_batches r @ [x], br_coord := CoordSending xs (Suc n) t\<rparr>) w)"
| c_given: "\<lbrakk>run_of w = Some r; br_coord r = CoordSending [] n t\<rbrakk> \<Longrightarrow>
    brun C w (set_run (r\<lparr>br_coord := CoordWaiting n t\<rparr>) w)"
| c_collect: "\<lbrakk>run_of w = Some r; br_coord r = CoordWaiting (Suc n) t; br_batchDone r = Suc d\<rbrakk> \<Longrightarrow>
    brun C w (set_run (r\<lparr>br_batchDone := d, br_coord := CoordWaiting n t\<rparr>) w)"
| c_complete: "\<lbrakk>run_of w = Some r; br_coord r = CoordWaiting 0 t\<rbrakk> \<Longrightarrow>
    brun C w (w\<lparr>bw_b := recordCompleted (now - t) ((bw_b w)\<lparr>b_active := Some (r\<lparr>br_sessions := [], br_coord := CoordIdle\<rparr>)\<rparr>)\<rparr>)"
| c_return: "\<lbrakk>run_of w = Some r; br_cancelled r;
    case br_coord r of CoordIdle \<Rightarrow> True | CoordSending xs n t \<Rightarrow> xs \<noteq> [] | CoordWaiting n t \<Rightarrow> n \<noteq> 0 | CoordReturned \<Rightarrow> False\<rbrakk> \<Longrightarrow>
    brun C w (set_run (r\<lparr>br_coord := CoordReturned\<rparr>) w)"
| c_finish: "\<lbrakk>run_of w = Some r; br_coord r = CoordReturned; set (br_workers r) \<subseteq> {WorkerExited}\<rbrakk> \<Longrightarrow>
    brun C w (w\<lparr>bw_b := (bw_b w)\<lparr>b_active := None\<rparr>\<rparr>)"
| w_take: "\<lbrakk>run_of w = Some r; br_workers r = pre @ WorkerIdle # post; br_batches r = x # xs\<rbrakk> \<Longrightarrow>
    brun C w (set_run (r\<lparr>br_batches := xs, br_workers := pre @ WorkerSending x # post\<rparr>) w)"
| w_exit: "\<lbrakk>run_of w = Some r; br_workers r = pre @ WorkerIdle # post; br_cancelled r\<rbrakk> \<Longrightarrow>
    brun C w (set_run (r\<lparr>br_workers := pre @ WorkerExited # post\<rparr>) w)"
| w_check: "\<lbrakk>run_of w = Some r; br_workers r = pre @ WorkerSending (a # as) # post; \<not> br_cancelled r\<rbrakk> \<Longrightarrow>
    brun C w (set_run (r\<lparr>br_workers := pre @ WorkerAt a as # post\<rparr>) w)"
| w_send: "\<lbrakk>run_of w = Some r; br_workers r = pre @ WorkerAt a as # post; reg_heap (bw_reg w) a = Some s\<rbrakk> \<Longrightarrow>
    brun C w (send_one C a s now (r\<lparr>br_workers := pre @ WorkerSending as # post\<rparr>) w)"
| w_end: "\<lbrakk>run_of w = Some r; br_workers r = pre @ WorkerSending as # post; as = [] \<or> br_cancelled r\<rbrakk> \<Longrightarrow>
    brun C w (set_run (r\<lparr>br_workers := pre @ WorkerSignalling # post\<rparr>) w)"
| w_signal: "\<lbrakk>run_of w = Some r; br_workers r = pre @ WorkerSignalling # post; br_batchDone r < b_workers (bw_b w)\<rbrakk> \<Longrightarrow>
    brun C w (set_run (r\<lparr>br_batchDone := Suc (br_batchDone r), br_workers := pre @ WorkerIdle # post\<rparr>) w)"

text \<open>
  What the rest of the gateway does meanwhile: it starts and stops the broadcaster, enqueues messages and
  changes sessions and connections. The registry is a finite map of existing sessions, and a
  session a worker still holds is not freed.
\<close>

definition reg_alive :: "sessionRegistry \<Rightarrow> bool" where
  "reg_alive r = (case reg_byConnID r of None \<Rightarrow> True | Some m \<Rightarrow> finite (dom m) \<and> ran m \<subseteq> dom (reg_heap r))"

inductive bother :: "'w bworld \<Rightarrow> 'w bworld \<Rightarrow> bool" where
  o_start: "bc_start (bw_b w) = (b, None) \<Longrightarrow> bother w (w\<lparr>bw_b := b, bw_accepted := [], bw_taken := [], bw_snaps := [], bw_log := []\<rparr>)"
| o_stop: "bother w (w\<lparr>bw_b := stop_cancel (bw_b w)\<rparr>)"
| o_accept: "enqueue m (bw_b w) = (b, None) \<Longrightarrow> bother w (w\<lparr>bw_b := b, bw_accepted := bw_accepted w @ [m]\<rparr>)"
| o_refuse: "enqueue m (bw_b w) = (b, Some err) \<Longrightarrow> bother w (w\<lparr>bw_b := b\<rparr>)"
| o_rest: "reg_alive reg \<Longrightarrow> dom (reg_heap (bw_reg w)) \<subseteq> dom (reg_heap reg) \<Longrightarrow> bother w (w\<lparr>bw_reg := reg, bw_w := x\<rparr>)"

inductive breach :: "'w conn_ops \<Rightarrow> nat \<Rightarrow> nat \<Rightarrow> 'w bworld \<Rightarrow> bool" for C workers capacity where
  b_new: "breach C workers capacity
    \<lparr>bw_b = newBroadcaster workers capacity, bw_reg = reg_start, bw_w = x, bw_accepted = [], bw_taken = [], bw_snaps = [], bw_log = []\<rparr>"
| b_run: "breach C workers capacity w \<Longrightarrow> brun C w w' \<Longrightarrow> breach C workers capacity w'"
| b_other: "breach C workers capacity w \<Longrightarrow> bother w w' \<Longrightarrow> breach C workers capacity w'"

section \<open>Batches\<close>

lemma concat_batch_loop: "0 < sz \<Longrightarrow> concat (batch_loop sz offset xs) = drop offset xs"
proof (induction sz offset xs rule: batch_loop.induct)
  case (1 sz offset xs)
  show ?case
  proof (cases "offset < length xs")
    case True
    have "take (min (offset + sz) (length xs) - offset) (drop offset xs) = take sz (drop offset xs)"
      by (cases "offset + sz \<le> length xs") (simp_all add: min_def)
    moreover have "drop (offset + sz) xs = drop sz (drop offset xs)" by (simp add: add.commute)
    ultimately show ?thesis using 1 True by (subst batch_loop.simps) (simp add: Let_def del: drop_drop)
  qed (simp add: batch_loop.simps)
qed

lemma length_batch_loop: "0 < sz \<Longrightarrow> length xs \<le> offset + k * sz \<Longrightarrow> length (batch_loop sz offset xs) \<le> k"
proof (induction sz offset xs arbitrary: k rule: batch_loop.induct)
  case (1 sz offset xs)
  show ?case
  proof (cases "offset < length xs")
    case True
    then obtain k' where k: "k = Suc k'" using 1(3) by (cases k) auto
    have "length (batch_loop sz (offset + sz) xs) \<le> k'"
      using 1(1) [of "min (offset + sz) (length xs)" k'] True 1(2,3) by (simp add: k algebra_simps)
    then show ?thesis using True 1(2) by (subst batch_loop.simps) (simp add: Let_def k)
  qed (simp add: batch_loop.simps)
qed

text \<open>Every session is in exactly one batch, in order, and there are no more batches than workers.\<close>

lemma ceil_div: "0 < c \<Longrightarrow> n \<le> c * ((n + c - 1) div (c :: nat))"
proof -
  assume c: "0 < c"
  have "n + c - 1 < c * ((n + c - 1) div c) + c" using c by (metis add_less_cancel_left mod_less_divisor mult_div_mod_eq)
  then show ?thesis using c by linarith
qed

lemma fanout_batches_concat: "0 < workers \<Longrightarrow> concat (fanout_batches workers xs) = xs"
  using concat_batch_loop [of "(length xs + min workers (length xs) - 1) div min workers (length xs)" 0 xs] ceil_div [of "min workers (length xs)" "length xs"]
  by (cases "xs = []") (auto simp: fanout_batches_def Let_def intro!: concat_batch_loop [THEN trans] gr0I)

lemma fanout_batches_length: "length (fanout_batches workers xs) \<le> workers"
proof (cases "min workers (length xs) = 0")
  case False
  let ?c = "min workers (length xs)" let ?sz = "(length xs + ?c - 1) div ?c"
  have le: "length xs \<le> ?c * ?sz" using ceil_div [of ?c "length xs"] False by simp
  then have "0 < ?sz" using False by (metis gr0I le_zero_eq min_0R mult_0_right)
  then have "length (batch_loop ?sz 0 xs) \<le> ?c" using le by (intro length_batch_loop) simp_all
  then show ?thesis using False by (simp add: fanout_batches_def Let_def)
qed (simp add: fanout_batches_def)

section \<open>Invariant\<close>

text \<open>Sending a prepared message may fill in its encoding and keeps the message.\<close>

definition keeps_message :: "'w conn_ops \<Rightarrow> bool" where
  "keeps_message C \<longleftrightarrow>
     (\<forall>conn f p w x q err. c_SendPrepared C conn = Some f \<longrightarrow> f (Some p) w = (x, Some q, err) \<longrightarrow> pp_message q = pp_message p)"

fun worker_todo :: "fanout_worker \<Rightarrow> nat list" where
  "worker_todo (WorkerSending as) = as"
| "worker_todo (WorkerAt a as) = a # as"
| "worker_todo _ = []"

fun worker_busy :: "fanout_worker \<Rightarrow> nat" where
  "worker_busy WorkerIdle = 0"
| "worker_busy WorkerExited = 0"
| "worker_busy _ = 1"

fun coord_todo :: "coordinator \<Rightarrow> nat list list" where
  "coord_todo (CoordSending xs n t) = xs"
| "coord_todo _ = []"

text \<open>The sessions the current message still has to reach, and the batches without a collected signal.\<close>

definition pending :: "broadcastRun \<Rightarrow> nat multiset" where
  "pending r = mset (concat (coord_todo (br_coord r))) + mset (concat (br_batches r)) + mset (concat (map worker_todo (br_workers r)))"

definition outstanding :: "broadcastRun \<Rightarrow> nat" where
  "outstanding r = length (br_batches r) + sum_list (map worker_busy (br_workers r)) + br_batchDone r"

definition run_ok :: "nat \<Rightarrow> broadcastRun \<Rightarrow> bool" where
  "run_ok n r \<longleftrightarrow> length (br_workers r) = n \<and> (WorkerExited \<in> set (br_workers r) \<longrightarrow> br_cancelled r) \<and>
     (case br_coord r of
        CoordIdle \<Rightarrow> outstanding r = 0
      | CoordSending xs k t \<Rightarrow> outstanding r = k \<and> k + length xs \<le> n
      | CoordWaiting k t \<Rightarrow> outstanding r = k \<and> k \<le> n
      | CoordReturned \<Rightarrow> br_cancelled r \<and> outstanding r \<le> n)"

definition fresh_run :: "broadcastRun \<Rightarrow> bool" where
  "fresh_run r \<longleftrightarrow> outstanding r = 0 \<and> (br_coord r = CoordIdle \<or> br_coord r = CoordReturned)"

definition sent :: "nat \<Rightarrow> 'w bworld \<Rightarrow> nat multiset" where
  "sent k w = mset (map (fst \<circ> snd) (filter (\<lambda>e. fst e = k) (bw_log w)))"

definition log_ok :: "'w bworld \<Rightarrow> bool" where
  "log_ok w \<longleftrightarrow> length (bw_snaps w) = length (bw_taken w) \<and> sorted (map fst (bw_log w)) \<and>
     (\<forall>(k, a, m) \<in> set (bw_log w). k < length (bw_taken w) \<and> m = Some (bw_taken w ! k))"

text \<open>The messages of the run so far, each with what is missing of it.\<close>

definition accounted :: "bool \<Rightarrow> nat multiset \<Rightarrow> 'w bworld \<Rightarrow> bool" where
  "accounted exact rest w \<longleftrightarrow>
     (\<forall>k < length (bw_snaps w).
        let got = sent k w + (if Suc k = length (bw_snaps w) then rest else {#}) in
        got \<subseteq># mset (bw_snaps w ! k) \<and> (exact \<longrightarrow> got = mset (bw_snaps w ! k)))"

definition running_ok :: "'w bworld \<Rightarrow> broadcastRun \<Rightarrow> bool" where
  "running_ok w r \<longleftrightarrow>
     bw_accepted w = bw_taken w @ br_pushes r \<and> length (br_pushes r) \<le> b_queueCapacity (bw_b w) \<and> run_ok (b_workers (bw_b w)) r \<and>
     accounted (\<not> br_cancelled r) (pending r) w \<and> set_mset (pending r) \<subseteq> dom (reg_heap (bw_reg w)) \<and>
     (bw_taken w = [] \<longrightarrow> fresh_run r) \<and>
     (bw_taken w \<noteq> [] \<longrightarrow> pp_message (br_prepared r) = Some (last (bw_taken w)))"

definition binv :: "nat \<Rightarrow> nat \<Rightarrow> 'w bworld \<Rightarrow> bool" where
  "binv workers capacity w \<longleftrightarrow>
     b_workers (bw_b w) = workers \<and> b_queueCapacity (bw_b w) = capacity \<and> reg_alive (bw_reg w) \<and> log_ok w \<and>
     (case run_of w of
        None \<Rightarrow> accounted False {#} w \<and> (\<exists>ms. bw_accepted w = bw_taken w @ ms)
      | Some r \<Rightarrow> running_ok w r)"

lemma outstanding_zero: "outstanding r = 0 \<Longrightarrow> coord_todo (br_coord r) = [] \<Longrightarrow> pending r = {#}"
proof -
  assume a: "outstanding r = 0" "coord_todo (br_coord r) = []"
  then have "worker_busy x = 0" if "x \<in> set (br_workers r)" for x using that by (auto simp: outstanding_def)
  then have "worker_todo x = []" if "x \<in> set (br_workers r)" for x using that by (cases x) force+
  then show ?thesis using a by (simp add: pending_def outstanding_def)
qed

lemma accounted_mono: "accounted e rest w \<Longrightarrow> rest' \<subseteq># rest \<Longrightarrow> (e' \<longrightarrow> e \<and> rest' = rest) \<Longrightarrow> accounted e' rest' w"
  by (auto simp: accounted_def Let_def split: if_splits intro: subset_mset.trans subset_mset.add_mono)

lemma ghosts_set_run [simp]:
  "bw_snaps (set_run r w) = bw_snaps w" "bw_taken (set_run r w) = bw_taken w" "bw_log (set_run r w) = bw_log w"
  "bw_accepted (set_run r w) = bw_accepted w" "bw_reg (set_run r w) = bw_reg w" "bw_w (set_run r w) = bw_w w" "run_of (set_run r w) = Some r"
  "b_workers (bw_b (set_run r w)) = b_workers (bw_b w)" "b_queueCapacity (bw_b (set_run r w)) = b_queueCapacity (bw_b w)"
  by (simp_all add: set_run_def)

lemma accounted_cong: "bw_snaps w' = bw_snaps w \<Longrightarrow> bw_log w' = bw_log w \<Longrightarrow> accounted e rest w' = accounted e rest w"
  by (simp add: accounted_def sent_def)

lemma log_ok_cong: "bw_snaps w' = bw_snaps w \<Longrightarrow> bw_log w' = bw_log w \<Longrightarrow> bw_taken w' = bw_taken w \<Longrightarrow> log_ok w' = log_ok w"
  by (simp add: log_ok_def)

text \<open>A step that only moves the goroutines, with the broadcaster otherwise as it was except for its counters.\<close>

lemma binv_move:
  assumes inv: "binv n c w" and run: "run_of w = Some r" and run': "run_of w' = Some r'"
    and same: "bw_snaps w' = bw_snaps w" "bw_log w' = bw_log w" "bw_taken w' = bw_taken w" "bw_accepted w' = bw_accepted w" "bw_reg w' = bw_reg w"
      "b_workers (bw_b w') = b_workers (bw_b w)" "b_queueCapacity (bw_b w') = b_queueCapacity (bw_b w)"
      "br_pushes r' = br_pushes r" "br_prepared r' = br_prepared r"
    and ok: "run_ok n r \<Longrightarrow> run_ok n r'" and todo: "pending r' \<subseteq># pending r" "\<not> br_cancelled r' \<Longrightarrow> pending r' = pending r \<and> \<not> br_cancelled r"
    and fresh: "run_ok n r \<Longrightarrow> fresh_run r \<Longrightarrow> fresh_run r'"
  shows "binv n c w'"
proof -
  have r: "running_ok w r" using inv run by (simp add: binv_def)
  have n: "b_workers (bw_b w) = n" using inv by (simp add: binv_def)
  have r_ok: "run_ok n r" and acc: "accounted (\<not> br_cancelled r) (pending r) w" using r n by (simp_all add: running_ok_def)
  have acc': "accounted (\<not> br_cancelled r') (pending r') w" by (rule accounted_mono [OF acc todo(1)]) (use todo(2) in blast)
  have alive: "set_mset (pending r') \<subseteq> dom (reg_heap (bw_reg w))"
    using set_mset_mono [OF todo(1)] r unfolding running_ok_def by blast
  have "running_ok w' r'"
    using r acc' alive ok [OF r_ok] fresh [OF r_ok] n unfolding running_ok_def accounted_cong [OF same(1,2)] same by blast
  then show ?thesis using inv run' unfolding binv_def log_ok_cong [OF same(1,2,3)] same by simp
qed

lemma accounted_snap:
  assumes old: "accounted e {#} w" and none: "sent (length (bw_snaps w)) w = {#}"
    and snaps: "bw_snaps w' = bw_snaps w @ [s]" and log: "bw_log w' = bw_log w"
  shows "accounted e (mset s) w'"
proof -
  have same: "sent k w' = sent k w" for k by (simp add: sent_def log)
  have "sent k w \<subseteq># mset (bw_snaps w ! k) \<and> (e \<longrightarrow> sent k w = mset (bw_snaps w ! k))" if "k < length (bw_snaps w)" for k
    using old that by (auto simp: accounted_def Let_def split: if_splits)
  then show ?thesis using none by (auto simp: accounted_def same snaps Let_def nth_append less_Suc_eq)
qed

lemma binv_take:
  assumes inv: "binv n c w" and run: "run_of w = Some r" "br_coord r = CoordIdle" "br_pushes r = m # ms" and order: "map_order (bw_reg w) order"
    and n: "0 < n"
  shows "binv n c (fanout_take m ms (reg_snapshot (bw_reg w) order) now r w)" (is "binv n c ?w")
proof -
  let ?s = "reg_snapshot (bw_reg w) order"
  let ?r = "r\<lparr>br_pushes := ms, br_prepared := prepared_Reset (Some m) (br_prepared r), br_sessions := ?s,
    br_coord := CoordSending (fanout_batches n ?s) 0 now\<rparr>"
  have r: "running_ok w r" and nw: "b_workers (bw_b w) = n" and log: "log_ok w" using inv run by (auto simp: binv_def)
  have o: "outstanding r = 0" using r run nw by (simp add: running_ok_def run_ok_def)
  then have p: "pending r = {#}" using run by (intro outstanding_zero) simp_all
  then have p': "pending ?r = mset ?s" using n by (simp add: pending_def run fanout_batches_concat)
  have o': "outstanding ?r = 0" using o by (simp add: outstanding_def)
  have s: "set ?s \<subseteq> dom (reg_heap (bw_reg w))"
  proof (cases "reg_byConnID (bw_reg w)")
    case (Some m)
    then have "set ?s = ran m" using order by (auto simp: reg_snapshot_def map_order_def ran_def image_iff) force
    then show ?thesis using inv Some by (simp add: binv_def reg_alive_def)
  qed (simp add: reg_snapshot_def)
  have none: "sent (length (bw_snaps w)) w = {#}" using log by (fastforce simp: sent_def log_ok_def filter_empty_conv)
  have "accounted (\<not> br_cancelled r) (mset ?s) ?w"
    by (rule accounted_snap [of _ w]) (use r none p in \<open>simp_all add: running_ok_def fanout_take_def\<close>)
  moreover have "run_of ?w = Some ?r" by (simp add: fanout_take_def nw)
  moreover have "log_ok ?w" using log by (auto simp: log_ok_def fanout_take_def nth_append)
  ultimately show ?thesis using r inv run nw p' s o' fanout_batches_length [of n ?s]
    by (simp add: binv_def running_ok_def fanout_take_def run_ok_def prepared_Reset_def)
qed

lemma send_one_simps [simp]:
  "bw_snaps (send_one C a s now r w) = bw_snaps w" "bw_taken (send_one C a s now r w) = bw_taken w"
  "bw_accepted (send_one C a s now r w) = bw_accepted w" "bw_reg (send_one C a s now r w) = bw_reg w"
  "bw_log (send_one C a s now r w) = bw_log w @ [(length (bw_snaps w) - 1, a, pp_message (br_prepared r))]"
  "b_workers (bw_b (send_one C a s now r w)) = b_workers (bw_b w)"
  "b_queueCapacity (bw_b (send_one C a s now r w)) = b_queueCapacity (bw_b w)"
  by (simp_all add: send_one_def Let_def split: prod.splits)

lemma send_one_run:
  assumes "keeps_message C"
  shows "\<exists>q. run_of (send_one C a s now r w) = Some (r\<lparr>br_prepared := q\<rparr>) \<and> pp_message q = pp_message (br_prepared r)"
proof -
  obtain x prepared matched err where sent: "sendIfAuthenticated C s (Some (br_prepared r)) now (bw_w w) = (x, prepared, matched, err)"
    by (rule prod_cases4)
  have "pp_message q = pp_message (br_prepared r)" if "prepared = Some q" for q
    using sent that assms unfolding keeps_message_def
    by (auto simp: sendIfAuthenticated_def split: if_splits option.splits prod.splits) blast
  moreover define q where "q = (case prepared of None \<Rightarrow> br_prepared r | Some p \<Rightarrow> p)"
  ultimately have "pp_message q = pp_message (br_prepared r)" by (cases prepared) simp_all
  moreover have "run_of (send_one C a s now r w) = Some (r\<lparr>br_prepared := q\<rparr>)"
    unfolding send_one_def sent prod.case Let_def q_def [symmetric] by simp
  ultimately show ?thesis by blast
qed

lemma accounted_send:
  assumes old: "accounted e (add_mset a rest) w" and snaps: "bw_snaps w \<noteq> []" "bw_snaps w' = bw_snaps w"
    and log: "bw_log w' = bw_log w @ [(length (bw_snaps w) - 1, a, m)]"
  shows "accounted e rest w'"
proof -
  have last: "sent k w' = add_mset a (sent k w)" if "Suc k = length (bw_snaps w)" for k using that by (auto simp: sent_def log)
  have other: "sent k w' = sent k w" if "Suc k \<noteq> length (bw_snaps w)" for k using that snaps(1) by (auto simp: sent_def log)
  have "sent k w' + (if Suc k = length (bw_snaps w) then rest else {#}) =
      sent k w + (if Suc k = length (bw_snaps w) then add_mset a rest else {#})" for k
    using last other by (cases "Suc k = length (bw_snaps w)") simp_all
  then show ?thesis using old by (simp add: accounted_def snaps)
qed

lemma binv_send:
  assumes inv: "binv n c w" and run: "run_of w = Some r" "br_workers r = pre @ WorkerAt a as # post" and keeps: "keeps_message C"
  shows "binv n c (send_one C a s now (r\<lparr>br_workers := pre @ WorkerSending as # post\<rparr>) w)" (is "binv n c ?w")
proof -
  let ?r = "r\<lparr>br_workers := pre @ WorkerSending as # post\<rparr>"
  have r: "running_ok w r" and log: "log_ok w" using inv run by (simp_all add: binv_def)
  obtain q where q: "run_of ?w = Some (?r\<lparr>br_prepared := q\<rparr>)" "pp_message q = pp_message (br_prepared r)"
    using send_one_run [OF keeps, of a s now ?r w] by auto
  have taken: "bw_taken w \<noteq> []" using r run by (auto simp: running_ok_def fresh_run_def outstanding_def)
  have p: "pending r = add_mset a (pending (?r\<lparr>br_prepared := q\<rparr>))" and o: "outstanding (?r\<lparr>br_prepared := q\<rparr>) = outstanding r"
    by (simp_all add: pending_def outstanding_def run)
  have acc: "accounted (\<not> br_cancelled r) (pending (?r\<lparr>br_prepared := q\<rparr>)) ?w"
    by (rule accounted_send [of _ a _ w]) (use r p log taken in \<open>auto simp: running_ok_def log_ok_def\<close>)
  have "sorted (map fst (bw_log ?w))" using log taken by (fastforce simp: log_ok_def sorted_append)
  then have "log_ok ?w" using log taken r by (auto simp: log_ok_def running_ok_def last_conv_nth)
  then show ?thesis using r inv q acc o p run taken
    by (auto simp: binv_def running_ok_def run_ok_def split: coordinator.splits)
qed

lemmas run_defs = run_ok_def pending_def outstanding_def fresh_run_def

lemma binv_run:
  assumes "brun C w w'" "binv n c w" "0 < n" "keeps_message C"
  shows "binv n c w'"
  using assms
proof (induction rule: brun.induct)
  case (c_take w r m ms order now) then show ?case by (auto intro: binv_take)
next
  case (c_give w r x xs k t)
  show ?case by (rule binv_move [OF c_give(4) c_give(1) ghosts_set_run(7)]) (use c_give in \<open>auto simp: run_defs\<close>)
next
  case (c_given w r k t)
  show ?case by (rule binv_move [OF c_given(3) c_given(1) ghosts_set_run(7)]) (use c_given in \<open>auto simp: run_defs\<close>)
next
  case (c_collect w r k t d)
  show ?case by (rule binv_move [OF c_collect(4) c_collect(1) ghosts_set_run(7)]) (use c_collect in \<open>auto simp: run_defs\<close>)
next
  case (c_complete w r t now)
  show ?case
    by (rule binv_move [OF c_complete(3) c_complete(1), where r' = "r\<lparr>br_sessions := [], br_coord := CoordIdle\<rparr>"])
      (use c_complete in \<open>auto simp: run_defs recordCompleted_def Let_def\<close>)
next
  case (c_return w r)
  show ?case
    by (rule binv_move [OF c_return(4) c_return(1) ghosts_set_run(7)])
      (use c_return in \<open>auto simp: run_defs simp del: sum_list_eq_0_iff split: coordinator.splits\<close>)
next
  case (c_finish w r)
  have "accounted (\<not> br_cancelled r) (pending r) w" using c_finish by (simp add: binv_def running_ok_def)
  then have "accounted False {#} w" by (rule accounted_mono) simp_all
  then show ?case using c_finish by (auto simp: binv_def running_ok_def log_ok_def accounted_def sent_def)
next
  case (w_take w r pre post x xs)
  show ?case by (rule binv_move [OF w_take(4) w_take(1) ghosts_set_run(7)]) (use w_take in \<open>auto simp: run_defs split: coordinator.splits\<close>)
next
  case (w_exit w r pre post)
  show ?case by (rule binv_move [OF w_exit(4) w_exit(1) ghosts_set_run(7)]) (use w_exit in \<open>auto simp: run_defs split: coordinator.splits\<close>)
next
  case (w_check w r pre a as post)
  show ?case by (rule binv_move [OF w_check(4) w_check(1) ghosts_set_run(7)]) (use w_check in \<open>auto simp: run_defs split: coordinator.splits\<close>)
next
  case (w_send w r pre a as post s now) then show ?case by (auto intro: binv_send)
next
  case (w_end w r pre as post)
  show ?case by (rule binv_move [OF w_end(4) w_end(1) ghosts_set_run(7)]) (use w_end in \<open>auto simp: run_defs split: coordinator.splits\<close>)
next
  case (w_signal w r pre post)
  show ?case by (rule binv_move [OF w_signal(4) w_signal(1) ghosts_set_run(7)]) (use w_signal in \<open>auto simp: run_defs split: coordinator.splits\<close>)
qed

lemma ghosts_update [simp]:
  "accounted e rest (w\<lparr>bw_b := b\<rparr>) = accounted e rest w" "accounted e rest (w\<lparr>bw_accepted := ms\<rparr>) = accounted e rest w"
  "accounted e rest (w\<lparr>bw_reg := reg\<rparr>) = accounted e rest w" "accounted e rest (w\<lparr>bw_w := x\<rparr>) = accounted e rest w"
  "log_ok (w\<lparr>bw_b := b\<rparr>) = log_ok w" "log_ok (w\<lparr>bw_accepted := ms\<rparr>) = log_ok w"
  "log_ok (w\<lparr>bw_reg := reg\<rparr>) = log_ok w" "log_ok (w\<lparr>bw_w := x\<rparr>) = log_ok w"
  by (simp_all add: accounted_def sent_def log_ok_def)

lemma pushes_run [simp]:
  "pending (r\<lparr>br_pushes := ms\<rparr>) = pending r" "outstanding (r\<lparr>br_pushes := ms\<rparr>) = outstanding r"
  "run_ok n (r\<lparr>br_pushes := ms\<rparr>) = run_ok n r" "fresh_run (r\<lparr>br_pushes := ms\<rparr>) = fresh_run r"
  by (simp_all add: run_defs cong: coordinator.case_cong)

lemma binv_other:
  assumes "bother w w'" "binv n c w"
  shows "binv n c w'"
  using assms
proof (induction rule: bother.induct)
  case (o_start w b)
  then have "b = (bw_b w)\<lparr>b_active := Some (new_run n)\<rparr>" by (auto simp: bc_start_def binv_def split: option.splits)
  then show ?case using o_start
    by (simp add: binv_def running_ok_def log_ok_def accounted_def run_defs new_run_def sum_list_replicate map_replicate_const)
next
  case (o_stop w)
  show ?case
  proof (cases "run_of w")
    case None
    then have "w\<lparr>bw_b := stop_cancel (bw_b w)\<rparr> = w" by (simp add: stop_cancel_def)
    then show ?thesis using o_stop by simp
  next
    case (Some r)
    show ?thesis by (rule binv_move [OF o_stop Some, where r' = "r\<lparr>br_cancelled := True\<rparr>"])
        (use Some in \<open>auto simp: stop_cancel_def run_defs split: coordinator.splits\<close>)
  qed
next
  case (o_accept m w b)
  then obtain r where r: "run_of w = Some r" "length (br_pushes r) < b_queueCapacity (bw_b w)"
      "b = (bw_b w)\<lparr>b_active := Some (r\<lparr>br_pushes := br_pushes r @ [m]\<rparr>), b_accepted := b_accepted (bw_b w) + 1\<rparr>"
    by (auto simp: enqueue_def split: option.splits if_splits)
  then show ?case using o_accept by (auto simp: binv_def running_ok_def)
next
  case (o_refuse m w b err)
  then have "run_of w = b_active b" "b_workers b = b_workers (bw_b w)" "b_queueCapacity b = b_queueCapacity (bw_b w)"
    by (auto simp: enqueue_def split: option.splits if_splits)
  then show ?case using o_refuse by (auto simp: binv_def running_ok_def split: option.splits)
next
  case (o_rest reg w x)
  then show ?case by (simp add: binv_def running_ok_def split: option.splits) blast
qed

lemma binv_reach:
  assumes "breach C n c w" "0 < n" "keeps_message C"
  shows "binv n c w"
  using assms
proof (induction rule: breach.induct)
  case (b_new x)
  then show ?case by (simp add: binv_def newBroadcaster_def reg_start_def reg_alive_def log_ok_def accounted_def)
qed (auto intro: binv_run binv_other)

section \<open>Progress\<close>

fun worker_weight :: "fanout_worker \<Rightarrow> nat" where
  "worker_weight WorkerIdle = 1"
| "worker_weight (WorkerSending as) = 2 * length as + 3"
| "worker_weight (WorkerAt a as) = 2 * length as + 4"
| "worker_weight WorkerSignalling = 2"
| "worker_weight WorkerExited = 0"

fun coord_weight :: "coordinator \<Rightarrow> nat" where
  "coord_weight CoordIdle = 1"
| "coord_weight (CoordSending xs n t) = n + 3 + sum_list (map (\<lambda>x. 2 * length x + 5) xs)"
| "coord_weight (CoordWaiting n t) = n + 2"
| "coord_weight CoordReturned = 0"

text \<open>What is left to do for a run: the messages in its queue, and the steps for the one it works on.\<close>

definition bmeasure :: "'w bworld \<Rightarrow> nat \<times> nat" where
  "bmeasure w =
     (case run_of w of
        None \<Rightarrow> (0, 0)
      | Some r \<Rightarrow> (length (br_pushes r), 1 + coord_weight (br_coord r) + sum_list (map (\<lambda>x. 2 * length x + 3) (br_batches r)) +
                    sum_list (map worker_weight (br_workers r))))"

lemma brun_decreases:
  assumes "brun C w w'" "keeps_message C"
  shows "(bmeasure w', bmeasure w) \<in> less_than <*lex*> less_than"
  using assms
proof (induction rule: brun.induct)
  case (c_return w r) then show ?case by (auto simp: bmeasure_def split: coordinator.splits)
next
  case (w_send w r pre a as post s now)
  from send_one_run [OF w_send(4), of a s now "r\<lparr>br_workers := pre @ WorkerSending as # post\<rparr>" w] show ?case
    using w_send by (auto simp: bmeasure_def)
qed (auto simp: bmeasure_def fanout_take_def recordCompleted_def Let_def)

lemma worker_can_step:
  assumes run: "run_of w = Some r" and ok: "running_ok w r" and x: "x \<in> set (br_workers r)" "worker_busy x = 1"
  shows "\<exists>w'. brun C w w'"
proof -
  obtain pre post where ws: "br_workers r = pre @ x # post" using x(1) by (meson split_list)
  show ?thesis
  proof (cases x)
    case (WorkerSending as)
    show ?thesis
    proof (cases "as = [] \<or> br_cancelled r")
      case True then show ?thesis using run ws WorkerSending by (blast intro: w_end)
    next
      case False then show ?thesis using run ws WorkerSending by (cases as) (auto intro: w_check)
    qed
  next
    case (WorkerAt a as)
    then have "a \<in># pending r" by (simp add: pending_def ws)
    then obtain s where "reg_heap (bw_reg w) a = Some s" using ok by (auto simp: running_ok_def)
    then show ?thesis using run ws WorkerAt by (blast intro: w_send)
  next
    case WorkerSignalling
    then have "br_batchDone r < outstanding r" by (simp add: outstanding_def ws)
    moreover have "outstanding r \<le> b_workers (bw_b w)" using ok by (auto simp: running_ok_def run_ok_def split: coordinator.splits)
    ultimately have "br_batchDone r < b_workers (bw_b w)" by simp
    then show ?thesis using run ws WorkerSignalling by (blast intro: w_signal)
  qed (use x in simp_all)
qed

text \<open>With no worker busy and no batch waiting the coordinator itself can move.\<close>

lemma coord_can_step:
  assumes run: "run_of w = Some r" and inv: "binv n c w" and rok: "run_ok n r" and idle: "sum_list (map worker_busy (br_workers r)) = 0" "br_batches r = []"
    and work: "br_coord r \<noteq> CoordIdle \<or> br_pushes r \<noteq> []" and live: "\<not> br_cancelled r"
  shows "\<exists>w'. brun C w w'"
proof (cases "br_coord r")
  case CoordIdle
  then obtain m ms where m: "br_pushes r = m # ms" using work by (cases "br_pushes r") auto
  have "\<exists>order. map_order (bw_reg w) order"
  proof (cases "reg_byConnID (bw_reg w)")
    case None then show ?thesis by (auto simp: map_order_def)
  next
    case (Some f)
    then have "finite (dom f)" using inv by (simp add: binv_def reg_alive_def)
    then show ?thesis using finite_distinct_list [of "dom f"] Some by (auto simp: map_order_def)
  qed
  then show ?thesis using run CoordIdle m by (blast intro: c_take)
next
  case (CoordSending xs k t)
  show ?thesis
  proof (cases xs)
    case Nil then show ?thesis using run CoordSending by (blast intro: c_given)
  next
    case (Cons x ys)
    then have "length (br_batches r) < b_workers (bw_b w)" using rok inv CoordSending idle by (simp add: run_ok_def binv_def)
    then show ?thesis using run CoordSending Cons by (blast intro: c_give)
  qed
next
  case (CoordWaiting k t)
  then have "br_batchDone r = k" using rok idle by (simp add: run_ok_def outstanding_def)
  then show ?thesis using CoordWaiting by (cases k) (metis c_complete [OF run], metis c_collect [OF run])
next
  case CoordReturned then show ?thesis using rok live by (simp add: run_ok_def)
qed

lemma run_can_step:
  assumes inv: "binv n c w" and n: "0 < n" and run: "run_of w = Some r"
    and work: "br_coord r \<noteq> CoordIdle \<or> br_pushes r \<noteq> [] \<or> br_cancelled r"
  shows "\<exists>w'. brun C w w'"
proof -
  have ok: "running_ok w r" and rok: "run_ok n r" and nw: "b_workers (bw_b w) = n" using inv run by (auto simp: binv_def running_ok_def)
  show ?thesis
  proof (cases "\<exists>x\<in>set (br_workers r). worker_busy x = 1")
    case True then show ?thesis using worker_can_step [OF run ok] by blast
  next
    case False
    then have free: "x = WorkerIdle \<or> x = WorkerExited" if "x \<in> set (br_workers r)" for x using that by (cases x) auto
    have busy: "sum_list (map worker_busy (br_workers r)) = 0" using free by force
    show ?thesis
    proof (cases "WorkerIdle \<in> set (br_workers r)")
      case True
      then obtain pre post where ws: "br_workers r = pre @ WorkerIdle # post" by (meson split_list)
      show ?thesis
      proof (cases "br_cancelled r \<or> br_batches r \<noteq> []")
        case True then show ?thesis by (cases "br_batches r") (metis w_exit [OF run ws], metis w_take [OF run ws])
      next
        case False
        then show ?thesis using coord_can_step [OF run inv rok busy, of C] work by blast
      qed
    next
      case False
      then have exited: "set (br_workers r) \<subseteq> {WorkerExited}" using free by blast
      then have c: "br_cancelled r" using rok n by (cases "br_workers r") (auto simp: run_ok_def)
      show ?thesis
      proof (cases "br_coord r")
        case (CoordSending xs k t) then show ?thesis using c_given [OF run] c_return [OF run c] by (cases xs) fastforce+
      next
        case (CoordWaiting k t) then show ?thesis using c_complete [OF run] c_return [OF run c] by (cases k) fastforce+
      qed (use c_return [OF run c] c_finish [OF run _ exited] in fastforce)+
    qed
  qed
qed

section \<open>Properties\<close>


text \<open>
  C38. The broadcaster never gets stuck, and a stop ends it. A run with a message in its queue or in its hands,
  or one that was stopped, can always take a step of its goroutines: the channels of batches and of
  signals never fill up. Every such step brings the run closer to its end, in the lexicographic order of the
  queued messages and of the work left for the current one; and once it was stopped, nothing the rest of
  the gateway does adds work. So the wait of a stop for its run ends after finitely many steps.
\<close>

theorem broadcast_never_stuck:
  assumes "breach C workers capacity w" "0 < workers" "keeps_message C" "run_of w = Some r"
  shows "(br_coord r \<noteq> CoordIdle \<or> br_pushes r \<noteq> [] \<or> br_cancelled r \<longrightarrow> (\<exists>w'. brun C w w')) \<and>
    (\<forall>w'. brun C w w' \<longrightarrow> (bmeasure w', bmeasure w) \<in> less_than <*lex*> less_than) \<and>
    (br_cancelled r \<longrightarrow> (\<forall>w'. bother w w' \<longrightarrow> bmeasure w' = bmeasure w))"
proof -
  have inv: "binv workers capacity w" by (rule binv_reach [OF assms(1-3)])
  have "bmeasure w' = bmeasure w" if "bother w w'" "br_cancelled r" for w'
    using that assms(4) by cases (auto simp: bmeasure_def bc_start_def stop_cancel_def enqueue_def)
  then show ?thesis using run_can_step [OF inv assms(2,4)] brun_decreases [OF _ assms(3)] by blast
qed

text \<open>A broadcaster with two workers and one message for a gateway without sessions.\<close>

definition bc_demo_conn :: "unit conn_ops" where
  "bc_demo_conn = \<lparr>c_SendProto = (\<lambda>conn m w. (w, None)), c_SendPrepared = (\<lambda>conn. None),
     c_CloseWithProto = (\<lambda>ctx conn m w. (w, None)), c_Close = (\<lambda>conn w. (w, None))\<rparr>"

definition bc_demo :: "unit bworld" where
  "bc_demo =
     \<lparr>bw_b = (newBroadcaster 2 4)\<lparr>b_active := Some ((new_run 2)\<lparr>br_pushes := [zeroProto]\<rparr>), b_accepted := 1\<rparr>, bw_reg = reg_start, bw_w = (),
      bw_accepted = [zeroProto], bw_taken = [], bw_snaps = [], bw_log = []\<rparr>"

lemma bc_demo_reach: "breach bc_demo_conn 2 4 bc_demo" "keeps_message bc_demo_conn"
proof -
  let ?w0 = "\<lparr>bw_b = newBroadcaster 2 4, bw_reg = reg_start, bw_w = (), bw_accepted = [], bw_taken = [], bw_snaps = [], bw_log = []\<rparr> :: unit bworld"
  let ?w1 = "?w0\<lparr>bw_b := (newBroadcaster 2 4)\<lparr>b_active := Some (new_run 2)\<rparr>, bw_accepted := [], bw_taken := [], bw_snaps := [], bw_log := []\<rparr>"
  have "bother ?w0 ?w1" by (rule o_start) (simp add: bc_start_def newBroadcaster_def)
  then have r1: "breach bc_demo_conn 2 4 ?w1" by (rule b_other [OF b_new])
  have "enqueue zeroProto (bw_b ?w1) = (bw_b bc_demo, None)" by (simp add: enqueue_def bc_demo_def newBroadcaster_def new_run_def)
  from b_other [OF r1 o_accept [OF this]] show "breach bc_demo_conn 2 4 bc_demo" by (simp add: bc_demo_def)
  show "keeps_message bc_demo_conn" by (simp add: keeps_message_def bc_demo_conn_def)
qed


theorem broadcast_never_stuck_witness: "\<exists>w'. brun bc_demo_conn bc_demo w' \<and> (bmeasure w', bmeasure bc_demo) \<in> less_than <*lex*> less_than"
proof -
  have run: "run_of bc_demo = Some ((new_run 2)\<lparr>br_pushes := [zeroProto]\<rparr>)" by (simp add: bc_demo_def)
  show ?thesis using broadcast_never_stuck [OF bc_demo_reach(1) _ bc_demo_reach(2) run] by auto
qed

end
