(* ===== verification/Server_Options.thy ===== *)
theory Server_Options
  imports Endpoint
begin

text \<open>
  The options of a gateway (\<open>gateway/options.go\<close>) and of a node (\<open>node/options.go\<close>): one constructor per
  option function, its check, the defaults and the resolution of the whole list. Interfaces are present or
  nil; listeners, transports and middleware are names. An option of gRPC is one of the options the package
  builds itself.
\<close>

datatype grpc_option =
    GrpcEndpoint URL | GrpcTLSConfig tls_config | GrpcTimeout duration | GrpcNetwork string | GrpcAddress string | GrpcListener Owner
  | GrpcRecovery | GrpcCustomHealth

text \<open>The application a server runs in, and the first event while its gRPC transport starts.\<close>

record app_info =
  app_Name :: string
  app_ID :: string
  app_Version :: string

datatype grpc_first = GrpcAccepting | GrpcServed "goerr option" | GrpcCtxDone goerr

definition positive :: "string \<Rightarrow> duration \<Rightarrow> 'o \<Rightarrow> goerr + 'o" where
  "positive message d o' = (if d \<le> 0 then Inl (Fresh message) else Inr o')"

definition nonempty :: "string \<Rightarrow> string \<Rightarrow> 'o \<Rightarrow> goerr + 'o" where
  "nonempty message s o' = (if s = [] then Inl (Fresh message) else Inr o')"

definition required :: "string \<Rightarrow> 'v option \<Rightarrow> ('v \<Rightarrow> 'o) \<Rightarrow> goerr + 'o" where
  "required message v f = (case v of None \<Rightarrow> Inl (Fresh message) | Some x \<Rightarrow> Inr (f x))"

text \<open>Options apply from left to right; the first error ends the resolution.\<close>

fun apply_options :: "('p \<Rightarrow> 'o \<Rightarrow> goerr + 'o) \<Rightarrow> 'p list \<Rightarrow> 'o \<Rightarrow> goerr + 'o" where
  "apply_options apply [] o' = Inr o'"
| "apply_options apply (p # ps) o' = (case apply p o' of Inl err \<Rightarrow> Inl err | Inr o'' \<Rightarrow> apply_options apply ps o'')"

section \<open>Gateway\<close>

record gateway_options =
  go_auth :: bool
  go_locator :: bool
  go_discovery :: bool
  go_clientTLS :: "tls_config option"
  go_rpcTimeout :: duration
  go_connectTimeout :: duration
  go_leaseTimeout :: duration
  go_cleanupTimeout :: duration
  go_shutdownTimeout :: duration
  go_authTimeout :: duration
  go_leaseTTL :: duration
  go_network :: string
  go_address :: string
  go_listener :: "nat option"
  go_advertiseHost :: string
  go_endpoint :: "URL option"
  go_serverTLS :: bool
  go_broadcastWorkers :: int
  go_broadcastQueueCapacity :: int
  go_transports :: "nat list"
  go_grpcOptions :: "grpc_option list"

datatype gateway_timeout =
    GwRPCTimeout duration | GwConnectTimeout duration | GwLeaseTimeout duration | GwCleanupTimeout duration
  | GwShutdownTimeout duration | GwAuthTimeout duration | GwLeaseTTL duration

datatype gateway_option =
    GwNetwork string | GwAddress string | GwAdvertiseHost string | GwEndpoint "URL option" | GwListener "nat option"
  | GwServerTLS "tls_config option" | GwLocator bool | GwAuth bool | GwDiscovery bool | GwTransport "nat option list"
  | GwBroadcastWorkers int | GwBroadcastQueueCapacity int | GwClientTLS "tls_config option" | GwTimeout gateway_timeout

fun gateway_apply_timeout :: "gateway_timeout \<Rightarrow> gateway_options \<Rightarrow> goerr + gateway_options" where
  "gateway_apply_timeout (GwRPCTimeout d) o' = positive ''gateway: RPC timeout must be positive'' d (o'\<lparr>go_rpcTimeout := d\<rparr>)"
| "gateway_apply_timeout (GwConnectTimeout d) o' = positive ''gateway: connect timeout must be positive'' d (o'\<lparr>go_connectTimeout := d\<rparr>)"
| "gateway_apply_timeout (GwLeaseTimeout d) o' = positive ''gateway: lease timeout must be positive'' d (o'\<lparr>go_leaseTimeout := d\<rparr>)"
| "gateway_apply_timeout (GwCleanupTimeout d) o' = positive ''gateway: cleanup timeout must be positive'' d (o'\<lparr>go_cleanupTimeout := d\<rparr>)"
| "gateway_apply_timeout (GwShutdownTimeout d) o' = positive ''gateway: shutdown timeout must be positive'' d (o'\<lparr>go_shutdownTimeout := d\<rparr>)"
| "gateway_apply_timeout (GwAuthTimeout d) o' = positive ''gateway: authentication timeout must be positive'' d (o'\<lparr>go_authTimeout := d\<rparr>)"
| "gateway_apply_timeout (GwLeaseTTL d) o' =
     (if d < millisecond then Inl (Fresh ''gateway: lease TTL must be at least one millisecond'') else Inr (o'\<lparr>go_leaseTTL := d\<rparr>))"

fun gateway_apply_option :: "gateway_option \<Rightarrow> gateway_options \<Rightarrow> goerr + gateway_options" where
  "gateway_apply_option (GwNetwork n) o' = nonempty ''gateway: gRPC network is required'' n (o'\<lparr>go_network := n\<rparr>)"
| "gateway_apply_option (GwAddress a) o' = nonempty ''gateway: gRPC address is required'' a (o'\<lparr>go_address := a\<rparr>)"
| "gateway_apply_option (GwAdvertiseHost h) o' = nonempty ''gateway: advertise host is required'' h (o'\<lparr>go_advertiseHost := h\<rparr>)"
| "gateway_apply_option (GwEndpoint e) o' = required ''gateway: gRPC endpoint is required'' e (\<lambda>u. o'\<lparr>go_endpoint := Some u\<rparr>)"
| "gateway_apply_option (GwListener l) o' = required ''gateway: gRPC listener is required'' l (\<lambda>l. o'\<lparr>go_listener := Some l\<rparr>)"
| "gateway_apply_option (GwServerTLS config) o' =
     (case config of
        None \<Rightarrow> Inl (Fresh ''gateway: TLS config is required'')
      | Some c \<Rightarrow>
          (case ValidateServer (Some c) of
             Some err \<Rightarrow> Inl (Wrap ''gateway'' [err])
           | None \<Rightarrow> Inr (o'\<lparr>go_grpcOptions := go_grpcOptions o' @ [GrpcTLSConfig c], go_serverTLS := True\<rparr>)))"
| "gateway_apply_option (GwLocator l) o' = (if \<not> l then Inl (Fresh ''gateway: locator is required'') else Inr (o'\<lparr>go_locator := True\<rparr>))"
| "gateway_apply_option (GwAuth a) o' = Inr (o'\<lparr>go_auth := a\<rparr>)"
| "gateway_apply_option (GwDiscovery d) o' = Inr (o'\<lparr>go_discovery := d\<rparr>)"
| "gateway_apply_option (GwTransport servers) o' =
     (if None \<in> set servers then Inl (Fresh ''gateway: client transport is required'')
      else Inr (o'\<lparr>go_transports := go_transports o' @ List.map_filter id servers\<rparr>))"
| "gateway_apply_option (GwBroadcastWorkers n) o' =
     positive ''gateway: broadcast workers must be positive'' n (o'\<lparr>go_broadcastWorkers := n\<rparr>)"
| "gateway_apply_option (GwBroadcastQueueCapacity n) o' =
     positive ''gateway: broadcast queue capacity must be positive'' n (o'\<lparr>go_broadcastQueueCapacity := n\<rparr>)"
| "gateway_apply_option (GwClientTLS config) o' =
     (case config of
        None \<Rightarrow> Inl (Fresh ''gateway: gRPC TLS config is required'')
      | Some c \<Rightarrow>
          (case ValidateClient (Some c) of
             Some err \<Rightarrow> Inl (Wrap ''gateway: gRPC'' [err])
           | None \<Rightarrow> Inr (o'\<lparr>go_clientTLS := tls_Clone (Some c)\<rparr>)))"
| "gateway_apply_option (GwTimeout t) o' = gateway_apply_timeout t o'"

text \<open>The defaults on a machine with \<open>procs\<close> processors.\<close>

definition gateway_defaults :: "int \<Rightarrow> gateway_options" where
  "gateway_defaults procs =
     \<lparr>go_auth = False, go_locator = False, go_discovery = False, go_clientTLS = None, go_rpcTimeout = 3 * second,
      go_connectTimeout = 3 * second, go_leaseTimeout = 3 * second, go_cleanupTimeout = 3 * second, go_shutdownTimeout = 10 * second,
      go_authTimeout = 15 * second, go_leaseTTL = 60 * second, go_network = ''tcp'', go_address = [], go_listener = None,
      go_advertiseHost = [], go_endpoint = None, go_serverTLS = False, go_broadcastWorkers = min 8 (max 1 procs),
      go_broadcastQueueCapacity = 256, go_transports = [], go_grpcOptions = []\<rparr>"

definition gateway_resolveEndpoint :: "gateway_options \<Rightarrow> goerr + gateway_options" where
  "gateway_resolveEndpoint o' =
     (case Resolve_endpoint (go_endpoint o') (go_address o') (go_advertiseHost o') (go_serverTLS o') of
        Inl err \<Rightarrow> Inl (Wrap ''gateway'' [err])
      | Inr None \<Rightarrow> Inr o'
      | Inr (Some u) \<Rightarrow> Inr (o'\<lparr>go_grpcOptions := go_grpcOptions o' @ [GrpcEndpoint u]\<rparr>))"

definition gateway_resolveOptions :: "int \<Rightarrow> gateway_option list \<Rightarrow> goerr + gateway_options" where
  "gateway_resolveOptions procs opts =
     (case apply_options gateway_apply_option opts (gateway_defaults procs) of
        Inl err \<Rightarrow> Inl err
      | Inr o' \<Rightarrow>
          (case gateway_resolveEndpoint o' of
             Inl err \<Rightarrow> Inl err
           | Inr o' \<Rightarrow>
               let o' = (if go_address o' = [] then o'\<lparr>go_address := '':0''\<rparr> else o') in
               if \<not> go_auth o' then Inl (Fresh ''gateway: authenticator is required'')
               else if \<not> go_locator o' then Inl (Fresh ''gateway: locator is required'')
               else if \<not> go_discovery o' then Inl (Fresh ''gateway: discovery is required'')
               else Inr o'))"

section \<open>Node\<close>

record node_options =
  no_grpcOptions :: "grpc_option list"
  no_clientTLS :: "tls_config option"
  no_pushTimeout :: duration
  no_cleanupTimeout :: duration
  no_shutdownTimeout :: duration
  no_network :: string
  no_address :: string
  no_listener :: "nat option"
  no_advertiseHost :: string
  no_endpoint :: "URL option"
  no_serverTLS :: bool
  no_middlewares :: "nat list"
  no_clientMiddlewares :: "nat list"
  no_registrar :: bool
  no_stateful :: bool
  no_gateDirectory :: bool
  no_drain :: bool

text \<open>An interface value: nil, a typed nil of a kind that can be nil, or a usable value.\<close>

datatype iface = NilIface | TypedNil | Usable

definition isNil :: "iface \<Rightarrow> bool" where
  "isNil v = (case v of NilIface \<Rightarrow> True | TypedNil \<Rightarrow> True | Usable \<Rightarrow> False)"

datatype node_shutdown_option = NdPushTimeout duration | NdCleanupTimeout duration | NdShutdownTimeout duration | NdDrain bool

datatype node_option =
    NdRegistration bool | NdNetwork string | NdAddress string | NdAdvertiseHost string | NdEndpoint "URL option"
  | NdHandlerTimeout duration | NdListener "nat option" | NdServerTLS "tls_config option" | NdMiddleware "nat list"
  | NdClientMiddleware "nat list" | NdStateful iface | NdGateDirectory iface | NdClientTLS "tls_config option"
  | NdShutdown node_shutdown_option

fun node_apply_shutdown_option :: "node_shutdown_option \<Rightarrow> node_options \<Rightarrow> goerr + node_options" where
  "node_apply_shutdown_option (NdPushTimeout d) o' = positive ''node: push timeout must be positive'' d (o'\<lparr>no_pushTimeout := d\<rparr>)"
| "node_apply_shutdown_option (NdCleanupTimeout d) o' = positive ''node: cleanup timeout must be positive'' d (o'\<lparr>no_cleanupTimeout := d\<rparr>)"
| "node_apply_shutdown_option (NdShutdownTimeout d) o' = positive ''node: shutdown timeout must be positive'' d (o'\<lparr>no_shutdownTimeout := d\<rparr>)"
| "node_apply_shutdown_option (NdDrain f) o' = Inr (o'\<lparr>no_drain := f\<rparr>)"

fun node_apply_option :: "node_option \<Rightarrow> node_options \<Rightarrow> goerr + node_options" where
  "node_apply_option (NdRegistration r) o' = (if \<not> r then Inl (Fresh ''node: registration is required'') else Inr (o'\<lparr>no_registrar := True\<rparr>))"
| "node_apply_option (NdNetwork n) o' = nonempty ''node: network is required'' n (o'\<lparr>no_network := n\<rparr>)"
| "node_apply_option (NdAddress a) o' = nonempty ''node: address is required'' a (o'\<lparr>no_address := a\<rparr>)"
| "node_apply_option (NdAdvertiseHost h) o' = nonempty ''node: advertise host is required'' h (o'\<lparr>no_advertiseHost := h\<rparr>)"
| "node_apply_option (NdEndpoint e) o' = required ''node: endpoint is required'' e (\<lambda>u. o'\<lparr>no_endpoint := Some u\<rparr>)"
| "node_apply_option (NdHandlerTimeout d) o' =
     (if d < 0 then Inl (Fresh ''node: handler timeout cannot be negative'')
      else Inr (o'\<lparr>no_grpcOptions := no_grpcOptions o' @ [GrpcTimeout d]\<rparr>))"
| "node_apply_option (NdListener l) o' = required ''node: listener is required'' l (\<lambda>l. o'\<lparr>no_listener := Some l\<rparr>)"
| "node_apply_option (NdServerTLS config) o' =
     (case config of
        None \<Rightarrow> Inl (Fresh ''node: TLS config is required'')
      | Some c \<Rightarrow>
          (case ValidateServer (Some c) of
             Some err \<Rightarrow> Inl (Wrap ''node'' [err])
           | None \<Rightarrow> Inr (o'\<lparr>no_grpcOptions := no_grpcOptions o' @ [GrpcTLSConfig c], no_serverTLS := True\<rparr>)))"
| "node_apply_option (NdMiddleware m) o' = Inr (o'\<lparr>no_middlewares := no_middlewares o' @ m\<rparr>)"
| "node_apply_option (NdClientMiddleware m) o' = Inr (o'\<lparr>no_clientMiddlewares := no_clientMiddlewares o' @ m\<rparr>)"
| "node_apply_option (NdStateful s) o' = (if isNil s then Inl (Fresh ''node: stateful store is required'') else Inr (o'\<lparr>no_stateful := True\<rparr>))"
| "node_apply_option (NdGateDirectory d) o' =
     (if isNil d then Inl (Fresh ''node: gate directory is required'') else Inr (o'\<lparr>no_gateDirectory := True\<rparr>))"
| "node_apply_option (NdClientTLS config) o' =
     (case config of
        None \<Rightarrow> Inl (Fresh ''node: gRPC TLS config is required'')
      | Some c \<Rightarrow>
          (case ValidateClient (Some c) of
             Some err \<Rightarrow> Inl (Wrap ''node: gRPC'' [err])
           | None \<Rightarrow> Inr (o'\<lparr>no_clientTLS := tls_Clone (Some c)\<rparr>)))"
| "node_apply_option (NdShutdown p) o' = node_apply_shutdown_option p o'"

definition node_defaults :: node_options where
  "node_defaults =
     \<lparr>no_grpcOptions = [], no_clientTLS = None, no_pushTimeout = 3 * second, no_cleanupTimeout = 3 * second, no_shutdownTimeout = 10 * second,
      no_network = ''tcp'', no_address = [], no_listener = None, no_advertiseHost = [], no_endpoint = None, no_serverTLS = False,
      no_middlewares = [], no_clientMiddlewares = [], no_registrar = False, no_stateful = False, no_gateDirectory = False, no_drain = False\<rparr>"

definition node_resolveOptions :: "node_option list \<Rightarrow> goerr + node_options" where
  "node_resolveOptions opts =
     (case apply_options node_apply_option opts node_defaults of
        Inl err \<Rightarrow> Inl err
      | Inr o' \<Rightarrow>
          (case Resolve_endpoint (no_endpoint o') (no_address o') (no_advertiseHost o') (no_serverTLS o') of
             Inl err \<Rightarrow> Inl (Wrap ''node'' [err])
           | Inr endpoint \<Rightarrow>
               let o' = (case endpoint of None \<Rightarrow> o' | Some u \<Rightarrow> o'\<lparr>no_grpcOptions := no_grpcOptions o' @ [GrpcEndpoint u]\<rparr>) in
               if \<not> no_registrar o' then Inl (Fresh ''node: registration is required'')
               else Inr (if no_address o' = [] then o'\<lparr>no_address := '':0''\<rparr> else o')))"

section \<open>Resolved options are in range\<close>

definition gateway_options_ok :: "gateway_options \<Rightarrow> bool" where
  "gateway_options_ok o' \<longleftrightarrow>
     0 < go_rpcTimeout o' \<and> 0 < go_connectTimeout o' \<and> 0 < go_leaseTimeout o' \<and> 0 < go_cleanupTimeout o' \<and> 0 < go_shutdownTimeout o' \<and>
     0 < go_authTimeout o' \<and> millisecond \<le> go_leaseTTL o' \<and> go_network o' \<noteq> [] \<and> 0 < go_broadcastWorkers o' \<and> 0 < go_broadcastQueueCapacity o'"

definition node_options_ok :: "node_options \<Rightarrow> bool" where
  "node_options_ok o' \<longleftrightarrow> 0 < no_pushTimeout o' \<and> 0 < no_cleanupTimeout o' \<and> 0 < no_shutdownTimeout o' \<and> no_network o' \<noteq> []"

lemmas option_checks = positive_def nonempty_def required_def

lemma apply_options_keeps:
  assumes "apply_options f ps o' = Inr o''" "P o'" "\<And>p o' o''. f p o' = Inr o'' \<Longrightarrow> P o' \<Longrightarrow> P o''"
  shows "P o''"
  using assms(1,2) by (induction ps arbitrary: o') (auto intro: assms(3) split: sum.splits)

lemma gateway_timeout_keeps: "gateway_apply_timeout t o' = Inr o'' \<Longrightarrow> gateway_options_ok o' \<Longrightarrow> gateway_options_ok o''"
  by (cases t) (auto simp: gateway_options_ok_def option_checks split: if_splits)

lemma gateway_option_keeps: "gateway_apply_option p o' = Inr o'' \<Longrightarrow> gateway_options_ok o' \<Longrightarrow> gateway_options_ok o''"
  by (cases p) (auto simp: gateway_options_ok_def option_checks split: if_splits option.splits dest: gateway_timeout_keeps [unfolded gateway_options_ok_def])

lemma node_shutdown_option_keeps: "node_apply_shutdown_option p o' = Inr o'' \<Longrightarrow> node_options_ok o' \<Longrightarrow> node_options_ok o''"
  by (cases p) (auto simp: node_options_ok_def option_checks split: if_splits)

lemma node_option_keeps: "node_apply_option p o' = Inr o'' \<Longrightarrow> node_options_ok o' \<Longrightarrow> node_options_ok o''"
  by (cases p) (auto simp: node_options_ok_def option_checks split: if_splits option.splits dest: node_shutdown_option_keeps [unfolded node_options_ok_def])

text \<open>Whatever options are given, what \<open>resolveOptions\<close> returns has positive budgets and a network, and nothing it requires is missing.\<close>

lemma gateway_resolved_ok:
  assumes "gateway_resolveOptions procs opts = Inr o'"
  shows "gateway_options_ok o'" "go_auth o' \<and> go_locator o' \<and> go_discovery o'" "go_address o' \<noteq> []"
proof -
  obtain o1 where a: "apply_options gateway_apply_option opts (gateway_defaults procs) = Inr o1"
    using assms by (auto simp: gateway_resolveOptions_def split: sum.splits)
  have "gateway_options_ok (gateway_defaults procs)" by (simp add: gateway_options_ok_def gateway_defaults_def second_def millisecond_def)
  then have "gateway_options_ok o1" by (rule apply_options_keeps [where P = gateway_options_ok, OF a]) (rule gateway_option_keeps)
  then show "gateway_options_ok o'" "go_auth o' \<and> go_locator o' \<and> go_discovery o'" "go_address o' \<noteq> []"
    using assms a by (auto simp: gateway_resolveOptions_def gateway_resolveEndpoint_def gateway_options_ok_def Let_def split: sum.splits option.splits if_splits)
qed

lemma node_resolved_ok:
  assumes "node_resolveOptions opts = Inr o'"
  shows "node_options_ok o'" "no_registrar o'" "no_address o' \<noteq> []"
proof -
  obtain o1 where a: "apply_options node_apply_option opts node_defaults = Inr o1"
    using assms by (auto simp: node_resolveOptions_def split: sum.splits)
  have "node_options_ok node_defaults" by (simp add: node_options_ok_def node_defaults_def second_def)
  then have "node_options_ok o1" by (rule apply_options_keeps [where P = node_options_ok, OF a]) (rule node_option_keeps)
  then show "node_options_ok o'" "no_registrar o'" "no_address o' \<noteq> []"
    using assms a by (auto simp: node_resolveOptions_def node_options_ok_def Let_def split: sum.splits option.splits if_splits)
qed

end
