(* ===== verification/Gateway_Lifecycle.thy ===== *)
theory Gateway_Lifecycle
  imports Broadcast Server_Options
begin

text \<open>
  Construction, start and shutdown of a gateway (\<open>gateway/server.go\<close>, \<open>gateway/lifecycle.go\<close>). The state adds the
  fields of \<open>lifecycle\<close> and the broadcaster to the state of the handlers. As elsewhere, the outcome of every
  select, wait and external call comes from the environment, which may change the whole state before it
  answers; client transports are numbered. The shutdown reports its steps in order, with their results.
\<close>

section \<open>State\<close>

datatype gw_lifecycle = GwNew | GwStarting | GwStarted | GwStopping | GwStopped

text \<open>
  \<open>gl_startupDone\<close> and \<open>gl_startupCancelled\<close> are absent before \<open>Start\<close>; \<open>gl_shutdown\<close> holds what the one shutdown
  saw of the startup when it was begun, and \<open>gl_shutdownErr\<close> its result, once it is over.
\<close>

record gl_state = gw_state +
  gl_state_of :: gw_lifecycle
  gl_startupDone :: "bool option"
  gl_startupCancelled :: "bool option"
  gl_prepared :: nat
  gl_serving :: bool
  gl_shutdown :: "bool option"
  gl_shutdownErr :: "goerr option option"
  gl_broadcaster :: broadcaster
  gl_identity :: "string \<times> string"

record gl_config = gw_config +
  gl_connectTimeout :: duration
  gl_shutdownTimeout :: duration
  gl_transports :: nat

text \<open>The stop of a transport: its result, or the end of the context before it with the late result.\<close>

datatype stop_first = StopResult "goerr option" | StopCtxDone goerr "goerr option"

text \<open>The events \<open>Start\<close> waits for.\<close>

datatype gw_event = GrpcEnded "goerr option" | ClientEnded nat "goerr option" | RunCtxDone

record 'w gl_env =
  lg_gw :: "'w gw_env"
  lg_Prepare :: "ctx \<Rightarrow> 'w \<Rightarrow> 'w \<times> goerr option"
  lg_Endpoint :: "'w \<Rightarrow> 'w \<times> (goerr + URL option)"
  lg_url :: "URL \<Rightarrow> string"
  lg_ListenerClose :: "'w \<Rightarrow> 'w \<times> goerr option"
  lg_Ping :: "ctx \<Rightarrow> 'w \<Rightarrow> 'w \<times> goerr option"
  lg_BeforeStart :: "nat \<Rightarrow> ctx \<Rightarrow> 'w \<Rightarrow> 'w \<times> goerr option"
  lg_grpc :: "ctx \<Rightarrow> 'w \<Rightarrow> 'w \<times> grpc_first"
  lg_grpcStop :: "ctx \<Rightarrow> 'w \<Rightarrow> 'w \<times> goerr option"
  lg_transportStop :: "nat \<Rightarrow> ctx \<Rightarrow> 'w \<Rightarrow> 'w \<times> stop_first"
  lg_wait :: "ctx \<Rightarrow> 'w \<Rightarrow> 'w \<times> wait_event"
  lg_order :: "'w \<Rightarrow> string list"

type_synonym 'a gls = "'a gl_state_scheme"

section \<open>Construction (\<open>server.go\<close>)\<close>

text \<open>\<open>setHandler\<close> is the answer of each transport.\<close>

fun set_handlers :: "(nat \<Rightarrow> goerr option) \<Rightarrow> nat list \<Rightarrow> goerr option" where
  "set_handlers setHandler [] = None"
| "set_handlers setHandler (t # ts) =
     (case setHandler t of Some err \<Rightarrow> Some (Wrap ''gateway: configure client transport'' [err]) | None \<Rightarrow> set_handlers setHandler ts)"

definition gateway_grpcOptions :: "gateway_options \<Rightarrow> grpc_option list" where
  "gateway_grpcOptions o' =
     [GrpcNetwork (go_network o'), GrpcAddress (go_address o'), GrpcListener (owner_New (go_network o') (go_address o') (go_listener o')),
      GrpcTimeout DefaultHandlerTimeout, GrpcRecovery] @ go_grpcOptions o'"

definition gateway_NewServer ::
  "int \<Rightarrow> (nat \<Rightarrow> goerr option) \<Rightarrow> gateway_option list \<Rightarrow> goerr + (gl_config \<times> gl_state \<times> grpc_option list)" where
  "gateway_NewServer procs setHandler opts =
     (case gateway_resolveOptions procs opts of
        Inl err \<Rightarrow> Inl err
      | Inr o' \<Rightarrow>
          (case set_handlers setHandler (go_transports o') of
             Some err \<Rightarrow> Inl err
           | None \<Rightarrow>
               Inr (\<lparr>gw_id = [], gw_endpoint = [], gw_rpcTimeout = go_rpcTimeout o', gw_leaseTimeout = go_leaseTimeout o',
                     gw_cleanupTimeout = go_cleanupTimeout o', gw_authTimeout = go_authTimeout o', gw_leaseTTL = go_leaseTTL o',
                     gl_connectTimeout = go_connectTimeout o', gl_shutdownTimeout = go_shutdownTimeout o',
                     gl_transports = length (go_transports o')\<rparr>,
                    \<lparr>st_gateways = gc_New (go_clientTLS o'), st_backends = newBackends (go_clientTLS o') (go_connectTimeout o'), st_reg = reg_start,
                     gl_state_of = GwNew, gl_startupDone = None, gl_startupCancelled = None, gl_prepared = 0, gl_serving = False,
                     gl_shutdown = None, gl_shutdownErr = None,
                     gl_broadcaster = newBroadcaster (nat (go_broadcastWorkers o')) (nat (go_broadcastQueueCapacity o')), gl_identity = ([], [])\<rparr>,
                    gateway_grpcOptions o')))"

section \<open>Preparation\<close>

definition validateApplication :: "app_info option \<Rightarrow> goerr option" where
  "validateApplication app =
     (case app of
        None \<Rightarrow> Some (Fresh ''gateway: application context is required'')
      | Some a \<Rightarrow>
          if \<not> ValidServiceName (app_Name a) then Some (Fresh ''gateway: invalid application name'')
          else if app_ID a = [] then Some (Fresh ''gateway: application ID is required'') else None)"

definition closeGRPCListener :: "'w gl_env \<Rightarrow> 'w \<Rightarrow> 'w \<times> goerr option" where
  "closeGRPCListener env w =
     (case lg_ListenerClose env w of
        (w, Some err) \<Rightarrow> (w, Some (Wrap ''gateway: close gRPC listener'' [err]))
      | (w, None) \<Rightarrow> (w, None))"

definition gateway_resolveGRPCEndpoint :: "'w gl_env \<Rightarrow> ctx \<Rightarrow> 'w \<Rightarrow> 'w \<times> (goerr + URL option)" where
  "gateway_resolveGRPCEndpoint env ctx w =
     (case lg_Prepare env ctx w of
        (w, Some err) \<Rightarrow> (w, Inl (Wrap ''gateway: prepare gRPC listener'' [err]))
      | (w, None) \<Rightarrow>
          (case lg_Endpoint env w of
             (w, Inr endpoint) \<Rightarrow> (w, Inr endpoint)
           | (w, Inl err) \<Rightarrow>
               (case closeGRPCListener env w of
                  (w, closeErr) \<Rightarrow> (w, Inl (the (errors_join [Some (Wrap ''gateway: resolve gRPC endpoint'' [err]), closeErr]))))))"

fun prepare_transports :: "'a gls gl_env \<Rightarrow> ctx \<Rightarrow> nat list \<Rightarrow> 'a gls \<Rightarrow> 'a gls \<times> goerr option" where
  "prepare_transports env ctx [] w = (w, None)"
| "prepare_transports env ctx (index # rest) w =
     (case gw_ctxErr (lg_gw env) ctx w of
        (w, Some err) \<Rightarrow> (w, Some err)
      | (w, None) \<Rightarrow>
          (case lg_BeforeStart env index ctx w of
             (w, err) \<Rightarrow>
               let w = w\<lparr>gl_prepared := index + 1\<rparr> in
               (case err of
                  Some e \<Rightarrow> (w, Some (Wrap ''gateway: prepare client transport'' [e]))
                | None \<Rightarrow> prepare_transports env ctx rest w)))"

definition gw_prepare :: "gl_config \<Rightarrow> 'a gls gl_env \<Rightarrow> app_info option \<Rightarrow> ctx \<Rightarrow> 'a gls \<Rightarrow> 'a gls \<times> goerr option" where
  "gw_prepare cfg env app ctx w =
     (case validateApplication app of
        Some err \<Rightarrow> (w, Some err)
      | None \<Rightarrow>
          (case gateway_resolveGRPCEndpoint env ctx w of
             (w, Inl err) \<Rightarrow> (w, Some err)
           | (w, Inr None) \<Rightarrow> (w, Some (Fresh ''gateway: valid gRPC application endpoint is required''))
           | (w, Inr (Some endpoint)) \<Rightarrow>
               if url_Host endpoint = [] \<or> url_Scheme endpoint \<noteq> ''grpc'' \<and> url_Scheme endpoint \<noteq> ''grpcs''
               then (w, Some (Fresh ''gateway: valid gRPC application endpoint is required''))
               else (case lg_Ping env (WithTimeout ctx (gl_connectTimeout cfg)) w of
                 (w, Some err) \<Rightarrow> (w, Some err)
               | (w, None) \<Rightarrow>
                   (case bc_start (gl_broadcaster w) of
                      (b, Some err) \<Rightarrow> (w\<lparr>gl_broadcaster := b\<rparr>, Some err)
                    | (b, None) \<Rightarrow>
                        (case prepare_transports env ctx [0..<gl_transports cfg] (w\<lparr>gl_broadcaster := b\<rparr>) of
                           (w, Some err) \<Rightarrow> (w, Some err)
                         | (w, None) \<Rightarrow>
                             (case gw_ctxErr (lg_gw env) ctx w of
                                (w, Some err) \<Rightarrow> (w, Some err)
                              | (w, None) \<Rightarrow> (w\<lparr>gl_identity := (app_ID (the app), lg_url env endpoint)\<rparr>, None)))))))"

section \<open>Start\<close>

definition gw_start_begin :: "'a gls \<Rightarrow> 'a gls \<times> goerr option" where
  "gw_start_begin w =
     (case gl_state_of w of
        GwStopping \<Rightarrow> (w, Some (Fresh ''gateway: server is stopping or stopped''))
      | GwStopped \<Rightarrow> (w, Some (Fresh ''gateway: server is stopping or stopped''))
      | GwStarting \<Rightarrow> (w, Some (Fresh ''gateway: server is already starting or started''))
      | GwStarted \<Rightarrow> (w, Some (Fresh ''gateway: server is already starting or started''))
      | GwNew \<Rightarrow> (w\<lparr>gl_state_of := GwStarting, gl_startupDone := Some False, gl_startupCancelled := Some False\<rparr>, None))"

text \<open>The result of the gRPC transport and of a client transport as their goroutines report it.\<close>

definition grpc_result :: "goerr option \<Rightarrow> goerr option" where
  "grpc_result err =
     (case err of
        None \<Rightarrow> None
      | Some e \<Rightarrow> if errors_is e (OtherErr ErrServerStopped) then None else Some (Wrap ''gateway: start gRPC transport'' [e]))"

definition client_result :: "goerr option \<Rightarrow> goerr option" where
  "client_result err = map_option (\<lambda>e. Wrap ''gateway: start client transport'' [e]) err"

definition gw_startGRPC :: "'w gl_env \<Rightarrow> ctx \<Rightarrow> 'w \<Rightarrow> 'w \<times> goerr option" where
  "gw_startGRPC env ctx w =
     (case lg_grpc env ctx w of
        (w, GrpcAccepting) \<Rightarrow> (w, None)
      | (w, GrpcServed err) \<Rightarrow>
          (w, Some (case grpc_result err of None \<Rightarrow> Fresh ''gateway: gRPC transport stopped before accepting'' | Some e \<Rightarrow> e))
      | (w, GrpcCtxDone err) \<Rightarrow> (w, Some err))"

text \<open>The section under the mutex that opens the gateway; it also starts the client transports.\<close>

definition gw_start_open :: "'a gls gl_env \<Rightarrow> ctx \<Rightarrow> 'a gls \<Rightarrow> 'a gls \<times> goerr option" where
  "gw_start_open env ctx w =
     (if gl_state_of w \<noteq> GwStarting then (w, Some (Fresh ''gateway: server is stopping or stopped''))
      else case gw_ctxErr (lg_gw env) ctx w of
        (w, Some _) \<Rightarrow> (w, Some (Fresh ''gateway: server is stopping or stopped''))
      | (w, None) \<Rightarrow> (w\<lparr>gl_state_of := GwStarted, gl_serving := True, st_reg := openAdmission (st_reg w)\<rparr>, None))"

text \<open>\<open>None\<close>: the events given are over and \<open>Start\<close> still waits.\<close>

fun gw_serve :: "gw_event list \<Rightarrow> goerr option option" where
  "gw_serve [] = None"
| "gw_serve (GrpcEnded err # evs) = Some (grpc_result err)"
| "gw_serve (ClientEnded index err # evs) = (case client_result err of None \<Rightarrow> gw_serve evs | Some e \<Rightarrow> Some (Some e))"
| "gw_serve (RunCtxDone # evs) = Some None"

definition beginShutdown :: "'a gls \<Rightarrow> 'a gls" where
  "beginShutdown w =
     (let w = (if gl_state_of w \<noteq> GwStopped then w\<lparr>gl_state_of := GwStopping\<rparr> else w);
          w = w\<lparr>gl_startupCancelled := map_option (\<lambda>_. True) (gl_startupCancelled w), st_reg := closeAdmission (st_reg w)\<rparr> in
      case gl_shutdown w of None \<Rightarrow> w\<lparr>gl_shutdown := Some (gl_startupDone w \<noteq> None)\<rparr> | Some _ \<Rightarrow> w)"

text \<open>What is deferred in \<open>Start\<close>: hand over, shut down and wait for the end of the shutdown.\<close>

definition start_deferred :: "'a gls gl_env \<Rightarrow> goerr option \<Rightarrow> 'a gls \<Rightarrow> 'a gls \<times> goerr option" where
  "start_deferred env err w =
     (let w = fst (lg_wait env Background (beginShutdown (w\<lparr>gl_startupDone := Some True\<rparr>))) in
      (w, errors_join [err, case gl_shutdownErr w of None \<Rightarrow> None | Some e \<Rightarrow> e]))"

definition gw_Start ::
  "gl_config \<Rightarrow> 'a gls gl_env \<Rightarrow> app_info option \<Rightarrow> ctx option \<Rightarrow> gw_event list \<Rightarrow> 'a gls \<Rightarrow> 'a gls \<times> goerr option option" where
  "gw_Start cfg env app ctx evs w =
     (let ctx = (case ctx of None \<Rightarrow> Background | Some c \<Rightarrow> c) in
      case gw_start_begin w of
        (w, Some err) \<Rightarrow> (w, Some (Some err))
      | (w, None) \<Rightarrow>
          let run = WithCancel ctx in
          (case (case gw_prepare cfg env app run w of
                   (w, Some err) \<Rightarrow> (w, Some err)
                 | (w, None) \<Rightarrow>
                     (case gw_startGRPC env run w of
                        (w, Some err) \<Rightarrow> (w, Some err)
                      | (w, None) \<Rightarrow> gw_start_open env run w)) of
             (w, Some err) \<Rightarrow> (case start_deferred env (Some err) w of (w, e) \<Rightarrow> (w, Some e))
           | (w, None) \<Rightarrow>
               let w = w\<lparr>gl_startupDone := Some True\<rparr> in
               (case gw_serve evs of
                  None \<Rightarrow> (w, None)
                | Some err \<Rightarrow> (case start_deferred env err w of (w, e) \<Rightarrow> (w, Some e)))))"

definition gw_Stop :: "'a gls gl_env \<Rightarrow> ctx option \<Rightarrow> 'a gls \<Rightarrow> 'a gls \<times> goerr option" where
  "gw_Stop env ctx w =
     (let ctx = (case ctx of None \<Rightarrow> Background | Some c \<Rightarrow> c) in
      case lg_wait env ctx (beginShutdown w) of
        (w, ev) \<Rightarrow>
          (case contextwait_Done ev of
             Some err \<Rightarrow> (w, Some err)
           | None \<Rightarrow> (w, case gl_shutdownErr w of None \<Rightarrow> None | Some e \<Rightarrow> e)))"

section \<open>Session drain\<close>

text \<open>\<open>detachForClose\<close> first waits for the handler and the heartbeat of the session: \<open>gw_clock\<close> stands for that wait.\<close>

definition drainSession :: "gw_config \<Rightarrow> 'a gws gw_env \<Rightarrow> ctx \<Rightarrow> nat \<Rightarrow> 'a gws \<Rightarrow> 'a gws" where
  "drainSession cfg env ctx a w =
     (let ctx = WithTimeout ctx (gw_cleanupTimeout cfg); w = fst (gw_clock env w) in
      case sess_at w a of
        None \<Rightarrow> w
      | Some s \<Rightarrow>
          (case detachForClose s of
             (s', binding) \<Rightarrow>
               (case c_CloseWithProto (gw_conn env) ctx (s_conn s) (zeroProto\<lparr>Op := OpKick, Code := KickCodeServerShutdown\<rparr>) (set_sess a s' w) of
                  (w, _) \<Rightarrow>
                    let w = close_conn env (s_conn s) w in
                    if \<not> ValidGateBinding binding then w
                    else (case gw_ctxErr env ctx w of
                      (w, Some _) \<Rightarrow> w
                    | (w, None) \<Rightarrow>
                        (case gw_ctxErr env ctx (unbindGate env ctx binding w) of
                           (w, Some _) \<Rightarrow> w
                         | (w, None) \<Rightarrow> notifyDisconnect env ctx binding w)))))"

definition shutdownWorkerCount :: nat where "shutdownWorkerCount = 64"

text \<open>
  The workers of \<open>startSessionDrain\<close>: the shared counter, the session each worker drains (\<open>None\<close>: between two
  sessions), the workers that returned and the sessions drained so far.
\<close>

record drain_run =
  dr_sessions :: "nat list"
  dr_next :: nat
  dr_busy :: "nat option list"
  dr_returned :: nat
  dr_drained :: "nat list"

definition startSessionDrain :: "nat list \<Rightarrow> drain_run" where
  "startSessionDrain sessions =
     \<lparr>dr_sessions = sessions, dr_next = 0, dr_busy = replicate (min shutdownWorkerCount (length sessions)) None, dr_returned = 0, dr_drained = []\<rparr>"

inductive drain_step :: "drain_run \<Rightarrow> drain_run \<Rightarrow> bool" where
  d_claim: "dr_busy d = pre @ None # post \<Longrightarrow> dr_next d < length (dr_sessions d) \<Longrightarrow>
    drain_step d (d\<lparr>dr_next := dr_next d + 1, dr_busy := pre @ Some (dr_next d) # post\<rparr>)"
| d_done: "dr_busy d = pre @ Some i # post \<Longrightarrow>
    drain_step d (d\<lparr>dr_busy := pre @ None # post, dr_drained := dr_drained d @ [i]\<rparr>)"
| d_return: "dr_busy d = pre @ None # post \<Longrightarrow> \<not> dr_next d < length (dr_sessions d) \<Longrightarrow>
    drain_step d (d\<lparr>dr_next := dr_next d + 1, dr_busy := pre @ post, dr_returned := dr_returned d + 1\<rparr>)"

section \<open>Shutdown\<close>

datatype shut_step =
    QuiesceWaited "goerr option" | PoolClosed "goerr option" | BroadcastStopped "goerr option" | SessionsTaken "nat list"
  | DrainWaited "goerr option" | ConnsClosed "nat list" | TransportStopped nat "goerr option" | GrpcStopped "goerr option"
  | ListenerClosed "goerr option" | BackendsClosed | AuthsEnded | DrainEnded | WorkersEnded | LateStopped "goerr option"

definition waitGroupContext :: "'w gl_env \<Rightarrow> ctx \<Rightarrow> 'w \<Rightarrow> 'w \<times> goerr option" where
  "waitGroupContext env ctx w = (case lg_wait env ctx w of (w, ev) \<Rightarrow> (w, contextwait_Done ev))"

definition gw_quiesce :: "'a gls gl_env \<Rightarrow> ctx \<Rightarrow> 'a gls \<Rightarrow> 'a gls \<times> goerr option \<times> shut_step list" where
  "gw_quiesce env ctx w =
     (case waitGroupContext env ctx (w\<lparr>st_reg := closeAdmission (st_reg w)\<rparr>) of
        (w, Some err) \<Rightarrow> (w, Some err, [QuiesceWaited (Some err)])
      | (w, None) \<Rightarrow>
          (case gc_Close (gw_gc (lg_gw env)) w of (w, err) \<Rightarrow> (w, err, [QuiesceWaited None, PoolClosed err])))"

text \<open>\<open>stop\<close> of the broadcaster: a run is cancelled and waited for.\<close>

definition gw_stopBroadcast :: "'a gls gl_env \<Rightarrow> ctx \<Rightarrow> 'a gls \<Rightarrow> 'a gls \<times> goerr option" where
  "gw_stopBroadcast env ctx w =
     (case b_active (gl_broadcaster w) of
        None \<Rightarrow> (w, None)
      | Some _ \<Rightarrow>
          (case lg_wait env ctx (w\<lparr>gl_broadcaster := stop_cancel (gl_broadcaster w)\<rparr>) of (w, ev) \<Rightarrow> (w, contextwait_Done ev)))"

text \<open>The order in which the transports \<open>first\<close> to \<open>end\<close> are stopped.\<close>

definition stop_order :: "nat \<Rightarrow> nat \<Rightarrow> bool \<Rightarrow> nat list" where
  "stop_order first end' rollback = map (\<lambda>offset. if rollback then end' - 1 - offset else first + offset) [0..<end' - first]"

definition stop_wrap :: "bool \<Rightarrow> goerr option \<Rightarrow> goerr option" where
  "stop_wrap rollback err =
     map_option (\<lambda>e. Wrap (if rollback then ''gateway: roll back client transport'' else ''gateway: stop client transport'') [e]) err"

text \<open>The results of the stops, the results that are still to come and the steps.\<close>

fun stop_transports ::
  "gw_config \<Rightarrow> 'w gl_env \<Rightarrow> ctx \<Rightarrow> bool \<Rightarrow> nat list \<Rightarrow> 'w \<Rightarrow> 'w \<times> goerr option list \<times> goerr option list \<times> shut_step list" where
  "stop_transports cfg env ctx rollback [] w = (w, [], [], [])"
| "stop_transports cfg env ctx rollback (index # rest) w =
     (let stopCtx = (if rollback then WithTimeout (WithoutCancel ctx) (gw_cleanupTimeout cfg) else ctx) in
      case lg_transportStop env index stopCtx w of
        (w, first) \<Rightarrow>
          (case (case first of
                   StopResult err \<Rightarrow> (stop_wrap rollback err, [])
                 | StopCtxDone err late \<Rightarrow> (stop_wrap rollback (Some err), [stop_wrap rollback late])) of
             (err, late) \<Rightarrow>
               (case stop_transports cfg env ctx rollback rest w of
                  (w, errs, lates, steps) \<Rightarrow> (w, err # errs, late @ lates, TransportStopped index err # steps))))"

definition stopClientTransports ::
  "gw_config \<Rightarrow> 'w gl_env \<Rightarrow> ctx \<Rightarrow> nat \<Rightarrow> nat \<Rightarrow> bool \<Rightarrow> 'w \<Rightarrow> 'w \<times> goerr option list \<times> goerr option list \<times> shut_step list" where
  "stopClientTransports cfg env ctx first end' rollback w = stop_transports cfg env ctx rollback (stop_order first end' rollback) w"

fun close_conns :: "'a gws gw_env \<Rightarrow> nat list \<Rightarrow> 'a gws \<Rightarrow> 'a gws" where
  "close_conns env [] w = w"
| "close_conns env (a # as) w = close_conns env as (case sess_at w a of None \<Rightarrow> w | Some s \<Rightarrow> close_conn env (s_conn s) w)"

text \<open>The first half of \<open>shutdown\<close>: no more authentications, no more broadcasts, and the sessions drained.\<close>

definition shutdown_sessions ::
  "'a gls gl_env \<Rightarrow> ctx \<Rightarrow> 'a gls \<Rightarrow> 'a gls \<times> goerr option \<times> goerr option \<times> goerr option \<times> shut_step list" where
  "shutdown_sessions env ctx w =
     (case gw_quiesce env ctx w of
        (w, quiesceErr, steps) \<Rightarrow>
          (case gw_stopBroadcast env ctx w of
             (w, broadcastErr) \<Rightarrow>
               (case takeAll (st_reg w) (lg_order env w) of
                  (r, sessions) \<Rightarrow>
                    (case lg_wait env ctx (w\<lparr>st_reg := r\<rparr>) of
                       (w, ev) \<Rightarrow>
                         let drainErr = contextwait_Done ev;
                             steps = steps @ [BroadcastStopped broadcastErr, SessionsTaken sessions, DrainWaited drainErr] in
                         if drainErr \<noteq> None
                         then (close_conns (lg_gw env) sessions w, quiesceErr, broadcastErr, drainErr, steps @ [ConnsClosed sessions])
                         else (w, quiesceErr, broadcastErr, drainErr, steps)))))"

text \<open>The second half: the transports, and everything that is still running.\<close>

definition shutdown_network ::
  "gl_config \<Rightarrow> 'a gls gl_env \<Rightarrow> ctx \<Rightarrow> nat \<Rightarrow> 'a gls \<Rightarrow> 'a gls \<times> goerr option list \<times> shut_step list" where
  "shutdown_network cfg env ctx stoppedTransports w =
     (let serving = gl_serving w in
      case stopClientTransports (gw_config.truncate cfg) env ctx stoppedTransports (gl_transports cfg) (\<not> serving) w of
        (w, errs, lates, steps) \<Rightarrow>
          let grpcCtx = (if serving then ctx else WithTimeout (WithoutCancel ctx) (gw_cleanupTimeout cfg)) in
          (case lg_grpcStop env grpcCtx w of
             (w, grpcErr) \<Rightarrow>
               (case closeGRPCListener env w of
                  (w, listenerErr) \<Rightarrow>
                    let w = be_close (gw_be (lg_gw env)) w;
                        w = fst (lg_wait env Background w);
                        w = fst (gc_Close (gw_gc (lg_gw env)) w);
                        w = fst (gw_stopBroadcast env Background w);
                        w = fst (lg_wait env Background w);
                        w = fst (lg_wait env Background w);
                        grpcErr = map_option (\<lambda>e. Wrap ''gateway: stop gRPC transport'' [e]) grpcErr in
                    (w, errs @ [grpcErr, listenerErr] @ lates,
                     steps @ [GrpcStopped grpcErr, ListenerClosed listenerErr, BackendsClosed, AuthsEnded, DrainEnded, WorkersEnded] @ map LateStopped lates))))"

definition gw_shutdown :: "gl_config \<Rightarrow> 'a gls gl_env \<Rightarrow> ctx \<Rightarrow> nat \<Rightarrow> 'a gls \<Rightarrow> 'a gls \<times> goerr option \<times> shut_step list" where
  "gw_shutdown cfg env ctx stoppedTransports w =
     (case shutdown_sessions env ctx w of
        (w, quiesceErr, broadcastErr, drainErr, steps) \<Rightarrow>
          (case shutdown_network cfg env ctx stoppedTransports w of
             (w, transportErrs, steps') \<Rightarrow>
               (case gw_ctxErr (lg_gw env) ctx w of
                  (w, ctxErr) \<Rightarrow> (w, errors_join ([ctxErr, quiesceErr, broadcastErr, drainErr] @ transportErrs), steps @ steps'))))"

text \<open>
  What precedes \<open>shutdown\<close> while a startup is under way: wait for it or, when the budget runs out first, release
  what it has prepared and then wait. \<open>None\<close> of the wait is the startup that was over in time.
\<close>

definition shutdown_startup ::
  "gl_config \<Rightarrow> 'a gls gl_env \<Rightarrow> ctx \<Rightarrow> 'a gls \<Rightarrow> 'a gls \<times> nat \<times> goerr option list \<times> goerr option list \<times> shut_step list" where
  "shutdown_startup cfg env ctx w =
     (case lg_wait env ctx w of
        (w, WaitDone) \<Rightarrow> (w, 0, [], [], [])
      | (w, WaitCtx _ _) \<Rightarrow>
          let stopped = gl_prepared w in
          (case closeGRPCListener env w of
             (w, listenerErr) \<Rightarrow>
               (case gw_stopBroadcast env ctx w of
                  (w, broadcastErr) \<Rightarrow>
                    (case stopClientTransports (gw_config.truncate cfg) env ctx 0 stopped True w of
                       (w, errs, lates, steps) \<Rightarrow>
                         (fst (lg_wait env Background w), stopped, [listenerErr, broadcastErr] @ errs, lates,
                          [ListenerClosed listenerErr, BroadcastStopped broadcastErr] @ steps)))))"

text \<open>The goroutine of the shutdown; \<open>startup\<close> says whether a startup was under way when it was begun.\<close>

definition run_shutdown :: "gl_config \<Rightarrow> 'a gls gl_env \<Rightarrow> bool \<Rightarrow> 'a gls \<Rightarrow> 'a gls \<times> shut_step list" where
  "run_shutdown cfg env startup w =
     (let ctx = WithTimeout Background (gl_shutdownTimeout cfg) in
      case (if startup then shutdown_startup cfg env ctx w else (w, 0, [], [], [])) of
        (w, stopped, errs, lates, steps) \<Rightarrow>
          (case gw_shutdown cfg env ctx stopped w of
             (w, err, steps') \<Rightarrow>
               (w\<lparr>gl_shutdownErr := Some (errors_join (errs @ [err] @ lates)), gl_state_of := GwStopped\<rparr>,
                steps @ steps' @ map LateStopped lates)))"

section \<open>Sessions are drained once\<close>

definition drain_inv :: "drain_run \<Rightarrow> bool" where
  "drain_inv d \<longleftrightarrow>
     mset (dr_drained d) + mset (List.map_filter id (dr_busy d)) = mset [0..<min (dr_next d) (length (dr_sessions d))] \<and>
     length (dr_busy d) + dr_returned d = min shutdownWorkerCount (length (dr_sessions d)) \<and>
     (dr_returned d \<noteq> 0 \<longrightarrow> length (dr_sessions d) \<le> dr_next d)"

lemma drain_inv_start: "drain_inv (startSessionDrain sessions)"
  by (simp add: drain_inv_def startSessionDrain_def List.map_filter_def)

lemma drain_inv_step: "drain_step d d' \<Longrightarrow> drain_inv d \<Longrightarrow> drain_inv d'"
  by (induction rule: drain_step.induct) (auto simp: drain_inv_def List.map_filter_def min_def)

text \<open>
  Whatever the workers of the drain do, no session is drained twice, and when all of them have returned every
  session was drained.
\<close>

lemma session_drain_once:
  assumes "drain_step\<^sup>*\<^sup>* (startSessionDrain sessions) d"
  shows "distinct (dr_drained d)" "dr_busy d = [] \<Longrightarrow> mset (dr_drained d) = mset [0..<length (dr_sessions d)]"
proof -
  from assms have inv: "drain_inv d" by (induction rule: rtranclp_induct) (auto intro: drain_inv_start drain_inv_step)
  then have "mset (dr_drained d @ List.map_filter id (dr_busy d)) = mset [0..<min (dr_next d) (length (dr_sessions d))]"
    by (simp add: drain_inv_def)
  from mset_eq_imp_distinct_iff [OF this] show "distinct (dr_drained d)" by simp
  show "mset (dr_drained d) = mset [0..<length (dr_sessions d)]" if "dr_busy d = []"
    using inv that by (cases "dr_returned d = 0") (auto simp: drain_inv_def List.map_filter_def min_def shutdownWorkerCount_def split: if_splits)
qed

section \<open>The steps of a shutdown\<close>

fun step_err :: "shut_step \<Rightarrow> goerr option" where
  "step_err (QuiesceWaited e) = e"
| "step_err (PoolClosed e) = e"
| "step_err (BroadcastStopped e) = e"
| "step_err (DrainWaited e) = e"
| "step_err (TransportStopped i e) = e"
| "step_err (GrpcStopped e) = e"
| "step_err (ListenerClosed e) = e"
| "step_err (LateStopped e) = e"
| "step_err _ = None"

fun stopped_ids :: "shut_step list \<Rightarrow> nat list" where
  "stopped_ids [] = []"
| "stopped_ids (TransportStopped i e # steps) = i # stopped_ids steps"
| "stopped_ids (_ # steps) = stopped_ids steps"

lemma stopped_ids_append [simp]: "stopped_ids (xs @ ys) = stopped_ids xs @ stopped_ids ys"
  by (induction xs rule: stopped_ids.induct) simp_all

lemma stopped_ids_late [simp]: "stopped_ids (map LateStopped es) = []"
  by (induction es) simp_all

lemma stop_transports_steps:
  "stop_transports cfg env ctx rollback is w = (w', errs, lates, steps) \<Longrightarrow>
     stopped_ids steps = is \<and> steps = map2 TransportStopped is errs \<and> length errs = length is"
proof (induction "is" arbitrary: w w' errs lates steps)
  case (Cons i "is")
  then show ?case by (fastforce simp: Let_def split: prod.splits stop_first.splits)
qed simp

lemma stop_order_mset: "mset (stop_order first end' rollback) = mset [first..<end']"
proof (cases rollback)
  case True
  then have "stop_order first end' rollback = rev [first..<end']"
    by (auto simp: stop_order_def rev_nth intro!: nth_equalityI)
  then show ?thesis by simp
next
  case False
  then have "stop_order first end' rollback = [first..<end']" by (auto simp: stop_order_def intro!: nth_equalityI)
  then show ?thesis by simp
qed

lemma stopClientTransports_steps:
  assumes "stopClientTransports cfg env ctx first end' rollback w = (w', errs, lates, steps)"
  shows "mset (stopped_ids steps) = mset [first..<end']" "\<forall>s\<in>set steps. (\<exists>i. s = TransportStopped i (step_err s)) \<and> step_err s \<in> set errs"
proof -
  from assms have st: "stop_transports cfg env ctx rollback (stop_order first end' rollback) w = (w', errs, lates, steps)"
    by (simp add: stopClientTransports_def)
  from stop_transports_steps [OF st] show "mset (stopped_ids steps) = mset [first..<end']" by (metis stop_order_mset)
  from stop_transports_steps [OF st] show "\<forall>s\<in>set steps. (\<exists>i. s = TransportStopped i (step_err s)) \<and> step_err s \<in> set errs"
    by (auto dest: set_zip_rightD)
qed

lemma shutdown_sessions_steps:
  assumes "shutdown_sessions env ctx w = (w', quiesceErr, broadcastErr, drainErr, steps)"
  shows "stopped_ids steps = []" "\<exists>ss. SessionsTaken ss \<in> set steps \<and> (\<forall>ss'. SessionsTaken ss' \<in> set steps \<longrightarrow> ss' = ss) \<and>
      (drainErr \<noteq> None \<longrightarrow> ConnsClosed ss \<in> set steps)"
    "\<forall>e. DrainWaited e \<in> set steps \<longrightarrow> e = drainErr" "\<forall>s\<in>set steps. step_err s \<in> {None, quiesceErr, broadcastErr, drainErr}"
  using assms by (auto simp: shutdown_sessions_def gw_quiesce_def Let_def split: prod.splits option.splits if_splits)

definition shutdown_tail :: "goerr option \<Rightarrow> goerr option \<Rightarrow> goerr option list \<Rightarrow> shut_step list" where
  "shutdown_tail g l lates =
     GrpcStopped g # [ListenerClosed l, BackendsClosed, AuthsEnded, DrainEnded, WorkersEnded] @ map LateStopped lates"

lemma shutdown_network_steps:
  assumes "shutdown_network cfg env ctx stopped w = (w', errs, steps)"
  shows "\<exists>pre g l lates. steps = pre @ shutdown_tail g l lates \<and> mset (stopped_ids pre) = mset [stopped..<gl_transports cfg] \<and>
    (\<forall>s\<in>set pre. \<exists>i e. s = TransportStopped i e) \<and> (\<forall>s\<in>set steps. step_err s \<in> insert None (set errs))"
proof -
  obtain w1 errs1 lates steps1 where st:
    "stopClientTransports (gw_config.truncate cfg) env ctx stopped (gl_transports cfg) (\<not> gl_serving w) w = (w1, errs1, lates, steps1)"
    by (rule prod_cases4)
  let ?grpcCtx = "if gl_serving w then ctx else WithTimeout (WithoutCancel ctx) (gw_cleanupTimeout cfg)"
  obtain w2 g where g: "lg_grpcStop env ?grpcCtx w1 = (w2, g)" by fastforce
  obtain w3 l where l: "closeGRPCListener env w2 = (w3, l)" by fastforce
  let ?g = "map_option (\<lambda>e. Wrap ''gateway: stop gRPC transport'' [e]) g"
  have steps: "steps = steps1 @ shutdown_tail ?g l lates" and errs: "errs = errs1 @ [?g, l] @ lates"
    using assms unfolding shutdown_network_def Let_def st prod.case g l by (auto simp: shutdown_tail_def)
  note t = stopClientTransports_steps [OF st]
  have "\<forall>s\<in>set steps1. \<exists>i e. s = TransportStopped i e" using t(2) by blast
  moreover have "\<forall>s\<in>set steps. step_err s \<in> insert None (set errs)" using t(2) by (auto simp: steps errs shutdown_tail_def)
  ultimately show ?thesis using steps t(1) by blast
qed

lemma shutdown_startup_steps:
  assumes "shutdown_startup cfg env ctx w = (w', stopped, errs, lates, steps)"
    and "gl_prepared (fst (lg_wait env ctx w)) \<le> gl_transports cfg"
  shows "stopped \<le> gl_transports cfg" "mset (stopped_ids steps) = mset [0..<stopped]"
    "\<forall>s\<in>set steps. (\<exists>e. s = ListenerClosed e \<or> s = BroadcastStopped e) \<or> (\<exists>i e. s = TransportStopped i e)"
    "\<forall>s\<in>set steps. step_err s \<in> insert None (set errs)"
proof -
  obtain w1 ev where ev: "lg_wait env ctx w = (w1, ev)" by fastforce
  then have le: "gl_prepared w1 \<le> gl_transports cfg" using assms(2) by simp
  obtain w2 l where l: "closeGRPCListener env w1 = (w2, l)" by fastforce
  obtain w3 b where b: "gw_stopBroadcast env ctx w2 = (w3, b)" by fastforce
  obtain w4 errs1 lates1 steps1 where st: "stopClientTransports (gw_config.truncate cfg) env ctx 0 (gl_prepared w1) True w3 = (w4, errs1, lates1, steps1)"
    by (rule prod_cases4)
  have r: "(stopped = 0 \<and> errs = [] \<and> steps = []) \<or>
      (stopped = gl_prepared w1 \<and> errs = [l, b] @ errs1 \<and> steps = [ListenerClosed l, BroadcastStopped b] @ steps1)"
    using assms(1) unfolding shutdown_startup_def ev prod.case by (cases ev) (auto simp: Let_def l b st)
  note t = stopClientTransports_steps [OF st]
  show "stopped \<le> gl_transports cfg" using r le by auto
  show "mset (stopped_ids steps) = mset [0..<stopped]" using r t(1) by auto
  show "\<forall>s\<in>set steps. (\<exists>e. s = ListenerClosed e \<or> s = BroadcastStopped e) \<or> (\<exists>i e. s = TransportStopped i e)" using r t(2) by fastforce
  show "\<forall>s\<in>set steps. step_err s \<in> insert None (set errs)" using r t(2) by auto
qed

text \<open>The steps of the whole shutdown, in their four parts.\<close>

lemma run_shutdown_steps:
  assumes run: "run_shutdown cfg env startup w = (w', steps)"
    and bound: "\<And>ctx. gl_prepared (fst (lg_wait env ctx w)) \<le> gl_transports cfg"
  shows "\<exists>s0 s1 pre g l lates late0 ss drainErr. steps = s0 @ s1 @ pre @ shutdown_tail g l lates @ map LateStopped late0 \<and>
    mset (stopped_ids s0) + mset (stopped_ids pre) = mset [0..<gl_transports cfg] \<and> stopped_ids s1 = [] \<and>
    (\<forall>s\<in>set s0 \<union> set pre. (\<exists>e. s = ListenerClosed e \<or> s = BroadcastStopped e) \<or> (\<exists>i e. s = TransportStopped i e)) \<and>
    SessionsTaken ss \<in> set s1 \<and> (\<forall>ss'. SessionsTaken ss' \<in> set s1 \<longrightarrow> ss' = ss) \<and> (drainErr \<noteq> None \<longrightarrow> ConnsClosed ss \<in> set s1) \<and>
    (\<forall>e. DrainWaited e \<in> set s1 \<longrightarrow> e = drainErr) \<and> gl_state_of w' = GwStopped \<and>
    (gl_shutdownErr w' = Some None \<longrightarrow> (\<forall>s\<in>set steps. step_err s = None))"
proof -
  define ctx where "ctx = WithTimeout Background (gl_shutdownTimeout cfg)"
  obtain w0 stopped errs0 late0 s0 where a: "(if startup then shutdown_startup cfg env ctx w else (w, 0, [], [], [])) = (w0, stopped, errs0, late0, s0)"
    by (rule prod_cases5)
  obtain w1 q b d s1 where sess: "shutdown_sessions env ctx w0 = (w1, q, b, d, s1)" by (rule prod_cases5)
  obtain w2 terrs s2 where net: "shutdown_network cfg env ctx stopped w1 = (w2, terrs, s2)" by (rule prod_cases3)
  obtain w3 c where c: "gw_ctxErr (lg_gw env) ctx w2 = (w3, c)" by fastforce
  have shut: "gw_shutdown cfg env ctx stopped w0 = (w3, errors_join ([c, q, b, d] @ terrs), s1 @ s2)"
    unfolding gw_shutdown_def sess net c prod.case by simp
  have end': "w' = w3\<lparr>gl_shutdownErr := Some (errors_join (errs0 @ [errors_join ([c, q, b, d] @ terrs)] @ late0)), gl_state_of := GwStopped\<rparr>"
    and steps: "steps = s0 @ (s1 @ s2) @ map LateStopped late0"
    using run unfolding run_shutdown_def ctx_def [symmetric] Let_def a prod.case shut by simp_all
  have start: "stopped \<le> gl_transports cfg" "mset (stopped_ids s0) = mset [0..<stopped]"
    "\<forall>s\<in>set s0. (\<exists>e. s = ListenerClosed e \<or> s = BroadcastStopped e) \<or> (\<exists>i e. s = TransportStopped i e)"
    "\<forall>s\<in>set s0. step_err s \<in> insert None (set errs0)"
    using a shutdown_startup_steps [of cfg env ctx w w0 stopped errs0 late0 s0] bound by (cases startup; simp)+
  obtain pre g l lates where tail: "s2 = pre @ shutdown_tail g l lates" and ids: "mset (stopped_ids pre) = mset [stopped..<gl_transports cfg]"
    and pre: "\<forall>s\<in>set pre. \<exists>i e. s = TransportStopped i e" and errs2: "\<forall>s\<in>set s2. step_err s \<in> insert None (set terrs)"
    using shutdown_network_steps [OF net] by blast
  obtain ss where ss: "SessionsTaken ss \<in> set s1" "\<forall>ss'. SessionsTaken ss' \<in> set s1 \<longrightarrow> ss' = ss" "d \<noteq> None \<longrightarrow> ConnsClosed ss \<in> set s1"
    using shutdown_sessions_steps(2) [OF sess] by blast
  have "[0..<stopped] @ [stopped..<gl_transports cfg] = [0..<gl_transports cfg]" using start(1) by (metis le0 upt_add_eq_append le_add_diff_inverse)
  then have all: "mset (stopped_ids s0) + mset (stopped_ids pre) = mset [0..<gl_transports cfg]" using start(2) ids by (metis mset_append)
  have nil: "\<forall>s\<in>set steps. step_err s = None" if "gl_shutdownErr w' = Some None"
  proof -
    have "\<forall>e\<in>set errs0. e = None" "\<forall>e\<in>set ([q, b, d] @ terrs). e = None" "\<forall>e\<in>set late0. e = None" using that by (auto simp: end')
    then show ?thesis using start(4) errs2 shutdown_sessions_steps(4) [OF sess] by (fastforce simp: steps)
  qed
  have "steps = s0 @ s1 @ pre @ shutdown_tail g l lates @ map LateStopped late0" by (simp add: steps tail)
  moreover have "gl_state_of w' = GwStopped" by (simp add: end')
  moreover have "\<forall>s\<in>set s0 \<union> set pre. (\<exists>e. s = ListenerClosed e \<or> s = BroadcastStopped e) \<or> (\<exists>i e. s = TransportStopped i e)"
    using start(3) pre by blast
  ultimately show ?thesis using all ss shutdown_sessions_steps(1,3) [OF sess] nil by blast
qed


text \<open>A gateway with two client transports whose startup, with one of them prepared, outlives the budget.\<close>

definition gl_demo_cfg :: gl_config where
  "gl_demo_cfg = gw_config.extend gw_demo_cfg \<lparr>gl_connectTimeout = 3, gl_shutdownTimeout = 10, gl_transports = 2\<rparr>"

definition gl_demo :: gl_state where
  "gl_demo = gw_state.extend gw_demo
     \<lparr>gl_state_of = GwStopping, gl_startupDone = Some False, gl_startupCancelled = Some True, gl_prepared = 1, gl_serving = False,
      gl_shutdown = Some True, gl_shutdownErr = None, gl_broadcaster = newBroadcaster 2 4, gl_identity = ([], [])\<rparr>"


end
