(* ===== verification/Node.thy ===== *)
theory Node
  imports Epoch Gate_Client
begin

text \<open>
  The request side of a node: \<open>node/dispatch.go\<close> (forwarded requests and disconnect notices),
  \<open>node/session.go\<close> (bindings written by handlers), \<open>node/push.go\<close> (pushes to clients) and
  \<open>node/register.go\<close> (handlers), with the part of \<open>node/lifecycle.go\<close> that a lost epoch triggers. As for the
  gateway, calls that leave the node are operations of the environment on the whole state, so what other
  goroutines do meanwhile is part of them; sections under a mutex are single steps.
\<close>

section \<open>State\<close>

datatype node_state = NodeNew | NodeStarting | NodeStarted

record registration =
  ri_ID :: string
  ri_Name :: string
  ri_Version :: string
  ri_Metadata :: "string \<rightharpoonup> string"
  ri_Endpoints :: "string list"

text \<open>
  The mutable fields of \<open>Server\<close>. \<open>nd_startupCancelled\<close> and \<open>nd_startupDone\<close> are absent before \<open>Start\<close>;
  \<open>nd_fatal\<close> is the cause of the fatal context; \<open>nd_cleanup\<close> holds the context and the budget of the one
  cleanup, once it was started, and \<open>nd_cleanupResult\<close> its result, once it is over; \<open>nd_serving\<close> is the
  health status. Handlers are names, whose code is in the environment.
\<close>

record nd_state = gc_state +
  nd_identity :: "nodeIdentity option"
  nd_lease :: "epochLease option"
  nd_requests :: requestAdmission
  nd_deliveries :: requestAdmission
  nd_fatal :: "goerr option"
  nd_state_of :: node_state
  nd_startupDone :: "bool option"
  nd_startupCancelled :: "bool option"
  nd_lifecycleCtx :: "ctx option"
  nd_registration :: "registration option"
  nd_cleanup :: "(ctx \<times> duration) option"
  nd_cleanupResult :: "goerr option option"
  nd_serving :: bool
  nd_handlers :: "int \<rightharpoonup> nat"
  nd_onDisconnect :: "nat option"

record nd_config =
  nd_pushTimeout :: duration
  nd_cleanupTimeout :: duration
  nd_shutdownTimeout :: duration
  nd_stateful :: bool
  nd_directory :: bool

text \<open>
  A context with the values a node puts into it: the command of the request and its session, which is the
  binding it answers to.
\<close>

record call_ctx =
  cc_ctx :: ctx
  cc_command :: "int option"
  cc_session :: "GateBinding option"

text \<open>
  The environment; \<open>ne_handler\<close> and \<open>ne_disconnect\<close> run the handler of a name. \<open>ne_rounds\<close> and
  \<open>ne_ended\<close> are the outcomes of the selects of \<open>gateclient\<close>.
\<close>

record 'w nd_env =
  ne_clock :: "'w \<Rightarrow> 'w \<times> time"
  ne_gc :: "'w gc_env"
  ne_LocateNode :: "ctx \<Rightarrow> string \<Rightarrow> string \<Rightarrow> 'w \<Rightarrow> 'w \<times> (goerr + string)"
  ne_BindNode :: "ctx \<Rightarrow> string \<Rightarrow> string \<Rightarrow> string \<Rightarrow> string \<Rightarrow> 'w \<Rightarrow> 'w \<times> goerr option"
  ne_RenewNode :: "ctx \<Rightarrow> string \<Rightarrow> string \<Rightarrow> string \<Rightarrow> string \<Rightarrow> 'w \<Rightarrow> 'w \<times> goerr option"
  ne_UnbindNode :: "ctx \<Rightarrow> string \<Rightarrow> string \<Rightarrow> string \<Rightarrow> string \<Rightarrow> 'w \<Rightarrow> 'w \<times> goerr option"
  ne_LocateGate :: "ctx \<Rightarrow> string \<Rightarrow> string \<Rightarrow> 'w \<Rightarrow> 'w \<times> (goerr + GateLease)"
  ne_handler :: "nat \<Rightarrow> call_ctx \<Rightarrow> bytes \<Rightarrow> 'w \<Rightarrow> 'w \<times> (goerr + bytes)"
  ne_disconnect :: "nat \<Rightarrow> call_ctx \<Rightarrow> GateBinding \<Rightarrow> 'w \<Rightarrow> 'w \<times> goerr option"
  ne_rounds :: "'w \<Rightarrow> dial_first list"
  ne_ended :: "'w \<Rightarrow> goerr"

type_synonym 'a nds = "'a nd_state_scheme"

definition normalizeContext :: "ctx option \<Rightarrow> ctx" where
  "normalizeContext ctx = (case ctx of None \<Rightarrow> Background | Some c \<Rightarrow> c)"

definition plain_ctx :: "ctx \<Rightarrow> call_ctx" where
  "plain_ctx c = \<lparr>cc_ctx = c, cc_command = None, cc_session = None\<rparr>"

text \<open>\<open>Inl\<close> is the panic for a nil session.\<close>

definition node_NewContext :: "call_ctx option \<Rightarrow> GateBinding option \<Rightarrow> string + call_ctx" where
  "node_NewContext c sess =
     (case sess of
        None \<Rightarrow> Inl ''node: nil session''
      | Some b \<Rightarrow> Inr ((case c of None \<Rightarrow> plain_ctx Background | Some c \<Rightarrow> c)\<lparr>cc_session := Some b\<rparr>))"

definition node_FromContext :: "call_ctx option \<Rightarrow> GateBinding option" where
  "node_FromContext c = (case c of None \<Rightarrow> None | Some c \<Rightarrow> cc_session c)"

definition CommandFromContext :: "call_ctx option \<Rightarrow> int option" where
  "CommandFromContext c = (case c of None \<Rightarrow> None | Some c \<Rightarrow> cc_command c)"

text \<open>The context a handler of the session \<open>b\<close> runs under.\<close>

definition session_ctx :: "call_ctx \<Rightarrow> GateBinding \<Rightarrow> call_ctx" where
  "session_ctx c b = (case node_NewContext (Some c) (Some b) of Inl _ \<Rightarrow> c | Inr c' \<Rightarrow> c')"

definition zeroIdentity :: nodeIdentity where
  "zeroIdentity = \<lparr>id_service = [], id_node = [], id_epoch = []\<rparr>"

definition currentIdentity :: "'a nds \<Rightarrow> nodeIdentity" where
  "currentIdentity w = (case nd_identity w of None \<Rightarrow> zeroIdentity | Some i \<Rightarrow> i)"

text \<open>
  The end of an admitted call; closing the drained channel twice would panic, which the gate excludes.
\<close>

definition adm_leave :: "requestAdmission \<Rightarrow> requestAdmission" where
  "adm_leave a = (case adm_done a of None \<Rightarrow> a | Some a' \<Rightarrow> a')"

section \<open>Losing the epoch (\<open>lifecycle.go\<close>)\<close>

definition beginStopping :: "'a nds \<Rightarrow> 'a nds" where
  "beginStopping w =
     w\<lparr>nd_requests := adm_close (nd_requests w), nd_serving := False,
       nd_startupCancelled := map_option (\<lambda>_. True) (nd_startupCancelled w)\<rparr>"

text \<open>
  The source assigns the lifecycle context to a new variable in an inner block, so the cleanup runs under
  the context it was called with.
\<close>

definition startCleanup :: "ctx \<Rightarrow> duration \<Rightarrow> 'a nds \<Rightarrow> 'a nds" where
  "startCleanup base timeout w =
     (let w = beginStopping w in
      case nd_cleanup w of None \<Rightarrow> w\<lparr>nd_cleanup := Some (base, timeout)\<rparr> | Some _ \<Rightarrow> w)"

definition fatalCancel :: "goerr \<Rightarrow> 'a nds \<Rightarrow> 'a nds" where
  "fatalCancel err w = (case nd_fatal w of None \<Rightarrow> w\<lparr>nd_fatal := Some err\<rparr> | Some _ \<Rightarrow> w)"

definition failLifecycle :: "nd_config \<Rightarrow> goerr \<Rightarrow> 'a nds \<Rightarrow> 'a nds" where
  "failLifecycle cfg err w =
     (let w = beginStopping w;
          w = w\<lparr>nd_deliveries := adm_close (nd_deliveries w)\<rparr>;
          w = fatalCancel err w;
          timeout = (if nd_state_of w \<noteq> NodeStarted then nd_cleanupTimeout cfg else nd_shutdownTimeout cfg) in
      startCleanup Background timeout w)"

section \<open>Checks\<close>

text \<open>A nil lease is always valid.\<close>

definition lease_valid :: "time \<Rightarrow> 'a nds \<Rightarrow> 'a nds \<times> goerr option" where
  "lease_valid now w =
     (case nd_lease w of
        None \<Rightarrow> (w, None)
      | Some e \<Rightarrow> (case el_valid now e of (e', err) \<Rightarrow> (w\<lparr>nd_lease := Some e'\<rparr>, err)))"

definition checkEpoch :: "nd_config \<Rightarrow> 'a nds nd_env \<Rightarrow> 'a nds \<Rightarrow> 'a nds \<times> goerr option" where
  "checkEpoch cfg env w =
     (case ne_clock env w of
        (w, now) \<Rightarrow>
          (case lease_valid now w of
             (w, None) \<Rightarrow> (w, None)
           | (w, Some err) \<Rightarrow> (failLifecycle cfg err w, Some (Status Unavailable ''node epoch is unavailable''))))"

text \<open>The context of a request ends with the lease; creating it checks the lease once more.\<close>

definition lease_context :: "'a nds nd_env \<Rightarrow> ctx \<Rightarrow> 'a nds \<Rightarrow> 'a nds \<times> ctx" where
  "lease_context env ctx w =
     (case nd_lease w of
        None \<Rightarrow> (w, ctx)
      | Some _ \<Rightarrow> (case ne_clock env w of (w, now) \<Rightarrow> (fst (lease_valid now w), WithCancel ctx)))"

definition mapNodeLocatorError :: "goerr option \<Rightarrow> goerr option" where
  "mapNodeLocatorError e =
     (case e of
        None \<Rightarrow> None
      | Some err \<Rightarrow>
          if errors_is err ctx_canceled \<or> errors_is err ctx_deadline then Some err
          else if errors_is err (LocateErr ErrInvalidNodeBinding) \<or> errors_is err (LocateErr ErrInvalidNodeEpoch)
          then Some (Status Internal ''invalid node locator state'')
          else if errors_is err (LocateErr ErrNodeNotFound) \<or> errors_is err (LocateErr ErrNodeConflict)
          then Some (Status Aborted ''node binding changed'')
          else Some (Status Unavailable ''node locator is unavailable''))"

definition checkNodeBinding ::
  "nd_config \<Rightarrow> 'a nds nd_env \<Rightarrow> ctx \<Rightarrow> GateBinding \<Rightarrow> nodeIdentity \<Rightarrow> 'a nds \<Rightarrow> 'a nds \<times> goerr option" where
  "checkNodeBinding cfg env ctx gate identity w =
     (if \<not> nd_stateful cfg then (w, Some (Status Unavailable ''node locator is unavailable''))
      else case ne_LocateNode env ctx (ServiceName gate) (UID gate) w of
        (w, Inl err) \<Rightarrow> (w, mapNodeLocatorError (Some err))
      | (w, Inr nodeID) \<Rightarrow>
          if nodeID \<noteq> id_node identity then (w, Some (Status Aborted ''node binding changed''))
          else checkEpoch cfg env w)"

definition routeIdentity :: "nd_config \<Rightarrow> 'a nds nd_env \<Rightarrow> GateBinding \<Rightarrow> 'a nds \<Rightarrow> 'a nds \<times> (goerr + nodeIdentity)" where
  "routeIdentity cfg env binding w =
     (let identity = currentIdentity w in
      if id_service identity = [] \<or> id_service identity \<noteq> ServiceName binding
      then (w, Inl (Status Aborted ''node service mismatch''))
      else case checkEpoch cfg env w of
        (w, Some err) \<Rightarrow> (w, Inl err)
      | (w, None) \<Rightarrow> (w, Inr identity))"

record stickyClaim =
  sc_NodeID :: string
  sc_Epoch :: string

definition fenceStickyClaim ::
  "nd_config \<Rightarrow> 'a nds nd_env \<Rightarrow> ctx \<Rightarrow> stickyClaim \<Rightarrow> GateBinding \<Rightarrow> nodeIdentity \<Rightarrow> 'a nds \<Rightarrow> 'a nds \<times> goerr option" where
  "fenceStickyClaim cfg env ctx claim binding identity w =
     (if (sc_NodeID claim = []) \<noteq> (sc_Epoch claim = []) then (w, Some (Status InvalidArgument ''invalid node claim''))
      else if sc_NodeID claim = [] then (w, None)
      else if id_node identity \<noteq> sc_NodeID claim then (w, Some (Status Aborted ''node binding changed''))
      else if sc_Epoch claim \<noteq> id_epoch identity then (w, Some (Status Aborted ''node epoch mismatch''))
      else checkNodeBinding cfg env ctx binding identity w)"

section \<open>Forwarded requests (\<open>dispatch.go\<close>)\<close>

text \<open>The checks of an admitted request: the context its handler runs under, or the error.\<close>

definition forward_fence ::
  "nd_config \<Rightarrow> 'a nds nd_env \<Rightarrow> ctx \<Rightarrow> stickyClaim \<Rightarrow> GateBinding \<Rightarrow> 'a nds \<Rightarrow> 'a nds \<times> (goerr + ctx)" where
  "forward_fence cfg env ctx claim binding w =
     (if \<not> ValidGateBinding binding then (w, Inl (Status InvalidArgument ''invalid forward route''))
      else case routeIdentity cfg env binding w of
        (w, Inl err) \<Rightarrow> (w, Inl err)
      | (w, Inr identity) \<Rightarrow>
          (case lease_context env ctx w of
             (w, ctx) \<Rightarrow>
               (case fenceStickyClaim cfg env ctx claim binding identity w of
                  (w, Some err) \<Rightarrow> (w, Inl err)
                | (w, None) \<Rightarrow> (w, Inr ctx))))"

definition forwardTo ::
  "nd_config \<Rightarrow> 'a nds nd_env \<Rightarrow> ctx \<Rightarrow> stickyClaim \<Rightarrow> GateBinding \<Rightarrow> int \<Rightarrow> bytes \<Rightarrow> 'a nds \<Rightarrow> 'a nds \<times> (goerr + bytes)" where
  "forwardTo cfg env ctx claim binding command body w =
     (case adm_admit (nd_requests w) of
        (r, False) \<Rightarrow> (w\<lparr>nd_requests := r\<rparr>, Inl (Status Unavailable ''node is draining''))
      | (r, True) \<Rightarrow>
          (case (case forward_fence cfg env ctx claim binding (w\<lparr>nd_requests := r\<rparr>) of
                   (w, Inl err) \<Rightarrow> (w, Inl err)
                 | (w, Inr ctx) \<Rightarrow>
                     (case nd_handlers w command of
                        None \<Rightarrow> (w, Inl (Status Unimplemented ''unimplemented Command''))
                      | Some h \<Rightarrow>
                          let c = (plain_ctx ctx)\<lparr>cc_command := Some command\<rparr> in
                          ne_handler env h (session_ctx c binding) body w)) of
             (w, result) \<Rightarrow> (w\<lparr>nd_requests := adm_leave (nd_requests w)\<rparr>, result)))"

text \<open>The requests of the RPC service; \<open>None\<close> is a nil request.\<close>

definition service_Forward ::
  "nd_config \<Rightarrow> 'a nds nd_env \<Rightarrow> ctx \<Rightarrow> (stickyClaim \<times> GateRoute option \<times> int \<times> bytes) option \<Rightarrow> 'a nds \<Rightarrow> 'a nds \<times> (goerr + bytes)" where
  "service_Forward cfg env ctx request w =
     (case request of
        None \<Rightarrow> (w, Inl (Status InvalidArgument ''invalid forward request''))
      | Some (claim, route, command, body) \<Rightarrow> forwardTo cfg env ctx claim (ToBinding route) command body w)"

definition service_Disconnect ::
  "nd_config \<Rightarrow> 'a nds nd_env \<Rightarrow> ctx \<Rightarrow> GateRoute option option \<Rightarrow> 'a nds \<Rightarrow> 'a nds \<times> goerr option" where
  "service_Disconnect cfg env ctx request w =
     (case request of
        None \<Rightarrow> (w, Some (Status InvalidArgument ''invalid disconnect request''))
      | Some route \<Rightarrow>
          let binding = ToBinding route in
          if \<not> ValidGateBinding binding then (w, Some (Status InvalidArgument ''invalid disconnect route''))
          else case routeIdentity cfg env binding w of
            (w, Inl err) \<Rightarrow> (w, Some err)
          | (w, Inr _) \<Rightarrow>
              (case adm_admit (nd_requests w) of
                 (r, False) \<Rightarrow> (w\<lparr>nd_requests := r\<rparr>, Some (Status Unavailable ''node is draining''))
               | (r, True) \<Rightarrow>
                   (case lease_context env ctx (w\<lparr>nd_requests := r\<rparr>) of
                      (w, ctx) \<Rightarrow>
                        (case (case nd_onDisconnect w of
                                 None \<Rightarrow> (w, None)
                               | Some h \<Rightarrow> ne_disconnect env h (session_ctx (plain_ctx ctx) binding) binding w) of
                           (w, err) \<Rightarrow> (w\<lparr>nd_requests := adm_leave (nd_requests w)\<rparr>, err)))))"

section \<open>Bindings written by handlers (\<open>session.go\<close>)\<close>

text \<open>A request session is the binding it answers to.\<close>

definition validatedIdentity ::
  "nd_config \<Rightarrow> 'a nds nd_env \<Rightarrow> GateBinding \<Rightarrow> 'a nds \<Rightarrow> 'a nds \<times> (goerr + nodeIdentity)" where
  "validatedIdentity cfg env binding w =
     (let identity = currentIdentity w in
      if id_service identity \<noteq> ServiceName binding \<or> \<not> ValidNodeLocation (id_service identity) (UID binding) (id_node identity)
      then (w, Inl (Status FailedPrecondition ''node identity is unavailable''))
      else case checkEpoch cfg env w of
        (w, Some err) \<Rightarrow> (w, Inl err)
      | (w, None) \<Rightarrow> (w, Inr identity))"

text \<open>A nil lease cannot lose ownership: the call would panic. A node with a store always has a lease here.\<close>

definition handleBindingError :: "nd_config \<Rightarrow> goerr option \<Rightarrow> 'a nds \<Rightarrow> 'a nds \<times> goerr option" where
  "handleBindingError cfg e w =
     (case e of
        None \<Rightarrow> (w, None)
      | Some err \<Rightarrow>
          if \<not> errors_is err (LocateErr ErrNodeEpochNotFound) \<and> \<not> errors_is err (LocateErr ErrNodeEpochConflict)
          then (w, mapNodeLocatorError e)
          else case nd_lease w of
            None \<Rightarrow> (w, Some (Fresh ''nil pointer dereference''))
          | Some l \<Rightarrow>
              (case loseOwnership err l of
                 (l', cause) \<Rightarrow>
                   (failLifecycle cfg (case cause of None \<Rightarrow> err | Some c \<Rightarrow> c) (w\<lparr>nd_lease := Some l'\<rparr>),
                    Some (Status Unavailable ''node epoch is unavailable''))))"

definition writeBinding ::
  "nd_config \<Rightarrow> 'a nds nd_env \<Rightarrow> (ctx \<Rightarrow> string \<Rightarrow> string \<Rightarrow> string \<Rightarrow> string \<Rightarrow> 'a nds \<Rightarrow> 'a nds \<times> goerr option) \<Rightarrow>
   ctx option \<Rightarrow> GateBinding \<Rightarrow> 'a nds \<Rightarrow> 'a nds \<times> goerr option" where
  "writeBinding cfg env write ctx binding w =
     (if \<not> nd_stateful cfg then (w, Some (Status FailedPrecondition ''node locator is not configured''))
      else case adm_admit (nd_deliveries w) of
        (d, False) \<Rightarrow> (w\<lparr>nd_deliveries := d\<rparr>, Some (Status Unavailable ''node is stopping or stopped''))
      | (d, True) \<Rightarrow>
          (case (case validatedIdentity cfg env binding (w\<lparr>nd_deliveries := d\<rparr>) of
                   (w, Inl err) \<Rightarrow> (w, Some err)
                 | (w, Inr identity) \<Rightarrow>
                     (case lease_context env (normalizeContext ctx) w of
                        (w, ctx) \<Rightarrow>
                          (case write ctx (id_service identity) (UID binding) (id_node identity) (id_epoch identity) w of
                             (w, err) \<Rightarrow> handleBindingError cfg err w))) of
             (w, err) \<Rightarrow> (w\<lparr>nd_deliveries := adm_leave (nd_deliveries w)\<rparr>, err)))"

definition session_BindNode :: "nd_config \<Rightarrow> 'a nds nd_env \<Rightarrow> ctx option \<Rightarrow> GateBinding \<Rightarrow> 'a nds \<Rightarrow> 'a nds \<times> goerr option" where
  "session_BindNode cfg env = writeBinding cfg env (ne_BindNode env)"

definition session_RenewNode :: "nd_config \<Rightarrow> 'a nds nd_env \<Rightarrow> ctx option \<Rightarrow> GateBinding \<Rightarrow> 'a nds \<Rightarrow> 'a nds \<times> goerr option" where
  "session_RenewNode cfg env = writeBinding cfg env (ne_RenewNode env)"

definition session_UnbindNode :: "nd_config \<Rightarrow> 'a nds nd_env \<Rightarrow> ctx option \<Rightarrow> GateBinding \<Rightarrow> 'a nds \<Rightarrow> 'a nds \<times> goerr option" where
  "session_UnbindNode cfg env = writeBinding cfg env (ne_UnbindNode env)"

section \<open>Pushes (\<open>push.go\<close>)\<close>

definition mapGateLocatorError :: "goerr \<Rightarrow> goerr" where
  "mapGateLocatorError err =
     (if errors_is err ctx_canceled \<or> errors_is err ctx_deadline then err
      else if errors_is err (LocateErr ErrGateNotFound) then Status NotFound ''gate binding not found''
      else if errors_is err (LocateErr ErrInvalidGateBinding) \<or> errors_is err (LocateErr ErrInvalidGateLease)
      then Status Internal ''invalid gate locator state''
      else Status Unavailable ''gate locator is unavailable'')"

definition mapGatePushError :: "goerr option \<Rightarrow> goerr option" where
  "mapGatePushError e =
     (case e of
        None \<Rightarrow> None
      | Some err \<Rightarrow>
          if errors_is err ctx_canceled \<or> errors_is err ctx_deadline then Some err
          else if status_of err \<noteq> None then Some err
          else if errors_is err (EndpointErr ErrInvalidEndpoint) \<or> errors_is err (EndpointErr ErrTransportSecurity)
          then Some (Status Internal ''invalid gateway route'')
          else Some (Status Unavailable ''gateway is unavailable''))"

text \<open>A message is \<open>None\<close> when it is nil or invalid, otherwise the result of marshalling it.\<close>

definition pushToGate ::
  "'a nds nd_env \<Rightarrow> ctx \<Rightarrow> GateBinding \<Rightarrow> int \<Rightarrow> goerr + bytes \<Rightarrow> 'a nds \<Rightarrow> 'a nds \<times> goerr option" where
  "pushToGate env ctx binding command msg w =
     (if \<not> ValidGateBinding binding then (w, Some (Status Internal ''invalid gateway route''))
      else case gc_Push (ne_gc env) ctx binding command msg (ne_rounds env w) (ne_ended env w) w of
        (w, err) \<Rightarrow> (w, mapGatePushError err))"

definition session_Push ::
  "nd_config \<Rightarrow> 'a nds nd_env \<Rightarrow> ctx option \<Rightarrow> GateBinding \<Rightarrow> int \<Rightarrow> (goerr + bytes) option \<Rightarrow> 'a nds \<Rightarrow> 'a nds \<times> goerr option" where
  "session_Push cfg env ctx binding command msg w =
     (case adm_admit (nd_deliveries w) of
        (d, False) \<Rightarrow> (w\<lparr>nd_deliveries := d\<rparr>, Some (Status Unavailable ''node is stopping or stopped''))
      | (d, True) \<Rightarrow>
          (case (case checkEpoch cfg env (w\<lparr>nd_deliveries := d\<rparr>) of
                   (w, Some err) \<Rightarrow> (w, Some err)
                 | (w, None) \<Rightarrow>
                     (case msg of
                        None \<Rightarrow> (w, Some (Status InvalidArgument ''push message is required''))
                      | Some m \<Rightarrow>
                          (case lease_context env (WithTimeout (normalizeContext ctx) (nd_pushTimeout cfg)) w of
                             (w, ctx) \<Rightarrow> pushToGate env ctx binding command m w))) of
             (w, err) \<Rightarrow> (w\<lparr>nd_deliveries := adm_leave (nd_deliveries w)\<rparr>, err)))"

definition PushToUID ::
  "nd_config \<Rightarrow> 'a nds nd_env \<Rightarrow> ctx option \<Rightarrow> string \<Rightarrow> int \<Rightarrow> (goerr + bytes) option \<Rightarrow> 'a nds \<Rightarrow> 'a nds \<times> goerr option" where
  "PushToUID cfg env ctx uid command msg w =
     (case adm_admit (nd_deliveries w) of
        (d, False) \<Rightarrow> (w\<lparr>nd_deliveries := d\<rparr>, Some (Status Unavailable ''node is stopping or stopped''))
      | (d, True) \<Rightarrow>
          (case (case checkEpoch cfg env (w\<lparr>nd_deliveries := d\<rparr>) of
                   (w, Some err) \<Rightarrow> (w, Some err)
                 | (w, None) \<Rightarrow>
                     let serviceName = id_service (currentIdentity w) in
                     if \<not> nd_directory cfg then (w, Some (Status FailedPrecondition ''gate locator is not configured''))
                     else if \<not> ValidServiceName serviceName then (w, Some (Status FailedPrecondition ''node is not started''))
                     else if \<not> ValidUID uid then (w, Some (Status InvalidArgument ''invalid push target''))
                     else (case msg of
                       None \<Rightarrow> (w, Some (Status InvalidArgument ''push message is required''))
                     | Some m \<Rightarrow>
                         (case lease_context env (WithTimeout (normalizeContext ctx) (nd_pushTimeout cfg)) w of
                            (w, ctx) \<Rightarrow>
                              (case ne_LocateGate env ctx serviceName uid w of
                                 (w, Inl err) \<Rightarrow> (w, Some (mapGateLocatorError err))
                               | (w, Inr lease) \<Rightarrow>
                                   if TTL lease \<le> 0 \<or> ServiceName (Binding lease) \<noteq> serviceName \<or> UID (Binding lease) \<noteq> uid
                                   then (w, Some (Status Internal ''invalid gateway route''))
                                   else pushToGate env ctx (Binding lease) command m w)))) of
             (w, err) \<Rightarrow> (w\<lparr>nd_deliveries := adm_leave (nd_deliveries w)\<rparr>, err)))"

section \<open>Handlers (\<open>register.go\<close>)\<close>

text \<open>\<open>Inl\<close> is a panic; a nil handler or server is \<open>None\<close>.\<close>

definition RegisterRawHandler :: "int \<Rightarrow> nat option \<Rightarrow> 'a nds \<Rightarrow> string + 'a nds" where
  "RegisterRawHandler command handler w =
     (case handler of
        None \<Rightarrow> Inl ''node: nil handler''
      | Some h \<Rightarrow>
          if nd_state_of w \<noteq> NodeNew \<or> adm_isClosed (nd_requests w) then Inl ''node: handlers must be registered before Start''
          else if nd_handlers w command \<noteq> None then Inl ''node: duplicate Command''
          else Inr (w\<lparr>nd_handlers := (nd_handlers w)(command \<mapsto> h)\<rparr>))"

definition node_Register :: "int \<Rightarrow> nat option \<Rightarrow> 'a nds option \<Rightarrow> string + 'a nds" where
  "node_Register command handler server =
     (case server of
        None \<Rightarrow> Inl ''node: nil server''
      | Some w \<Rightarrow>
          (case handler of
             None \<Rightarrow> Inl ''node: nil unary handler''
           | Some h \<Rightarrow> RegisterRawHandler command (Some h) w))"

definition OnDisconnect :: "nat option \<Rightarrow> 'a nds \<Rightarrow> string + 'a nds" where
  "OnDisconnect handler w =
     (if nd_state_of w \<noteq> NodeNew \<or> adm_isClosed (nd_requests w) then Inl ''node: handlers must be registered before Start''
      else Inr (w\<lparr>nd_onDisconnect := handler\<rparr>))"

text \<open>
  The adapter of a protobuf handler: \<open>unmarshal\<close> and \<open>marshal\<close> are the codec, \<open>chain\<close> is the handler in its
  middleware, whose reply is \<open>None\<close> when it is no valid message.
\<close>

definition unary ::
  "(bytes \<Rightarrow> goerr + 'q) \<Rightarrow> ('r \<Rightarrow> goerr + bytes) \<Rightarrow> (ctx \<Rightarrow> 'q \<Rightarrow> 'w \<Rightarrow> 'w \<times> (goerr + 'r option)) \<Rightarrow> ctx \<Rightarrow> bytes \<Rightarrow> 'w \<Rightarrow> 'w \<times> (goerr + bytes)" where
  "unary unmarshal marshal chain ctx body w =
     (case unmarshal body of
        Inl err \<Rightarrow> (w, Inl (Wrap ''INVALID_REQUEST: decode request'' [err]))
      | Inr request \<Rightarrow>
          (case chain ctx request w of
             (w, Inl err) \<Rightarrow> (w, Inl err)
           | (w, Inr None) \<Rightarrow> (w, Inl (Fresh ''INVALID_REPLY: invalid reply''))
           | (w, Inr (Some reply)) \<Rightarrow>
               (w, case marshal reply of Inl err \<Rightarrow> Inl (Wrap ''INVALID_REPLY: encode reply'' [err]) | Inr b \<Rightarrow> Inr b)))"

section \<open>Properties\<close>

lemma checkEpoch_None:
  assumes "checkEpoch cfg env w = (w', None)"
  shows "\<exists>w1 now. ne_clock env w = (w1, now) \<and> (case nd_lease w1 of None \<Rightarrow> True | Some e \<Rightarrow> el_cause e = None \<and> now < el_deadline e) \<and>
    nd_lease w' = nd_lease w1"
proof -
  obtain w1 now where c: "ne_clock env w = (w1, now)" by fastforce
  show ?thesis
  proof (cases "nd_lease w1")
    case None then show ?thesis using assms c by (auto simp: checkEpoch_def lease_valid_def)
  next
    case (Some e)
    obtain e' err where v: "el_valid now e = (e', err)" by fastforce
    then have "err = None" using assms c Some by (cases err) (auto simp: checkEpoch_def lease_valid_def)
    then have ok: "el_cause e = None" "now < el_deadline e" using v el_valid_nil [of now e] by simp_all
    then have "e' = e" using v by (simp add: el_valid_def)
    then have "w' = w1\<lparr>nd_lease := Some e\<rparr>" using assms c Some v \<open>err = None\<close> by (simp add: checkEpoch_def lease_valid_def)
    then show ?thesis using c Some ok by simp
  qed
qed

text \<open>What the checks of a forwarded request establish, with \<open>i\<close> the identity of the node.\<close>

definition fenced :: "'a nds nd_env \<Rightarrow> stickyClaim \<Rightarrow> GateBinding \<Rightarrow> nodeIdentity \<Rightarrow> 'a nds \<Rightarrow> bool" where
  "fenced env claim binding i w \<longleftrightarrow>
     ValidGateBinding binding \<and> id_service i = ServiceName binding \<and>
     (\<exists>w1 now. ne_clock env w = (w1, now) \<and> (\<forall>e. nd_lease w1 = Some e \<longrightarrow> el_cause e = None \<and> now < el_deadline e)) \<and>
     (sc_NodeID claim = [] \<longleftrightarrow> sc_Epoch claim = []) \<and>
     (sc_NodeID claim \<noteq> [] \<longrightarrow>
        sc_NodeID claim = id_node i \<and> sc_Epoch claim = id_epoch i \<and>
        (\<exists>ctx w2 w3 w4 now. ne_LocateNode env ctx (ServiceName binding) (UID binding) w2 = (w3, Inr (sc_NodeID claim)) \<and>
           ne_clock env w3 = (w4, now) \<and> (\<forall>e. nd_lease w4 = Some e \<longrightarrow> el_cause e = None \<and> now < el_deadline e)))"

lemma forward_fence_fenced:
  assumes "forward_fence cfg env ctx claim binding w = (w', Inr ctx')"
  shows "fenced env claim binding (currentIdentity w) w"
proof -
  obtain w1 where valid: "ValidGateBinding binding" and r: "routeIdentity cfg env binding w = (w1, Inr (currentIdentity w))"
    and svc: "id_service (currentIdentity w) = ServiceName binding" and ce: "checkEpoch cfg env w = (w1, None)"
    using assms by (auto simp: forward_fence_def routeIdentity_def Let_def split: if_splits prod.splits sum.splits option.splits)
  obtain w2 c2 where ctx2: "lease_context env ctx w1 = (w2, c2)" by fastforce
  have fence: "fenceStickyClaim cfg env ctx' claim binding (currentIdentity w) w2 = (w', None)"
    using assms valid r ctx2 by (auto simp: forward_fence_def split: prod.splits option.splits)
  have first: "\<exists>w1 now. ne_clock env w = (w1, now) \<and> (\<forall>e. nd_lease w1 = Some e \<longrightarrow> el_cause e = None \<and> now < el_deadline e)"
    using checkEpoch_None [OF ce] by (auto split: option.splits)
  have "\<exists>w3. ne_LocateNode env ctx' (ServiceName binding) (UID binding) w2 = (w3, Inr (sc_NodeID claim)) \<and> checkEpoch cfg env w3 = (w', None)"
    if "sc_NodeID claim \<noteq> []"
    using fence that by (auto simp: fenceStickyClaim_def checkNodeBinding_def mapNodeLocatorError_def split: if_splits prod.splits sum.splits)
  then have "\<exists>ctx w2 w3 w4 now. ne_LocateNode env ctx (ServiceName binding) (UID binding) w2 = (w3, Inr (sc_NodeID claim)) \<and>
      ne_clock env w3 = (w4, now) \<and> (\<forall>e. nd_lease w4 = Some e \<longrightarrow> el_cause e = None \<and> now < el_deadline e)"
    if "sc_NodeID claim \<noteq> []" using that checkEpoch_None by (fastforce split: option.splits)
  then show ?thesis using valid svc first fence by (auto simp: fenced_def fenceStickyClaim_def split: if_splits)
qed

lemma forward_fence_handler [simp]: "forward_fence cfg (env\<lparr>ne_handler := h\<rparr>) ctx claim binding w = forward_fence cfg env ctx claim binding w"
  by (simp add: forward_fence_def routeIdentity_def checkEpoch_def lease_context_def fenceStickyClaim_def checkNodeBinding_def
      cong: prod.case_cong sum.case_cong option.case_cong if_cong)

text \<open>
  C35. A handler of a node runs only under the node's own valid epoch. If what a forwarded request does depends
  on the code of the handlers at all, the node admits requests, the binding is valid and names the node's
  service, and the epoch lease was valid at a reading of the clock after the admission; when the request
  claims a sticky owner, the claim is this node with its current epoch, the locator answered that this
  node owns the user, and the lease was valid at a reading of the clock after that answer, so that an
  answer that came too late does not let the handler run.
\<close>

theorem handler_runs_fenced:
  assumes "forwardTo cfg (env\<lparr>ne_handler := h\<rparr>) ctx claim binding command body w \<noteq> forwardTo cfg env ctx claim binding command body w"
  shows "adm_state (nd_requests w) = admissionOpen \<and> nd_identity w \<noteq> None \<and>
    fenced env claim binding (currentIdentity w) (w\<lparr>nd_requests := fst (adm_admit (nd_requests w))\<rparr>)"
proof -
  obtain r where admitted: "adm_admit (nd_requests w) = (r, True)"
    using assms by (auto simp: forwardTo_def split: prod.splits bool.splits)
  obtain w1 res where res: "forward_fence cfg env ctx claim binding (w\<lparr>nd_requests := r\<rparr>) = (w1, res)" by fastforce
  have "\<not> isl res"
  proof
    assume "isl res"
    then have "forwardTo cfg env' ctx claim binding command body w =
        (w1\<lparr>nd_requests := adm_leave (nd_requests w1)\<rparr>, Inl (projl res))"
      if "forward_fence cfg env' ctx claim binding (w\<lparr>nd_requests := r\<rparr>) = (w1, res)" for env'
      using admitted that by (cases res) (simp_all add: forwardTo_def)
    then show False using assms res by simp
  qed
  then obtain ctx1 where "res = Inr ctx1" by (cases res) auto
  with res have "forward_fence cfg env ctx claim binding (w\<lparr>nd_requests := r\<rparr>) = (w1, Inr ctx1)" by simp
  from forward_fence_fenced [OF this] have f: "fenced env claim binding (currentIdentity w) (w\<lparr>nd_requests := r\<rparr>)"
    by (simp add: currentIdentity_def)
  then have "id_service (currentIdentity w) \<noteq> []" by (auto simp: fenced_def ValidGateBinding_def ValidServiceName_def)
  then have "nd_identity w \<noteq> None" by (auto simp: currentIdentity_def zeroIdentity_def split: option.splits)
  then show ?thesis using f admitted by (auto simp: adm_admit_def split: if_splits)
qed

text \<open>A node that owns the user \<open>u1\<close> under the epoch \<open>e1\<close>.\<close>

definition nd_demo_binding :: GateBinding where
  "nd_demo_binding = \<lparr>ServiceName = ''game'', UID = ''u1'', GateID = ''g1'', GateEndpoint = ''grpc://10.0.0.9:9'',
     ConnID = ''c1'', BindingToken = ''t1''\<rparr>"

definition nd_demo_identity :: nodeIdentity where
  "nd_demo_identity = \<lparr>id_service = ''game'', id_node = ''n1'', id_epoch = ''e1''\<rparr>"

definition nd_demo_cfg :: nd_config where
  "nd_demo_cfg = \<lparr>nd_pushTimeout = 3, nd_cleanupTimeout = 3, nd_shutdownTimeout = 10, nd_stateful = True, nd_directory = False\<rparr>"

definition nd_demo :: nd_state where
  "nd_demo = \<lparr>st_gateways = gc_New None, nd_identity = Some nd_demo_identity, nd_lease = Some (newEpochLease nd_demo_identity 100),
     nd_requests = zeroAdmission\<lparr>adm_state := admissionOpen\<rparr>, nd_deliveries = zeroAdmission\<lparr>adm_state := admissionOpen\<rparr>, nd_fatal = None,
     nd_state_of = NodeStarted, nd_startupDone = Some True, nd_startupCancelled = Some True, nd_lifecycleCtx = Some Background,
     nd_registration = None, nd_cleanup = None, nd_cleanupResult = None, nd_serving = True, nd_handlers = [7 \<mapsto> 0], nd_onDisconnect = None\<rparr>"

definition nd_demo_env :: "'w nd_env" where
  "nd_demo_env = \<lparr>ne_clock = (\<lambda>w. (w, 1)), ne_gc = gc_demo_env, ne_LocateNode = (\<lambda>ctx s u w. (w, Inr ''n1'')),
     ne_BindNode = (\<lambda>ctx s u n e w. (w, None)), ne_RenewNode = (\<lambda>ctx s u n e w. (w, None)), ne_UnbindNode = (\<lambda>ctx s u n e w. (w, None)),
     ne_LocateGate = (\<lambda>ctx s u w. (w, Inl (LocateErr ErrGateNotFound))), ne_handler = (\<lambda>h c body w. (w, Inr body)),
     ne_disconnect = (\<lambda>h c b w. (w, None)), ne_rounds = (\<lambda>w. []), ne_ended = (\<lambda>w. ctx_deadline)\<rparr>"

lemma nd_demo_fence:
  "forward_fence nd_demo_cfg nd_demo_env Background \<lparr>sc_NodeID = ''n1'', sc_Epoch = ''e1''\<rparr> nd_demo_binding (nd_demo\<lparr>nd_requests := r\<rparr>) =
     (nd_demo\<lparr>nd_requests := r\<rparr>, Inr (WithCancel Background))"
proof -
  have valid: "ValidGateBinding nd_demo_binding" by code_simp
  show ?thesis using valid [unfolded nd_demo_binding_def]
    by (simp add: forward_fence_def routeIdentity_def currentIdentity_def checkEpoch_def lease_valid_def lease_context_def
        fenceStickyClaim_def checkNodeBinding_def nd_demo_def nd_demo_env_def nd_demo_cfg_def nd_demo_identity_def
        newEpochLease_def el_valid_def nd_demo_binding_def Let_def)
qed

lemma nd_demo_forward:
  "snd (forwardTo nd_demo_cfg (nd_demo_env\<lparr>ne_handler := h\<rparr>) Background \<lparr>sc_NodeID = ''n1'', sc_Epoch = ''e1''\<rparr> nd_demo_binding 7 body nd_demo) =
     snd (h 0 (session_ctx ((plain_ctx (WithCancel Background))\<lparr>cc_command := Some 7\<rparr>) nd_demo_binding) body
       (nd_demo\<lparr>nd_requests := (nd_requests nd_demo)\<lparr>adm_active := 1\<rparr>\<rparr>))"
proof -
  have "forward_fence nd_demo_cfg nd_demo_env Background \<lparr>sc_NodeID = ''n1'', sc_Epoch = ''e1''\<rparr> nd_demo_binding
      (nd_demo\<lparr>nd_requests := r\<rparr>) = (nd_demo\<lparr>nd_requests := r\<rparr>, Inr (WithCancel Background))" for r
    by (rule nd_demo_fence)
  moreover have "adm_admit (nd_requests nd_demo) = ((nd_requests nd_demo)\<lparr>adm_active := 1\<rparr>, True)"
    by (simp add: nd_demo_def adm_admit_def zeroAdmission_def)
  ultimately show ?thesis by (simp add: forwardTo_def Let_def nd_demo_def split: prod.splits)
qed

theorem handler_runs_fenced_witness:
  "adm_state (nd_requests nd_demo) = admissionOpen \<and>
   fenced nd_demo_env \<lparr>sc_NodeID = ''n1'', sc_Epoch = ''e1''\<rparr> nd_demo_binding (currentIdentity nd_demo)
     (nd_demo\<lparr>nd_requests := fst (adm_admit (nd_requests nd_demo))\<rparr>)"
proof -
  let ?run = "\<lambda>env. forwardTo nd_demo_cfg env Background \<lparr>sc_NodeID = ''n1'', sc_Epoch = ''e1''\<rparr> nd_demo_binding 7 [] nd_demo"
  let ?h = "\<lambda>h c body w. (w, Inl ctx_canceled)"
  have "snd (?run (nd_demo_env\<lparr>ne_handler := ?h\<rparr>)) = Inl ctx_canceled" by (simp add: nd_demo_forward)
  moreover have "snd (?run nd_demo_env) = Inr []"
    using nd_demo_forward [of "ne_handler nd_demo_env" "[]"] by (simp add: nd_demo_env_def)
  ultimately have "?run (nd_demo_env\<lparr>ne_handler := ?h\<rparr>) \<noteq> ?run nd_demo_env" by auto
  from handler_runs_fenced [OF this] show ?thesis by blast
qed

end
