(* ===== verification/Node_Lifecycle.thy ===== *)
theory Node_Lifecycle
  imports Node Server_Options
begin

text \<open>
  Construction, start and stop of a node (\<open>node/server.go\<close>, \<open>node/lifecycle.go\<close>). \<open>Start\<close> takes the steps of \<open>start\<close> in order and then waits
  for the registration, a fatal error or the end of the server; the cleanup runs once and collects its
  errors. The outcome of every select and wait comes from the environment, which may change the whole
  state before it answers. The cleanup reports the order of its steps with their results.
\<close>

section \<open>Environment\<close>

text \<open>The events \<open>Start\<close> waits for.\<close>

datatype serve_event = RegistrationDone | FatalDone | Served "goerr option"

text \<open>The result of the drain function, or the end of the context before it with the late result.\<close>

datatype drain_first = DrainResult "goerr option" | DrainCtxDone goerr "goerr option"

record 'w nl_env =
  le_node :: "'w nd_env"
  le_ctxErr :: "ctx \<Rightarrow> 'w \<Rightarrow> 'w \<times> goerr option"
  le_Prepare :: "'w \<Rightarrow> 'w \<times> goerr option"
  le_Endpoint :: "'w \<Rightarrow> 'w \<times> (goerr + string)"
  le_Ping :: "ctx \<Rightarrow> 'w \<Rightarrow> 'w \<times> goerr option"
  le_epoch :: "(ctx, 'w) epoch_ops"
  le_uuid :: "'w \<Rightarrow> string"
  le_ready :: "'w \<Rightarrow> 'w \<times> goerr option"
  le_grpc :: "ctx \<Rightarrow> 'w \<Rightarrow> 'w \<times> grpc_first"
  le_Register :: "ctx \<Rightarrow> registration \<Rightarrow> 'w \<Rightarrow> 'w \<times> goerr option"
  le_Deregister :: "ctx \<Rightarrow> registration \<Rightarrow> 'w \<Rightarrow> 'w \<times> goerr option"
  le_registrationDone :: "'w \<Rightarrow> bool"
  le_wait :: "ctx \<Rightarrow> 'w \<Rightarrow> 'w \<times> wait_event"
  le_drain :: "(ctx \<Rightarrow> 'w \<Rightarrow> 'w \<times> drain_first) option"
  le_network :: "ctx \<Rightarrow> 'w \<Rightarrow> 'w \<times> goerr option"

section \<open>Construction (\<open>server.go\<close>)\<close>

definition node_grpcOptions :: "node_options \<Rightarrow> grpc_option list" where
  "node_grpcOptions o' =
     [GrpcNetwork (no_network o'), GrpcAddress (no_address o'), GrpcListener (owner_New (no_network o') (no_address o') (no_listener o')),
      GrpcTimeout DefaultHandlerTimeout, GrpcRecovery, GrpcCustomHealth] @ no_grpcOptions o'"

definition node_NewServer :: "node_option list \<Rightarrow> goerr + (nd_config \<times> nd_state \<times> grpc_option list)" where
  "node_NewServer opts =
     (case node_resolveOptions opts of
        Inl err \<Rightarrow> Inl err
      | Inr o' \<Rightarrow>
          Inr (\<lparr>nd_pushTimeout = no_pushTimeout o', nd_cleanupTimeout = no_cleanupTimeout o', nd_shutdownTimeout = no_shutdownTimeout o',
                nd_stateful = no_stateful o', nd_directory = no_gateDirectory o'\<rparr>,
               \<lparr>st_gateways = gc_New (no_clientTLS o'), nd_identity = None, nd_lease = None, nd_requests = zeroAdmission, nd_deliveries = zeroAdmission,
                nd_fatal = None, nd_state_of = NodeNew, nd_startupDone = None, nd_startupCancelled = None, nd_lifecycleCtx = None,
                nd_registration = None, nd_cleanup = None, nd_cleanupResult = None, nd_serving = False, nd_handlers = Map.empty,
                nd_onDisconnect = None\<rparr>,
               node_grpcOptions o'))"

section \<open>Start\<close>

definition startupError :: "'a nds nl_env \<Rightarrow> ctx \<Rightarrow> 'a nds \<Rightarrow> 'a nds \<times> goerr option" where
  "startupError env ctx w = (if adm_isClosed (nd_requests w) then (w, Some (NodeErr ErrNodeStopped)) else le_ctxErr env ctx w)"

definition resolveGRPCEndpoint :: "'w nl_env \<Rightarrow> 'w \<Rightarrow> 'w \<times> (goerr + string)" where
  "resolveGRPCEndpoint env w =
     (case le_Prepare env w of
        (w, Some err) \<Rightarrow> (w, Inl (Wrap ''node: prepare gRPC listener'' [err]))
      | (w, None) \<Rightarrow>
          (case le_Endpoint env w of
             (w, Inl err) \<Rightarrow> (w, Inl (Wrap ''node: resolve gRPC endpoint'' [err]))
           | (w, Inr e) \<Rightarrow> (w, Inr e)))"

text \<open>The identity, the lease and the error; a failed claim may still hand over a lease.\<close>

definition claimNodeIdentity ::
  "nd_config \<Rightarrow> 'a nds nl_env \<Rightarrow> ctx \<Rightarrow> app_info \<Rightarrow> 'a nds \<Rightarrow> 'a nds \<times> nodeIdentity \<times> epochLease option \<times> goerr option" where
  "claimNodeIdentity cfg env ctx app w =
     (let identity = \<lparr>id_service = app_Name app, id_node = app_ID app, id_epoch = []\<rparr> in
      if \<not> nd_stateful cfg then (w, identity, None, None)
      else case le_Ping env ctx w of
        (w, Some err) \<Rightarrow> (w, zeroIdentity, None, Some err)
      | (w, None) \<Rightarrow>
          (case ne_clock (le_node env) w of
             (w, started) \<Rightarrow>
               let rpc = WithTimeout ctx nodeEpochRPCTimeout; identity = identity\<lparr>id_epoch := le_uuid env w\<rparr> in
               (case esRegister (le_epoch env) rpc (id_service identity) (id_node identity) (id_epoch identity) DefaultNodeEpochTTL w of
                  (w, reply) \<Rightarrow>
                    (case le_ctxErr env rpc w of
                       (w, ctxErr) \<Rightarrow>
                         (case ne_clock (le_node env) w of
                            (w, now) \<Rightarrow>
                              (case claim_finish identity started reply ctxErr now of
                                 (lease, Some err) \<Rightarrow> (w, zeroIdentity, lease, Some err)
                               | (lease, None) \<Rightarrow> (w, identity, lease, None)))))))"

definition registrationRecord :: "nd_config \<Rightarrow> app_info \<Rightarrow> string \<Rightarrow> registration" where
  "registrationRecord cfg app endpoint =
     \<lparr>ri_ID = app_ID app, ri_Name = app_Name app, ri_Version = app_Version app,
      ri_Metadata = (if nd_stateful cfg then StickyMetadata else Map.empty), ri_Endpoints = [endpoint]\<rparr>"

definition startGRPC :: "'w nl_env \<Rightarrow> ctx \<Rightarrow> 'w \<Rightarrow> 'w \<times> goerr option" where
  "startGRPC env ctx w =
     (case le_grpc env ctx w of
        (w, GrpcAccepting) \<Rightarrow> (w, None)
      | (w, GrpcServed (Some err)) \<Rightarrow> (w, Some err)
      | (w, GrpcServed None) \<Rightarrow> (w, Some (Fresh ''node: gRPC server stopped during startup''))
      | (w, GrpcCtxDone err) \<Rightarrow> (w, Some err))"

text \<open>Start of the renewal, up to the first result or the end of the context, and the lease after it.\<close>

definition start_renewal :: "'a nds nl_env \<Rightarrow> 'a nds \<Rightarrow> 'a nds \<times> goerr option" where
  "start_renewal env w =
     (case nd_lease w of
        None \<Rightarrow> (w, None)
      | Some e \<Rightarrow>
          (case ne_clock (le_node env) w of
             (w, now) \<Rightarrow>
               (case lease_valid now w of
                  (w, Some err) \<Rightarrow> (w, Some err)
                | (w, None) \<Rightarrow>
                    let w = w\<lparr>nd_lease := map_option (\<lambda>e. e\<lparr>el_done := Some False\<rparr>) (nd_lease w)\<rparr> in
                    (case le_ready env w of
                       (w, Some err) \<Rightarrow> (w, Some err)
                     | (w, None) \<Rightarrow> (case ne_clock (le_node env) w of (w, now) \<Rightarrow> lease_valid now w)))))"

text \<open>The last section of \<open>start\<close>, under the lifecycle mutex.\<close>

definition start_open :: "'a nds nl_env \<Rightarrow> ctx \<Rightarrow> registration \<Rightarrow> 'a nds \<Rightarrow> 'a nds \<times> goerr option" where
  "start_open env ctx record w =
     (let w = w\<lparr>nd_registration := Some record\<rparr> in
      if adm_isClosed (nd_requests w) then (w, Some (NodeErr ErrNodeStopped))
      else case le_ctxErr env ctx w of
        (w, Some err) \<Rightarrow> (w, Some err)
      | (w, None) \<Rightarrow>
          (case ne_clock (le_node env) w of
             (w, now) \<Rightarrow>
               (case lease_valid now w of
                  (w, Some err) \<Rightarrow> (w, Some err)
                | (w, None) \<Rightarrow>
                    if le_registrationDone env w then (w, Some (NodeErr ErrRegistrationLost))
                    else (w\<lparr>nd_state_of := NodeStarted, nd_deliveries := adm_open (nd_deliveries w),
                            nd_requests := adm_open (nd_requests w), nd_serving := True\<rparr>, None))))"

definition node_start :: "nd_config \<Rightarrow> 'a nds nl_env \<Rightarrow> app_info option \<Rightarrow> ctx \<Rightarrow> 'a nds \<Rightarrow> 'a nds \<times> goerr option" where
  "node_start cfg env app ctx w =
     (case app of
        None \<Rightarrow> (w, Some (Fresh ''node: application context is required''))
      | Some app \<Rightarrow>
          if \<not> ValidServiceName (app_Name app) \<or> app_ID app = [] then (w, Some (Fresh ''node: invalid application identity''))
          else case resolveGRPCEndpoint env w of
            (w, Inl err) \<Rightarrow> (w, Some err)
          | (w, Inr endpoint) \<Rightarrow>
              (case claimNodeIdentity cfg env ctx app w of
                 (w, identity, lease, err) \<Rightarrow>
                   let w = w\<lparr>nd_lease := lease\<rparr> in
                   if err \<noteq> None then (w, err)
                   else case startupError env ctx w of
                     (w, Some err) \<Rightarrow> (w, Some err)
                   | (w, None) \<Rightarrow>
                       (case start_renewal env (w\<lparr>nd_identity := Some identity\<rparr>) of
                          (w, Some err) \<Rightarrow> (w, Some err)
                        | (w, None) \<Rightarrow>
                            (case startupError env ctx w of
                               (w, Some err) \<Rightarrow> (w, Some err)
                             | (w, None) \<Rightarrow>
                                 (case startGRPC env ctx w of
                                    (w, Some err) \<Rightarrow> (w, Some err)
                                  | (w, None) \<Rightarrow>
                                      (case startupError env ctx w of
                                         (w, Some err) \<Rightarrow> (w, Some err)
                                       | (w, None) \<Rightarrow>
                                           let record = registrationRecord cfg app endpoint in
                                           (case le_Register env ctx record w of
                                              (w, Some err) \<Rightarrow> (w, Some err)
                                            | (w, None) \<Rightarrow> start_open env ctx record w)))))))"

definition waitCleanup :: "'a nds nl_env \<Rightarrow> ctx \<Rightarrow> 'a nds \<Rightarrow> 'a nds \<times> goerr option" where
  "waitCleanup env ctx w =
     (case le_wait env ctx w of
        (w, ev) \<Rightarrow>
          (case contextwait_Done ev of
             Some err \<Rightarrow> (w, Some err)
           | None \<Rightarrow> (w, case nd_cleanupResult w of None \<Rightarrow> None | Some err \<Rightarrow> err)))"

definition stopAfterFailure :: "'a nds nl_env \<Rightarrow> ctx \<Rightarrow> goerr option \<Rightarrow> duration \<Rightarrow> 'a nds \<Rightarrow> 'a nds \<times> goerr option" where
  "stopAfterFailure env ctx cause timeout w =
     (case waitCleanup env (WithTimeout Background timeout) (startCleanup ctx timeout w) of
        (w, err) \<Rightarrow> (w, errors_join [cause, err]))"

text \<open>\<open>None\<close>: the events given are over and \<open>Start\<close> still waits.\<close>

fun serve_loop ::
  "nd_config \<Rightarrow> 'a nds nl_env \<Rightarrow> ctx \<Rightarrow> serve_event list \<Rightarrow> 'a nds \<Rightarrow> 'a nds \<times> goerr option option" where
  "serve_loop cfg env ctx [] w = (w, None)"
| "serve_loop cfg env ctx (RegistrationDone # evs) w =
     serve_loop cfg env ctx evs
       (if \<not> adm_isClosed (nd_requests w) then failLifecycle cfg (NodeErr ErrRegistrationLost) w else w)"
| "serve_loop cfg env ctx (FatalDone # evs) w =
     (case stopAfterFailure env ctx (nd_fatal w) (nd_shutdownTimeout cfg) w of (w, err) \<Rightarrow> (w, Some err))"
| "serve_loop cfg env ctx (Served serveErr # evs) w =
     (if nd_fatal w \<noteq> None
      then (case stopAfterFailure env ctx (nd_fatal w) (nd_shutdownTimeout cfg) w of (w, err) \<Rightarrow> (w, Some err))
      else if \<not> adm_isClosed (nd_requests w)
      then (case stopAfterFailure env ctx
              (Some (case serveErr of None \<Rightarrow> Fresh ''node: gRPC server stopped unexpectedly'' | Some e \<Rightarrow> e)) (nd_shutdownTimeout cfg) w of
              (w, err) \<Rightarrow> (w, Some err))
      else (w, Some (case serveErr of
               None \<Rightarrow> None
             | Some e \<Rightarrow> if errors_is e (OtherErr ErrServerStopped) then None else Some e)))"

definition start_begin :: "ctx \<Rightarrow> 'a nds \<Rightarrow> 'a nds \<times> goerr option" where
  "start_begin ctx w =
     (if adm_isClosed (nd_requests w) then (w, Some (NodeErr ErrNodeStopped))
      else case nd_state_of w of
        NodeStarted \<Rightarrow> (w, Some (Fresh ''node: server is already started''))
      | NodeStarting \<Rightarrow> (w, Some (Fresh ''node: server is already starting''))
      | NodeNew \<Rightarrow>
          (w\<lparr>nd_startupCancelled := Some False, nd_lifecycleCtx := Some (WithoutCancel ctx), nd_startupDone := Some False,
             nd_state_of := NodeStarting\<rparr>, None))"

definition node_Start ::
  "nd_config \<Rightarrow> 'a nds nl_env \<Rightarrow> app_info option \<Rightarrow> ctx option \<Rightarrow> serve_event list \<Rightarrow> 'a nds \<Rightarrow> 'a nds \<times> goerr option option" where
  "node_Start cfg env app ctx evs w =
     (let ctx = normalizeContext ctx in
      case start_begin ctx w of
        (w, Some err) \<Rightarrow> (w, Some (Some err))
      | (w, None) \<Rightarrow>
          (case node_start cfg env app (WithCancel ctx) w of
             (w, err) \<Rightarrow>
               let w = w\<lparr>nd_startupCancelled := Some True, nd_startupDone := Some True\<rparr> in
               (case err of
                  Some e \<Rightarrow>
                    (case stopAfterFailure env ctx (errors_join [nd_fatal w, Some e]) (nd_cleanupTimeout cfg) w of
                       (w, err) \<Rightarrow> (w, Some err))
                | None \<Rightarrow> serve_loop cfg env ctx evs w)))"

definition node_Stop :: "nd_config \<Rightarrow> 'a nds nl_env \<Rightarrow> ctx option \<Rightarrow> 'a nds \<Rightarrow> 'a nds \<times> goerr option" where
  "node_Stop cfg env ctx w =
     (let ctx = normalizeContext ctx in waitCleanup env ctx (startCleanup ctx (nd_shutdownTimeout cfg) w))"

section \<open>Cleanup\<close>

datatype cleanup_step =
    WaitedStartup "goerr option" | Deregistered "goerr option" | StoppedRequests "goerr option" | Drained "goerr option"
  | StoppedDeliveries "goerr option" | StoppedRenewal "goerr option" | ClosedNetwork "goerr option" | Released "goerr option"
  | LateDrain "goerr option"

definition deregister :: "'w nl_env \<Rightarrow> ctx \<Rightarrow> registration option \<Rightarrow> duration \<Rightarrow> 'w \<Rightarrow> 'w \<times> goerr option" where
  "deregister env ctx record timeout w =
     (case record of None \<Rightarrow> (w, None) | Some r \<Rightarrow> le_Deregister env (WithTimeout ctx timeout) r w)"

text \<open>\<open>stopAndWait\<close> of the two gates: closing is one step, the wait another.\<close>

definition stop_requests :: "'a nds nl_env \<Rightarrow> ctx \<Rightarrow> 'a nds \<Rightarrow> 'a nds \<times> goerr option" where
  "stop_requests env ctx w =
     (case adm_stop_begin (nd_requests w) of
        (a, waits) \<Rightarrow>
          let w = w\<lparr>nd_requests := a\<rparr> in
          if waits then (case le_wait env ctx w of (w, ev) \<Rightarrow> (w, contextwait_Done ev)) else (w, None))"

definition stop_deliveries :: "'a nds nl_env \<Rightarrow> ctx \<Rightarrow> 'a nds \<Rightarrow> 'a nds \<times> goerr option" where
  "stop_deliveries env ctx w =
     (case adm_stop_begin (nd_deliveries w) of
        (a, waits) \<Rightarrow>
          let w = w\<lparr>nd_deliveries := a\<rparr> in
          if waits then (case le_wait env ctx w of (w, ev) \<Rightarrow> (w, contextwait_Done ev)) else (w, None))"

text \<open>
  The lease operations on the current lease; a nil lease does nothing. The cancel and the wait for the
  renewal are the two halves of \<open>stopRenewal\<close>.
\<close>

definition lease_stopRenewal :: "'a nds nl_env \<Rightarrow> ctx \<Rightarrow> 'a nds \<Rightarrow> 'a nds \<times> goerr option" where
  "lease_stopRenewal env ctx w =
     (case nd_lease w of
        None \<Rightarrow> (w, None)
      | Some e \<Rightarrow>
          let w = w\<lparr>nd_lease := Some (el_cancel ctx_canceled e)\<rparr> in
          if el_done e = None then (w, None) else (case le_wait env ctx w of (w, ev) \<Rightarrow> (w, contextwait_Done ev)))"

definition lease_release :: "'a nds nl_env \<Rightarrow> ctx \<Rightarrow> 'a nds \<Rightarrow> 'a nds \<times> goerr option" where
  "lease_release env ctx w =
     (case lease_stopRenewal env ctx w of
        (w, Some err) \<Rightarrow> (w, Some err)
      | (w, None) \<Rightarrow>
          (case nd_lease w of
             None \<Rightarrow> (w, None)
           | Some e \<Rightarrow>
               if el_released e then (w, None)
               else let i = el_identity e in
                 (case esUnregister (le_epoch env) ctx (id_service i) (id_node i) (id_epoch i) w of
                    (w, err) \<Rightarrow>
                      (case err of
                         Some x \<Rightarrow>
                           if errors_is x (LocateErr ErrNodeEpochNotFound) \<or> errors_is x (LocateErr ErrNodeEpochConflict)
                           then (w\<lparr>nd_lease := map_option (\<lambda>e. e\<lparr>el_released := True\<rparr>) (nd_lease w)\<rparr>, None) else (w, Some x)
                       | None \<Rightarrow> (w\<lparr>nd_lease := map_option (\<lambda>e. e\<lparr>el_released := True\<rparr>) (nd_lease w)\<rparr>, None)))))"

text \<open>Requests, the drain function and deliveries: their errors and the late result of the drain.\<close>

definition cleanup_drain ::
  "'a nds nl_env \<Rightarrow> ctx \<Rightarrow> 'a nds \<Rightarrow> 'a nds \<times> goerr option \<times> goerr option \<times> goerr option \<times> goerr option option \<times> cleanup_step list" where
  "cleanup_drain env ctx w =
     (case stop_requests env ctx w of
        (w, requestErr) \<Rightarrow>
          (case (if requestErr = None
                 then (case le_drain env of
                         None \<Rightarrow> (w, None, None, [])
                       | Some drain \<Rightarrow>
                           (case drain ctx w of
                              (w, DrainResult err) \<Rightarrow> (w, err, None, [Drained err])
                            | (w, DrainCtxDone err late) \<Rightarrow> (w, Some err, Some late, [Drained (Some err)])))
                 else (w, None, None, [])) of
             (w, drainErr, lateDrain, steps) \<Rightarrow>
               (case stop_deliveries env ctx w of
                  (w, deliveryErr) \<Rightarrow>
                    (w, requestErr, drainErr, deliveryErr, lateDrain,
                     StoppedRequests requestErr # steps @ [StoppedDeliveries deliveryErr]))))"

text \<open>Renewal, network and epoch after the drain.\<close>

definition cleanup_release ::
  "'a nds nl_env \<Rightarrow> ctx \<Rightarrow> bool \<Rightarrow> bool \<Rightarrow> 'a nds \<Rightarrow> 'a nds \<times> goerr option list \<times> cleanup_step list" where
  "cleanup_release env ctx drained started w =
     (case (if \<not> drained \<or> \<not> started
            then (case lease_stopRenewal env ctx w of (w, err) \<Rightarrow> (w, err, [StoppedRenewal err])) else (w, None, [])) of
        (w, renewalErr, steps) \<Rightarrow>
          (case le_network env ctx w of
             (w, networkErr) \<Rightarrow>
               let w = w\<lparr>nd_identity := None\<rparr> in
               (case (if drained \<and> started
                      then (case lease_release env ctx w of (w, err) \<Rightarrow> (w, err, [Released err])) else (w, None, [])) of
                  (w, epochErr, steps') \<Rightarrow> (w, [renewalErr, networkErr, epochErr], steps @ ClosedNetwork networkErr # steps'))))"

text \<open>The resources a late startup handed over.\<close>

definition cleanup_late ::
  "'a nds nl_env \<Rightarrow> ctx \<Rightarrow> duration \<Rightarrow> registration option \<Rightarrow> bool \<Rightarrow> 'a nds \<Rightarrow> 'a nds \<times> goerr option list \<times> cleanup_step list" where
  "cleanup_late env base timeout record drained w =
     (let w = fst (le_wait env Background w);
          ctx = WithTimeout base timeout;
          lateRecord = nd_registration w in
      case (if lateRecord \<noteq> record
            then (case deregister env ctx lateRecord (go_div timeout 4) w of (w, err) \<Rightarrow> (w, [err], [Deregistered err])) else (w, [], [])) of
        (w, errs, steps) \<Rightarrow>
          (case (if drained then (case lease_release env ctx w of (w, err) \<Rightarrow> (w, err, Released err))
                 else (case lease_stopRenewal env ctx w of (w, err) \<Rightarrow> (w, err, StoppedRenewal err))) of
             (w, err, step) \<Rightarrow> (w\<lparr>nd_identity := None\<rparr>, errs @ [err], steps @ [step])))"

definition node_cleanup ::
  "'a nds nl_env \<Rightarrow> ctx \<Rightarrow> duration \<Rightarrow> 'a nds \<Rightarrow> 'a nds \<times> goerr option \<times> cleanup_step list" where
  "node_cleanup env base timeout w =
     (let base = WithoutCancel base; ctx = WithTimeout base timeout in
      case (case nd_startupDone w of
              None \<Rightarrow> (w, None, [])
            | Some _ \<Rightarrow>
                (case le_wait env (WithTimeout ctx (go_div timeout 4)) w of
                   (w, ev) \<Rightarrow> (w, contextwait_Done ev, [WaitedStartup (contextwait_Done ev)]))) of
        (w, startupErr, steps0) \<Rightarrow>
          let record = nd_registration w in
          (case deregister env ctx record (go_div timeout 4) w of
             (w, registrationErr) \<Rightarrow>
               (case cleanup_drain env ctx w of
                  (w, requestErr, drainErr, deliveryErr, lateDrain, steps1) \<Rightarrow>
                    let drained = (requestErr = None \<and> drainErr = None \<and> deliveryErr = None) in
                    (case cleanup_release env ctx drained (startupErr = None) w of
                       (w, errs, steps2) \<Rightarrow>
                         (case (if startupErr \<noteq> None then cleanup_late env base timeout record drained w else (w, [], [])) of
                            (w, lateErrs, steps3) \<Rightarrow>
                              let late = (case lateDrain of None \<Rightarrow> [] | Some e \<Rightarrow> [e]);
                                  err = errors_join ([startupErr, registrationErr, requestErr, drainErr, deliveryErr] @ errs @ lateErrs @ late) in
                              (w, err, steps0 @ Deregistered registrationErr # steps1 @ steps2 @ steps3 @ map LateDrain late))))))"

text \<open>The goroutine of the cleanup: it runs once and publishes its result.\<close>

definition run_cleanup :: "'a nds nl_env \<Rightarrow> 'a nds \<Rightarrow> 'a nds" where
  "run_cleanup env w =
     (case nd_cleanup w of
        None \<Rightarrow> w
      | Some (base, timeout) \<Rightarrow> (case node_cleanup env base timeout w of (w, err, _) \<Rightarrow> w\<lparr>nd_cleanupResult := Some err\<rparr>))"

section \<open>Properties\<close>

definition drain_ok :: "'a nds nl_env \<Rightarrow> cleanup_step list \<Rightarrow> bool" where
  "drain_ok env steps \<longleftrightarrow> StoppedRequests None \<in> set steps \<and> StoppedDeliveries None \<in> set steps \<and>
     (le_drain env \<noteq> None \<longrightarrow> Drained None \<in> set steps)"

lemma cleanup_drain_ok:
  assumes "cleanup_drain env ctx w = (w', None, None, None, lateDrain, steps)"
  shows "drain_ok env steps"
  using assms by (auto simp: cleanup_drain_def drain_ok_def split: prod.splits option.splits drain_first.splits if_splits)

lemma cleanup_drain_steps:
  assumes "cleanup_drain env ctx w = (w', requestErr, drainErr, deliveryErr, lateDrain, steps)"
  shows "Released err \<notin> set steps" "ClosedNetwork err \<notin> set steps"
  using assms by (auto simp: cleanup_drain_def split: prod.splits option.splits drain_first.splits if_splits)

lemma cleanup_release_steps:
  assumes "cleanup_release env ctx drained started w = (w', errs, steps)"
  shows "\<exists>pre networkErr post. steps = pre @ ClosedNetwork networkErr # post \<and> (\<forall>s\<in>set pre. \<exists>e. s = StoppedRenewal e) \<and>
    (if drained \<and> started then pre = [] \<and> (\<exists>e. post = [Released e]) else pre \<noteq> [] \<and> post = [])"
proof (cases "drained \<and> started")
  case True
  then show ?thesis using assms by (auto simp: cleanup_release_def Let_def split: prod.splits)
next
  case False
  then show ?thesis using assms by (cases drained) (auto simp: cleanup_release_def Let_def split: prod.splits)
qed

lemma cleanup_late_steps:
  assumes "cleanup_late env base timeout record drained w = (w', errs, steps)"
  shows "\<exists>pre. (\<forall>s\<in>set pre. \<exists>e. s = Deregistered e) \<and>
    (if drained then \<exists>e. steps = pre @ [Released e] else \<exists>e. steps = pre @ [StoppedRenewal e])"
  using assms by (cases drained) (auto simp: cleanup_late_def Let_def split: prod.splits if_splits)

lemma prefix_of_absent: "pre @ x # post = xs @ ys \<Longrightarrow> x \<notin> set xs \<Longrightarrow> \<exists>zs. pre = xs @ zs"
  by (auto simp: append_eq_append_conv2 Cons_eq_append_conv)

lemma drain_ok_mono: "drain_ok env xs \<Longrightarrow> set xs \<subseteq> set ys \<Longrightarrow> drain_ok env ys"
  by (auto simp: drain_ok_def)

text \<open>The steps of a cleanup: those before the network is closed, and those after it.\<close>

lemma node_cleanup_steps:
  assumes "node_cleanup env base timeout w = (w', err, steps)"
  shows "\<exists>before networkErr after drained. steps = before @ ClosedNetwork networkErr # after \<and> (\<forall>e. Released e \<notin> set before) \<and>
    (drained \<longrightarrow> drain_ok env before) \<and>
    (\<not> drained \<longrightarrow> (\<forall>e. Released e \<notin> set after) \<and> (\<exists>e. StoppedRenewal e \<in> set before))"
proof -
  obtain w0 startupErr steps0 where s0: "(case nd_startupDone w of None \<Rightarrow> (w, None, [])
      | Some _ \<Rightarrow> (case le_wait env (WithTimeout (WithTimeout (WithoutCancel base) timeout) (go_div timeout 4)) w of
          (w, ev) \<Rightarrow> (w, contextwait_Done ev, [WaitedStartup (contextwait_Done ev)]))) = (w0, startupErr, steps0)"
    by (rule prod_cases3)
  have n0: "Released e \<notin> set steps0" for e using s0 by (auto split: option.splits prod.splits)
  obtain w1 regErr where s1: "deregister env (WithTimeout (WithoutCancel base) timeout) (nd_registration w0) (go_div timeout 4) w0 = (w1, regErr)"
    by fastforce
  obtain w2 rErr dErr vErr late steps1 where s2: "cleanup_drain env (WithTimeout (WithoutCancel base) timeout) w1 = (w2, rErr, dErr, vErr, late, steps1)"
    by (rule prod_cases6)
  define drained where "drained = (rErr = None \<and> dErr = None \<and> vErr = None)"
  obtain w3 errs steps2 where s3: "cleanup_release env (WithTimeout (WithoutCancel base) timeout) drained (startupErr = None) w2 = (w3, errs, steps2)"
    by (rule prod_cases3)
  obtain w4 lateErrs steps3 where s4: "(if startupErr \<noteq> None then cleanup_late env (WithoutCancel base) timeout (nd_registration w0) drained w3
      else (w3, [], [])) = (w4, lateErrs, steps3)" by (rule prod_cases3)
  define tail where "tail = map LateDrain (case late of None \<Rightarrow> [] | Some e \<Rightarrow> [e])"
  have steps: "steps = steps0 @ Deregistered regErr # steps1 @ steps2 @ steps3 @ tail"
    using assms unfolding node_cleanup_def Let_def s0 prod.case s1 s2 drained_def [symmetric] s3 s4 tail_def by simp
  from cleanup_release_steps [OF s3] obtain p n q where c: "steps2 = p @ ClosedNetwork n # q" "\<forall>s\<in>set p. \<exists>e. s = StoppedRenewal e"
    "if drained \<and> startupErr = None then p = [] \<and> (\<exists>e. q = [Released e]) else p \<noteq> [] \<and> q = []" by blast
  have no_tail: "Released e \<notin> set tail" for e by (auto simp: tail_def)
  have no3: "Released e \<notin> set steps3" if "\<not> drained" for e
    using s4 that cleanup_late_steps [of env "WithoutCancel base" timeout "nd_registration w0" drained w3] by (auto split: if_splits)
  let ?before = "steps0 @ Deregistered regErr # steps1 @ p"
  have "steps = ?before @ ClosedNetwork n # (q @ steps3 @ tail)" by (simp add: steps c(1))
  moreover have "Released e \<notin> set ?before" for e using n0 cleanup_drain_steps(1) [OF s2] c(2) by auto
  moreover have "drain_ok env ?before" if drained
  proof -
    have "cleanup_drain env (WithTimeout (WithoutCancel base) timeout) w1 = (w2, None, None, None, late, steps1)"
      using s2 that by (simp add: drained_def)
    from cleanup_drain_ok [OF this] show ?thesis by (rule drain_ok_mono) auto
  qed
  moreover have "Released e \<notin> set (q @ steps3 @ tail)" if "\<not> drained" for e using that c(3) no3 no_tail by auto
  moreover have "\<exists>e. StoppedRenewal e \<in> set ?before" if "\<not> drained"
  proof -
    have "p \<noteq> []" using that c(3) by auto
    then show ?thesis using c(2) by (cases p) auto
  qed
  ultimately show ?thesis by blast
qed


text \<open>The cleanup of a started node in an environment in which every call succeeds.\<close>

definition nl_demo_env :: "nd_state nl_env" where
  "nl_demo_env = \<lparr>le_node = nd_demo_env, le_ctxErr = (\<lambda>ctx w. (w, None)), le_Prepare = (\<lambda>w. (w, None)), le_Endpoint = (\<lambda>w. (w, Inr ''grpc://10.0.0.1:1'')),
     le_Ping = (\<lambda>ctx w. (w, None)),
     le_epoch = \<lparr>esRegister = (\<lambda>c s n e t w. (w, None)), esRenew = (\<lambda>c s n e t w. (w, None)), esUnregister = (\<lambda>c s n e w. (w, None))\<rparr>,
     le_uuid = (\<lambda>w. ''e1''), le_ready = (\<lambda>w. (w, None)), le_grpc = (\<lambda>ctx w. (w, GrpcAccepting)), le_Register = (\<lambda>ctx r w. (w, None)),
     le_Deregister = (\<lambda>ctx r w. (w, None)), le_registrationDone = (\<lambda>w. False), le_wait = (\<lambda>ctx w. (w, WaitDone)),
     le_drain = Some (\<lambda>ctx w. (w, DrainResult None)), le_network = (\<lambda>ctx w. (w, None))\<rparr>"

lemma nl_demo_steps:
  "snd (snd (node_cleanup nl_demo_env Background 10 nd_demo)) =
     [WaitedStartup None, Deregistered None, StoppedRequests None, Drained None, StoppedDeliveries None, ClosedNetwork None, Released None]"
  by (simp add: node_cleanup_def nl_demo_env_def nd_demo_def contextwait_Done_def deregister_def cleanup_drain_def stop_requests_def
      stop_deliveries_def adm_stop_begin_def adm_close_def zeroAdmission_def cleanup_release_def lease_release_def lease_stopRenewal_def
      newEpochLease_def el_cancel_def Let_def)


end
