(* ===== verification/Sender.thy ===== *)
theory Sender
  imports Gate_Client Admission Server_Options
begin

text \<open>
  \<open>push/options.go\<close> and \<open>push/sender.go\<close>: pushes from services that are not nodes. The state is the pool of
  gateway connections with the admission of calls; the locator, the contexts and the pool's connections are
  the environment.
\<close>

section \<open>Options\<close>

record push_options =
  po_tlsConfig :: "tls_config option"
  po_middlewares :: "nat list"
  po_timeout :: duration

datatype push_option = PushNilOption | PushClientTLS "tls_config option" | PushClientMiddleware "nat option list" | PushTimeoutOption duration

fun push_apply_option :: "push_option \<Rightarrow> push_options \<Rightarrow> goerr + push_options" where
  "push_apply_option PushNilOption o' = Inl (Fresh ''push: option is required'')"
| "push_apply_option (PushClientTLS config) o' =
     (case config of
        None \<Rightarrow> Inl (Fresh ''push: gRPC TLS config is required'')
      | Some c \<Rightarrow>
          (case ValidateClient (Some c) of
             Some err \<Rightarrow> Inl (Wrap ''push: gRPC'' [err])
           | None \<Rightarrow> Inr (o'\<lparr>po_tlsConfig := tls_Clone (Some c)\<rparr>)))"
| "push_apply_option (PushClientMiddleware ms) o' =
     (if None \<in> set ms then Inl (Fresh ''push: client middleware is required'')
      else Inr (o'\<lparr>po_middlewares := po_middlewares o' @ List.map_filter id ms\<rparr>))"
| "push_apply_option (PushTimeoutOption d) o' = positive ''push: timeout must be positive'' d (o'\<lparr>po_timeout := d\<rparr>)"

definition push_resolveOptions :: "push_option list \<Rightarrow> goerr + push_options" where
  "push_resolveOptions opts = apply_options push_apply_option opts \<lparr>po_tlsConfig = None, po_middlewares = [], po_timeout = 3 * second\<rparr>"

section \<open>The sender\<close>

text \<open>
  \<open>sd_cancelled\<close> is the context of the sender with its cause; \<open>sd_calls\<close> is the counter of the wait group and
  \<open>sd_close\<close> the result of the one \<open>Close\<close>, once it is over.
\<close>

record sd_state = gc_state +
  sd_timeout :: duration
  sd_closed :: bool
  sd_cancelled :: bool
  sd_calls :: nat
  sd_close :: "goerr option option"

text \<open>\<open>se_closed\<close> says whether the cause of a context is the end of the sender.\<close>

record 'w sd_env =
  se_gc :: "'w gc_env"
  se_LocateGate :: "ctx \<Rightarrow> string \<Rightarrow> string \<Rightarrow> 'w \<Rightarrow> 'w \<times> (goerr + GateLease)"
  se_ctxErr :: "ctx \<Rightarrow> 'w \<Rightarrow> 'w \<times> goerr option"
  se_closed :: "ctx \<Rightarrow> 'w \<Rightarrow> bool"
  se_callsWait :: "'w \<Rightarrow> 'w"
  se_rounds :: "'w \<Rightarrow> dial_first list"
  se_ended :: "'w \<Rightarrow> goerr"

definition NewSender :: "iface \<Rightarrow> push_option list \<Rightarrow> goerr + sd_state" where
  "NewSender locator opts =
     (if isNil locator then Inl (Fresh ''push: gate locator is required'')
      else case push_resolveOptions opts of
        Inl err \<Rightarrow> Inl err
      | Inr o' \<Rightarrow>
          Inr \<lparr>st_gateways = gc_New (po_tlsConfig o'), sd_timeout = po_timeout o', sd_closed = False, sd_cancelled = False, sd_calls = 0,
               sd_close = None\<rparr>)"

definition sender_admit :: "'a sd_state_scheme \<Rightarrow> 'a sd_state_scheme \<times> bool" where
  "sender_admit w = (if sd_closed w then (w, False) else (w\<lparr>sd_calls := sd_calls w + 1\<rparr>, True))"

definition mapSenderError ::
  "'a sd_state_scheme sd_env \<Rightarrow> ctx \<Rightarrow> goerr option \<Rightarrow> 'a sd_state_scheme \<Rightarrow> 'a sd_state_scheme \<times> goerr option" where
  "mapSenderError env ctx e w =
     (case e of
        None \<Rightarrow> (w, None)
      | Some err \<Rightarrow>
          if se_closed env ctx w then (w, Some (Status Unavailable ''sender is closed''))
          else case se_ctxErr env ctx w of
            (w, Some c) \<Rightarrow> (w, Some c)
          | (w, None) \<Rightarrow>
              (w, Some (if errors_is err ctx_canceled \<or> errors_is err ctx_deadline then err
                        else if errors_is err (LocateErr ErrGateNotFound) then Status NotFound ''gate binding not found''
                        else if errors_is err (LocateErr ErrInvalidGateBinding) \<or> errors_is err (LocateErr ErrInvalidGateLease) \<or>
                                errors_is err (EndpointErr ErrInvalidEndpoint) \<or> errors_is err (EndpointErr ErrTransportSecurity)
                        then Status Internal ''invalid gateway route''
                        else if status_of err \<noteq> None then err
                        else Status Unavailable ''gateway is unavailable'')))"

text \<open>An admitted call, up to the report of its end.\<close>

definition sender_call ::
  "'a sd_state_scheme sd_env \<Rightarrow> ctx \<Rightarrow> string \<Rightarrow> string \<Rightarrow> int \<Rightarrow> goerr + bytes \<Rightarrow> 'a sd_state_scheme \<Rightarrow> 'a sd_state_scheme \<times> goerr option" where
  "sender_call env ctx service uid command msg w =
     (case se_ctxErr env ctx w of
        (w, Some err) \<Rightarrow> mapSenderError env ctx (Some err) w
      | (w, None) \<Rightarrow>
          (case se_LocateGate env ctx service uid w of
             (w, Inl err) \<Rightarrow> mapSenderError env ctx (Some err) w
           | (w, Inr lease) \<Rightarrow>
               (case se_ctxErr env ctx w of
                  (w, Some err) \<Rightarrow> mapSenderError env ctx (Some err) w
                | (w, None) \<Rightarrow>
                    if TTL lease \<le> 0 \<or> \<not> ValidGateBinding (Binding lease) \<or> ServiceName (Binding lease) \<noteq> service \<or> UID (Binding lease) \<noteq> uid
                    then (w, Some (Status Internal ''invalid gateway route''))
                    else (case gc_Push (se_gc env) ctx (Binding lease) command msg (se_rounds env w) (se_ended env w) w of
                      (w, err) \<Rightarrow> mapSenderError env ctx err w))))"

text \<open>A message is \<open>None\<close> when it is nil or invalid, otherwise the result of marshalling it.\<close>

definition sender_PushToUID ::
  "'a sd_state_scheme sd_env \<Rightarrow> ctx option \<Rightarrow> string \<Rightarrow> string \<Rightarrow> int \<Rightarrow> (goerr + bytes) option \<Rightarrow> 'a sd_state_scheme \<Rightarrow>
   'a sd_state_scheme \<times> goerr option" where
  "sender_PushToUID env ctx service uid command msg w =
     (if \<not> ValidServiceName service \<or> \<not> ValidUID uid then (w, Some (Status InvalidArgument ''invalid push target''))
      else case msg of
        None \<Rightarrow> (w, Some (Status InvalidArgument ''push message is required''))
      | Some m \<Rightarrow>
          (case sender_admit w of
             (w, False) \<Rightarrow> (w, Some (Status Unavailable ''sender is closed''))
           | (w, True) \<Rightarrow>
               let ctx = WithCancel (WithTimeout (case ctx of None \<Rightarrow> Background | Some c \<Rightarrow> c) (sd_timeout w)) in
               (case sender_call env ctx service uid command m w of
                  (w, err) \<Rightarrow> (w\<lparr>sd_calls := sd_calls w - 1\<rparr>, err))))"

definition sender_Close :: "'a sd_state_scheme sd_env \<Rightarrow> 'a sd_state_scheme \<Rightarrow> 'a sd_state_scheme \<times> goerr option" where
  "sender_Close env w =
     (case sd_close w of
        Some err \<Rightarrow> (w, err)
      | None \<Rightarrow>
          (case gc_Close (se_gc env) (w\<lparr>sd_closed := True, sd_cancelled := True\<rparr>) of
             (w, err) \<Rightarrow> ((se_callsWait env w)\<lparr>sd_close := Some err\<rparr>, err)))"

section \<open>Facts\<close>

lemma mapSenderError_None [simp]: "mapSenderError env ctx e w = (w', None) \<longleftrightarrow> e = None \<and> w' = w"
  by (auto simp: mapSenderError_def split: option.splits prod.splits if_splits)

text \<open>A push that reports success was sent to a valid binding of that very user and service with a live lease.\<close>

lemma sender_call_to_owner:
  assumes "sender_call env ctx service uid command msg w = (w', None)"
  shows "\<exists>w1 w2 w3 lease. se_LocateGate env ctx service uid w1 = (w2, Inr lease) \<and> 0 < TTL lease \<and> ValidGateBinding (Binding lease) \<and>
    ServiceName (Binding lease) = service \<and> UID (Binding lease) = uid \<and>
    gc_Push (se_gc env) ctx (Binding lease) command msg (se_rounds env w3) (se_ended env w3) w3 = (w', None)"
proof -
  obtain w1 e1 where e1: "se_ctxErr env ctx w = (w1, e1)" by fastforce
  then have n1: "e1 = None" using assms by (cases e1) (auto simp: sender_call_def)
  obtain w2 reply where reply: "se_LocateGate env ctx service uid w1 = (w2, reply)" by fastforce
  then obtain lease where lease: "reply = Inr lease" using assms e1 n1 by (cases reply) (auto simp: sender_call_def)
  obtain w3 e3 where e3: "se_ctxErr env ctx w2 = (w3, e3)" by fastforce
  then have n3: "e3 = None" using assms e1 n1 reply lease by (cases e3) (auto simp: sender_call_def)
  have "0 < TTL lease \<and> ValidGateBinding (Binding lease) \<and> ServiceName (Binding lease) = service \<and> UID (Binding lease) = uid \<and>
      gc_Push (se_gc env) ctx (Binding lease) command msg (se_rounds env w3) (se_ended env w3) w3 = (w', None)"
    using assms e1 n1 reply lease e3 n3 by (auto simp: sender_call_def split: if_splits prod.splits)
  then show ?thesis using reply lease by blast
qed

text \<open>A closed sender admits nothing and leaves the state alone.\<close>

lemma closed_sender_refuses:
  "sd_closed w \<Longrightarrow> fst (sender_PushToUID env ctx service uid command msg w) = w \<and> snd (sender_PushToUID env ctx service uid command msg w) \<noteq> None"
  by (auto simp: sender_PushToUID_def sender_admit_def split: option.splits)

end
