(* ===== verification/Registrar.thy ===== *)
theory Registrar
  imports Node
begin

text \<open>
  \<open>registry/etcd\<close>: construction of a registry and registration of one instance under a lease. The etcd
  client, its transactions, leases and sessions are the environment; the one slot of \<open>operation\<close> serialises
  the calls. JSON encoding of an instance is a parameter.
\<close>

section \<open>Strings\<close>

text \<open>A string cut into its runes, each with the bytes it came from; an invalid byte is U+FFFD.\<close>

function rune_parts :: "string \<Rightarrow> (nat \<times> string) list" where
  "rune_parts s =
     (case s of
        [] \<Rightarrow> []
      | c # tail \<Rightarrow>
          (case utf8_next (map byte_of s) of
             None \<Rightarrow> (0xFFFD, [c]) # rune_parts tail
           | Some (r, rest) \<Rightarrow> (r, take (length s - length rest) s) # rune_parts (drop (length s - length rest) s)))"
  by pat_completeness auto
termination
proof (relation "measure length", goal_cases)
  case (3 s c tail p r rest)
  then have "length rest < length (map byte_of s)" by (metis utf8_next_shorter)
  then show ?case using 3 by simp
qed auto

declare rune_parts.simps [simp del]

definition TrimSpace :: "string \<Rightarrow> string" where
  "TrimSpace s =
     (let cut = dropWhile (\<lambda>(r, _). is_space r) in concat (map snd (rev (cut (rev (cut (rune_parts s)))))))"

fun SplitSeq :: "char \<Rightarrow> string \<Rightarrow> string list" where
  "SplitSeq sep [] = [[]]"
| "SplitSeq sep (c # s) =
     (if c = sep then [] # SplitSeq sep s
      else case SplitSeq sep s of [] \<Rightarrow> [[c]] | w # ws \<Rightarrow> (c # w) # ws)"

definition TrimRight :: "char \<Rightarrow> string \<Rightarrow> string" where
  "TrimRight c s = rev (dropWhile (\<lambda>d. d = c) (rev s))"

section \<open>Construction (\<open>registry.go\<close>)\<close>

record etcd_config =
  ec_endpoints :: "string list"
  ec_prefix :: string
  ec_dialTimeout :: duration

text \<open>\<open>NodeDirectory\<close> is the option \<open>NewNodeRegistry\<close> adds: the directory of the nodes below the prefix.\<close>

datatype etcd_option = WithEndpoints "string list" | WithPrefix string | WithDialTimeout duration | NodeDirectory

fun etcd_apply_option :: "etcd_option \<Rightarrow> etcd_config \<Rightarrow> etcd_config" where
  "etcd_apply_option (WithEndpoints endpoints) c =
     c\<lparr>ec_endpoints := filter (\<lambda>e. e \<noteq> []) (map TrimSpace (concat (map (SplitSeq CHR '','') endpoints)))\<rparr>"
| "etcd_apply_option (WithPrefix prefix) c = c\<lparr>ec_prefix := prefix\<rparr>"
| "etcd_apply_option (WithDialTimeout timeout) c = c\<lparr>ec_dialTimeout := timeout\<rparr>"
| "etcd_apply_option NodeDirectory c =
     (if ec_prefix c \<noteq> [] then c\<lparr>ec_prefix := TrimRight CHR ''/'' (ec_prefix c) @ ''/yola/nodes''\<rparr> else c)"

text \<open>\<open>rg_busy\<close>: the slot of \<open>operation\<close> is taken; \<open>rg_cancel\<close>: absent before a lease is kept alive, then whether it was cancelled.\<close>

record rg_state =
  rg_client :: "nat option"
  rg_namespace :: string
  rg_busy :: bool
  rg_attempted :: bool
  rg_key :: string
  rg_leaseID :: int
  rg_cancel :: "bool option"
  rg_session :: "nat option"

definition newRegistry :: "nat \<Rightarrow> string \<Rightarrow> rg_state" where
  "newRegistry client prefix =
     \<lparr>rg_client = Some client, rg_namespace = prefix, rg_busy = False, rg_attempted = False, rg_key = [], rg_leaseID = 0, rg_cancel = None, rg_session = None\<rparr>"

text \<open>\<open>create\<close> makes the etcd client of the given endpoints and dial timeout.\<close>

type_synonym etcd_create = "string list \<Rightarrow> duration \<Rightarrow> goerr + nat"

definition etcd_New :: "etcd_create \<Rightarrow> etcd_option list \<Rightarrow> goerr + rg_state" where
  "etcd_New create opts =
     (let c = fold etcd_apply_option opts \<lparr>ec_endpoints = [''127.0.0.1:2379''], ec_prefix = ''/etcd/prefix'', ec_dialTimeout = 3 * second\<rparr> in
      if ec_endpoints c = [] then Inl (Fresh ''etcd: endpoints are empty'')
      else if ec_prefix c = [] \<or> \<not> has_prefix (ec_prefix c) ''/'' then Inl (Fresh (''etcd: prefix must start with '' @ [CHR 0x27, CHR ''/'', CHR 0x27]))
      else if ec_dialTimeout c \<le> 0 then Inl (Fresh ''etcd: dial timeout must be positive'')
      else case create (ec_endpoints c) (ec_dialTimeout c) of
        Inl err \<Rightarrow> Inl (Wrap ''etcd: create client'' [err])
      | Inr client \<Rightarrow> Inr (newRegistry client (ec_prefix c)))"

definition NewNodeRegistry :: "etcd_create \<Rightarrow> etcd_option list \<Rightarrow> goerr + rg_state" where
  "NewNodeRegistry create opts = etcd_New create (opts @ [NodeDirectory])"

section \<open>Registration (\<open>registrar.go\<close>)\<close>

datatype enter_first = EnterSlot | EnterCtxDone goerr

record 'w rg_env =
  re_enter :: "ctx \<Rightarrow> 'w \<Rightarrow> 'w \<times> enter_first"
  re_ctxErr :: "ctx \<Rightarrow> 'w \<Rightarrow> 'w \<times> goerr option"
  re_marshal :: "registration \<Rightarrow> goerr + string"
  re_Grant :: "ctx \<Rightarrow> int \<Rightarrow> 'w \<Rightarrow> 'w \<times> (goerr + int)"
  re_Txn :: "ctx \<Rightarrow> string \<Rightarrow> string \<Rightarrow> int \<Rightarrow> 'w \<Rightarrow> 'w \<times> (goerr + bool)"
  re_NewSession :: "int \<Rightarrow> 'w \<Rightarrow> 'w \<times> (goerr + nat option)"
  re_Revoke :: "ctx \<Rightarrow> int \<Rightarrow> 'w \<Rightarrow> 'w \<times> goerr option"
  re_wait :: "ctx \<Rightarrow> nat option \<Rightarrow> 'w \<Rightarrow> 'w \<times> wait_event"
  re_Close :: "nat \<Rightarrow> 'w \<Rightarrow> 'w \<times> goerr option"

type_synonym 'a rgs = "'a rg_state_scheme"

definition instance_key :: "string \<Rightarrow> registration \<Rightarrow> string" where
  "instance_key namespace s = namespace @ ''/'' @ ri_Name s @ ''/'' @ ri_ID s"

definition rg_enter :: "'a rgs rg_env \<Rightarrow> ctx \<Rightarrow> 'a rgs \<Rightarrow> 'a rgs \<times> goerr option" where
  "rg_enter env ctx w =
     (case re_enter env ctx w of
        (w, EnterCtxDone err) \<Rightarrow> (w, Some err)
      | (w, EnterSlot) \<Rightarrow>
          (case re_ctxErr env ctx (w\<lparr>rg_busy := True\<rparr>) of
             (w, Some err) \<Rightarrow> (w\<lparr>rg_busy := False\<rparr>, Some err)
           | (w, None) \<Rightarrow> (w, None)))"

text \<open>\<open>Done\<close> is the channel of the session, named by the session; nil before a registration.\<close>

definition etcd_Done :: "'a rgs \<Rightarrow> nat option" where
  "etcd_Done w = rg_session w"

definition rg_revoke :: "'a rgs rg_env \<Rightarrow> ctx \<Rightarrow> 'a rgs \<Rightarrow> 'a rgs \<times> goerr option" where
  "rg_revoke env ctx w =
     (case (case rg_cancel w of
              None \<Rightarrow> (w, None)
            | Some _ \<Rightarrow> (let w = w\<lparr>rg_cancel := Some True\<rparr> in case re_wait env ctx (etcd_Done w) w of (w, ev) \<Rightarrow> (w, contextwait_Done ev))) of
        (w, Some err) \<Rightarrow> (w, Some err)
      | (w, None) \<Rightarrow>
          (case re_Revoke env ctx (rg_leaseID w) w of
             (w, err) \<Rightarrow>
               (case err of
                  Some e \<Rightarrow>
                    if \<not> errors_is e (OtherErr ErrLeaseNotFound) then (w, Some (Wrap ''etcd: revoke registration lease'' [e]))
                    else (w\<lparr>rg_leaseID := 0\<rparr>, None)
                | None \<Rightarrow> (w\<lparr>rg_leaseID := 0\<rparr>, None))))"

text \<open>From the transaction on, under the granted lease.\<close>

definition register_leased :: "'a rgs rg_env \<Rightarrow> ctx \<Rightarrow> string \<Rightarrow> int \<Rightarrow> 'a rgs \<Rightarrow> 'a rgs \<times> goerr option" where
  "register_leased env ctx value grant w =
     (case re_Txn env ctx (rg_key w) value grant w of
        (w, Inl err) \<Rightarrow> (w, Some (Wrap ''etcd: register service'' [err]))
      | (w, Inr False) \<Rightarrow> (w, Some (OtherErr ErrInstanceExists))
      | (w, Inr True) \<Rightarrow>
          (case re_NewSession env grant w of
             (w, Inl err) \<Rightarrow> (w, Some (Wrap ''etcd: keep registration alive'' [err]))
           | (w, Inr None) \<Rightarrow> (w, Some (Fresh ''etcd: registration lease is unavailable''))
           | (w, Inr (Some session)) \<Rightarrow> re_ctxErr env ctx (w\<lparr>rg_cancel := Some False, rg_session := Some session\<rparr>)))"

definition register_entered :: "'a rgs rg_env \<Rightarrow> ctx \<Rightarrow> registration option \<Rightarrow> 'a rgs \<Rightarrow> 'a rgs \<times> goerr option" where
  "register_entered env ctx service w =
     (if rg_attempted w then (w, Some (Fresh ''etcd: registration already attempted''))
      else case service of
        None \<Rightarrow> (w, Some (Fresh ''etcd: service identity is required''))
      | Some s \<Rightarrow>
          if ri_Name s = [] \<or> ri_ID s = [] then (w, Some (Fresh ''etcd: service identity is required''))
          else case re_marshal env s of
            Inl err \<Rightarrow> (w, Some (Wrap ''etcd: encode service'' [err]))
          | Inr value \<Rightarrow>
              (case re_Grant env ctx 15 (w\<lparr>rg_attempted := True, rg_key := instance_key (rg_namespace w) s\<rparr>) of
                 (w, Inl err) \<Rightarrow> (w, Some (Wrap ''etcd: grant registration lease'' [err]))
               | (w, Inr grant) \<Rightarrow>
                   (case register_leased env ctx value grant (w\<lparr>rg_leaseID := grant\<rparr>) of
                      (w, None) \<Rightarrow> (w, None)
                    | (w, Some err) \<Rightarrow>
                        (case rg_revoke env (WithTimeout (WithoutCancel ctx) (3 * second)) w of
                           (w, revokeErr) \<Rightarrow> (w, errors_join [Some err, revokeErr])))))"

definition etcd_Register :: "'a rgs rg_env \<Rightarrow> ctx \<Rightarrow> registration option \<Rightarrow> 'a rgs \<Rightarrow> 'a rgs \<times> goerr option" where
  "etcd_Register env ctx service w =
     (case rg_enter env ctx w of
        (w, Some err) \<Rightarrow> (w, Some err)
      | (w, None) \<Rightarrow> (case register_entered env ctx service w of (w, err) \<Rightarrow> (w\<lparr>rg_busy := False\<rparr>, err)))"

definition etcd_Deregister :: "'a rgs rg_env \<Rightarrow> ctx \<Rightarrow> registration option \<Rightarrow> 'a rgs \<Rightarrow> 'a rgs \<times> goerr option" where
  "etcd_Deregister env ctx service w =
     (case rg_enter env ctx w of
        (w, Some err) \<Rightarrow> (w, Some err)
      | (w, None) \<Rightarrow>
          (case (if rg_leaseID w = 0 then (w, None)
                 else if (case service of None \<Rightarrow> True | Some s \<Rightarrow> rg_key w \<noteq> instance_key (rg_namespace w) s)
                 then (w, Some (Fresh ''etcd: deregistration identity does not match''))
                 else rg_revoke env ctx w) of
             (w, err) \<Rightarrow> (w\<lparr>rg_busy := False\<rparr>, err)))"

text \<open>\<open>present\<close>: the receiver is not nil.\<close>

definition etcd_Close :: "'a rgs rg_env \<Rightarrow> bool \<Rightarrow> 'a rgs \<Rightarrow> 'a rgs \<times> goerr option" where
  "etcd_Close env present w =
     (if \<not> present then (w, None)
      else case rg_client w of None \<Rightarrow> (w, None) | Some client \<Rightarrow> re_Close env client w)"

section \<open>Facts\<close>

text \<open>A revocation that reports no error leaves no lease.\<close>

lemma rg_revoke_clears: "rg_revoke env ctx w = (w', None) \<Longrightarrow> rg_leaseID w' = 0"
  by (auto simp: rg_revoke_def split: prod.splits option.splits if_splits)

text \<open>
  A registration that reports success created the key of the instance under its own lease, found no other
  registration there and keeps the lease alive.
\<close>

lemma register_creates:
  assumes "register_entered env ctx service w = (w', None)"
  shows "\<not> rg_attempted w \<and> (\<exists>s value grant w1 w2 w3 session. service = Some s \<and> re_marshal env s = Inr value \<and>
    re_Grant env ctx 15 (w\<lparr>rg_attempted := True, rg_key := instance_key (rg_namespace w) s\<rparr>) = (w1, Inr grant) \<and>
    re_Txn env ctx (rg_key w1) value grant (w1\<lparr>rg_leaseID := grant\<rparr>) = (w2, Inr True) \<and>
    re_NewSession env grant w2 = (w3, Inr (Some session)) \<and>
    re_ctxErr env ctx (w3\<lparr>rg_cancel := Some False, rg_session := Some session\<rparr>) = (w', None))"
proof -
  obtain s where s: "service = Some s" "\<not> rg_attempted w" "ri_Name s \<noteq> []" "ri_ID s \<noteq> []"
    using assms by (auto simp: register_entered_def split: if_splits option.splits)
  obtain v where v: "re_marshal env s = Inr v" using assms s by (cases "re_marshal env s") (auto simp: register_entered_def)
  obtain w1 g where g: "re_Grant env ctx 15 (w\<lparr>rg_attempted := True, rg_key := instance_key (rg_namespace w) s\<rparr>) = (w1, g)" by fastforce
  obtain grant where grant: "g = Inr grant" using assms s v g by (cases g) (auto simp: register_entered_def)
  obtain wl el where l: "register_leased env ctx v grant (w1\<lparr>rg_leaseID := grant\<rparr>) = (wl, el)" by fastforce
  have "wl = w' \<and> el = None" using assms s v g grant l by (cases el) (auto simp: register_entered_def split: prod.splits)
  then have "register_leased env ctx v grant (w1\<lparr>rg_leaseID := grant\<rparr>) = (w', None)" using l by simp
  then show ?thesis using s v g grant
    by (fastforce simp: register_leased_def split: prod.splits sum.splits bool.splits option.splits)
qed

text \<open>
  A registration that fails after its lease was granted gives the lease back; where the revocation fails too,
  its error is part of the result.
\<close>

lemma register_failure_revokes:
  assumes "register_entered env ctx service w = (w', Some err)" "\<not> rg_attempted w"
    "service = Some s" "ri_Name s \<noteq> []" "ri_ID s \<noteq> []" "re_marshal env s = Inr v"
    "re_Grant env ctx 15 (w\<lparr>rg_attempted := True, rg_key := instance_key (rg_namespace w) s\<rparr>) = (w1, Inr grant)"
  shows "rg_leaseID w' = 0 \<or> (\<exists>e r. err = Wrap [] [e, r])"
proof -
  obtain wl e where l: "register_leased env ctx v grant (w1\<lparr>rg_leaseID := grant\<rparr>) = (wl, Some e)"
    using assms by (cases "register_leased env ctx v grant (w1\<lparr>rg_leaseID := grant\<rparr>)"; cases "snd (register_leased env ctx v grant (w1\<lparr>rg_leaseID := grant\<rparr>))")
      (auto simp: register_entered_def)
  obtain wr r where r: "rg_revoke env (WithTimeout (WithoutCancel ctx) (3 * second)) wl = (wr, r)" by fastforce
  have "w' = wr" "errors_join [Some e, r] = Some err" using assms l r by (auto simp: register_entered_def)
  then show ?thesis using rg_revoke_clears r by (cases r) (auto simp: errors_join_def List.map_filter_simps)
qed

text \<open>The directory of the nodes is acceptable whenever the prefix it is derived from is.\<close>

lemma node_directory_valid:
  assumes "has_prefix (ec_prefix c) ''/''"
  shows "has_prefix (ec_prefix (etcd_apply_option NodeDirectory c)) ''/''"
proof -
  obtain t where t: "ec_prefix c = CHR ''/'' # t" using assms by (auto simp: has_prefix_append_iff)
  have "\<exists>u. TrimRight CHR ''/'' (ec_prefix c) = [] \<or> TrimRight CHR ''/'' (ec_prefix c) = CHR ''/'' # u"
    unfolding TrimRight_def t by (auto simp: dropWhile_append) (metis rev_rev_ident)
  then show ?thesis using t by auto
qed

lemma NewNodeRegistry_ok:
  assumes "etcd_New create opts = Inr r" "\<And>es d. \<exists>client. create es d = Inr client"
  shows "\<exists>r'. NewNodeRegistry create opts = Inr r' \<and> rg_namespace r' = TrimRight CHR ''/'' (rg_namespace r) @ ''/yola/nodes''"
proof -
  let ?c = "fold etcd_apply_option opts \<lparr>ec_endpoints = [''127.0.0.1:2379''], ec_prefix = ''/etcd/prefix'', ec_dialTimeout = 3 * second\<rparr>"
  have ok: "ec_endpoints ?c \<noteq> []" "ec_prefix ?c \<noteq> []" "has_prefix (ec_prefix ?c) ''/''" "0 < ec_dialTimeout ?c"
    "rg_namespace r = ec_prefix ?c"
    using assms(1) by (auto simp: etcd_New_def Let_def newRegistry_def split: if_splits sum.splits)
  obtain client where "create (ec_endpoints ?c) (ec_dialTimeout ?c) = Inr client" using assms(2) by blast
  then show ?thesis using ok node_directory_valid [OF ok(3)]
    by (auto simp: NewNodeRegistry_def etcd_New_def Let_def newRegistry_def)
qed

end
