(* ===== verification/Subscription.thy ===== *)
theory Subscription
  imports Channels Admission "HOL-Library.Word"
begin

text \<open>
  \<open>event/event.go\<close>, \<open>event/stats.go\<close> and \<open>event/nats/subscription.go\<close>: topics, and one subscription with its
  consumer, its one cleanup and the callers of \<open>Unsubscribe\<close>. The native subscription of the NATS client is
  a parameter: what it answers is an argument. Logging is left out.
\<close>

section \<open>Topics\<close>

definition ValidTopic :: "string \<Rightarrow> bool" where
  "ValidTopic topic =
     (\<not> (topic = [] \<or> has_prefix topic ''.'' \<or> has_suffix topic ''.'' \<or> contains_str topic ''..'' \<or> contains_any topic ''*>'') \<and>
      \<not> list_ex (\<lambda>r. is_space r \<or> is_control r) (runes topic))"

section \<open>State and operations\<close>

record SubscriptionStats =
  QueueDepth :: nat
  QueueCapacity :: nat
  QueueDropped :: "64 word"
  QueueDroppedCurrent :: bool
  PayloadDropped :: "64 word"
  HandlerCalls :: "64 word"
  HandlerPanics :: "64 word"
  HandlerActive :: bool
  HandlerDuration :: duration
  LastHandlerDuration :: duration
  MaxHandlerDuration :: duration
  StatsClosed :: bool

record nats_msg =
  nm_Subject :: string
  nm_Data :: bytes

text \<open>
  The handler and the native subscription are names. \<open>su_cancel\<close>: the cancel function is set; \<open>su_ctxDone\<close>: the
  context of the consumer is done; \<open>su_stopping\<close>: the body of \<open>stopOnce\<close> ran. \<open>su_deactivated\<close> and
  \<open>su_stopDone\<close> count how often the channel was closed, a second close being a panic.
\<close>

record subscription =
  su_topic :: string
  su_handler :: "nat option"
  su_maxPayloadBytes :: nat
  su_native :: "nat option"
  su_cancel :: bool
  su_ctxDone :: bool
  su_stats :: SubscriptionStats
  su_messages :: "nats_msg chan option"
  su_payloadDropped :: "64 word"
  su_stopping :: bool
  su_deactivated :: nat
  su_stopDone :: nat
  su_stopErr :: "goerr option"

text \<open>\<open>dropped\<close> is the answer of the native subscription, an \<open>int\<close> that is converted to \<open>uint64\<close>.\<close>

definition sampleDropped :: "goerr + int \<Rightarrow> subscription \<Rightarrow> subscription" where
  "sampleDropped dropped s =
     (let s = s\<lparr>su_stats := (su_stats s)\<lparr>QueueDroppedCurrent := False\<rparr>\<rparr> in
      case su_native s of
        None \<Rightarrow> s
      | Some _ \<Rightarrow>
          (case dropped of
             Inl _ \<Rightarrow> s
           | Inr n \<Rightarrow> s\<lparr>su_stats := (su_stats s)\<lparr>QueueDropped := word_of_int n, QueueDroppedCurrent := True\<rparr>\<rparr>))"

definition sub_Stats :: "goerr + int \<Rightarrow> subscription \<Rightarrow> subscription \<times> SubscriptionStats" where
  "sub_Stats dropped s =
     (let s = sampleDropped dropped s in
      (s, (su_stats s)\<lparr>QueueDepth := (case su_messages s of None \<Rightarrow> 0 | Some c \<Rightarrow> length (ch_buf c)), PayloadDropped := su_payloadDropped s\<rparr>))"

definition sub_activate :: "goerr + nat \<Rightarrow> nat \<Rightarrow> subscription \<Rightarrow> subscription \<times> goerr option" where
  "sub_activate subscribed queueCapacity s =
     (case subscribed of
        Inl err \<Rightarrow> (s, Some err)
      | Inr native \<Rightarrow>
          (s\<lparr>su_native := Some native, su_messages := Some (make_chan queueCapacity),
             su_stats := (su_stats s)\<lparr>QueueCapacity := queueCapacity\<rparr>\<rparr>, None))"

definition sub_start :: "bool \<Rightarrow> subscription \<Rightarrow> subscription" where
  "sub_start parentDone s = s\<lparr>su_cancel := True, su_ctxDone := parentDone\<rparr>"

text \<open>The result tells whether the drop is reported: at each power of two.\<close>

definition recordPayloadDrop :: "subscription \<Rightarrow> subscription \<times> bool" where
  "recordPayloadDrop s =
     (let dropped = su_payloadDropped s + 1 in (s\<lparr>su_payloadDropped := dropped\<rparr>, and dropped (dropped - 1) = 0))"

text \<open>\<open>handle\<close> up to the call of the handler (the event it gets, if it is called), and its deferred part.\<close>

definition sub_handle :: "nats_msg \<Rightarrow> subscription \<Rightarrow> subscription \<times> nats_msg option" where
  "sub_handle message s =
     (if length (nm_Data message) > su_maxPayloadBytes s then (fst (recordPayloadDrop s), None)
      else (s\<lparr>su_stats := (su_stats s)\<lparr>HandlerActive := True\<rparr>\<rparr>, Some message))"

definition sub_handled :: "duration \<Rightarrow> bool \<Rightarrow> subscription \<Rightarrow> subscription" where
  "sub_handled elapsed panicked s =
     s\<lparr>su_stats := (let st = su_stats s in
         st\<lparr>HandlerActive := False, HandlerCalls := HandlerCalls st + 1, HandlerDuration := HandlerDuration st + elapsed,
            LastHandlerDuration := elapsed, MaxHandlerDuration := max (MaxHandlerDuration st) elapsed,
            HandlerPanics := HandlerPanics st + (if panicked then 1 else 0)\<rparr>)\<rparr>"

text \<open>The result tells whether the cleanup goroutine was started.\<close>

definition sub_beginStop :: "subscription \<Rightarrow> subscription \<times> bool" where
  "sub_beginStop s =
     (if su_stopping s then (s, False)
      else (s\<lparr>su_stopping := True, su_ctxDone := (su_ctxDone s \<or> su_cancel s)\<rparr>, True))"

definition sub_complete :: "subscription \<Rightarrow> subscription" where
  "sub_complete s =
     s\<lparr>su_handler := None, su_messages := None, su_stats := (su_stats s)\<lparr>StatsClosed := True\<rparr>, su_stopDone := su_stopDone s + 1\<rparr>"

text \<open>The section of \<open>deactivate\<close> under the lock: whether the consumer was started, and the native subscription to end.\<close>

definition sub_deactivate :: "goerr + int \<Rightarrow> subscription \<Rightarrow> subscription \<times> bool \<times> nat option" where
  "sub_deactivate dropped s =
     (let s = sampleDropped dropped s in
      (s\<lparr>su_native := None, su_cancel := False, su_stats := (su_stats s)\<lparr>QueueDroppedCurrent := False\<rparr>\<rparr>, su_cancel s, su_native s))"

text \<open>The rest of the cleanup goroutine, once the native subscription answered.\<close>

definition sub_deactivated :: "bool \<Rightarrow> goerr option \<Rightarrow> subscription \<Rightarrow> subscription" where
  "sub_deactivated started err s =
     (let s = s\<lparr>su_stopErr := err, su_deactivated := su_deactivated s + 1\<rparr> in if \<not> started then sub_complete s else s)"

definition sub_wait :: "wait_event \<Rightarrow> subscription \<Rightarrow> goerr option" where
  "sub_wait ev s =
     (case contextwait_Done ev of
        Some err \<Rightarrow> if su_deactivated s > 0 then errors_join [su_stopErr s, Some err] else Some err
      | None \<Rightarrow> su_stopErr s)"

definition Unsubscribe :: "ctx option \<Rightarrow> (subscription \<Rightarrow> subscription \<times> wait_event) \<Rightarrow> subscription \<Rightarrow> subscription \<times> goerr option" where
  "Unsubscribe ctx waits s =
     (case ctx of
        None \<Rightarrow> (s, Some (EventErr ErrInvalidContext))
      | Some _ \<Rightarrow> (case waits (fst (sub_beginStop s)) of (s, ev) \<Rightarrow> (s, sub_wait ev s)))"

section \<open>The goroutines of a subscription\<close>

datatype consumer = NotStarted | Consuming | Handling nats_msg | Finishing | ConsumerEnded

datatype cleaner = NoCleaner | CleanerReady | CleanerWaits bool "nat option" | CleanerEnded

text \<open>\<open>ss_calls\<close> counts the calls of the handler that have ended.\<close>

record sub_system =
  ss_sub :: subscription
  ss_consumer :: consumer
  ss_cleaner :: cleaner
  ss_calls :: nat

definition stop_requested :: "sub_system \<Rightarrow> sub_system" where
  "stop_requested w =
     (case sub_beginStop (ss_sub w) of (s, spawned) \<Rightarrow> w\<lparr>ss_sub := s, ss_cleaner := (if spawned then CleanerReady else ss_cleaner w)\<rparr>)"

inductive sub_step :: "sub_system \<Rightarrow> sub_system \<Rightarrow> bool" where
  s_message: "su_native (ss_sub w) \<noteq> None \<Longrightarrow> su_messages (ss_sub w) = Some c \<Longrightarrow> chan_put m c = Some c' \<Longrightarrow>
    sub_step w (w\<lparr>ss_sub := (ss_sub w)\<lparr>su_messages := Some c'\<rparr>\<rparr>)"
| s_start: "ss_consumer w = NotStarted \<Longrightarrow> \<not> su_stopping (ss_sub w) \<Longrightarrow>
    sub_step w (w\<lparr>ss_sub := sub_start parentDone (ss_sub w), ss_consumer := Consuming\<rparr>)"
| s_parent: "sub_step w (w\<lparr>ss_sub := (ss_sub w)\<lparr>su_ctxDone := True\<rparr>\<rparr>)"
| s_stats: "sub_step w (w\<lparr>ss_sub := fst (sub_Stats dropped (ss_sub w))\<rparr>)"
| s_stop: "sub_step w (stop_requested w)"
| s_exit: "ss_consumer w = Consuming \<Longrightarrow> su_ctxDone (ss_sub w) \<Longrightarrow> sub_step w (w\<lparr>ss_consumer := Finishing\<rparr>)"
| s_receive: "ss_consumer w = Consuming \<Longrightarrow> su_messages (ss_sub w) = Some c \<Longrightarrow> chan_get c = Some (m, c') \<Longrightarrow>
    \<not> su_ctxDone (ss_sub w) \<Longrightarrow> sub_handle m ((ss_sub w)\<lparr>su_messages := Some c'\<rparr>) = (s, called) \<Longrightarrow>
    sub_step w (w\<lparr>ss_sub := s, ss_consumer := (case called of None \<Rightarrow> Consuming | Some e \<Rightarrow> Handling e)\<rparr>)"
| s_receive_done: "ss_consumer w = Consuming \<Longrightarrow> su_messages (ss_sub w) = Some c \<Longrightarrow> chan_get c = Some (m, c') \<Longrightarrow>
    su_ctxDone (ss_sub w) \<Longrightarrow> sub_step w (w\<lparr>ss_sub := (ss_sub w)\<lparr>su_messages := Some c'\<rparr>, ss_consumer := Finishing\<rparr>)"
| s_close_messages: "su_messages (ss_sub w) = Some c \<Longrightarrow> sub_step w (w\<lparr>ss_sub := (ss_sub w)\<lparr>su_messages := Some (c\<lparr>ch_closed := True\<rparr>)\<rparr>\<rparr>)"
| s_receive_closed: "ss_consumer w = Consuming \<Longrightarrow> su_messages (ss_sub w) = Some c \<Longrightarrow> chan_recv c = RecvClosed \<Longrightarrow>
    sub_step w (w\<lparr>ss_consumer := Finishing\<rparr>)"
| s_handled: "ss_consumer w = Handling e \<Longrightarrow>
    sub_step w (w\<lparr>ss_sub := sub_handled elapsed panicked (ss_sub w), ss_consumer := Consuming, ss_calls := ss_calls w + 1\<rparr>)"
| s_finish: "ss_consumer w = Finishing \<Longrightarrow> sub_step w (stop_requested w)"
| s_complete: "ss_consumer w = Finishing \<Longrightarrow> su_deactivated (ss_sub w) > 0 \<Longrightarrow>
    sub_step w (w\<lparr>ss_sub := sub_complete (ss_sub w), ss_consumer := ConsumerEnded\<rparr>)"
| s_deactivate: "ss_cleaner w = CleanerReady \<Longrightarrow> sub_deactivate dropped (ss_sub w) = (s, started, native) \<Longrightarrow>
    sub_step w (w\<lparr>ss_sub := s, ss_cleaner := CleanerWaits started native\<rparr>)"
| s_deactivated: "ss_cleaner w = CleanerWaits started native \<Longrightarrow> native = None \<longrightarrow> err = None \<Longrightarrow>
    sub_step w (w\<lparr>ss_sub := sub_deactivated started err (ss_sub w), ss_cleaner := CleanerEnded\<rparr>)"

text \<open>A subscription as \<open>Subscribe\<close> makes it, activated or not.\<close>

definition new_subscription :: "string \<Rightarrow> nat \<Rightarrow> nat \<Rightarrow> subscription" where
  "new_subscription topic handler maxPayloadBytes =
     \<lparr>su_topic = topic, su_handler = Some handler, su_maxPayloadBytes = maxPayloadBytes, su_native = None, su_cancel = False,
      su_ctxDone = False,
      su_stats = \<lparr>QueueDepth = 0, QueueCapacity = 0, QueueDropped = 0, QueueDroppedCurrent = False, PayloadDropped = 0, HandlerCalls = 0,
        HandlerPanics = 0, HandlerActive = False, HandlerDuration = 0, LastHandlerDuration = 0, MaxHandlerDuration = 0, StatsClosed = False\<rparr>,
      su_messages = None, su_payloadDropped = 0, su_stopping = False, su_deactivated = 0, su_stopDone = 0, su_stopErr = None\<rparr>"

definition sub_system_start :: "string \<Rightarrow> nat \<Rightarrow> nat \<Rightarrow> goerr + nat \<Rightarrow> nat \<Rightarrow> sub_system" where
  "sub_system_start topic handler maxPayloadBytes subscribed queueCapacity =
     \<lparr>ss_sub = fst (sub_activate subscribed queueCapacity (new_subscription topic handler maxPayloadBytes)), ss_consumer = NotStarted,
      ss_cleaner = NoCleaner, ss_calls = 0\<rparr>"

definition sub_inv :: "sub_system \<Rightarrow> bool" where
  "sub_inv w =
     (let s = ss_sub w; started = (ss_consumer w \<noteq> NotStarted) in
      su_stopping s = (ss_cleaner w \<noteq> NoCleaner) \<and>
      su_deactivated s = of_bool (ss_cleaner w = CleanerEnded) \<and>
      su_stopDone s = of_bool (ss_consumer w = ConsumerEnded \<or> \<not> started \<and> ss_cleaner w = CleanerEnded) \<and>
      StatsClosed (su_stats s) = (su_stopDone s = 1) \<and> (su_handler s = None) = (su_stopDone s = 1) \<and>
      su_cancel s = (started \<and> ss_cleaner w \<in> {NoCleaner, CleanerReady}) \<and>
      (\<forall>st n. ss_cleaner w = CleanerWaits st n \<longrightarrow> st = started) \<and>
      (ss_consumer w = ConsumerEnded \<longrightarrow> ss_cleaner w = CleanerEnded) \<and>
      HandlerActive (su_stats s) = (\<exists>e. ss_consumer w = Handling e) \<and>
      HandlerCalls (su_stats s) = word_of_nat (ss_calls w) \<and>
      (su_native s \<noteq> None \<longrightarrow> ss_cleaner w \<in> {NoCleaner, CleanerReady}) \<and>
      (su_stopping s \<and> started \<longrightarrow> su_ctxDone s))"

lemma sub_start_inv: "sub_inv (sub_system_start topic handler maxPayloadBytes subscribed queueCapacity)"
  by (auto simp: sub_inv_def sub_system_start_def sub_activate_def new_subscription_def split: sum.splits)

lemma sampleDropped_fields [simp]:
  "su_handler (sampleDropped d s) = su_handler s" "su_native (sampleDropped d s) = su_native s"
  "su_cancel (sampleDropped d s) = su_cancel s" "su_ctxDone (sampleDropped d s) = su_ctxDone s"
  "su_stopping (sampleDropped d s) = su_stopping s" "su_deactivated (sampleDropped d s) = su_deactivated s"
  "su_stopDone (sampleDropped d s) = su_stopDone s" "StatsClosed (su_stats (sampleDropped d s)) = StatsClosed (su_stats s)"
  "HandlerActive (su_stats (sampleDropped d s)) = HandlerActive (su_stats s)"
  "HandlerCalls (su_stats (sampleDropped d s)) = HandlerCalls (su_stats s)"
  by (auto simp: sampleDropped_def Let_def split: option.splits sum.splits)

lemma stop_requested_inv: "sub_inv w \<Longrightarrow> sub_inv (stop_requested w)"
  by (auto simp: sub_inv_def Let_def stop_requested_def sub_beginStop_def)

lemma sub_handle_inv:
  assumes "sub_inv w" "ss_consumer w = Consuming" "sub_handle m ((ss_sub w)\<lparr>su_messages := c\<rparr>) = (s, called)"
  shows "sub_inv (w\<lparr>ss_sub := s, ss_consumer := (case called of None \<Rightarrow> Consuming | Some e \<Rightarrow> Handling e)\<rparr>)"
proof (cases "length (nm_Data m) > su_maxPayloadBytes (ss_sub w)")
  case True
  then have "s = (ss_sub w)\<lparr>su_messages := c, su_payloadDropped := su_payloadDropped (ss_sub w) + 1\<rparr>" "called = None"
    using assms(3) by (simp_all add: sub_handle_def recordPayloadDrop_def Let_def)
  then show ?thesis using assms(1,2) by (cases "ss_cleaner w") (simp_all add: sub_inv_def Let_def)
next
  case False
  then have "s = (ss_sub w)\<lparr>su_messages := c, su_stats := (su_stats (ss_sub w))\<lparr>HandlerActive := True\<rparr>\<rparr>" "called = Some m"
    using assms(3) by (simp_all add: sub_handle_def)
  then show ?thesis using assms(1,2) by (cases "ss_cleaner w") (simp_all add: sub_inv_def Let_def)
qed

lemma sub_step_inv: "sub_step w w' \<Longrightarrow> sub_inv w \<Longrightarrow> sub_inv w'"
proof (induction rule: sub_step.induct)
  case (s_receive w c m c' s called)
  then show ?case by (simp only: sub_handle_inv)
next
  case (s_deactivate w dropped s started native)
  then show ?case by (cases "ss_consumer w") (auto simp: sub_inv_def Let_def sub_deactivate_def)
next
  case (s_deactivated w started native err)
  then show ?case by (cases "ss_consumer w") (simp_all add: sub_inv_def Let_def sub_deactivated_def sub_complete_def)
next
  case (s_complete w)
  then show ?case by (cases "ss_cleaner w") (simp_all add: sub_inv_def Let_def sub_complete_def)
next
  case (s_handled w e elapsed panicked)
  then show ?case by (cases "ss_cleaner w") (simp_all add: sub_inv_def Let_def sub_handled_def)
next
  case (s_stats w dropped)
  then show ?case by (simp add: sub_inv_def Let_def sub_Stats_def)
next
  case (s_start w parentDone)
  then show ?case by (cases "ss_cleaner w") (simp_all add: sub_inv_def Let_def sub_start_def)
next
  case (s_exit w)
  then show ?case by (cases "ss_cleaner w") (simp_all add: sub_inv_def Let_def)
next
  case (s_receive_done w c m c')
  then show ?case by (cases "ss_cleaner w") (simp_all add: sub_inv_def Let_def)
next
  case (s_receive_closed w c)
  then show ?case by (cases "ss_cleaner w") (simp_all add: sub_inv_def Let_def)
qed (simp_all only: stop_requested_inv, simp_all add: sub_inv_def Let_def)

lemma sub_reach_inv:
  "sub_step\<^sup>*\<^sup>* (sub_system_start topic handler maxPayloadBytes subscribed queueCapacity) w \<Longrightarrow> sub_inv w"
  by (induction rule: rtranclp_induct) (auto intro: sub_start_inv sub_step_inv)

section \<open>Facts\<close>

text \<open>Neither channel is closed twice, the handler is there whenever it is called, and the statistics count its calls.\<close>

lemma subscription_sound:
  assumes "sub_step\<^sup>*\<^sup>* (sub_system_start topic handler maxPayloadBytes subscribed queueCapacity) w"
  shows "su_deactivated (ss_sub w) \<le> 1" "su_stopDone (ss_sub w) \<le> 1"
    and "ss_consumer w \<in> {Consuming, Handling e} \<Longrightarrow> su_handler (ss_sub w) \<noteq> None"
    and "HandlerCalls (su_stats (ss_sub w)) = word_of_nat (ss_calls w)"
  using sub_reach_inv [OF assms] by (auto simp: sub_inv_def Let_def)

text \<open>
  Once \<open>stopDone\<close> is closed, on which \<open>Unsubscribe\<close> waits, no handler runs, none is called any more, and the
  native subscription was given up.
\<close>

lemma stopped_is_quiet:
  assumes "sub_inv w" "su_stopDone (ss_sub w) = 1"
  shows "su_native (ss_sub w) = None \<and> \<not> HandlerActive (su_stats (ss_sub w)) \<and> ss_consumer w \<in> {NotStarted, ConsumerEnded}"
    and "sub_step w w' \<Longrightarrow> ss_consumer w' = ss_consumer w \<and> ss_calls w' = ss_calls w \<and> su_stopDone (ss_sub w') = 1"
proof -
  have quiet: "ss_consumer w \<in> {NotStarted, ConsumerEnded}" "ss_cleaner w = CleanerEnded" "su_stopping (ss_sub w)"
    using assms by (auto simp: sub_inv_def Let_def split: if_splits)
  then show "su_native (ss_sub w) = None \<and> \<not> HandlerActive (su_stats (ss_sub w)) \<and> ss_consumer w \<in> {NotStarted, ConsumerEnded}"
    using assms(1) by (auto simp: sub_inv_def Let_def)
  show "sub_step w w' \<Longrightarrow> ss_consumer w' = ss_consumer w \<and> ss_calls w' = ss_calls w \<and> su_stopDone (ss_sub w') = 1"
    by (erule sub_step.cases) (use quiet assms(2) in \<open>auto simp: sub_Stats_def Let_def stop_requested_def sub_beginStop_def\<close>)
qed

lemma stopped_stays_quiet:
  assumes "sub_step\<^sup>*\<^sup>* w w'" "sub_inv w" "su_stopDone (ss_sub w) = 1"
  shows "ss_consumer w' = ss_consumer w \<and> ss_calls w' = ss_calls w \<and> su_stopDone (ss_sub w') = 1 \<and> sub_inv w'"
  using assms by (induction rule: rtranclp_induct) (auto dest: stopped_is_quiet(2) sub_step_inv)

lemma unsubscribed_is_quiet:
  assumes "sub_step\<^sup>*\<^sup>* (sub_system_start topic handler maxPayloadBytes subscribed queueCapacity) w" "su_stopDone (ss_sub w) = 1"
    and "sub_step\<^sup>*\<^sup>* w w'"
  shows "su_native (ss_sub w) = None \<and> \<not> HandlerActive (su_stats (ss_sub w)) \<and> ss_consumer w \<in> {NotStarted, ConsumerEnded}"
    and "ss_consumer w' = ss_consumer w \<and> ss_calls w' = ss_calls w \<and> su_stopDone (ss_sub w') = 1"
  using stopped_is_quiet(1) [OF sub_reach_inv [OF assms(1)] assms(2)] stopped_stays_quiet [OF assms(3) sub_reach_inv [OF assms(1)] assms(2)]
  by simp_all

text \<open>A stop is never lost: until \<open>stopDone\<close> is closed, some goroutine of the subscription can go on, unless a handler runs.\<close>

lemma stop_makes_progress:
  assumes "sub_step\<^sup>*\<^sup>* (sub_system_start topic handler maxPayloadBytes subscribed queueCapacity) w"
    and "su_stopping (ss_sub w)" "su_stopDone (ss_sub w) = 0"
  shows "ss_cleaner w \<in> {CleanerReady} \<or> (\<exists>st n. ss_cleaner w = CleanerWaits st n) \<or> (\<exists>e. ss_consumer w = Handling e) \<or>
    ss_consumer w = Consuming \<and> su_ctxDone (ss_sub w) \<or> ss_consumer w = Finishing \<and> su_deactivated (ss_sub w) > 0"
  using sub_reach_inv [OF assms(1)] assms(2,3)
  by (cases "ss_cleaner w"; cases "ss_consumer w") (auto simp: sub_inv_def Let_def)

end
