(* ===== verification/Nats_Bus.thy ===== *)
theory Nats_Bus
  imports Subscription Endpoint
begin

text \<open>
  \<open>event/nats/options.go\<close> and \<open>event/nats/bus.go\<close>: the options of the bus, connecting, publishing through one worker,
  registering subscriptions, and \<open>Close\<close>. The NATS connection is a parameter. A subscription is a name in a heap that
  holds it with its goroutines (\<open>Subscription\<close>), so that the bus and the holder of a subscription share it.
\<close>

section \<open>Options\<close>

record nats_options =
  no_ctx :: "ctx option"
  no_url :: string
  no_timeout :: duration
  no_username :: string
  no_password :: string
  no_tls :: "tls_config option"
  no_tlsSet :: bool
  no_queueCapacity :: int
  no_maxPayloadBytes :: int

datatype nats_option =
    NatsWithContext "ctx option" | NatsWithURL string | NatsWithTimeout duration | NatsWithQueueCapacity int
  | NatsWithMaxPayloadBytes int | NatsWithUserInfo string string | NatsWithTLS "tls_config option"

fun nats_apply_option :: "nats_option \<Rightarrow> nats_options \<Rightarrow> nats_options" where
  "nats_apply_option (NatsWithContext c) o' = o'\<lparr>no_ctx := c\<rparr>"
| "nats_apply_option (NatsWithURL u) o' = o'\<lparr>no_url := u\<rparr>"
| "nats_apply_option (NatsWithTimeout d) o' = o'\<lparr>no_timeout := d\<rparr>"
| "nats_apply_option (NatsWithQueueCapacity n) o' = o'\<lparr>no_queueCapacity := n\<rparr>"
| "nats_apply_option (NatsWithMaxPayloadBytes n) o' = o'\<lparr>no_maxPayloadBytes := n\<rparr>"
| "nats_apply_option (NatsWithUserInfo u p) o' = o'\<lparr>no_username := u, no_password := p\<rparr>"
| "nats_apply_option (NatsWithTLS c) o' = o'\<lparr>no_tlsSet := True, no_tls := tls_Clone c\<rparr>"

text \<open>\<open>parse\<close> and \<open>print\<close> are \<open>url.Parse\<close> and \<open>URL.String\<close>.\<close>

definition RedactedURL :: "(string \<Rightarrow> goerr + URL) \<Rightarrow> (URL \<Rightarrow> string) \<Rightarrow> string \<Rightarrow> string" where
  "RedactedURL parse print raw =
     (case parse raw of
        Inl _ \<Rightarrow> ''nats://''
      | Inr parsed \<Rightarrow> if url_Scheme parsed = [] then ''nats://'' else print (parsed\<lparr>url_User := None\<rparr>))"

definition nats_validateOptions :: "nats_options \<Rightarrow> goerr option" where
  "nats_validateOptions o' =
     (if no_timeout o' \<le> 0 then Some (Fresh ''nats: timeout must be positive'')
      else if no_queueCapacity o' \<le> 0 then Some (Fresh ''nats: queue capacity must be positive'')
      else if no_maxPayloadBytes o' \<le> 0 then Some (Fresh ''nats: maximum payload size must be positive'')
      else if no_tlsSet o' \<and> no_tls o' = None then Some (Fresh ''nats: TLS configuration is required'')
      else if no_url o' = [] then Some (Fresh ''nats: URL is required'')
      else case ValidateClient (no_tls o') of Some err \<Rightarrow> Some (Wrap ''nats'' [err]) | None \<Rightarrow> None)"

section \<open>The bus\<close>

text \<open>
  \<open>nb_ctxErr\<close> is the error of the bus's context, \<open>nb_publishDone\<close> counts the closes of that channel, \<open>nb_closing\<close> tells
  that the body of \<open>closeOnce\<close> was entered. \<open>nb_heap\<close> holds the subscriptions, which Go keeps as pointers.
\<close>

record bus =
  nb_ctxErr :: "goerr option"
  nb_conn :: "nat option"
  nb_timeout :: duration
  nb_queueCapacity :: int
  nb_maxPayloadBytes :: int
  nb_publishDone :: nat
  nb_subscriptions :: "nat list"
  nb_registrationErr :: "goerr option"
  nb_closing :: bool
  nb_closeErr :: "goerr option"
  nb_heap :: "nat \<rightharpoonup> sub_system"

type_synonym 'a nbus = "'a bus_scheme"

record nats_event =
  ev_Topic :: string
  ev_Payload :: bytes

record publishRequest =
  pr_ctx :: ctx
  pr_event :: nats_event
  pr_result :: nat

section \<open>Connecting\<close>

text \<open>\<open>remaining\<close> is the time until the context's deadline, if it has one.\<close>

definition timeoutFor :: "duration option \<Rightarrow> duration \<Rightarrow> duration" where
  "timeoutFor remaining configured =
     (case remaining of None \<Rightarrow> configured | Some r \<Rightarrow> if r < configured then max r 1 else configured)"

record nats_connect =
  nk_url :: string
  nk_timeout :: duration
  nk_reconnectBufSize :: int
  nk_userInfo :: "(string \<times> string) option"
  nk_secure :: "tls_config option"

text \<open>
  \<open>nce_Connect\<close> is \<open>nats.Connect\<close>; \<open>nce_select\<close> is the meeting of the worker that connects with the caller: nil when the
  outcome was handed over, else the error of the context, which was done first.
\<close>

record 'w nc_env =
  nce_until :: "ctx \<Rightarrow> 'w \<Rightarrow> duration option"
  nce_hasDone :: "ctx \<Rightarrow> bool"
  nce_ctxErr :: "ctx \<Rightarrow> 'w \<Rightarrow> 'w \<times> goerr option"
  nce_Connect :: "nats_connect \<Rightarrow> 'w \<Rightarrow> 'w \<times> nat option \<times> goerr option"
  nce_select :: "ctx \<Rightarrow> 'w \<Rightarrow> 'w \<times> goerr option"
  nce_CloseConn :: "nat \<Rightarrow> 'w \<Rightarrow> 'w"

definition close_late :: "'w nc_env \<Rightarrow> nat option \<Rightarrow> 'w \<Rightarrow> 'w" where
  "close_late env conn w = (case conn of None \<Rightarrow> w | Some c \<Rightarrow> nce_CloseConn env c w)"

text \<open>The state after a call that gave up is the one in which its worker has ended, too.\<close>

definition nats_connect_to :: "'w nc_env \<Rightarrow> ctx \<Rightarrow> nats_options \<Rightarrow> 'w \<Rightarrow> 'w \<times> (goerr + nat option)" where
  "nats_connect_to env ctx o' w =
     (case nce_Connect env
        \<lparr>nk_url = no_url o', nk_timeout = timeoutFor (nce_until env ctx w) (no_timeout o'), nk_reconnectBufSize = - 1,
         nk_userInfo = (if no_username o' \<noteq> [] \<or> no_password o' \<noteq> [] then Some (no_username o', no_password o') else None),
         nk_secure = no_tls o'\<rparr> w of
        (w, conn, err) \<Rightarrow>
          (case nce_select env ctx w of
             (w, Some ctxErr) \<Rightarrow> (close_late env conn w, Inl ctxErr)
           | (w, None) \<Rightarrow>
               (case nce_ctxErr env ctx w of
                  (w, Some ctxErr) \<Rightarrow> (close_late env conn w, Inl ctxErr)
                | (w, None) \<Rightarrow>
                    (case err of Some err \<Rightarrow> (w, Inl (Wrap ''nats: connect'' [err])) | None \<Rightarrow> (w, Inr conn)))))"

text \<open>
  \<open>defaultURL\<close> is the default of the NATS client. An absent option is nil and skipped. The result tells, too, whether the goroutine that closes with the context
  is started.
\<close>

definition nats_New :: "'w nc_env \<Rightarrow> string \<Rightarrow> nats_option option list \<Rightarrow> 'w \<Rightarrow> 'w \<times> (goerr + (bus \<times> bool))" where
  "nats_New env defaultURL opts w =
     (let o' = fold (\<lambda>opt. case opt of None \<Rightarrow> id | Some opt \<Rightarrow> nats_apply_option opt) opts
        \<lparr>no_ctx = Some Background, no_url = defaultURL, no_timeout = 5 * second, no_username = [], no_password = [],
         no_tls = None, no_tlsSet = False, no_queueCapacity = 256, no_maxPayloadBytes = 65536\<rparr> in
      case no_ctx o' of
        None \<Rightarrow> (w, Inl (EventErr ErrInvalidContext))
      | Some parent \<Rightarrow>
          (case nce_ctxErr env parent w of
             (w, Some err) \<Rightarrow> (w, Inl err)
           | (w, None) \<Rightarrow>
               (case nats_validateOptions o' of
                  Some err \<Rightarrow> (w, Inl err)
                | None \<Rightarrow>
                    (case nats_connect_to env (WithCancel parent) o' w of
                       (w, Inl err) \<Rightarrow> (w, Inl err)
                     | (w, Inr conn) \<Rightarrow>
                         (case nce_ctxErr env (WithCancel parent) w of
                            (w, ctxErr) \<Rightarrow>
                              (w, Inr (\<lparr>nb_ctxErr = ctxErr, nb_conn = conn, nb_timeout = no_timeout o',
                                        nb_queueCapacity = no_queueCapacity o', nb_maxPayloadBytes = no_maxPayloadBytes o',
                                        nb_publishDone = 0, nb_subscriptions = [], nb_registrationErr = None, nb_closing = False,
                                        nb_closeErr = None, nb_heap = Map.empty\<rparr>, nce_hasDone env parent)))))))"

section \<open>Publishing\<close>

text \<open>
  The environment of a bus. \<open>ne_offer\<close> and \<open>ne_await\<close> are the two selects of \<open>Publish\<close>: the caller's context is done,
  the bus's context is done, or the channel operation took place. The waits answer \<open>None\<close> if they never end.
\<close>

datatype 'r selected = SelCtx goerr | SelBus | SelGot 'r

record 'w nb_env =
  ne_ctxErr :: "ctx \<Rightarrow> 'w \<Rightarrow> 'w \<times> goerr option"
  ne_new :: "'w \<Rightarrow> nat"
  ne_offer :: "publishRequest \<Rightarrow> 'w \<Rightarrow> 'w \<times> unit selected"
  ne_await :: "publishRequest \<Rightarrow> 'w \<Rightarrow> 'w \<times> goerr option selected"
  ne_Publish :: "string \<Rightarrow> bytes \<Rightarrow> 'w \<Rightarrow> 'w \<times> goerr option"
  ne_ChanSubscribe :: "string \<Rightarrow> int \<Rightarrow> 'w \<Rightarrow> 'w \<times> (goerr + nat)"
  ne_Flush :: "ctx \<Rightarrow> 'w \<Rightarrow> 'w \<times> goerr option"
  ne_Lock :: "'w \<Rightarrow> 'w"
  ne_CloseConn :: "'w \<Rightarrow> 'w"
  ne_wait_once :: "'w \<Rightarrow> 'w option"
  ne_wait_deactivated :: "nat \<Rightarrow> 'w \<Rightarrow> 'w option"
  ne_wait_stopDone :: "nat \<Rightarrow> 'w \<Rightarrow> 'w option"
  ne_wait_publishDone :: "'w \<Rightarrow> 'w option"

definition nats_contextError :: "'w nb_env \<Rightarrow> ctx option \<Rightarrow> 'w \<Rightarrow> 'w \<times> goerr option" where
  "nats_contextError env ctx w = (case ctx of None \<Rightarrow> (w, Some (EventErr ErrInvalidContext)) | Some ctx \<Rightarrow> ne_ctxErr env ctx w)"

definition nats_Publish :: "'a nbus nb_env \<Rightarrow> ctx option \<Rightarrow> nats_event \<Rightarrow> 'a nbus \<Rightarrow> 'a nbus \<times> goerr option" where
  "nats_Publish env ctx e b =
     (case nats_contextError env ctx b of
        (b, Some err) \<Rightarrow> (b, Some err)
      | (b, None) \<Rightarrow>
          if \<not> ValidTopic (ev_Topic e) then (b, Some (EventErr ErrInvalidTopic))
          else if int (length (ev_Payload e)) > nb_maxPayloadBytes b then (b, Some (Fresh ''nats: payload exceeds limit''))
          else if nb_ctxErr b \<noteq> None then (b, Some (EventErr ErrBusClosed))
          else let request = \<lparr>pr_ctx = the ctx, pr_event = e, pr_result = ne_new env b\<rparr> in
            (case ne_offer env request b of
               (b, SelCtx err) \<Rightarrow> (b, Some err)
             | (b, SelBus) \<Rightarrow> (b, Some (EventErr ErrBusClosed))
             | (b, SelGot _) \<Rightarrow>
                 (case ne_await env request b of
                    (b, SelCtx err) \<Rightarrow> (b, Some err)
                  | (b, SelBus) \<Rightarrow> (b, Some (EventErr ErrBusClosed))
                  | (b, SelGot err) \<Rightarrow> (b, err))))"

text \<open>
  What the worker does with a request: the result it answers without a native publish and whether it goes on, if
  a context is done; and the result after the native publish.
\<close>

definition pub_check :: "goerr option \<Rightarrow> goerr option \<Rightarrow> (goerr \<times> bool) option" where
  "pub_check reqErr busErr =
     (case reqErr of
        Some err \<Rightarrow> Some (err, True)
      | None \<Rightarrow> if busErr \<noteq> None then Some (EventErr ErrBusClosed, False) else None)"

definition pub_outcome :: "goerr option \<Rightarrow> goerr option \<Rightarrow> goerr option" where
  "pub_outcome busErr err = (if err \<noteq> None \<and> busErr \<noteq> None then Some (EventErr ErrBusClosed) else err)"

definition publish_turn :: "'a nbus nb_env \<Rightarrow> publishRequest \<Rightarrow> 'a nbus \<Rightarrow> 'a nbus \<times> goerr option \<times> bool" where
  "publish_turn env request b =
     (case ne_ctxErr env (pr_ctx request) b of
        (b, reqErr) \<Rightarrow>
          (case pub_check reqErr (nb_ctxErr b) of
             Some (err, goesOn) \<Rightarrow> (b, Some err, goesOn)
           | None \<Rightarrow>
               (case ne_Publish env (ev_Topic (pr_event request)) (ev_Payload (pr_event request)) b of
                  (b, err) \<Rightarrow> (b, pub_outcome (nb_ctxErr b) err, True))))"

section \<open>Registration and Close\<close>

definition stop_sub :: "nat \<Rightarrow> 'a nbus \<Rightarrow> 'a nbus" where
  "stop_sub i b = b\<lparr>nb_heap := (nb_heap b)(i := map_option stop_requested (nb_heap b i))\<rparr>"

definition sub_stopErr :: "'a nbus \<Rightarrow> nat \<Rightarrow> goerr option" where
  "sub_stopErr b i = (case nb_heap b i of None \<Rightarrow> None | Some w \<Rightarrow> su_stopErr (ss_sub w))"

definition sub_stopped :: "'a nbus \<Rightarrow> nat \<Rightarrow> bool" where
  "sub_stopped b i = (case nb_heap b i of None \<Rightarrow> False | Some w \<Rightarrow> su_stopDone (ss_sub w) > 0)"

definition failRegistration :: "'a nbus nb_env \<Rightarrow> nat \<Rightarrow> goerr \<Rightarrow> 'a nbus \<Rightarrow> ('a nbus \<times> nat option \<times> goerr option) option" where
  "failRegistration env i cause b =
     (case ne_wait_stopDone env i (stop_sub i b) of
        None \<Rightarrow> None
      | Some b \<Rightarrow>
          let err = errors_join [Some cause, sub_stopErr b i] in Some (b\<lparr>nb_registrationErr := err\<rparr>, None, err))"

definition start_sub :: "nat \<Rightarrow> 'a nbus \<Rightarrow> 'a nbus" where
  "start_sub i b =
     b\<lparr>nb_heap := (nb_heap b)(i := map_option (\<lambda>w. w\<lparr>ss_sub := sub_start (nb_ctxErr b \<noteq> None) (ss_sub w), ss_consumer := Consuming\<rparr>) (nb_heap b i))\<rparr>"

text \<open>The part of \<open>Subscribe\<close> under the lock.\<close>

definition nats_register ::
  "'a nbus nb_env \<Rightarrow> ctx \<Rightarrow> string \<Rightarrow> nat \<Rightarrow> 'a nbus \<Rightarrow> ('a nbus \<times> nat option \<times> goerr option) option" where
  "nats_register env ctx topic handler b =
     (if nb_ctxErr b \<noteq> None then Some (b, None, Some (EventErr ErrBusClosed))
      else case nb_registrationErr b of
        Some err \<Rightarrow> Some (b, None, Some (Wrap ''nats: subscription registration stopped after prior failure'' [err]))
      | None \<Rightarrow>
          (case ne_ctxErr env ctx b of
             (b, Some err) \<Rightarrow> Some (b, None, Some err)
           | (b, None) \<Rightarrow>
               (case ne_ChanSubscribe env topic (nb_queueCapacity b) b of
                  (b, subscribed) \<Rightarrow>
                    let i = ne_new env b;
                        w = sub_system_start topic handler (nat (nb_maxPayloadBytes b)) subscribed (nat (nb_queueCapacity b));
                        b = b\<lparr>nb_heap := (nb_heap b)(i \<mapsto> w)\<rparr>;
                        failed = (\<lambda>err. Wrap (''nats: subscribe '' @ topic) [err]) in
                    (case subscribed of
                       Inl err \<Rightarrow> failRegistration env i (failed err) b
                     | Inr _ \<Rightarrow>
                         (case ne_Flush env (WithTimeout (WithCancel ctx) (nb_timeout b)) b of
                            (b, err) \<Rightarrow>
                              (case (if err = None then ne_ctxErr env (WithCancel ctx) b else (b, err)) of
                                 (b, Some err) \<Rightarrow>
                                   failRegistration env i (failed (if nb_ctxErr b \<noteq> None then EventErr ErrBusClosed else err)) b
                               | (b, None) \<Rightarrow>
                                   let b = start_sub i b in
                                   Some (b\<lparr>nb_subscriptions :=
                                             filter (\<lambda>p. \<not> (sub_stopped b p \<and> sub_stopErr b p = None)) (nb_subscriptions b) @ [i]\<rparr>,
                                         Some i, None)))))))"

definition nats_Subscribe ::
  "'a nbus nb_env \<Rightarrow> ctx option \<Rightarrow> string \<Rightarrow> nat option \<Rightarrow> 'a nbus \<Rightarrow> ('a nbus \<times> nat option \<times> goerr option) option" where
  "nats_Subscribe env ctx topic handler b =
     (case nats_contextError env ctx b of
        (b, Some err) \<Rightarrow> Some (b, None, Some err)
      | (b, None) \<Rightarrow>
          if \<not> ValidTopic topic then Some (b, None, Some (EventErr ErrInvalidTopic))
          else case handler of
            None \<Rightarrow> Some (b, None, Some (EventErr ErrInvalidHandler))
          | Some h \<Rightarrow> nats_register env (the ctx) topic h (ne_Lock env b))"

text \<open>The parts of \<open>Close\<close>: the cancelled context, the list taken under the lock, and the joined errors.\<close>

definition close_begin :: "'a nbus \<Rightarrow> 'a nbus" where
  "close_begin b = b\<lparr>nb_closing := True, nb_ctxErr := (if nb_ctxErr b = None then Some ctx_canceled else nb_ctxErr b)\<rparr>"

definition close_take :: "'a nbus \<Rightarrow> 'a nbus \<times> nat list" where
  "close_take b = (b\<lparr>nb_subscriptions := []\<rparr>, nb_subscriptions b)"

fun wait_each :: "(nat \<Rightarrow> 'w \<Rightarrow> 'w option) \<Rightarrow> nat list \<Rightarrow> 'w \<Rightarrow> 'w option" where
  "wait_each wait [] w = Some w"
| "wait_each wait (i # is) w = (case wait i w of None \<Rightarrow> None | Some w \<Rightarrow> wait_each wait is w)"

fun collect_errors :: "'a nbus nb_env \<Rightarrow> nat list \<Rightarrow> 'a nbus \<Rightarrow> ('a nbus \<times> goerr option list) option" where
  "collect_errors env [] b = Some (b, [])"
| "collect_errors env (i # is) b =
     (case ne_wait_stopDone env i b of
        None \<Rightarrow> None
      | Some b \<Rightarrow> map_option (\<lambda>(b', errs). (b', sub_stopErr b i # errs)) (collect_errors env is b))"

definition nats_Close :: "'a nbus nb_env \<Rightarrow> 'a nbus \<Rightarrow> ('a nbus \<times> goerr option) option" where
  "nats_Close env b =
     (if nb_closing b then map_option (\<lambda>b. (b, nb_closeErr b)) (ne_wait_once env b)
      else case close_take (ne_Lock env (close_begin b)) of
        (b, registered) \<Rightarrow>
          (case wait_each (ne_wait_deactivated env) registered (fold stop_sub registered b) of
             None \<Rightarrow> None
           | Some b \<Rightarrow>
               (case ne_wait_publishDone env (ne_CloseConn env b) of
                  None \<Rightarrow> None
                | Some b \<Rightarrow>
                    (case collect_errors env registered b of
                       None \<Rightarrow> None
                     | Some (b, errs) \<Rightarrow> let b = b\<lparr>nb_closeErr := errors_join errs\<rparr> in Some (b, nb_closeErr b)))))"

section \<open>The publisher and its callers\<close>

text \<open>
  Calls of \<open>Publish\<close>, by number, with the worker. A result channel holds one value (\<open>ps_results\<close>);
  \<open>ps_sent\<close> records the native publishes and what they answered.
\<close>

datatype pub_caller = NotCalled | Offering | Awaiting | PubReturned "goerr option"

datatype pub_worker = PubIdle | PubGot nat | PubSending nat | PubGone

record pub_system =
  ps_busErr :: "goerr option"
  ps_ctxErr :: "nat \<Rightarrow> goerr option"
  ps_callers :: "nat \<Rightarrow> pub_caller"
  ps_worker :: pub_worker
  ps_results :: "nat \<rightharpoonup> goerr option"
  ps_sent :: "(nat \<times> goerr option) list"
  ps_publishDone :: nat

definition pub_set :: "nat \<Rightarrow> pub_caller \<Rightarrow> pub_system \<Rightarrow> pub_system" where
  "pub_set n c s = s\<lparr>ps_callers := (ps_callers s)(n := c)\<rparr>"

inductive pub_step :: "pub_system \<Rightarrow> pub_system \<Rightarrow> bool" where
  p_bus: "ps_busErr s = None \<Longrightarrow> pub_step s (s\<lparr>ps_busErr := Some err\<rparr>)"
| p_ctx: "ps_ctxErr s n = None \<Longrightarrow> pub_step s (s\<lparr>ps_ctxErr := (ps_ctxErr s)(n := Some err)\<rparr>)"
| p_call: "ps_callers s n = NotCalled \<Longrightarrow> ps_busErr s = None \<Longrightarrow> pub_step s (pub_set n Offering s)"
| p_cancelled: "ps_callers s n \<in> {Offering, Awaiting} \<Longrightarrow> ps_ctxErr s n = Some err \<Longrightarrow> pub_step s (pub_set n (PubReturned (Some err)) s)"
| p_closed: "ps_callers s n \<in> {Offering, Awaiting} \<Longrightarrow> ps_busErr s \<noteq> None \<Longrightarrow>
    pub_step s (pub_set n (PubReturned (Some (EventErr ErrBusClosed))) s)"
| p_handoff: "ps_callers s n = Offering \<Longrightarrow> ps_worker s = PubIdle \<Longrightarrow> pub_step s ((pub_set n Awaiting s)\<lparr>ps_worker := PubGot n\<rparr>)"
| p_refuse: "ps_worker s = PubGot n \<Longrightarrow> pub_check (ps_ctxErr s n) (ps_busErr s) = Some (err, goesOn) \<Longrightarrow>
    pub_step s (s\<lparr>ps_results := (ps_results s)(n \<mapsto> Some err), ps_worker := (if goesOn then PubIdle else PubGone),
      ps_publishDone := ps_publishDone s + of_bool (\<not> goesOn)\<rparr>)"
| p_begin: "ps_worker s = PubGot n \<Longrightarrow> pub_check (ps_ctxErr s n) (ps_busErr s) = None \<Longrightarrow> pub_step s (s\<lparr>ps_worker := PubSending n\<rparr>)"
| p_sent: "ps_worker s = PubSending n \<Longrightarrow>
    pub_step s (s\<lparr>ps_sent := ps_sent s @ [(n, err)], ps_results := (ps_results s)(n \<mapsto> pub_outcome (ps_busErr s) err), ps_worker := PubIdle\<rparr>)"
| p_exit: "ps_worker s = PubIdle \<Longrightarrow> ps_busErr s \<noteq> None \<Longrightarrow> pub_step s (s\<lparr>ps_worker := PubGone, ps_publishDone := ps_publishDone s + 1\<rparr>)"
| p_answer: "ps_callers s n = Awaiting \<Longrightarrow> ps_results s n = Some err \<Longrightarrow> pub_step s (pub_set n (PubReturned err) s)"

definition pub_start :: "pub_system \<Rightarrow> bool" where
  "pub_start s =
     (ps_callers s = (\<lambda>_. NotCalled) \<and> ps_worker s = PubIdle \<and> ps_results s = Map.empty \<and> ps_sent s = [] \<and> ps_publishDone s = 0)"

definition pub_past :: "pub_system \<Rightarrow> nat \<Rightarrow> bool" where
  "pub_past s n = (ps_callers s n \<noteq> NotCalled \<and> ps_callers s n \<noteq> Offering)"

definition pub_inv :: "pub_system \<Rightarrow> bool" where
  "pub_inv s =
     (distinct (map fst (ps_sent s)) \<and> ps_publishDone s = of_bool (ps_worker s = PubGone) \<and>
      (\<forall>n. ps_results s n = Some None \<or> ps_callers s n = PubReturned None \<longrightarrow> (n, None) \<in> set (ps_sent s)) \<and>
      (\<forall>n. n \<in> fst ` set (ps_sent s) \<longrightarrow> ps_results s n \<noteq> None) \<and> (\<forall>n. ps_results s n \<noteq> None \<longrightarrow> pub_past s n) \<and>
      (\<forall>n. ps_worker s = PubGot n \<or> ps_worker s = PubSending n \<longrightarrow> ps_results s n = None \<and> pub_past s n))"

lemma pub_step_inv: "pub_step s s' \<Longrightarrow> pub_inv s \<Longrightarrow> pub_inv s'"
proof (induction rule: pub_step.induct)
  case (p_sent s n err)
  then have "n \<notin> fst ` set (ps_sent s)" by (auto simp: pub_inv_def)
  then show ?case using p_sent by (auto simp: pub_inv_def pub_past_def pub_outcome_def)
next
  case (p_handoff s n)
  then have "ps_results s n = None" by (auto simp: pub_inv_def pub_past_def)
  then show ?case using p_handoff by (auto simp: pub_inv_def pub_past_def pub_set_def)
qed (auto simp: pub_inv_def pub_past_def pub_set_def)

text \<open>
  Every request reaches the connection at most once, a caller that got nil had its event accepted by the connection,
  the worker reports its end once, and after that nothing is published.
\<close>

lemma publish_honest:
  assumes "pub_step\<^sup>*\<^sup>* s0 s" "pub_start s0"
  shows "distinct (map fst (ps_sent s))" "ps_callers s n = PubReturned None \<Longrightarrow> (n, None) \<in> set (ps_sent s)" "ps_publishDone s \<le> 1"
    and "ps_publishDone s = 1 \<Longrightarrow> pub_step s s' \<Longrightarrow> ps_sent s' = ps_sent s \<and> ps_publishDone s' = 1"
proof -
  have "pub_inv s0" using assms(2) by (simp add: pub_start_def pub_inv_def)
  with assms(1) have inv: "pub_inv s" by (induction rule: rtranclp_induct) (auto intro: pub_step_inv)
  then show "distinct (map fst (ps_sent s))" "ps_callers s n = PubReturned None \<Longrightarrow> (n, None) \<in> set (ps_sent s)" "ps_publishDone s \<le> 1"
    by (auto simp: pub_inv_def)
  assume "ps_publishDone s = 1" "pub_step s s'"
  then show "ps_sent s' = ps_sent s \<and> ps_publishDone s' = 1"
    using inv by (elim pub_step.cases) (auto simp: pub_inv_def pub_set_def split: if_splits)
qed

text \<open>
  A connection made for a caller that gives up is closed; the timeout is positive and within the configured one;
  a redacted URL carries no user.
\<close>

lemma nats_connect_no_leak:
  assumes "nats_connect_to env ctx o' w = (w', Inl err)" "nce_Connect env \<lparr>nk_url = no_url o',
      nk_timeout = timeoutFor (nce_until env ctx w) (no_timeout o'), nk_reconnectBufSize = - 1,
      nk_userInfo = (if no_username o' \<noteq> [] \<or> no_password o' \<noteq> [] then Some (no_username o', no_password o') else None),
      nk_secure = no_tls o'\<rparr> w = (w1, Some c, None)"
  shows "\<exists>w2. w' = nce_CloseConn env c w2"
  using assms by (auto simp: nats_connect_to_def close_late_def split: prod.splits option.splits)

lemma timeoutFor_bounds: "0 < configured \<Longrightarrow> 0 < timeoutFor remaining configured \<and> timeoutFor remaining configured \<le> configured"
  by (auto simp: timeoutFor_def split: option.splits)

lemma RedactedURL_no_user: "\<exists>u. (RedactedURL parse print raw = print u \<and> url_User u = None) \<or> RedactedURL parse print raw = ''nats://''"
  by (auto simp: RedactedURL_def split: sum.splits)

section \<open>The bus as a system\<close>

text \<open>
  Where a call of \<open>Close\<close> stands: not called, context cancelled, stopping the subscriptions it took (those left, and all),
  and returned.
\<close>

datatype close_phase = CloseIdle | CloseCancelled | CloseStopping "nat list" "nat list" | CloseReturned

record bus_system = bus +
  bs_phase :: close_phase

text \<open>
  What may happen to a subscription while another goroutine is waited for: its goroutines move; one that is being
  registered, and that nobody else knows, only receives messages.
\<close>

definition sub_progress :: "sub_system \<Rightarrow> sub_system \<Rightarrow> bool" where
  "sub_progress w w' =
     (if ss_consumer w = NotStarted \<and> \<not> su_stopping (ss_sub w)
      then \<exists>c. w' = w\<lparr>ss_sub := (ss_sub w)\<lparr>su_messages := c\<rparr>\<rparr> else sub_step\<^sup>*\<^sup>* w w')"

definition bus_progress :: "bus_system \<Rightarrow> bus_system \<Rightarrow> bool" where
  "bus_progress b b' =
     (nb_subscriptions b' = nb_subscriptions b \<and> (nb_ctxErr b \<noteq> None \<longrightarrow> nb_ctxErr b' \<noteq> None) \<and>
      (bs_phase b' = bs_phase b \<or> bs_phase b = CloseIdle \<and> bs_phase b' = CloseCancelled \<and> nb_ctxErr b' \<noteq> None) \<and>
      (\<forall>i. rel_option sub_progress (nb_heap b i) (nb_heap b' i)))"

text \<open>
  The environment of a registration, which holds the lock: names are fresh, others make progress, and a receive from
  \<open>stopDone\<close> returns only when that channel is closed.
\<close>

definition bus_fair :: "bus_system nb_env \<Rightarrow> bool" where
  "bus_fair env =
     ((\<forall>b. finite (dom (nb_heap b)) \<longrightarrow> nb_heap b (ne_new env b) = None) \<and> (\<forall>ctx b. bus_progress b (fst (ne_ctxErr env ctx b))) \<and>
      (\<forall>topic n b. bus_progress b (fst (ne_ChanSubscribe env topic n b))) \<and> (\<forall>ctx b. bus_progress b (fst (ne_Flush env ctx b))) \<and>
      (\<forall>i b b'. ne_wait_stopDone env i b = Some b' \<longrightarrow> bus_progress b b' \<and> sub_stopped b' i))"

inductive bus_step :: "bus_system nb_env \<Rightarrow> bus_system \<Rightarrow> bus_system \<Rightarrow> bool" for env where
  n_parent: "nb_ctxErr b = None \<Longrightarrow> bus_step env b (b\<lparr>nb_ctxErr := Some err\<rparr>)"
| n_sub: "nb_heap b i = Some w \<Longrightarrow> sub_step w w' \<Longrightarrow> bus_step env b (b\<lparr>nb_heap := (nb_heap b)(i \<mapsto> w')\<rparr>)"
| n_register: "nats_register env ctx topic handler b = Some (b', r) \<Longrightarrow> bus_step env b b'"
| n_publisher_ends: "nb_ctxErr b \<noteq> None \<Longrightarrow> nb_publishDone b = 0 \<Longrightarrow> bus_step env b (b\<lparr>nb_publishDone := 1\<rparr>)"
| n_close: "bs_phase b = CloseIdle \<Longrightarrow> bus_step env b ((close_begin b)\<lparr>bs_phase := CloseCancelled\<rparr>)"
| n_take: "bs_phase b = CloseCancelled \<Longrightarrow> close_take b = (b', registered) \<Longrightarrow>
    bus_step env b (b'\<lparr>bs_phase := CloseStopping registered registered\<rparr>)"
| n_stop: "bs_phase b = CloseStopping (i # rest) registered \<Longrightarrow> bus_step env b ((stop_sub i b)\<lparr>bs_phase := CloseStopping rest registered\<rparr>)"
| n_closed: "bs_phase b = CloseStopping [] registered \<Longrightarrow> nb_publishDone b > 0 \<Longrightarrow> \<forall>i\<in>set registered. sub_stopped b i \<Longrightarrow>
    bus_step env b (b\<lparr>nb_closeErr := errors_join (map (sub_stopErr b) registered), bs_phase := CloseReturned\<rparr>)"

text \<open>A new bus, with the outcome of its options and of its connection.\<close>

definition bus_start :: "bus \<Rightarrow> bus_system" where
  "bus_start b = bus.extend b (bus_system.fields CloseIdle)"

definition phase_taken :: "close_phase \<Rightarrow> nat list" where
  "phase_taken p = (case p of CloseStopping is registered \<Rightarrow> registered | _ \<Rightarrow> [])"

text \<open>
  Every subscription that has not ended is in the list of the bus, was taken by \<open>Close\<close>, or is one of \<open>S\<close>; once \<open>Close\<close>
  took the list, it stays empty, since the context was cancelled before.
\<close>

definition bus_inv_but :: "nat set \<Rightarrow> bus_system \<Rightarrow> bool" where
  "bus_inv_but S b =
     ((\<forall>i w. nb_heap b i = Some w \<longrightarrow> sub_inv w \<and>
         (su_stopDone (ss_sub w) = 1 \<or> i \<in> set (nb_subscriptions b) \<or> i \<in> set (phase_taken (bs_phase b)) \<or> i \<in> S)) \<and>
      (bs_phase b \<noteq> CloseIdle \<longrightarrow> nb_ctxErr b \<noteq> None) \<and>
      (bs_phase b \<notin> {CloseIdle, CloseCancelled} \<longrightarrow> nb_subscriptions b = []))"

text \<open>The subscription \<open>i\<close> is being registered.\<close>

definition registering :: "nat \<Rightarrow> bus_system \<Rightarrow> bool" where
  "registering i b =
     (bus_inv_but {i} b \<and> bs_phase b \<in> {CloseIdle, CloseCancelled} \<and>
      (\<exists>w. nb_heap b i = Some w \<and> ss_consumer w = NotStarted \<and> \<not> su_stopping (ss_sub w)))"

lemma stopDone_once: "sub_inv w \<Longrightarrow> su_stopDone (ss_sub w) > 0 \<Longrightarrow> su_stopDone (ss_sub w) = 1"
  by (auto simp: sub_inv_def Let_def of_bool_def split: if_splits)

lemma delivered_inv [simp]: "sub_inv (w\<lparr>ss_sub := (ss_sub w)\<lparr>su_messages := c\<rparr>\<rparr>) = sub_inv w"
  by (simp add: sub_inv_def Let_def)

lemma sub_progress_inv:
  assumes "sub_progress w w'" "sub_inv w"
  shows "sub_inv w'" "su_stopDone (ss_sub w) = 1 \<Longrightarrow> su_stopDone (ss_sub w') = 1"
proof -
  have steps: "sub_inv w'" if "sub_step\<^sup>*\<^sup>* w w'"
    using that assms(2) by (induction rule: rtranclp_induct) (auto intro: sub_step_inv)
  show "sub_inv w'" using assms steps by (auto simp: sub_progress_def split: if_splits)
  show "su_stopDone (ss_sub w) = 1 \<Longrightarrow> su_stopDone (ss_sub w') = 1"
    using assms stopped_stays_quiet [of w w'] by (auto simp: sub_progress_def split: if_splits)
qed

lemma bus_progress_heap:
  assumes "bus_progress b b'" "nb_heap b' i = Some w'"
  obtains w where "nb_heap b i = Some w" "sub_progress w w'"
  using assms unfolding bus_progress_def by (metis option.rel_cases option.distinct(1) option.inject)

lemma phase_taken_progress: "bus_progress b b' \<Longrightarrow> phase_taken (bs_phase b') = phase_taken (bs_phase b)"
  by (auto simp: bus_progress_def phase_taken_def)

lemma bus_progress_inv:
  assumes "bus_inv_but S b" "bus_progress b b'"
  shows "bus_inv_but S b'"
proof -
  have "sub_inv w' \<and> (su_stopDone (ss_sub w') = 1 \<or> i \<in> set (nb_subscriptions b') \<or> i \<in> set (phase_taken (bs_phase b')) \<or> i \<in> S)"
    if heap: "nb_heap b' i = Some w'" for i w'
  proof -
    obtain w where w: "nb_heap b i = Some w" "sub_progress w w'" by (rule bus_progress_heap [OF assms(2) heap])
    then have "sub_inv w" "su_stopDone (ss_sub w) = 1 \<or> i \<in> set (nb_subscriptions b) \<or> i \<in> set (phase_taken (bs_phase b)) \<or> i \<in> S"
      using assms(1) by (auto simp: bus_inv_but_def)
    moreover have "nb_subscriptions b' = nb_subscriptions b" using assms(2) by (simp add: bus_progress_def)
    ultimately show ?thesis using sub_progress_inv [OF w(2)] phase_taken_progress [OF assms(2)] by auto
  qed
  then show ?thesis using assms by (auto simp: bus_inv_but_def bus_progress_def)
qed

lemma registering_progress:
  assumes "registering i b" "bus_progress b b'"
  shows "registering i b'"
proof -
  obtain w where w: "nb_heap b i = Some w" "ss_consumer w = NotStarted" "\<not> su_stopping (ss_sub w)"
    using assms(1) by (auto simp: registering_def)
  have "rel_option sub_progress (nb_heap b i) (nb_heap b' i)" using assms(2) by (simp add: bus_progress_def)
  then obtain w' where "nb_heap b' i = Some w'" "sub_progress w w'" using w(1) by (auto simp: option_rel_Some1)
  then have "\<exists>w'. nb_heap b' i = Some w' \<and> ss_consumer w' = NotStarted \<and> \<not> su_stopping (ss_sub w')"
    using w(2,3) by (auto simp: sub_progress_def)
  moreover have "bs_phase b' \<in> {CloseIdle, CloseCancelled}" using assms by (auto simp: registering_def bus_progress_def)
  ultimately show ?thesis using assms bus_progress_inv by (auto simp: registering_def)
qed

lemma stop_requested_stopDone [simp]: "su_stopDone (ss_sub (stop_requested w)) = su_stopDone (ss_sub w)"
  by (simp add: stop_requested_def sub_beginStop_def)

lemma stop_sub_fields [simp]:
  "nb_subscriptions (stop_sub i b) = nb_subscriptions b" "bs_phase (stop_sub i b) = bs_phase b" "nb_ctxErr (stop_sub i b) = nb_ctxErr b"
  by (simp_all add: stop_sub_def)

lemma bus_inv_at:
  "bus_inv_but S b \<Longrightarrow> nb_heap b i = Some w \<Longrightarrow> sub_inv w \<and>
    (su_stopDone (ss_sub w) = 1 \<or> i \<in> set (nb_subscriptions b) \<or> i \<in> set (phase_taken (bs_phase b)) \<or> i \<in> S)"
  by (simp add: bus_inv_but_def)

lemma bus_invI:
  assumes "\<And>i w. nb_heap b i = Some w \<Longrightarrow> sub_inv w \<and>
      (su_stopDone (ss_sub w) = 1 \<or> i \<in> set (nb_subscriptions b) \<or> i \<in> set (phase_taken (bs_phase b)) \<or> i \<in> S)"
    and "bs_phase b \<noteq> CloseIdle \<Longrightarrow> nb_ctxErr b \<noteq> None"
    and "bs_phase b \<notin> {CloseIdle, CloseCancelled} \<Longrightarrow> nb_subscriptions b = []"
  shows "bus_inv_but S b"
  using assms unfolding bus_inv_but_def by simp

lemma bus_inv_frame [simp]:
  "bus_inv_but S (b\<lparr>nb_registrationErr := err\<rparr>) = bus_inv_but S b" "bus_inv_but S (b\<lparr>nb_publishDone := n\<rparr>) = bus_inv_but S b"
  "bus_inv_but S (b\<lparr>nb_closeErr := err\<rparr>) = bus_inv_but S b"
  by (simp_all add: bus_inv_but_def)

lemma bus_inv_phase:
  assumes "bus_inv_but S b"
  shows "bs_phase b \<noteq> CloseIdle \<Longrightarrow> nb_ctxErr b \<noteq> None" "bs_phase b \<notin> {CloseIdle, CloseCancelled} \<Longrightarrow> nb_subscriptions b = []"
  using assms by (simp_all add: bus_inv_but_def)

lemma bus_inv_settle:
  assumes "bus_inv_but {i} b" "sub_stopped b i"
  shows "bus_inv_but {} b"
proof (rule bus_invI)
  fix j w assume "nb_heap b j = Some w"
  moreover from this have "j = i \<Longrightarrow> su_stopDone (ss_sub w) = 1"
    using bus_inv_at [OF assms(1)] stopDone_once assms(2) by (simp add: sub_stopped_def)
  ultimately show "sub_inv w \<and> (su_stopDone (ss_sub w) = 1 \<or> j \<in> set (nb_subscriptions b) \<or> j \<in> set (phase_taken (bs_phase b)) \<or> j \<in> {})"
    using bus_inv_at [OF assms(1)] by blast
qed (fact bus_inv_phase [OF assms(1)])+

lemma bus_inv_put:
  assumes "bus_inv_but S b" "nb_heap b i = Some w" "sub_inv w'" "su_stopDone (ss_sub w) = 1 \<Longrightarrow> su_stopDone (ss_sub w') = 1"
  shows "bus_inv_but S (b\<lparr>nb_heap := (nb_heap b)(i \<mapsto> w')\<rparr>)"
  using bus_inv_at [OF assms(1,2)] assms(1,3,4) unfolding bus_inv_but_def by simp blast

lemma stop_sub_inv: "bus_inv_but S b \<Longrightarrow> bus_inv_but S (stop_sub i b)"
proof (cases "nb_heap b i")
  case (Some w)
  moreover assume "bus_inv_but S b"
  ultimately have "bus_inv_but S (b\<lparr>nb_heap := (nb_heap b)(i \<mapsto> stop_requested w)\<rparr>)"
    by (intro bus_inv_put) (auto dest: bus_inv_at intro: stop_requested_inv)
  then show ?thesis using Some by (simp add: stop_sub_def)
qed (simp add: stop_sub_def fun_upd_idem)

lemma failRegistration_inv:
  assumes "registering i b" "bus_fair env" "failRegistration env i cause b = Some (b', r)"
  shows "bus_inv_but {} b'"
proof -
  obtain b1 where b1: "ne_wait_stopDone env i (stop_sub i b) = Some b1" and b': "\<exists>err. b' = b1\<lparr>nb_registrationErr := err\<rparr>"
    using assms(3) by (auto simp: failRegistration_def Let_def split: option.splits)
  have "bus_progress (stop_sub i b) b1" "sub_stopped b1 i" using b1 assms(2) by (auto simp: bus_fair_def)
  moreover from this(1) have "bus_inv_but {i} b1"
    using assms(1) by (auto simp: registering_def intro: bus_progress_inv stop_sub_inv)
  ultimately have "bus_inv_but {} b1" by (blast intro: bus_inv_settle)
  then show ?thesis using b' by auto
qed

lemma start_sub_fields [simp]:
  "nb_subscriptions (start_sub i b) = nb_subscriptions b" "bs_phase (start_sub i b) = bs_phase b" "nb_ctxErr (start_sub i b) = nb_ctxErr b"
  by (simp_all add: start_sub_def)

lemma start_sub_inv:
  assumes "registering i b"
  shows "bus_inv_but {} (let b = start_sub i b in
    b\<lparr>nb_subscriptions := filter (\<lambda>p. \<not> (sub_stopped b p \<and> sub_stopErr b p = None)) (nb_subscriptions b) @ [i]\<rparr>)"
proof -
  obtain w where w: "nb_heap b i = Some w" "ss_consumer w = NotStarted" "\<not> su_stopping (ss_sub w)" "sub_inv w"
    using assms by (auto simp: registering_def bus_inv_but_def)
  have inv: "bus_inv_but {i} b" using assms by (simp add: registering_def)
  let ?w = "w\<lparr>ss_sub := sub_start (nb_ctxErr b \<noteq> None) (ss_sub w), ss_consumer := Consuming\<rparr>"
  have heap: "nb_heap (start_sub i b) = (nb_heap b)(i \<mapsto> ?w)" using w(1) by (simp add: start_sub_def)
  have "sub_inv ?w" using sub_step_inv [OF s_start [OF w(2,3)] w(4)] .
  moreover have "su_stopDone (ss_sub v) = 1" if "nb_heap b p = Some v" "p \<noteq> i" "sub_stopped (start_sub i b) p" for p v
    using that heap inv stopDone_once by (auto simp: sub_stopped_def dest: bus_inv_at)
  moreover have "sub_inv v \<and> (su_stopDone (ss_sub v) = 1 \<or> p \<in> set (nb_subscriptions b))" if "nb_heap b p = Some v" "p \<noteq> i" for p v
    using bus_inv_at [OF inv that(1)] that(2) assms by (auto simp: registering_def phase_taken_def)
  ultimately have "sub_inv v \<and> (su_stopDone (ss_sub v) = 1 \<or> p = i \<or> p \<in> set (nb_subscriptions b) \<and> \<not> sub_stopped (start_sub i b) p)"
    if "nb_heap (start_sub i b) p = Some v" for p v
    using that by (cases "p = i") (auto simp: heap)
  then show ?thesis using assms bus_inv_phase(1) [OF inv] unfolding Let_def
    by (intro bus_invI) (auto simp: registering_def)
qed

lemma registering_new:
  assumes "bus_inv_but {} b" "bs_phase b \<in> {CloseIdle, CloseCancelled}"
  shows "registering i (b\<lparr>nb_heap := (nb_heap b)(i \<mapsto> sub_system_start topic handler n subscribed cap)\<rparr>)"
proof -
  have "ss_consumer (sub_system_start topic handler n subscribed cap) = NotStarted"
    "\<not> su_stopping (ss_sub (sub_system_start topic handler n subscribed cap))"
    by (auto simp: sub_system_start_def sub_activate_def new_subscription_def split: sum.splits)
  then show ?thesis using assms sub_start_inv by (auto simp: registering_def bus_inv_but_def)
qed

lemma nats_register_inv:
  assumes "bus_inv_but {} b" "bus_fair env" "nats_register env ctx topic handler b = Some (b', r)"
  shows "bus_inv_but {} b'"
proof (cases "nb_ctxErr b = None \<and> nb_registrationErr b = None")
  case False
  then show ?thesis using assms(1,3) by (auto simp: nats_register_def split: option.splits if_splits)
next
  case True
  have fair: "bus_progress c (fst (ne_ctxErr env x c))" "bus_progress c (fst (ne_ChanSubscribe env topic n c))"
    "bus_progress c (fst (ne_Flush env x c))" for c x n using assms(2) by (simp_all add: bus_fair_def)
  have idle: "bs_phase b = CloseIdle" using assms(1) True by (auto simp: bus_inv_but_def)
  obtain b1 err where b1: "ne_ctxErr env ctx b = (b1, err)" by (cases "ne_ctxErr env ctx b")
  have p1: "bus_progress b b1" using fair(1) [of b ctx] b1 by simp
  show ?thesis
  proof (cases err)
    case (Some e)
    then show ?thesis using assms True b1 bus_progress_inv [OF assms(1) p1] by (simp add: nats_register_def)
  next
    case None
    obtain b2 sub where b2: "ne_ChanSubscribe env topic (nb_queueCapacity b1) b1 = (b2, sub)" by (cases "ne_ChanSubscribe env topic (nb_queueCapacity b1) b1")
    have p2: "bus_progress b1 b2" using fair(2) [of b1 "nb_queueCapacity b1"] b2 by simp
    let ?i = "ne_new env b2"
    let ?b3 = "b2\<lparr>nb_heap := (nb_heap b2)(?i \<mapsto> sub_system_start topic handler (nat (nb_maxPayloadBytes b2)) sub (nat (nb_queueCapacity b2)))\<rparr>"
    have "bs_phase b2 \<in> {CloseIdle, CloseCancelled}" using p1 p2 idle by (auto simp: bus_progress_def)
    then have reg: "registering ?i ?b3" using bus_progress_inv bus_progress_inv [OF assms(1) p1] p2 by (intro registering_new) auto
    have flush: "bus_inv_but {} b'" if "sub = Inr n" for n
    proof -
      obtain b4 e4 where b4: "ne_Flush env (WithTimeout (WithCancel ctx) (nb_timeout ?b3)) ?b3 = (b4, e4)" by fastforce
      then have r4: "registering ?i b4" using registering_progress [OF reg fair(3)] by (metis fst_conv)
      obtain b5 e5 where b5: "(if e4 = None then ne_ctxErr env (WithCancel ctx) b4 else (b4, e4)) = (b5, e5)" by fastforce
      then have r5: "registering ?i b5" using r4 registering_progress [OF r4 fair(1) [of b4 "WithCancel ctx"]] by (auto split: if_splits)
      show ?thesis using assms(3) True b1 None b2 b4 b5 that failRegistration_inv [OF r5 assms(2)] start_sub_inv [OF r5]
        by (cases e5) (simp_all add: nats_register_def Let_def)
    qed
    show ?thesis
      using assms(3) True b1 None b2 flush failRegistration_inv [OF reg assms(2)] by (cases sub) (auto simp: nats_register_def Let_def)
  qed
qed

lemma bus_step_inv: "bus_step env b b' \<Longrightarrow> bus_fair env \<Longrightarrow> bus_inv_but {} b \<Longrightarrow> bus_inv_but {} b'"
proof (induction rule: bus_step.induct)
  case (n_sub b i w w')
  then have inv: "sub_inv w" by (blast dest: bus_inv_at)
  show ?case by (rule bus_inv_put [OF n_sub(4,1) sub_step_inv [OF n_sub(2) inv]]) (use stopped_is_quiet(2) [OF inv _ n_sub(2)] in blast)
next
  case (n_register ctx topic handler b b' r)
  then show ?case by (blast intro: nats_register_inv)
next
  case (n_stop b i rest registered)
  then show ?case using stop_sub_inv [OF n_stop(3), of i] by (simp add: bus_inv_but_def phase_taken_def)
next
  case (n_parent b err)
  then show ?case by (intro bus_invI) (auto dest: bus_inv_at bus_inv_phase)
next
  case (n_close b)
  then show ?case by (intro bus_invI) (auto simp: close_begin_def phase_taken_def dest: bus_inv_at)
next
  case (n_take b b' registered)
  then show ?case by (intro bus_invI) (auto simp: close_take_def phase_taken_def dest: bus_inv_at bus_inv_phase(1))
next
  case (n_closed b registered)
  have "sub_inv w \<and> su_stopDone (ss_sub w) = 1" if "nb_heap b i = Some w" for i w
    using bus_inv_at [OF n_closed(5) that] bus_inv_phase(2) [OF n_closed(5)] n_closed(1,3) that stopDone_once
    by (auto simp: sub_stopped_def phase_taken_def)
  then show ?case using n_closed(1) bus_inv_phase [OF n_closed(5)] by (intro bus_invI) auto
qed simp

section \<open>A closed bus is quiet\<close>

lemma bus_reach_inv:
  assumes "(bus_step env)\<^sup>*\<^sup>* b b'" "bus_fair env" "bus_inv_but {} b"
  shows "bus_inv_but {} b'"
  using assms by (induction rule: rtranclp_induct) (auto intro: bus_step_inv)

lemma nats_New_inv: "nats_New cenv defaultURL opts x = (x', Inr (b, watched)) \<Longrightarrow> bus_inv_but {} (bus_start b)"
  by (intro bus_invI)
    (auto simp: nats_New_def bus_start_def Let_def bus.defs bus_system.defs split: option.splits prod.splits sum.splits)

lemma closed_bus_stopped:
  assumes "bus_inv_but {} b" "bs_phase b = CloseReturned" "nb_heap b i = Some w"
  shows "sub_inv w" "su_stopDone (ss_sub w) = 1"
  using bus_inv_at [OF assms(1,3)] bus_inv_phase(2) [OF assms(1)] assms(2) by (auto simp: phase_taken_def)

lemma closed_bus_step:
  assumes "bus_step env b b'" "bus_inv_but {} b" "bs_phase b = CloseReturned"
  shows "bs_phase b' = CloseReturned \<and> (\<forall>i. map_option ss_calls (nb_heap b' i) = map_option ss_calls (nb_heap b i))"
  using assms
proof (induction rule: bus_step.induct)
  case (n_sub b i w w')
  then show ?case using stopped_is_quiet(2) [OF closed_bus_stopped] by simp
next
  case (n_register ctx topic handler b b' r)
  then have "nb_ctxErr b \<noteq> None" by (auto dest: bus_inv_phase(1))
  then show ?case using n_register by (simp add: nats_register_def)
qed simp_all

lemma closed_bus_steps:
  assumes "(bus_step env)\<^sup>*\<^sup>* b b'" "bus_fair env" "bus_inv_but {} b" "bs_phase b = CloseReturned"
  shows "bs_phase b' = CloseReturned \<and> (\<forall>i. map_option ss_calls (nb_heap b' i) = map_option ss_calls (nb_heap b i))"
  using assms
proof (induction rule: rtranclp_induct)
  case (step y z)
  then show ?case using closed_bus_step [OF step(2) bus_reach_inv [OF step(1,4,5)]] by simp
qed simp

text \<open>
  C40. When \<open>Close\<close> of a bus has returned, under any interleaving with registrations, unsubscriptions, deliveries and the
  goroutines of all subscriptions, every subscription the bus ever made has given up its native subscription and runs no
  handler, and from then on no subscription is added and no handler is called.
\<close>

theorem nats_closed_bus_quiet:
  assumes "nats_New cenv defaultURL opts x = (x', Inr (b0, watched))" "bus_fair env" "(bus_step env)\<^sup>*\<^sup>* (bus_start b0) b"
    and "bs_phase b = CloseReturned" "(bus_step env)\<^sup>*\<^sup>* b b'"
  shows "(\<forall>i w. nb_heap b i = Some w \<longrightarrow> su_native (ss_sub w) = None \<and> \<not> HandlerActive (su_stats (ss_sub w))) \<and>
    (\<forall>i. map_option ss_calls (nb_heap b' i) = map_option ss_calls (nb_heap b i))"
proof -
  have inv: "bus_inv_but {} b" using bus_reach_inv [OF assms(3,2) nats_New_inv [OF assms(1)]] .
  then show ?thesis
    using closed_bus_steps [OF assms(5,2) inv assms(4)] stopped_is_quiet(1) [OF closed_bus_stopped [OF inv assms(4)]] by blast
qed

text \<open>An environment in which nothing fails, and a run that registers one subscription and closes the bus.\<close>

definition calm_connect :: "unit nc_env" where
  "calm_connect =
     \<lparr>nce_until = \<lambda>_ _. None, nce_hasDone = \<lambda>_. False, nce_ctxErr = \<lambda>_ x. (x, None), nce_Connect = \<lambda>_ x. (x, Some 7, None),
      nce_select = \<lambda>_ x. (x, None), nce_CloseConn = \<lambda>_ x. x\<rparr>"

definition calm_bus :: "bus_system nb_env" where
  "calm_bus =
     \<lparr>ne_ctxErr = \<lambda>_ b. (b, None), ne_new = \<lambda>b. if nb_heap b 0 = None then 0 else Suc (Max (dom (nb_heap b))),
      ne_offer = \<lambda>_ b. (b, SelGot ()), ne_await = \<lambda>_ b. (b, SelGot None), ne_Publish = \<lambda>_ _ b. (b, None),
      ne_ChanSubscribe = \<lambda>_ _ b. (b, Inr 3), ne_Flush = \<lambda>_ b. (b, None), ne_Lock = \<lambda>b. b, ne_CloseConn = \<lambda>b. b,
      ne_wait_once = Some, ne_wait_deactivated = \<lambda>_. Some, ne_wait_stopDone = \<lambda>i b. if sub_stopped b i then Some b else None,
      ne_wait_publishDone = Some\<rparr>"

definition calm_new :: bus where
  "calm_new =
     \<lparr>nb_ctxErr = None, nb_conn = Some 7, nb_timeout = 5 * second, nb_queueCapacity = 256, nb_maxPayloadBytes = 65536, nb_publishDone = 0,
      nb_subscriptions = [], nb_registrationErr = None, nb_closing = False, nb_closeErr = None, nb_heap = Map.empty\<rparr>"

lemma calm_New: "nats_New calm_connect ''nats://h'' [None] () = ((), Inr (calm_new, False))"
  by (simp add: nats_New_def calm_connect_def calm_new_def nats_validateOptions_def nats_connect_to_def ValidateClient_def second_def)

lemma calm_bus_fair: "bus_fair calm_bus"
proof -
  have "nb_heap b (Suc (Max (dom (nb_heap b)))) = None" if "finite (dom (nb_heap b))" for b :: bus_system
    using Max_ge [OF that, of "Suc (Max (dom (nb_heap b)))"] by (cases "nb_heap b (Suc (Max (dom (nb_heap b))))") (auto simp: dom_def)
  moreover have "\<exists>c. w = w\<lparr>ss_sub := (ss_sub w)\<lparr>su_messages := c\<rparr>\<rparr>" for w :: sub_system
    by (intro exI [of _ "su_messages (ss_sub w)"]) simp
  then have "sub_progress w w" for w unfolding sub_progress_def by simp
  then have "bus_progress b b" for b by (simp add: bus_progress_def option.rel_refl)
  ultimately show ?thesis by (simp add: bus_fair_def calm_bus_def)
qed

lemma bus_sub_steps:
  assumes "sub_step\<^sup>*\<^sup>* w w'" "nb_heap b i = Some w"
  shows "(bus_step env)\<^sup>*\<^sup>* b (b\<lparr>nb_heap := (nb_heap b)(i \<mapsto> w')\<rparr>)"
  using assms(1)
proof (induction rule: rtranclp_induct)
  case base
  then show ?case using assms(2) by (simp add: fun_upd_idem)
next
  case (step y z)
  have "bus_step env (b\<lparr>nb_heap := (nb_heap b)(i \<mapsto> y)\<rparr>) (b\<lparr>nb_heap := (nb_heap b)(i \<mapsto> z)\<rparr>)"
    using n_sub [of "b\<lparr>nb_heap := (nb_heap b)(i \<mapsto> y)\<rparr>" i y z env] step(2) by simp
  with step(3) show ?case by (rule rtranclp.rtrancl_into_rtrancl)
qed

text \<open>A consumer that was asked to stop while it waited for messages ends.\<close>

lemma stopped_consumer_ends:
  assumes "ss_consumer w = Consuming" "su_ctxDone (ss_sub w)" "ss_cleaner w = CleanerReady" "su_stopping (ss_sub w)" "su_deactivated (ss_sub w) = 0"
  shows "\<exists>w'. sub_step\<^sup>*\<^sup>* w w' \<and> su_stopDone (ss_sub w') > 0"
proof -
  obtain s started native where d: "sub_deactivate (Inr 0) (ss_sub w) = (s, started, native)" by (metis prod_cases3)
  have s: "su_deactivated s = 0" using d assms(5) by (auto simp: sub_deactivate_def Let_def)
  let ?a = "w\<lparr>ss_consumer := Finishing\<rparr>"
  let ?b = "?a\<lparr>ss_sub := s, ss_cleaner := CleanerWaits started native\<rparr>"
  let ?c = "?b\<lparr>ss_sub := sub_deactivated started None (ss_sub ?b), ss_cleaner := CleanerEnded\<rparr>"
  let ?d = "?c\<lparr>ss_sub := sub_complete (ss_sub ?c), ss_consumer := ConsumerEnded\<rparr>"
  have "sub_step w ?a" by (rule s_exit) (use assms in auto)
  moreover have "sub_step ?a ?b" by (rule s_deactivate) (use assms d in auto)
  moreover have "sub_step ?b ?c" by (rule s_deactivated) auto
  moreover have "sub_step ?c ?d" by (rule s_complete) (auto simp: sub_deactivated_def sub_complete_def Let_def)
  ultimately have "sub_step\<^sup>*\<^sup>* w ?d" by (meson converse_rtranclp_into_rtranclp rtranclp.rtrancl_refl)
  moreover have "su_stopDone (ss_sub ?d) > 0" by (simp add: sub_complete_def)
  ultimately show ?thesis by blast
qed

lemma calm_run:
  "\<exists>b. (bus_step calm_bus)\<^sup>*\<^sup>* (bus_start calm_new) b \<and> bs_phase b = CloseReturned \<and> nb_heap b 0 \<noteq> None"
proof -
  let ?w = "sub_system_start ''a'' 1 65536 (Inr 3) 256"
  let ?w1 = "?w\<lparr>ss_sub := sub_start False (ss_sub ?w), ss_consumer := Consuming\<rparr>"
  let ?b1 = "(bus_start calm_new)\<lparr>nb_heap := [0 \<mapsto> ?w1], nb_subscriptions := [0]\<rparr>"
  let ?b2 = "(close_begin ?b1)\<lparr>bs_phase := CloseCancelled\<rparr>"
  let ?b3 = "?b2\<lparr>nb_subscriptions := [], bs_phase := CloseStopping [0] [0]\<rparr>"
  let ?b4 = "(stop_sub 0 ?b3)\<lparr>bs_phase := CloseStopping [] [0]\<rparr>"
  note defs = bus_start_def calm_new_def bus.defs bus_system.defs close_begin_def
  have "bus_step calm_bus (bus_start calm_new) ?b1"
    by (rule n_register [of _ Background "''a''" 1 _ _ "(Some 0, None)"]) (simp add: nats_register_def calm_bus_def defs start_sub_def Let_def)
  moreover have "bus_step calm_bus ?b1 ?b2" by (rule n_close) (simp add: defs)
  moreover have "bus_step calm_bus ?b2 ?b3"
    using n_take [of ?b2 "?b2\<lparr>nb_subscriptions := []\<rparr>" "[0]" calm_bus] by (simp add: close_take_def defs)
  moreover have "bus_step calm_bus ?b3 ?b4" using n_stop [of ?b3 0 "[]" "[0]" calm_bus] by simp
  ultimately have r4: "(bus_step calm_bus)\<^sup>*\<^sup>* (bus_start calm_new) ?b4" by (meson converse_rtranclp_into_rtranclp rtranclp.rtrancl_refl)
  let ?w4 = "stop_requested ?w1"
  have "\<exists>w'. sub_step\<^sup>*\<^sup>* ?w4 w' \<and> su_stopDone (ss_sub w') > 0"
    by (rule stopped_consumer_ends)
      (auto simp: stop_requested_def sub_beginStop_def sub_start_def sub_system_start_def sub_activate_def new_subscription_def)
  then obtain w' where w': "sub_step\<^sup>*\<^sup>* ?w4 w'" "su_stopDone (ss_sub w') > 0" by blast
  have heap: "nb_heap ?b4 = [0 \<mapsto> ?w4]" by (simp add: stop_sub_def defs)
  let ?b5 = "?b4\<lparr>nb_heap := [0 \<mapsto> w']\<rparr>"
  have r5: "(bus_step calm_bus)\<^sup>*\<^sup>* ?b4 ?b5" using bus_sub_steps [OF w'(1), of ?b4 0 calm_bus] heap by simp
  let ?b6 = "?b5\<lparr>nb_publishDone := 1\<rparr>"
  have "bus_step calm_bus ?b5 ?b6" by (rule n_publisher_ends) (simp_all add: stop_sub_def defs)
  moreover have "bus_step calm_bus ?b6 (?b6\<lparr>nb_closeErr := errors_join (map (sub_stopErr ?b6) [0]), bs_phase := CloseReturned\<rparr>)"
    by (rule n_closed) (use w'(2) in \<open>simp_all add: sub_stopped_def\<close>)
  ultimately show ?thesis using r4 r5
    by (intro exI [of _ "?b6\<lparr>nb_closeErr := errors_join (map (sub_stopErr ?b6) [0]), bs_phase := CloseReturned\<rparr>"])
      (auto intro: rtranclp.rtrancl_into_rtrancl rtranclp_trans)
qed

theorem nats_closed_bus_quiet_witness:
  "\<exists>b w. (bus_step calm_bus)\<^sup>*\<^sup>* (bus_start calm_new) b \<and> nb_heap b 0 = Some w \<and> su_native (ss_sub w) = None \<and>
    \<not> HandlerActive (su_stats (ss_sub w))"
proof -
  obtain b w where b: "(bus_step calm_bus)\<^sup>*\<^sup>* (bus_start calm_new) b" "bs_phase b = CloseReturned" "nb_heap b 0 = Some w"
    using calm_run by blast
  then show ?thesis using nats_closed_bus_quiet [OF calm_New calm_bus_fair b(1,2) rtranclp.rtrancl_refl] by blast
qed

end
