(* ===== verification/Spec2Isabelle.thy ===== *)
theory Spec2Isabelle
  imports Epoch Admission Gate_Properties Connections Tcp_Client Ws_Client
    Gateway_Lifecycle Node_Lifecycle Sender Registrar Nats_Bus
begin

text \<open>
  Verification of yola, a cluster framework for online games in Go. Clients keep a TCP or WebSocket
  connection to a gateway; a gateway authenticates them, binds each user to its connection in a store
  (Redis) and forwards their requests to nodes; a node owns an epoch lease for its identity, runs the
  handlers of a service and pushes messages back through the gateway a user is bound to. Nodes are found
  through a registry (etcd); services outside of nodes push with a sender and talk over an event bus (NATS).

  \<^bold>\<open>Conventions.\<close> Strings and byte slices are \<open>string\<close>; times and durations are integers of nanoseconds; counters
  that can wrap are words of their width. Errors are values of \<open>goerr\<close>, with \<open>None\<close> for nil; the texts are
  abridged (formatted arguments are left out) and an error that joins joined errors is one list. Contexts
  are terms that record how they were derived. Pointers are addresses with a heap where identity matters.
  A section under a mutex is one step. Code outside of the repository (Redis, etcd, NATS, gRPC, protobuf,
  Kratos) is a parameter: a record of functions on the whole state, so that what other goroutines do during a
  call is part of that call, or an argument with the answer; the same holds for the outcome of a \<open>select\<close>. What
  is relied on is a locale or a hypothesis. Logging is left out. Types of outcomes and operations of the Go
  library and runtime that the model needs have no counterpart of their own in the source; where the model cuts a
  function into parts (the branches of a \<open>select\<close>, the sections between two waits), the parts belong to the function
  that is composed of them.

  \<^bold>\<open>Shared theories.\<close> \<open>Prelude\<close> has errors, contexts, strings and UTF-8; \<open>Channels\<close> has buffered channels and the
  contract of a bounded FIFO, interpreted on channels and on the callback queue; \<open>Json\<close>, \<open>Base64\<close>, \<open>Netaddr\<close>
  and \<open>Proto_Wire\<close> have what is used of the formats, with their round trips.

  \<^bold>\<open>Locations\<close> (\<open>locate\<close>, \<open>locate/redis\<close>, \<open>internal/clusterroute\<close>, \<open>instance\<close>). \<open>Locate\<close> and \<open>Locator_Interfaces\<close> have
  bindings, leases, their validation and the interfaces of the locator; \<open>Redis\<close> states the laws of the store,
  \<open>Redis_Scripts\<close> has the Lua scripts as text and as functions, \<open>Redis_Locator\<close> every operation with each way a round
  trip can end, and \<open>Redis_Properties\<close> the results: the bind script as written is rejected by the server,
  with the block closed a bind is found by a locate, stale owners change nothing, lease times do not wrap, nodes
  are fenced by the stored epoch, and keys do not collide.

  \<^bold>\<open>Nodes\<close> (\<open>node\<close>, \<open>internal/contextwait\<close>). \<open>Admission\<close> counts requests and drains them; \<open>Epoch\<close> has the lease of a
  process with its renewal, and several processes against one store: at most one holds a valid lease. \<open>Node\<close>
  has dispatch, request sessions, pushes and registration of handlers, \<open>Server_Options\<close> the options of nodes
  and gateways, and \<open>Node_Lifecycle\<close> start, serving, stop and cleanup. Handlers run only fenced, and the
  epoch is released only after everything has drained.

  \<^bold>\<open>Gateways\<close> (\<open>gateway\<close>, \<open>internal/gateclient\<close>). \<open>Session\<close> has the sessions and their registry, \<open>Gate_World\<close> all
  goroutines of one gateway against a locator, \<open>Gate_Properties\<close> the coverage of session leases on the Redis locator;
  \<open>Gate_Client\<close> is the pool of connections to gateways; \<open>Backend\<close> discovers nodes and routes requests to them;
  \<open>Gateway\<close> has the inbound handlers, delivery and forwarding, \<open>Broadcast\<close> the broadcaster with its goroutines, and
  \<open>Gateway_Lifecycle\<close> start, serving, stop and shutdown.

  \<^bold>\<open>Transports\<close> (\<open>network\<close>, \<open>api/protocol\<close>, \<open>internal/queue\<close>, \<open>internal/listener\<close>, \<open>internal/grpcendpoint\<close>,
  \<open>internal/tlsconfig\<close>). \<open>Protocol\<close> has the envelope and the invoker; \<open>Tcp_Codec\<close> and \<open>Ws_Codec\<close> the frames; \<open>Endpoint\<close>
  endpoints, TLS checks and listeners; \<open>Conn_Limits\<close> the connection limits as a locale, interpreted by
  \<open>Tcp_Server\<close> and \<open>Ws_Server\<close>; \<open>Tcp_Channel\<close> the send queue of a TCP connection, in which the frame of a close is the
  last one; \<open>Dispatcher\<close> the authentication barrier and the queue of requests, in order and silent after a stop;
  \<open>Queue\<close>, \<open>Heartbeat\<close> and \<open>Tracker\<close> the callback queue, the heartbeat word and the pending requests of clients.
  \<open>Ws_Channel\<close> is the send queue, the writer and the closing of a WebSocket connection, with the same order of the last
  frame and an exact count of pending bytes. \<open>Connections\<close> is a connection as the handlers of a server see it: the
  read loop over channel and dispatcher leaves nothing running behind. \<open>Tcp_Client\<close> and \<open>Ws_Client\<close> have the
  options, connecting with authentication, requests, loops and shutdown of the clients: making a client always
  returns, no client is given up for want of room for its first callbacks, and a shutdown of the TCP client
  leaves no request waiting.

  \<^bold>\<open>Services\<close> (\<open>push\<close>, \<open>registry/etcd\<close>, \<open>event\<close>). \<open>Sender\<close> pushes to the gateway a user is bound to and refuses after
  its close; \<open>Registrar\<close> registers one instance under a lease, which a failed registration gives back or
  reports; \<open>Subscription\<close> has topics and one subscription with its goroutines: no channel is closed twice, no
  handler is called after the end, and a stop can always go on. \<open>Nats_Bus\<close> connects, publishes, registers and closes
  on top of it: a publish that got nil reached the connection, once; after a close has returned no
  subscription of the bus lives and none is added. Waits that a handler can keep from ending, such as those of
  \<open>Close\<close>, answer \<open>None\<close> if they do not end; the result on \<open>Close\<close> is about the runs in which it returned.

  \<^bold>\<open>Bounds.\<close> Loops of the source are total functions with a measure, or step relations without a bound on the
  number of steps. Where a loop waits for its environment, the list of what the environment answers is an
  argument, of any length.

  \<^bold>\<open>Not modelled.\<close> Generated code (\<open>api/cluster/v1\<close>; of \<open>api/protocol/v1\<close> only the message type) is a parameter. The
  programs under \<open>examples\<close> only wire flags and a console to the framework. Sockets, TLS handshakes, HTTP and gRPC
  servers, and the scheduling of goroutines between the steps above are the environment. Of the discovery of
  nodes, starting the watch and registering with gRPC are left out; of the WebSocket server, the goroutine
  that waits for its connections. Functions that only choose what is logged are left out.
\<close>

end
